(* ===== verification/Host_Types.thy ===== *)
theory Host_Types
  imports Prelude
begin

text \<open>
  The value types that cross the host boundary: the operation a gate is asked about
  (\<open>cpn/host.go\<close>), the gate's risk bands, verdicts and decisions (\<open>infra/host/gate/types.go\<close>), and
  the request and result of \<open>HostAdapter.Exec\<close>. They hold no behaviour; the error values of
  theory \<open>Go_Errors\<close> carry a decision, which is why they come first.

  \<open>time.Duration\<close> values are integers of nanoseconds. Go's \<open>int\<close> and \<open>int64\<close> fields are \<open>int\<close>, with
  the wrap-around written where an operation adds them.
\<close>

datatype sandbox_profile = SandboxNone | SandboxReadonly | SandboxFSJail | SandboxNetworkOff
  | SandboxOther string

text \<open>The string behind the constant; the zero value \<open>""\<close> is \<open>SandboxOther ''''\<close>.\<close>

fun sandbox_str :: "sandbox_profile \<Rightarrow> string" where
  "sandbox_str SandboxNone = ''none''"
| "sandbox_str SandboxReadonly = ''readonly''"
| "sandbox_str SandboxFSJail = ''fsjail''"
| "sandbox_str SandboxNetworkOff = ''network-off''"
| "sandbox_str (SandboxOther s) = s"

text \<open>The conversion \<open>cpn.SandboxProfile (s)\<close>.\<close>

definition sandbox_of :: "string \<Rightarrow> sandbox_profile" where
  "sandbox_of s =
     (if s = ''none'' then SandboxNone else if s = ''readonly'' then SandboxReadonly
      else if s = ''fsjail'' then SandboxFSJail
      else if s = ''network-off'' then SandboxNetworkOff else SandboxOther s)"

record gate_op =
  op_Kind :: string
  op_Command :: string
  op_Path :: string
  op_Sandbox :: sandbox_profile
  op_SessionID :: string

record exec_request =
  xr_Command :: string
  xr_Args :: "string list"
  xr_Stdin :: string
  xr_Env :: "string list"
  xr_Cwd :: string
  xr_Timeout :: int
  xr_Sandbox :: sandbox_profile
  xr_AllowNonZero :: bool

record exec_result =
  xs_ExitCode :: int
  xs_Stdout :: string
  xs_Stderr :: string
  xs_DurationMs :: int
  xs_Truncated :: bool

datatype risk_band = RiskSafe | RiskCaution | RiskDangerous | RiskForbidden | RiskUnknown

fun risk_str :: "risk_band \<Rightarrow> string" where
  "risk_str RiskSafe = ''safe''"
| "risk_str RiskCaution = ''caution''"
| "risk_str RiskDangerous = ''dangerous''"
| "risk_str RiskForbidden = ''forbidden''"
| "risk_str RiskUnknown = ''unknown''"

datatype verdict = VerdictAllow | VerdictDeny | VerdictRequireHITL

fun verdict_str :: "verdict \<Rightarrow> string" where
  "verdict_str VerdictAllow = ''allow''"
| "verdict_str VerdictDeny = ''deny''"
| "verdict_str VerdictRequireHITL = ''require-hitl''"

record budget_estimate =
  be_CPUSeconds :: int
  be_BytesWritten :: int
  be_OutboundRequests :: int

record host_approval_prompt =
  hp_Schema :: string
  hp_Operation :: string
  hp_Command :: string
  hp_RiskBand :: risk_band
  hp_Rationale :: string
  hp_Alternatives :: "string list"

record decision =
  dc_Verdict :: verdict
  dc_RiskBand :: risk_band
  dc_Reason :: string
  dc_Sandbox :: sandbox_profile
  dc_Budget :: budget_estimate
  dc_Prompt :: "host_approval_prompt option"
  dc_FirstRun :: bool
  dc_SessionID :: string

text \<open>
  The order the classifier gives the bands: \<open>Classify\<close> tries the forbidden patterns first, then the
  dangerous, caution and safe ones, and unknown is what is left.
\<close>

fun band_rank :: "risk_band \<Rightarrow> nat" where
  "band_rank RiskForbidden = 4"
| "band_rank RiskDangerous = 3"
| "band_rank RiskCaution = 2"
| "band_rank RiskSafe = 1"
| "band_rank RiskUnknown = 0"

lemma band_rank_inj: "band_rank a = band_rank b \<Longrightarrow> a = b"
  by (cases a; cases b) simp_all

instantiation risk_band :: linorder
begin

definition less_eq_risk_band :: "risk_band \<Rightarrow> risk_band \<Rightarrow> bool" where
  "less_eq_risk_band a b \<longleftrightarrow> band_rank a \<le> band_rank b"

definition less_risk_band :: "risk_band \<Rightarrow> risk_band \<Rightarrow> bool" where
  "less_risk_band a b \<longleftrightarrow> band_rank a < band_rank b"

instance
  by standard (auto simp: less_eq_risk_band_def less_risk_band_def intro: band_rank_inj)

end

lemma RiskForbidden_top [simp]: "b \<le> RiskForbidden"
  by (cases b) (simp_all add: less_eq_risk_band_def)

lemma RiskUnknown_bot [simp]: "RiskUnknown \<le> b"
  by (cases b) (simp_all add: less_eq_risk_band_def)

end
