(* ===== verification/Go_Errors.thy ===== *)
theory Go_Errors
  imports Host_Types
begin

text \<open>
  Error values. The sentinels of \<open>cpn/errors.go\<close> are the constructors of \<open>sentinel\<close> and their texts
  are \<open>sentinel_msg\<close>. \<open>gerr\<close> is the Go interface \<open>error\<close> over the error types the modelled code
  builds: a sentinel, \<open>errors.New\<close>/\<open>fmt.Errorf\<close> without \<open>%w\<close> (\<open>Plain\<close>), \<open>fmt.Errorf\<close> with one
  \<open>%w\<close> (\<open>Wrap prefix e suffix\<close>), \<open>*ValidationErrors\<close> (\<open>Multi\<close>), \<open>*HostError\<close>, the two errors of a
  finished context, and the gate's \<open>*ErrRequiresHITL\<close>. \<open>err_text\<close> is \<open>Error()\<close>, \<open>err_is\<close> is
  \<open>errors.Is\<close> against a sentinel.
\<close>

datatype (plugins del: quickcheck_random quickcheck_exhaustive quickcheck_bounded_forall quickcheck_full_exhaustive quickcheck_narrowing) sentinel =
    ErrColorMismatch | ErrEmptyPlace | ErrInvalidArc | ErrDeadlock | ErrTimeout
  | ErrSpaceMismatch | ErrSpaceViolation | ErrSubNetFailed | ErrNoHITLWaiting
  | ErrInvalidNodeKind | ErrCentaurianGuard
  | ErrValidationFailed | ErrCircuitOpen | ErrRateLimited | ErrProviderUnavailable
  | ErrBudgetExceeded | ErrHITLRejected | ErrHITLMisconfigured | ErrHITLMaxRevisions
  | ErrBadRequest | ErrUnauthorized | ErrInsufficientCredits | ErrForbidden | ErrNotFound
  | ErrRequestTimeout | ErrPayloadTooLarge | ErrUnprocessableEntity | ErrEdgeTimeout
  | ErrProviderOverloaded
  | ErrToolCallLoopExceeded | ErrDisallowedTool
  | ErrSessionClosed | ErrHITLAlreadyRegistered
  | ErrEticaViolation | ErrInvalidHierarchy | ErrEticaCannotBeLast
  | ErrUnsafePrimitive | ErrTopologyTooLarge | ErrUnresolvedArc | ErrNoTerminal
  | ErrDisallowedKind | ErrTopologyParseFailed | ErrTopologyRejected | ErrDeprecatedDependency
  | ErrSpaceIsolationViolated | ErrNoMaterialiser
  | ErrMutationNotPermitted | ErrChildrenCompleted

primrec sentinel_msg :: "sentinel \<Rightarrow> string" where
  "sentinel_msg ErrColorMismatch = ''token color does not match place color set''"
| "sentinel_msg ErrEmptyPlace = ''place has no tokens to consume''"
| "sentinel_msg ErrInvalidArc = ''arc references non-existent place or transition''"
| "sentinel_msg ErrDeadlock = ''no enabled transitions and no terminal marking''"
| "sentinel_msg ErrTimeout = ''transition execution exceeded timeout''"
| "sentinel_msg ErrSpaceMismatch = ''arc crosses incompatible communication spaces''"
| "sentinel_msg ErrSpaceViolation = ''token space does not match place space''"
| "sentinel_msg ErrSubNetFailed = ''child CPN terminated with error''"
| "sentinel_msg ErrNoHITLWaiting = ''no HITL transition waiting for input''"
| "sentinel_msg ErrInvalidNodeKind = ''unrecognized transition node kind''"
| "sentinel_msg ErrCentaurianGuard = ''centaurian mode requires human approval token''"
| "sentinel_msg ErrValidationFailed = ''token failed schema validation after max corrections''"
| "sentinel_msg ErrCircuitOpen = ''circuit breaker is open''"
| "sentinel_msg ErrRateLimited = ''request exceeds rate limit''"
| "sentinel_msg ErrProviderUnavailable = ''no LLM provider available after retries''"
| "sentinel_msg ErrBudgetExceeded = ''token or cost budget exceeded''"
| "sentinel_msg ErrHITLRejected = ''human rejected proposed action''"
| "sentinel_msg ErrHITLMisconfigured = ''HITL transition misconfigured''"
| "sentinel_msg ErrHITLMaxRevisions = ''HITL revision loop exceeded max iterations''"
| "sentinel_msg ErrBadRequest = ''OpenRouter 400: invalid request parameters''"
| "sentinel_msg ErrUnauthorized = ''OpenRouter 401: invalid API key''"
| "sentinel_msg ErrInsufficientCredits = ''OpenRouter 402: insufficient credits''"
| "sentinel_msg ErrForbidden = ''OpenRouter 403: forbidden''"
| "sentinel_msg ErrNotFound = ''OpenRouter 404: model or endpoint not found''"
| "sentinel_msg ErrRequestTimeout = ''OpenRouter 408: request timeout''"
| "sentinel_msg ErrPayloadTooLarge = ''OpenRouter 413: payload too large''"
| "sentinel_msg ErrUnprocessableEntity = ''OpenRouter 422: unprocessable entity''"
| "sentinel_msg ErrEdgeTimeout = ''OpenRouter 524: edge timeout''"
| "sentinel_msg ErrProviderOverloaded = ''OpenRouter 529: provider overloaded''"
| "sentinel_msg ErrToolCallLoopExceeded = ''tool call loop exceeded max iterations''"
| "sentinel_msg ErrDisallowedTool = ''LLM requested disallowed tool''"
| "sentinel_msg ErrSessionClosed = ''session is closed''"
| "sentinel_msg ErrHITLAlreadyRegistered = ''HITL channel already registered for transition''"
| "sentinel_msg ErrEticaViolation = ''modification violates base ethics constraints''"
| "sentinel_msg ErrInvalidHierarchy = ''invalid principle hierarchy''"
| "sentinel_msg ErrEticaCannotBeLast = ''etica principle cannot be lowest priority''"
| "sentinel_msg ErrUnsafePrimitive = ''topology references unsafe primitive''"
| "sentinel_msg ErrTopologyTooLarge = ''topology exceeds size cap''"
| "sentinel_msg ErrUnresolvedArc = ''topology arc references unknown place''"
| "sentinel_msg ErrNoTerminal = ''topology has no terminal place''"
| "sentinel_msg ErrDisallowedKind = ''topology declares disallowed NodeKind''"
| "sentinel_msg ErrTopologyParseFailed = ''topology parse failed''"
| "sentinel_msg ErrTopologyRejected = ''topology rejected by admin''"
| "sentinel_msg ErrDeprecatedDependency = ''topology references deprecated dependency''"
| "sentinel_msg ErrSpaceIsolationViolated = ''topology violates space isolation''"
| "sentinel_msg ErrNoMaterialiser = ''topology materialiser not wired''"
| "sentinel_msg ErrMutationNotPermitted =
     ''topology mutation not permitted: set MutableAfterStart=true''"
| "sentinel_msg ErrChildrenCompleted = ''children completed, re-evaluate''"

datatype ctx_err = Canceled | DeadlineExceeded

fun ctx_err_msg :: "ctx_err \<Rightarrow> string" where
  "ctx_err_msg Canceled = ''context canceled''"
| "ctx_err_msg DeadlineExceeded = ''context deadline exceeded''"

datatype gerr =
    Sentinel sentinel
  | CtxErr ctx_err
  | Plain string
  | Wrap string gerr string
  | Multi "gerr list"
  | HostErr string string "gerr option"
  | RequiresHITL decision

fun err_text :: "gerr \<Rightarrow> string" where
  "err_text (Sentinel s) = sentinel_msg s"
| "err_text (CtxErr c) = ctx_err_msg c"
| "err_text (Plain s) = s"
| "err_text (Wrap pre e post) = pre @ err_text e @ post"
| "err_text (Multi es) =
     ''validation failed ('' @ fmt_d (int (length es)) @ '' errors):'' @
     concat (map (\<lambda>e. CHR 0x0A # ''  - '' @ err_text e) es)"
| "err_text (HostErr code msg cause) =
     (if msg = [] then code
      else case cause of
        None \<Rightarrow> code @ '': '' @ msg
      | Some e \<Rightarrow> code @ '': '' @ msg @ '': '' @ err_text e)"
| "err_text (RequiresHITL d) =
     ''host gate requires HITL: '' @ verdict_str (dc_Verdict d) @ '' (band='' @
     risk_str (dc_RiskBand d) @ '', reason='' @ dc_Reason d @ '')''"

fun err_is :: "gerr \<Rightarrow> sentinel \<Rightarrow> bool" where
  "err_is (Sentinel s) t = (s = t)"
| "err_is (CtxErr c) t = False"
| "err_is (Plain s) t = False"
| "err_is (Wrap pre e post) t = err_is e t"
| "err_is (Multi es) t = list_ex (\<lambda>e. err_is e t) es"
| "err_is (HostErr code msg cause) t = (case cause of None \<Rightarrow> False | Some e \<Rightarrow> err_is e t)"
| "err_is (RequiresHITL d) t = False"

text \<open>\<open>errors.Is\<close> against the two context errors.\<close>

fun err_is_ctx :: "gerr \<Rightarrow> ctx_err \<Rightarrow> bool" where
  "err_is_ctx (Sentinel s) c = False"
| "err_is_ctx (CtxErr d) c = (d = c)"
| "err_is_ctx (Plain s) c = False"
| "err_is_ctx (Wrap pre e post) c = err_is_ctx e c"
| "err_is_ctx (Multi es) c = list_ex (\<lambda>e. err_is_ctx e c) es"
| "err_is_ctx (HostErr code msg cause) c = (case cause of None \<Rightarrow> False | Some e \<Rightarrow> err_is_ctx e c)"
| "err_is_ctx (RequiresHITL d) c = False"

text \<open>
  \<open>errors.Is\<close> against a \<open>*HostError\<close> with a given code: \<open>HostError.Is\<close> compares the codes only.
\<close>

fun err_is_host :: "gerr \<Rightarrow> string \<Rightarrow> bool" where
  "err_is_host (Sentinel s) k = False"
| "err_is_host (CtxErr c) k = False"
| "err_is_host (Plain s) k = False"
| "err_is_host (Wrap pre e post) k = err_is_host e k"
| "err_is_host (Multi es) k = list_ex (\<lambda>e. err_is_host e k) es"
| "err_is_host (HostErr code msg cause) k =
     (code = k \<or> (case cause of None \<Rightarrow> False | Some e \<Rightarrow> err_is_host e k))"
| "err_is_host (RequiresHITL d) k = False"

text \<open>
  \<open>errors.As\<close> for \<open>*ErrRequiresHITL\<close> along the \<open>Unwrap\<close> chain, the core of \<open>gate.IsRequiresHITL\<close>.
\<close>

fun as_requires_hitl :: "gerr \<Rightarrow> decision option" where
  "as_requires_hitl (RequiresHITL d) = Some d"
| "as_requires_hitl (Wrap pre e post) = as_requires_hitl e"
| "as_requires_hitl (Multi es) =
     (case List.map_filter id (map as_requires_hitl es) of [] \<Rightarrow> None | d # _ \<Rightarrow> Some d)"
| "as_requires_hitl (HostErr code msg cause) =
     (case cause of None \<Rightarrow> None | Some e \<Rightarrow> as_requires_hitl e)"
| "as_requires_hitl e = None"

definition IsRequiresHITL :: "gerr option \<Rightarrow> decision option" where
  "IsRequiresHITL err = (case err of None \<Rightarrow> None | Some e \<Rightarrow> as_requires_hitl e)"

text \<open>The host error codes and the gate's terminal denial.\<close>

definition HostErrCodeGateDenied :: string where "HostErrCodeGateDenied = ''gate_denied''"
definition HostErrCodeTimeout :: string where "HostErrCodeTimeout = ''timeout''"
definition HostErrCodeNonZeroExit :: string where "HostErrCodeNonZeroExit = ''non_zero_exit''"

definition ErrGateDenied :: gerr where
  "ErrGateDenied = HostErr HostErrCodeGateDenied ''operation denied by host gate'' None"

definition NewHostError :: "string \<Rightarrow> string \<Rightarrow> gerr option \<Rightarrow> gerr" where
  "NewHostError code msg cause = HostErr code msg cause"

end
