(* ===== verification/Synthesis_Types.thy ===== *)
theory Synthesis_Types
  imports Go_Errors
begin

text \<open>
  The types of the tool-registration and synthesis transitions: \<open>cpn/tool_registry_port.go\<close>,
  \<open>cpn/synthesis_config.go\<close> and \<open>cpn/synthesis_ports.go\<close>. A port is a record of its operations on the
  world; \<open>RegisteredAt\<close>, a wall-clock time, is left out.
\<close>

section \<open>Tool manifests\<close>

record provenance =
  pn_AuthoringCPNID :: string
  pn_FlowHash :: string
  pn_ForgeRunID :: string
  pn_PromptDigest :: string
  pn_SourcePath :: string
  pn_SourceSHA256 :: string

record tool_manifest =
  tn_Namespace :: string
  tn_Name :: string
  tn_Version :: string
  tn_Schema :: string
  tn_HelpText :: string
  tn_ManPage :: string
  tn_BinaryPath :: string
  tn_BinarySHA256 :: string
  tn_Origin :: string
  tn_Provenance :: provenance
  tn_RegisteredBy :: string

record register_tool_config =
  rc_Namespace :: string
  rc_Name :: string
  rc_Version :: string
  rc_Schema :: string
  rc_HelpText :: string
  rc_ManPage :: string
  rc_BinaryPath :: string
  rc_BinarySHA256 :: string
  rc_Origin :: string
  rc_Provenance :: provenance
  rc_RegisteredBy :: string

record manifest_result =
  mr_QualifiedName :: string
  mr_ID :: string
  mr_RegisteredAt :: int

definition ToManifest :: "register_tool_config \<Rightarrow> tool_manifest" where
  "ToManifest c = \<lparr>tn_Namespace = rc_Namespace c, tn_Name = rc_Name c, tn_Version = rc_Version c,
     tn_Schema = rc_Schema c, tn_HelpText = rc_HelpText c, tn_ManPage = rc_ManPage c,
     tn_BinaryPath = rc_BinaryPath c, tn_BinarySHA256 = rc_BinarySHA256 c, tn_Origin = rc_Origin c,
     tn_Provenance = rc_Provenance c, tn_RegisteredBy = rc_RegisteredBy c\<rparr>"

section \<open>Synthesis and instantiation\<close>

record size_cap =
  sz_MaxPlaces :: int
  sz_MaxTransitions :: int
  sz_MaxArcs :: int

definition DefaultSizeCap :: size_cap where
  "DefaultSizeCap = \<lparr>sz_MaxPlaces = 50, sz_MaxTransitions = 50, sz_MaxArcs = 200\<rparr>"

definition Resolved :: "size_cap \<Rightarrow> size_cap" where
  "Resolved s = \<lparr>sz_MaxPlaces = (if sz_MaxPlaces s \<le> 0 then sz_MaxPlaces DefaultSizeCap else sz_MaxPlaces s),
     sz_MaxTransitions = (if sz_MaxTransitions s \<le> 0 then sz_MaxTransitions DefaultSizeCap else sz_MaxTransitions s),
     sz_MaxArcs = (if sz_MaxArcs s \<le> 0 then sz_MaxArcs DefaultSizeCap else sz_MaxArcs s)\<rparr>"

record synthesize_config =
  sy_Model :: string
  sy_SystemPrompt :: string
  sy_MaxTokens :: int
  sy_Temperature :: real
  sy_TaskPlaceholder :: string
  sy_SizeCap :: size_cap
  sy_MaxCorrections :: int
  sy_Summary :: string

record instantiate_config =
  in_InputMapping :: "(string \<times> string) list"
  in_OutputMapping :: "(string \<times> string) list"
  in_Timeout :: int
  in_SkipHITL :: bool

record flow_ref =
  fl_FlowID :: string
  fl_Summary :: string

record topology_summary =
  ts_FlowID :: string
  ts_Name :: string
  ts_Summary :: string
  ts_SizePlaces :: int
  ts_SizeTransitions :: int
  ts_ReferencedPrimitives :: "string list"

record flow_provenance =
  fw_AuthoredByCPNID :: string
  fw_AuthoredFromPromptHash :: string
  fw_SessionID :: string

record flow_record =
  fd_FlowID :: string
  fd_TopologyJSON :: string
  fd_Summary :: string
  fd_Rejected :: bool
  fd_RejectedReason :: string
  fd_SafeLintPassed :: bool
  fd_SizePlaces :: int
  fd_SizeTransitions :: int
  fd_Provenance :: flow_provenance

text \<open>\<open>AuthoredFlowRepository\<close>: the two operations the transitions call.\<close>

record 'w flow_repository =
  fy_SaveAuthored :: "'w \<Rightarrow> string \<Rightarrow> string \<Rightarrow> int \<Rightarrow> int \<Rightarrow> string list \<Rightarrow> flow_provenance \<Rightarrow>
     (gerr + string \<times> bool) \<times> 'w"
  fy_GetByID :: "'w \<Rightarrow> string \<Rightarrow> (gerr + flow_record) \<times> 'w"

record safe_port =
  sf_Lookup :: "string \<Rightarrow> string option"
  sf_Catalogue :: string
  sf_Names :: "string list"

text \<open>\<open>TopologyDigest\<close>, and the registries and routers a net may hold.\<close>

record topology_digest =
  dg_Name :: string
  dg_Role :: string
  dg_SizePlaces :: int
  dg_SizeTransitions :: int
  dg_ReferencedPrimitives :: "string list"

type_synonym 'w tool_registrar = "'w \<Rightarrow> tool_manifest \<Rightarrow> (gerr + manifest_result) \<times> 'w"

type_synonym 'w first_run_ledger = "'w \<Rightarrow> string \<Rightarrow> string \<Rightarrow> gerr option \<times> 'w"

type_synonym 'w topology_router = "'w \<Rightarrow> topology_summary \<Rightarrow> (gerr + bool) \<times> 'w"

end
