(* ===== verification/Tokens.thy ===== *)
theory Tokens
  imports Synthesis_Types
begin

text \<open>
  Tokens and the values they carry: \<open>cpn/colors.go\<close>, \<open>cpn/kinds.go\<close>, \<open>cpn/mode.go\<close>,
  \<open>cpn/space.go\<close>, \<open>cpn/token.go\<close>, the conversation types of \<open>cpn/session.go\<close> and the labels of
  \<open>cpn/display_label.go\<close>.

  The Go types \<open>ColorSet\<close>, \<open>NodeKind\<close>, \<open>SpaceKind\<close>, \<open>Mode\<close> are strings with named constants; each
  constant is a constructor and any other string is the last constructor. A payload of type
  \<open>any\<close> is one of the concrete types the modelled code stores or switches on; the remaining
  types are \<open>POther\<close> with their JSON text. Fields that hold a wall-clock time are left out: nothing
  in the modelled code reads them.
\<close>

section \<open>Colours, kinds, modes, spaces\<close>

datatype color =
    ColorString | ColorJSON | ColorArtifact | ColorScore | ColorEvent | ColorHuman | ColorCPN
  | ColorSchema | ColorError | ColorIdentity | ColorToolManifest | ColorShellCmd
  | ColorShellChunk | ColorShellResult | ColorHostFact | ColorProcess | ColorTopology
  | ColorFlowRef | ColorOther string

fun color_str :: "color \<Rightarrow> string" where
  "color_str ColorString = ''STRING''"
| "color_str ColorJSON = ''JSON''"
| "color_str ColorArtifact = ''ARTIFACT''"
| "color_str ColorScore = ''SCORE''"
| "color_str ColorEvent = ''EVENT''"
| "color_str ColorHuman = ''HUMAN''"
| "color_str ColorCPN = ''CPN''"
| "color_str ColorSchema = ''SCHEMA''"
| "color_str ColorError = ''ERROR''"
| "color_str ColorIdentity = ''IDENTITY''"
| "color_str ColorToolManifest = ''TOOL_MANIFEST''"
| "color_str ColorShellCmd = ''SHELL_CMD''"
| "color_str ColorShellChunk = ''SHELL_CHUNK''"
| "color_str ColorShellResult = ''SHELL_RESULT''"
| "color_str ColorHostFact = ''HOST_FACT''"
| "color_str ColorProcess = ''PROCESS''"
| "color_str ColorTopology = ''TOPOLOGY''"
| "color_str ColorFlowRef = ''FLOW_REF''"
| "color_str (ColorOther s) = s"

fun IsShellColor :: "color \<Rightarrow> bool" where
  "IsShellColor ColorShellCmd = True"
| "IsShellColor ColorShellChunk = True"
| "IsShellColor ColorShellResult = True"
| "IsShellColor ColorHostFact = True"
| "IsShellColor ColorProcess = True"
| "IsShellColor _ = False"

datatype node_kind =
    NodeKindTool | NodeKindLLM | NodeKindValidate | NodeKindSubNet | NodeKindObserver
  | NodeKindHITL | NodeKindBash | NodeKindRegisterTool | NodeKindSynthesize
  | NodeKindInstantiate | NodeKindTopologyMutate | NodeKindOther string

fun kind_str :: "node_kind \<Rightarrow> string" where
  "kind_str NodeKindTool = ''tool''"
| "kind_str NodeKindLLM = ''llm''"
| "kind_str NodeKindValidate = ''validate''"
| "kind_str NodeKindSubNet = ''subnet''"
| "kind_str NodeKindObserver = ''observer''"
| "kind_str NodeKindHITL = ''hitl''"
| "kind_str NodeKindBash = ''bash''"
| "kind_str NodeKindRegisterTool = ''register_tool''"
| "kind_str NodeKindSynthesize = ''synthesize''"
| "kind_str NodeKindInstantiate = ''instantiate''"
| "kind_str NodeKindTopologyMutate = ''topology_mutate''"
| "kind_str (NodeKindOther s) = s"

datatype mode = ModeMAS | ModeCentaurian | ModeOther string

datatype cpn_state = StateIdle | StateRunning | StateWaiting | StateCompleted | StateFailed

datatype space = SpaceSurface | SpaceObservation | SpaceComputation | SpaceOther string

fun space_str :: "space \<Rightarrow> string" where
  "space_str SpaceSurface = ''surface''"
| "space_str SpaceObservation = ''observation''"
| "space_str SpaceComputation = ''computation''"
| "space_str (SpaceOther s) = s"

abbreviation space_empty :: space where
  "space_empty \<equiv> SpaceOther []"

section \<open>Payloads and tokens\<close>

datatype hitl_action = HITLApprove | HITLReject | HITLRevise | HITLSubmit | HITLOther string

fun action_str :: "hitl_action \<Rightarrow> string" where
  "action_str HITLApprove = ''approve''"
| "action_str HITLReject = ''reject''"
| "action_str HITLRevise = ''revise''"
| "action_str HITLSubmit = ''submit''"
| "action_str (HITLOther s) = s"

record hitl_response =
  hr_Action :: hitl_action
  hr_Content :: string

record process_payload =
  pp_PID :: int
  pp_SessionID :: string
  pp_Line :: string
  pp_ExitCode :: int
  pp_Err :: string

datatype payload =
    PNil
  | PString string
  | PBytes string
  | PResponse hitl_response
  | PShellResult exec_result
  | PProcess process_payload
  | PErrorMap string payload
  | PObject "(string \<times> payload) list"
  | PRaw string
  | PFlowRef flow_ref
  | PFlowRefPtr "flow_ref option"
  | PManifest tool_manifest
  | PManifestPtr "tool_manifest option"
  | PRegister register_tool_config
  | PRegisterPtr "register_tool_config option"
  | PManifestResult manifest_result
  | PMutationResult "(string \<times> string) list"
  | POther string

record token =
  tok_Color :: color
  tok_Payload :: payload
  tok_OriginID :: string
  tok_OriginDepth :: int
  tok_OriginKind :: node_kind
  tok_Space :: space
  tok_SessionID :: string
  tok_TraceID :: string

record token_snapshot =
  sn_Color :: string
  sn_PayloadPreview :: string
  sn_Space :: string
  sn_OriginID :: string
  sn_OriginKind :: string

definition maxPayloadPreviewLen :: nat where
  "maxPayloadPreviewLen = 500"

text \<open>
  \<open>render\<close> stands for what \<open>encoding/json\<close> (or, when it fails, \<open>%v\<close>) prints for a value that is
  neither \<open>nil\<close>, a string nor a byte slice.
\<close>

definition formatPayloadPreview :: "(payload \<Rightarrow> string) \<Rightarrow> payload \<Rightarrow> string" where
  "formatPayloadPreview render p =
     (if p = PNil then []
      else (let s = (case p of PString v \<Rightarrow> v | PBytes v \<Rightarrow> v | _ \<Rightarrow> render p)
            in if length s > maxPayloadPreviewLen
               then take maxPayloadPreviewLen s @ ''...'' else s))"

definition Snapshot :: "(payload \<Rightarrow> string) \<Rightarrow> token option \<Rightarrow> token_snapshot" where
  "Snapshot render mt = (case mt of
     None \<Rightarrow> \<lparr>sn_Color = [], sn_PayloadPreview = [], sn_Space = [], sn_OriginID = [],
               sn_OriginKind = []\<rparr>
   | Some t \<Rightarrow> \<lparr>sn_Color = color_str (tok_Color t),
                 sn_PayloadPreview = formatPayloadPreview render (tok_Payload t),
                 sn_Space = space_str (tok_Space t),
                 sn_OriginID = tok_OriginID t,
                 sn_OriginKind = kind_str (tok_OriginKind t)\<rparr>)"

definition IsHumanOrigin :: "token \<Rightarrow> bool" where
  "IsHumanOrigin t \<longleftrightarrow> tok_Color t = ColorHuman \<or> tok_OriginKind t = NodeKindHITL"

lemma formatPayloadPreview_bound: "length (formatPayloadPreview render p) \<le> 503"
  by (simp add: formatPayloadPreview_def Let_def maxPayloadPreviewLen_def)

text \<open>
  The loop of \<open>centaurianGuard\<close>, with its two flags as the state.
\<close>

fun centaurian_scan :: "bool \<Rightarrow> bool \<Rightarrow> token list \<Rightarrow> bool" where
  "centaurian_scan hasHuman hasAI [] = False"
| "centaurian_scan hasHuman hasAI (t # ts) =
     (let h = (hasHuman \<or> IsHumanOrigin t);
          a = (hasAI \<or> \<not> IsHumanOrigin t)
      in if h \<and> a then True else centaurian_scan h a ts)"

definition centaurianGuard :: "token list \<Rightarrow> bool" where
  "centaurianGuard ts = centaurian_scan False False ts"

lemma centaurian_scan_iff:
  "\<not> (h \<and> a) \<Longrightarrow>
   centaurian_scan h a ts \<longleftrightarrow>
     (h \<or> (\<exists>t\<in>set ts. IsHumanOrigin t)) \<and> (a \<or> (\<exists>t\<in>set ts. \<not> IsHumanOrigin t))"
  by (induction h a ts rule: centaurian_scan.induct) (auto simp: Let_def)

lemma centaurianGuard_iff:
  "centaurianGuard ts \<longleftrightarrow> (\<exists>t\<in>set ts. IsHumanOrigin t) \<and> (\<exists>t\<in>set ts. \<not> IsHumanOrigin t)"
  by (simp add: centaurianGuard_def centaurian_scan_iff)

section \<open>Messages\<close>

datatype message_role = RoleUser | RoleAssistant | RoleObserver | RoleOther string

fun role_str :: "message_role \<Rightarrow> string" where
  "role_str RoleUser = ''user''"
| "role_str RoleAssistant = ''assistant''"
| "role_str RoleObserver = ''observer''"
| "role_str (RoleOther s) = s"

record message =
  ms_ID :: string
  ms_Role :: message_role
  ms_Content :: string
  ms_CPNID :: string
  ms_CPNRole :: string
  ms_CPNDepth :: int
  ms_ParentMessageID :: string

record stream_chunk =
  sc_SessionID :: string
  sc_CPNID :: string
  sc_CPNRole :: string
  sc_Content :: string
  sc_Done :: bool
  sc_RespondingModel :: string

section \<open>Display labels\<close>

record display_label =
  dl_Verb :: string
  dl_Detail :: string

text \<open>
  \<open>truncateDetail\<close> counts runes: a byte of the form \<open>10xxxxxx\<close> continues the rune before it. It
  keeps 39 runes and appends the ellipsis U+2026 when there are more than 40.
\<close>

definition detailMaxLen :: nat where "detailMaxLen = 40"

definition is_cont_byte :: "char \<Rightarrow> bool" where
  "is_cont_byte c \<longleftrightarrow> 128 \<le> (of_char c :: nat) \<and> (of_char c :: nat) < 192"

definition rune_count :: "string \<Rightarrow> nat" where
  "rune_count s = length (filter (\<lambda>c. \<not> is_cont_byte c) s)"

fun take_runes :: "nat \<Rightarrow> string \<Rightarrow> string" where
  "take_runes n [] = []"
| "take_runes n (c # s) =
     (if is_cont_byte c then c # take_runes n s
      else case n of 0 \<Rightarrow> [] | Suc k \<Rightarrow> c # take_runes k s)"

definition ellipsis :: string where
  "ellipsis = [CHR 0xE2, CHR 0x80, CHR 0xA6]"

definition truncateDetail :: "string \<Rightarrow> string" where
  "truncateDetail s =
     (if rune_count s \<le> detailMaxLen then s else take_runes (detailMaxLen - 1) s @ ellipsis)"

definition llmVerbForRole :: "string \<Rightarrow> string" where
  "llmVerbForRole role =
     (if role = ''summarizer'' then ''Summarizing''
      else if role = ''classifier'' \<or> role = ''router'' then ''Deciding'' else ''Thinking'')"

definition toolVerbAndDetail :: "string \<Rightarrow> string \<Rightarrow> string \<times> string" where
  "toolVerbAndDetail toolName toolDetail =
     (if toolName = ''fs_read'' then (''Reading'', toolDetail)
      else if toolName = ''fs_write'' then (''Writing'', toolDetail)
      else if toolName = ''web_search'' then (''Searching'', toolDetail)
      else if toolName = [] then (''Calling tool'', [])
      else (''Calling tool'', toolName))"

record transition_meta =
  tm_ToolName :: string
  tm_ToolDetail :: string
  tm_SubNetRole :: string

fun ResolveDisplayLabel :: "node_kind \<Rightarrow> string \<Rightarrow> transition_meta \<Rightarrow> display_label option" where
  "ResolveDisplayLabel NodeKindObserver role meta = None"
| "ResolveDisplayLabel NodeKindLLM role meta =
     Some \<lparr>dl_Verb = llmVerbForRole role, dl_Detail = []\<rparr>"
| "ResolveDisplayLabel NodeKindTool role meta =
     (let (verb, detail) = toolVerbAndDetail (tm_ToolName meta) (tm_ToolDetail meta)
      in Some \<lparr>dl_Verb = verb, dl_Detail = truncateDetail detail\<rparr>)"
| "ResolveDisplayLabel NodeKindValidate role meta =
     Some \<lparr>dl_Verb = ''Validating'', dl_Detail = []\<rparr>"
| "ResolveDisplayLabel NodeKindSubNet role meta =
     Some \<lparr>dl_Verb = ''Delegating'', dl_Detail = truncateDetail (tm_SubNetRole meta)\<rparr>"
| "ResolveDisplayLabel NodeKindHITL role meta =
     Some \<lparr>dl_Verb = ''Waiting for you'', dl_Detail = []\<rparr>"
| "ResolveDisplayLabel _ role meta = Some \<lparr>dl_Verb = ''Working'', dl_Detail = []\<rparr>"

end
