(* ===== verification/Places.thy ===== *)
theory Places
  imports Tokens
begin

text \<open>
  Places (\<open>cpn/place.go\<close>): a typed token buffer. The mutex makes each of \<open>Deposit\<close>, \<open>Consume\<close>,
  \<open>Peek\<close>, \<open>Len\<close>, \<open>Clear\<close> one atomic step, so each is a function of the place. The locale
  \<open>guarded_fifo\<close> is the contract the executor relies on: a guarded put, a first-in first-out get,
  and an abstraction to the list of what is buffered; the place is its interpretation.
\<close>

section \<open>The place and its operations\<close>

record place =
  pl_ID :: string
  pl_Color :: color
  pl_Space :: space
  pl_Tokens :: "token list"

definition NewPlace :: "string \<Rightarrow> color \<Rightarrow> space \<Rightarrow> place" where
  "NewPlace pid c s = \<lparr>pl_ID = pid, pl_Color = c, pl_Space = s, pl_Tokens = []\<rparr>"

definition Deposit :: "place \<Rightarrow> token \<Rightarrow> gerr + place" where
  "Deposit p t =
     (if tok_Space t = SpaceSurface \<and> pl_Space p = SpaceComputation
      then Inl (Wrap [] (Sentinel ErrSpaceViolation)
        ('': place='' @ pl_ID p @ '' token_space='' @ space_str (tok_Space t) @
         '' place_space='' @ space_str (pl_Space p)))
      else if tok_Color t \<noteq> pl_Color p
      then Inl (Wrap [] (Sentinel ErrColorMismatch)
        ('': place='' @ pl_ID p @ '' expected='' @ color_str (pl_Color p) @
         '' got='' @ color_str (tok_Color t)))
      else if tok_Space t \<noteq> pl_Space p
      then Inl (Wrap [] (Sentinel ErrSpaceMismatch)
        ('': place='' @ pl_ID p @ '' expected='' @ space_str (pl_Space p) @
         '' got='' @ space_str (tok_Space t)))
      else Inr (p\<lparr>pl_Tokens := pl_Tokens p @ [t]\<rparr>))"

definition Consume :: "place \<Rightarrow> gerr + (token \<times> place)" where
  "Consume p = (case pl_Tokens p of
     [] \<Rightarrow> Inl (Sentinel ErrEmptyPlace)
   | t # ts \<Rightarrow> Inr (t, p\<lparr>pl_Tokens := ts\<rparr>))"

definition Peek :: "place \<Rightarrow> token list option" where
  "Peek p = (if pl_Tokens p = [] then None else Some (pl_Tokens p))"

definition Len :: "place \<Rightarrow> nat" where
  "Len p = length (pl_Tokens p)"

definition Clear :: "place \<Rightarrow> place" where
  "Clear p = p\<lparr>pl_Tokens := []\<rparr>"

section \<open>The typing of a marking\<close>

text \<open>What \<open>Deposit\<close> checks, and the invariant of a place: every buffered token passed the check.\<close>

definition accepts :: "place \<Rightarrow> token \<Rightarrow> bool" where
  "accepts p t \<longleftrightarrow> tok_Color t = pl_Color p \<and> tok_Space t = pl_Space p"

definition wt_place :: "place \<Rightarrow> bool" where
  "wt_place p \<longleftrightarrow> list_all (accepts p) (pl_Tokens p)"

lemma accepts_frame [simp]: "accepts (p\<lparr>pl_Tokens := ts\<rparr>) = accepts p"
  by (rule ext) (simp add: accepts_def)

lemma Deposit_Inr_iff [netsimp]:
  "Deposit p t = Inr p' \<longleftrightarrow> accepts p t \<and> p' = p\<lparr>pl_Tokens := pl_Tokens p @ [t]\<rparr>"
  by (auto simp: Deposit_def accepts_def)

lemma Deposit_accepts: "accepts p t \<Longrightarrow> Deposit p t = Inr (p\<lparr>pl_Tokens := pl_Tokens p @ [t]\<rparr>)"
  by (simp add: Deposit_Inr_iff)

lemma Deposit_Inl_iff [netsimp]: "(\<exists>e. Deposit p t = Inl e) \<longleftrightarrow> \<not> accepts p t"
  by (cases "Deposit p t") (auto simp: Deposit_Inr_iff Deposit_def accepts_def split: if_splits)

lemma Deposit_cases:
  obtains (reject) e where "Deposit p t = Inl e" "\<not> accepts p t"
  | (accept) "Deposit p t = Inr (p\<lparr>pl_Tokens := pl_Tokens p @ [t]\<rparr>)" "accepts p t"
  by (cases "accepts p t") (auto simp: Deposit_accepts dest: Deposit_Inl_iff[THEN iffD2])

lemma Consume_Inr_iff [netsimp]:
  "Consume p = Inr (t, p') \<longleftrightarrow> pl_Tokens p = t # pl_Tokens p' \<and> p' = p\<lparr>pl_Tokens := pl_Tokens p'\<rparr>"
  by (cases "pl_Tokens p") (auto simp: Consume_def)

lemma Peek_Some_iff [netsimp]: "Peek p = Some ts \<longleftrightarrow> pl_Tokens p = ts \<and> ts \<noteq> []"
  by (auto simp: Peek_def)

lemma wt_NewPlace [wt_intros]: "wt_place (NewPlace i c s)"
  by (simp add: wt_place_def NewPlace_def)

lemma wt_Deposit [wt_intros]: "wt_place p \<Longrightarrow> Deposit p t = Inr p' \<Longrightarrow> wt_place p'"
  by (auto simp: wt_place_def Deposit_Inr_iff)

lemma wt_Consume [wt_intros]: "wt_place p \<Longrightarrow> Consume p = Inr (t, p') \<Longrightarrow> wt_place p' \<and> accepts p t"
  by (cases "pl_Tokens p") (auto simp: wt_place_def Consume_def)

lemma wt_Clear [wt_intros]: "wt_place (Clear p)"
  by (simp add: wt_place_def Clear_def)

lemma wt_append: "wt_place p \<Longrightarrow> accepts p t \<Longrightarrow> wt_place (p\<lparr>pl_Tokens := pl_Tokens p @ [t]\<rparr>)"
  by (simp add: wt_place_def)

section \<open>The buffer contract\<close>

fun put_seq :: "('b \<Rightarrow> 'a \<Rightarrow> gerr + 'b) \<Rightarrow> 'b \<Rightarrow> 'a list \<Rightarrow> gerr + 'b" where
  "put_seq put b [] = Inr b"
| "put_seq put b (x # xs) = (case put b x of Inl e \<Rightarrow> Inl e | Inr b' \<Rightarrow> put_seq put b' xs)"

fun get_seq :: "('b \<Rightarrow> gerr + ('a \<times> 'b)) \<Rightarrow> nat \<Rightarrow> 'b \<Rightarrow> gerr + ('a list \<times> 'b)" where
  "get_seq get 0 b = Inr ([], b)"
| "get_seq get (Suc n) b = (case get b of
     Inl e \<Rightarrow> Inl e
   | Inr (x, b') \<Rightarrow> (case get_seq get n b' of Inl e \<Rightarrow> Inl e | Inr (xs, b'') \<Rightarrow> Inr (x # xs, b'')))"

locale guarded_fifo =
  fixes put :: "'b \<Rightarrow> 'a \<Rightarrow> gerr + 'b"
    and get :: "'b \<Rightarrow> gerr + ('a \<times> 'b)"
    and contents :: "'b \<Rightarrow> 'a list"
    and admits :: "'b \<Rightarrow> 'a \<Rightarrow> bool"
  assumes put_admitted: "admits b x \<Longrightarrow> \<exists>b'. put b x = Inr b'"
    and put_contents:
      "put b x = Inr b' \<Longrightarrow> admits b x \<and> contents b' = contents b @ [x] \<and> admits b' = admits b"
    and get_contents: "contents b = x # xs \<Longrightarrow> \<exists>b'. get b = Inr (x, b') \<and> contents b' = xs"
begin

lemma put_rejected: "\<not> admits b x \<Longrightarrow> \<exists>e. put b x = Inl e"
  using put_contents by (cases "put b x") auto

lemma put_seq_ok:
  "list_all (admits b) xs \<Longrightarrow> \<exists>b'. put_seq put b xs = Inr b' \<and> contents b' = contents b @ xs"
proof (induction xs arbitrary: b)
  case Nil
  then show ?case by simp
next
  case (Cons x xs)
  then obtain b1 where b1: "put b x = Inr b1" using put_admitted[of b x] by auto
  from put_contents[OF b1] Cons.prems Cons.IH[of b1] b1 show ?case by auto
qed

lemma put_seq_all_or_error:
  "put_seq put b xs = Inr b' \<Longrightarrow> list_all (admits b) xs \<and> contents b' = contents b @ xs"
  by (induction xs arbitrary: b) (fastforce split: sum.splits dest: put_contents)+

lemma get_seq_prefix:
  "n \<le> length (contents b) \<Longrightarrow>
   \<exists>b'. get_seq get n b = Inr (take n (contents b), b') \<and> contents b' = drop n (contents b)"
proof (induction n arbitrary: b)
  case 0
  then show ?case by simp
next
  case (Suc n)
  then obtain x xs where c: "contents b = x # xs" by (cases "contents b") auto
  from get_contents[OF c] obtain b1 where b1: "get b = Inr (x, b1)" "contents b1 = xs" by blast
  with Suc.prems c Suc.IH[of b1] show ?case by auto
qed

lemma fifo:
  assumes "contents b = []" and "list_all (admits b) xs"
  shows "\<exists>b1 b2. put_seq put b xs = Inr b1 \<and> get_seq get (length xs) b1 = Inr (xs, b2) \<and>
           contents b2 = []"
  using put_seq_ok[OF assms(2)] assms(1) get_seq_prefix by force

end

interpretation plq: guarded_fifo Deposit Consume pl_Tokens accepts
  by unfold_locales (auto simp: Deposit_accepts Deposit_Inr_iff Consume_def)

end
