(* ===== verification/Retry.thy ===== *)
theory Retry
  imports Tokens
begin

text \<open>
  The circuit breaker and the retry loop of \<open>cpn/retry.go\<close>. Time is an integer of nanoseconds read
  from a clock that is part of the state \<open>'s\<close> the firing runs in, and so is the outcome of a sleep:
  \<open>retry_env\<close> holds both as functions of that state, and every theorem is for every such
  environment. \<open>float64\<close> values (the cost, the multiplier) are reals.
\<close>

section \<open>The circuit breaker\<close>

record breaker_config =
  bc_FailureThreshold :: int
  bc_OpenDuration :: int

record breaker =
  cb_Config :: breaker_config
  cb_Failures :: int
  cb_TrippedAt :: "int option"

definition NewCircuitBreakerState :: "breaker_config \<Rightarrow> breaker" where
  "NewCircuitBreakerState cfg = \<lparr>cb_Config = cfg, cb_Failures = 0, cb_TrippedAt = None\<rparr>"

definition Allow :: "int \<Rightarrow> breaker \<Rightarrow> bool \<times> breaker" where
  "Allow now cb = (case cb_TrippedAt cb of
     None \<Rightarrow> (True, cb)
   | Some t \<Rightarrow>
       (if now - t > bc_OpenDuration (cb_Config cb) then (True, cb\<lparr>cb_TrippedAt := None\<rparr>)
        else (False, cb)))"

definition RecordFailure :: "int \<Rightarrow> breaker \<Rightarrow> breaker" where
  "RecordFailure now cb =
     (let cb1 = cb\<lparr>cb_Failures := cb_Failures cb + 1\<rparr>
      in if cb_Failures cb1 \<ge> bc_FailureThreshold (cb_Config cb1)
         then cb1\<lparr>cb_TrippedAt := Some now\<rparr> else cb1)"

definition RecordSuccess :: "breaker \<Rightarrow> breaker" where
  "RecordSuccess cb = cb\<lparr>cb_Failures := 0, cb_TrippedAt := None\<rparr>"

text \<open>
  Histories of a breaker: a call of \<open>Allow\<close> at a clock reading, a recorded failure at a clock
  reading, a recorded success.
\<close>

datatype breaker_event = EvAllow int | EvFailure int | EvSuccess

fun breaker_step :: "breaker_event \<Rightarrow> breaker \<Rightarrow> breaker" where
  "breaker_step (EvAllow now) cb = snd (Allow now cb)"
| "breaker_step (EvFailure now) cb = RecordFailure now cb"
| "breaker_step EvSuccess cb = RecordSuccess cb"

definition breaker_run :: "breaker_event list \<Rightarrow> breaker \<Rightarrow> breaker" where
  "breaker_run es cb = fold breaker_step es cb"

text \<open>The abstract reading of a history: the failures since the last success.\<close>

fun failures_since :: "breaker_event list \<Rightarrow> int \<Rightarrow> int" where
  "failures_since [] n = n"
| "failures_since (EvAllow t # es) n = failures_since es n"
| "failures_since (EvFailure t # es) n = failures_since es (n + 1)"
| "failures_since (EvSuccess # es) n = failures_since es 0"

definition breaker_inv :: "breaker \<Rightarrow> bool" where
  "breaker_inv cb \<longleftrightarrow> 0 \<le> cb_Failures cb \<and>
     (cb_TrippedAt cb \<noteq> None \<longrightarrow> bc_FailureThreshold (cb_Config cb) \<le> cb_Failures cb)"

lemma breaker_config_frame [frame]: "cb_Config (breaker_step e cb) = cb_Config cb"
  by (cases e) (auto simp: Allow_def RecordFailure_def RecordSuccess_def Let_def split: option.splits)

lemma breaker_inv_new: "breaker_inv (NewCircuitBreakerState cfg)"
  by (simp add: breaker_inv_def NewCircuitBreakerState_def)

lemma breaker_inv_step: "breaker_inv cb \<Longrightarrow> breaker_inv (breaker_step e cb)"
  by (cases e)
    (auto simp: breaker_inv_def Allow_def RecordFailure_def RecordSuccess_def Let_def
      split: option.splits)

lemma breaker_run_config [frame]: "cb_Config (breaker_run es cb) = cb_Config cb"
  unfolding breaker_run_def by (induction es arbitrary: cb) (simp_all add: breaker_config_frame)

lemma breaker_run_inv: "breaker_inv cb \<Longrightarrow> breaker_inv (breaker_run es cb)"
  unfolding breaker_run_def by (induction es arbitrary: cb) (simp_all add: breaker_inv_step)

lemma breaker_run_failures: "cb_Failures (breaker_run es cb) = failures_since es (cb_Failures cb)"
  unfolding breaker_run_def
  by (induction es "cb_Failures cb" arbitrary: cb rule: failures_since.induct)
    (auto simp: Allow_def RecordFailure_def RecordSuccess_def Let_def split: option.splits)

lemma Allow_refuses_iff:
  "\<not> fst (Allow now cb) \<longleftrightarrow>
   (\<exists>t. cb_TrippedAt cb = Some t \<and> now \<le> t + bc_OpenDuration (cb_Config cb))"
  by (auto simp: Allow_def split: option.splits if_splits)

text \<open>
  Half-open. Once \<open>Allow\<close> has let a probe through, the trip time is gone: every later \<open>Allow\<close> is
  granted until an outcome is recorded, and with the failure count still at the threshold the
  first recorded failure opens the breaker again.
\<close>

lemma half_open_allows: "fst (Allow now cb) \<Longrightarrow> fst (Allow now' (snd (Allow now cb)))"
  by (auto simp: Allow_def split: option.splits if_splits)

lemma half_open_failure_retrips:
  assumes "breaker_inv cb" and "cb_TrippedAt cb \<noteq> None" and "fst (Allow now cb)"
  shows "cb_TrippedAt (RecordFailure now' (snd (Allow now cb))) = Some now'"
  using assms by (auto simp: Allow_def breaker_inv_def RecordFailure_def Let_def split: if_splits)

section \<open>Retry policies and backoff\<close>

record retry_policy =
  rp_MaxAttempts :: int
  rp_InitialWait :: int
  rp_MaxWait :: int
  rp_Multiplier :: real
  rp_RetryOn :: "(gerr \<Rightarrow> int \<Rightarrow> bool) option"
  rp_CircuitBreaker :: "breaker_config option"

definition DefaultRetryPolicy :: retry_policy where
  "DefaultRetryPolicy =
     \<lparr>rp_MaxAttempts = 3, rp_InitialWait = 500 * 10 ^ 6, rp_MaxWait = 30 * 10 ^ 9,
      rp_Multiplier = 2,
      rp_RetryOn = Some (\<lambda>err _.
        if err_is_ctx err Canceled then False
        else if err_is_ctx err DeadlineExceeded then False else True),
      rp_CircuitBreaker = None\<rparr>"

text \<open>
  The conversion \<open>time.Duration (f)\<close> of a float truncates toward zero. Outside the range of \<open>int64\<close>
  Go leaves the value to the implementation; it is the parameter \<open>ovf\<close>.
\<close>

definition duration_of_float :: "int \<Rightarrow> real \<Rightarrow> int" where
  "duration_of_float ovf x =
     (if - (2 ^ 63) \<le> x \<and> x < 2 ^ 63 then (if x \<ge> 0 then \<lfloor>x\<rfloor> else \<lceil>x\<rceil>) else ovf)"

definition backoffDuration :: "int \<Rightarrow> retry_policy \<Rightarrow> nat \<Rightarrow> int" where
  "backoffDuration ovf rp attempt =
     (let wait = real_of_int (rp_InitialWait rp) * rp_Multiplier rp ^ (attempt - 1)
      in min (duration_of_float ovf wait) (rp_MaxWait rp))"

lemma backoffDuration_in_range:
  assumes "0 \<le> rp_InitialWait rp" and "1 \<le> rp_Multiplier rp"
    and "real_of_int (rp_InitialWait rp) * rp_Multiplier rp ^ (attempt - 1) < 2 ^ 63"
  shows "backoffDuration ovf rp attempt =
           min \<lfloor>real_of_int (rp_InitialWait rp) * rp_Multiplier rp ^ (attempt - 1)\<rfloor> (rp_MaxWait rp)"
proof -
  have "0 \<le> real_of_int (rp_InitialWait rp) * rp_Multiplier rp ^ (attempt - 1)"
    using assms(1,2) by simp
  moreover from this have "- (2 ^ 63) \<le> real_of_int (rp_InitialWait rp) * rp_Multiplier rp ^ (attempt - 1)"
    by (rule order_trans[rotated]) simp
  ultimately show ?thesis
    using assms(3) by (simp add: backoffDuration_def duration_of_float_def Let_def)
qed

section \<open>The retry loop\<close>

text \<open>What a fire function returns: \<open>([]TokenSnapshot, float64, error)\<close>.\<close>

type_synonym fire_out = "token_snapshot list \<times> real \<times> gerr option"

record 's retry_env =
  re_now :: "'s \<Rightarrow> int \<times> 's"
  re_sleep :: "int \<Rightarrow> 's \<Rightarrow> gerr option \<times> 's"
  re_ovf :: int

text \<open>
  The three breaker calls on a possibly nil breaker. The clock is read only where the code calls
  \<open>nowFunc\<close>.
\<close>

definition cb_allow :: "'s retry_env \<Rightarrow> breaker option \<Rightarrow> 's \<Rightarrow> bool \<times> breaker option \<times> 's" where
  "cb_allow env ocb s = (case ocb of
     None \<Rightarrow> (True, None, s)
   | Some cb \<Rightarrow>
       (if cb_TrippedAt cb = None then (True, Some cb, s)
        else (let (now, s') = re_now env s; (ok, cb') = Allow now cb in (ok, Some cb', s'))))"

definition cb_failure :: "'s retry_env \<Rightarrow> breaker option \<Rightarrow> 's \<Rightarrow> breaker option \<times> 's" where
  "cb_failure env ocb s = (case ocb of
     None \<Rightarrow> (None, s)
   | Some cb \<Rightarrow>
       (if cb_Failures cb + 1 \<ge> bc_FailureThreshold (cb_Config cb)
        then (let (now, s') = re_now env s in (Some (RecordFailure now cb), s'))
        else (Some (RecordFailure 0 cb), s)))"

definition cb_success :: "breaker option \<Rightarrow> breaker option" where
  "cb_success ocb = map_option RecordSuccess ocb"

definition fireOnce ::
  "'s retry_env \<Rightarrow> breaker option \<Rightarrow> ('s \<Rightarrow> fire_out \<times> 's) \<Rightarrow> 's \<Rightarrow> fire_out \<times> breaker option \<times> 's"
  where
  "fireOnce env ocb fire s =
     (let ((snaps, cost, err), s1) = fire s
      in case err of
           None \<Rightarrow> ((snaps, cost, err), cb_success ocb, s1)
         | Some e \<Rightarrow> (let (ocb', s2) = cb_failure env ocb s1 in ((snaps, cost, err), ocb', s2)))"

text \<open>
  The loop of \<open>doRetry\<close>. The first number is how many attempts are left, the second the attempt
  being made; \<open>tot\<close> is \<open>totalCost\<close> and \<open>lastErr\<close> the error of the attempt before.
\<close>

fun retry_loop ::
  "'s retry_env \<Rightarrow> retry_policy \<Rightarrow> ('s \<Rightarrow> fire_out \<times> 's) \<Rightarrow> nat \<Rightarrow> nat \<Rightarrow> real \<Rightarrow> gerr option \<Rightarrow>
   breaker option \<Rightarrow> 's \<Rightarrow> fire_out \<times> breaker option \<times> 's" where
  "retry_loop env rp fire 0 attempt tot lastErr ocb s = (([], tot, lastErr), ocb, s)"
| "retry_loop env rp fire (Suc left) attempt tot lastErr ocb s =
     (let ((snaps, cost, err), s1) = fire s;
          tot' = tot + cost
      in case err of
           None \<Rightarrow> ((snaps, tot', None), cb_success ocb, s1)
         | Some e \<Rightarrow>
             (let (ocb1, s2) = cb_failure env ocb s1
              in if (case rp_RetryOn rp of None \<Rightarrow> False | Some f \<Rightarrow> \<not> f e (int attempt))
                 then (([], tot', Some e), ocb1, s2)
                 else if left = 0 then (([], tot', Some e), ocb1, s2)
                 else (let (se, s3) = re_sleep env (backoffDuration (re_ovf env) rp attempt) s2
                       in case se of
                            Some x \<Rightarrow> (([], tot', Some x), ocb1, s3)
                          | None \<Rightarrow> retry_loop env rp fire left (Suc attempt) tot' (Some e) ocb1 s3)))"

definition doRetry ::
  "'s retry_env \<Rightarrow> retry_policy option \<Rightarrow> breaker option \<Rightarrow> ('s \<Rightarrow> fire_out \<times> 's) \<Rightarrow> 's \<Rightarrow>
   fire_out \<times> breaker option \<times> 's" where
  "doRetry env retry ocb fire s =
     (let (ok, ocb1, s1) = cb_allow env ocb s
      in if \<not> ok then (([], 0, Some (Sentinel ErrCircuitOpen)), ocb1, s1)
         else case retry of
                None \<Rightarrow> fireOnce env ocb1 fire s1
              | Some rp \<Rightarrow> retry_loop env rp fire (nat (max (rp_MaxAttempts rp) 1)) 1 0 None ocb1 s1)"

section \<open>What the loop does, in terms of the attempts it made\<close>

text \<open>
  A ghost state records the outcome of every call of \<open>fire\<close>; it changes nothing else.
\<close>

definition logged :: "('s \<Rightarrow> fire_out \<times> 's) \<Rightarrow> 's \<times> fire_out list \<Rightarrow> fire_out \<times> ('s \<times> fire_out list)"
  where "logged fire = (\<lambda>(s, l). let (r, s') = fire s in (r, (s', l @ [r])))"

definition logged_env :: "'s retry_env \<Rightarrow> ('s \<times> fire_out list) retry_env" where
  "logged_env env =
     \<lparr>re_now = (\<lambda>(s, l). let (t, s') = re_now env s in (t, (s', l))),
      re_sleep = (\<lambda>d (s, l). let (e, s') = re_sleep env d s in (e, (s', l))),
      re_ovf = re_ovf env\<rparr>"

lemma cb_allow_logged:
  "cb_allow (logged_env env) ocb (s, l) =
     (let (ok, ocb', s') = cb_allow env ocb s in (ok, ocb', (s', l)))"
  by (auto simp: cb_allow_def logged_env_def Let_def split: option.splits prod.splits)

lemma cb_failure_logged:
  "cb_failure (logged_env env) ocb (s, l) =
     (let (ocb', s') = cb_failure env ocb s in (ocb', (s', l)))"
  by (auto simp: cb_failure_def logged_env_def Let_def split: option.splits prod.splits)

lemma retry_loop_logged:
  "retry_loop (logged_env env) rp (logged fire) n a tot le ocb (s, l) =
     (r, ocb', (s', l')) \<Longrightarrow>
   retry_loop env rp fire n a tot le ocb s = (r, ocb', s')"
proof (induction n arbitrary: a tot le ocb s l)
  case 0
  then show ?case by simp
next
  case (Suc n)
  obtain snaps cost err s1 where f: "fire s = ((snaps, cost, err), s1)" by (metis prod.exhaust)
  obtain ocb1 s2 where cf: "cb_failure env ocb s1 = (ocb1, s2)" by (metis prod.exhaust)
  obtain se s3 where sl: "re_sleep env (backoffDuration (re_ovf env) rp a) s2 = (se, s3)"
    by (metis prod.exhaust)
  have lf: "logged fire (s, l) = ((snaps, cost, err), (s1, l @ [(snaps, cost, err)]))"
    by (simp add: logged_def f)
  have lsl: "re_sleep (logged_env env) (backoffDuration (re_ovf (logged_env env)) rp a) (s2, k) = (se, (s3, k))" for k
    using sl by (simp add: logged_env_def)
  show ?case
    using Suc.prems Suc.IH
    by (auto simp: f lf cb_failure_logged cf lsl sl Let_def split: option.splits if_splits)
qed

text \<open>
  The reading of a log of the attempts from number \<open>a\<close> on, of at most \<open>n\<close>: every one but the last failed with
  an error the policy retries; the last one gives the result, unless the wait after it was interrupted.
\<close>

definition retryable :: "retry_policy \<Rightarrow> gerr \<Rightarrow> nat \<Rightarrow> bool" where
  "retryable rp e attempt \<longleftrightarrow> (case rp_RetryOn rp of None \<Rightarrow> True | Some f \<Rightarrow> f e (int attempt))"

definition total_cost :: "real \<Rightarrow> fire_out list \<Rightarrow> real" where
  "total_cost tot calls = foldl (\<lambda>t x. t + fst (snd x)) tot calls"

definition log_ends :: "'s retry_env \<Rightarrow> retry_policy \<Rightarrow> nat \<Rightarrow> nat \<Rightarrow> fire_out \<Rightarrow> fire_out \<Rightarrow> bool" where
  "log_ends env rp n a r x \<longleftrightarrow> (case snd (snd x) of
     None \<Rightarrow> fst r = fst x \<and> snd (snd r) = None
   | Some e \<Rightarrow> fst r = [] \<and>
       (snd (snd r) = Some e \<and> (n = 1 \<or> \<not> retryable rp e a) \<or>
        (retryable rp e a \<and> 1 < n \<and>
          (\<exists>s e' s'. re_sleep env (backoffDuration (re_ovf env) rp a) s = (Some e', s') \<and> snd (snd r) = Some e'))))"

definition log_ok :: "'s retry_env \<Rightarrow> retry_policy \<Rightarrow> nat \<Rightarrow> nat \<Rightarrow> fire_out \<Rightarrow> fire_out list \<Rightarrow> bool" where
  "log_ok env rp n a r new \<longleftrightarrow>
     (\<forall>k. Suc k < length new \<longrightarrow> (\<exists>e. snd (snd (new ! k)) = Some e \<and> retryable rp e (a + k))) \<and>
     log_ends env rp (Suc n - length new) (a + length new - 1) r (last new)"

lemma log_ok_Cons:
  assumes "log_ok env rp n (Suc a) r new" "new \<noteq> []" "snd (snd x) = Some e" "retryable rp e a"
  shows "log_ok env rp (Suc n) a r (x # new)"
proof -
  have "\<exists>e. snd (snd ((x # new) ! k)) = Some e \<and> retryable rp e (a + k)" if "Suc k < length (x # new)" for k
    using assms that by (cases k) (auto simp: log_ok_def)
  moreover have "a + length (x # new) - 1 = Suc a + length new - 1" using assms(2) by (cases new) simp_all
  ultimately show ?thesis using assms(1,2) by (simp add: log_ok_def)
qed

lemma retry_loop_log:
  "retry_loop (logged_env env) rp (logged fire) n a tot le ocb (s, l) = (r, ocb', (s', l')) \<Longrightarrow>
   0 < n \<Longrightarrow>
   \<exists>new. l' = l @ new \<and> new \<noteq> [] \<and> length new \<le> n \<and> log_ok env rp n a r new \<and>
     fst (snd r) = total_cost tot new"
proof (induction n arbitrary: a tot le ocb s l)
  case 0
  then show ?case by simp
next
  case (Suc n)
  obtain snaps cost err s1 where f: "fire s = ((snaps, cost, err), s1)" by (metis prod.exhaust)
  let ?x = "(snaps, cost, err)"
  obtain ocb1 s2 where cf: "cb_failure env ocb s1 = (ocb1, s2)" by (metis prod.exhaust)
  obtain se s3 where sl: "re_sleep env (backoffDuration (re_ovf env) rp a) s2 = (se, s3)"
    by (metis prod.exhaust)
  have lf: "logged fire (s, l) = (?x, (s1, l @ [?x]))"
    by (simp add: logged_def f)
  have lsl: "re_sleep (logged_env env) (backoffDuration (re_ovf (logged_env env)) rp a) (s2, k) = (se, (s3, k))" for k
    using sl by (simp add: logged_env_def)
  have stop: "\<not> retryable rp e a \<longleftrightarrow> (case rp_RetryOn rp of None \<Rightarrow> False | Some f \<Rightarrow> \<not> f e (int a))" for e
    by (simp add: retryable_def split: option.split)
  note unf = retry_loop.simps lf cb_failure_logged cf lsl Let_def prod.case stop[symmetric]
  show ?case
  proof (cases err)
    case None
    with Suc.prems(1) show ?thesis
      by (intro exI[of _ "[?x]"]) (auto simp: unf log_ok_def log_ends_def total_cost_def)
  next
    case (Some e)
    show ?thesis
    proof (cases "retryable rp e a \<and> n \<noteq> 0 \<and> se = None")
      case True
      then have cont: "retry_loop (logged_env env) rp (logged fire) n (Suc a) (tot + cost) (Some e) ocb1
          (s3, l @ [?x]) = (r, ocb', (s', l'))"
        using Suc.prems(1) Some by (simp add: unf)
      from Suc.IH[OF cont] True obtain new where
        new: "l' = (l @ [?x]) @ new" "new \<noteq> []" "length new \<le> n" "log_ok env rp n (Suc a) r new"
        "fst (snd r) = total_cost (tot + cost) new"
        by auto
      have "log_ok env rp (Suc n) a r (?x # new)" using log_ok_Cons[OF new(4,2), of ?x e] Some True by simp
      with new show ?thesis by (intro exI[of _ "?x # new"]) (simp add: total_cost_def)
    next
      case False
      have "l' = l @ [?x] \<and> fst (snd r) = tot + cost \<and> log_ends env rp (Suc n) a r ?x"
        using Suc.prems(1) False Some sl
        by (cases "retryable rp e a"; cases "n = 0"; cases se) (auto simp: unf log_ends_def intro: exI[of _ s2])
      then show ?thesis by (intro exI[of _ "[?x]"]) (simp add: log_ok_def total_cost_def)
    qed
  qed
qed

end
