(* ===== verification/Nets.thy ===== *)
theory Nets
  imports Places Retry
begin

text \<open>
  The net itself: \<open>Transition\<close> (\<open>cpn/transition.go\<close>), the events (\<open>cpn/event.go\<close>), and the state of
  a \<open>CPN\<close> with its event emission, mode and guard logic, terminal places, reset and approvals
  (\<open>cpn/cpn.go\<close>).

  Everything outside the net (tool executors, HITL channels, the host adapter, clocks) acts on a
  state of type \<open>'w\<close>, the world; a Go closure that may have effects is a function that takes the
  world and returns the next one. Ports that only receive calls from the net (the event sink, the
  group notifier, the history callbacks, the metrics) are the lists of the calls they received;
  \<open>None\<close> is the nil port. The mutexes make each operation one atomic step.
\<close>

section \<open>Events\<close>

datatype event_type =
    EventTransitionFired | EventSubNetStarted | EventSubNetCompleted | EventSubNetFailed
  | EventHITLRequested | EventHITLResolved | EventTokenDeposited | EventModeSwitch
  | EventStreamChunk | EventTransitionStarted | EventTransitionCompleted | EventToolExecuted
  | EventPersonalityLoaded | EventPersonalityModified | EventConflictDetected
  | EventToolRegistered | EventProcessStarted | EventProcessStdout | EventProcessStderr
  | EventProcessExit | EventTopologyMutated | EventTopologyMutationRejected

record tool_executed =
  te_ToolName :: string
  te_Namespace :: string
  te_DurationMs :: int
  te_Success :: bool
  te_Error :: string
  te_Arguments :: string

datatype event_payload =
    EvNil
  | EvStarted "token_snapshot list" "display_label option"
  | EvCompleted "token_snapshot list" real string "display_label option"
  | EvModes mode mode
  | EvChunk stream_chunk
  | EvPrompt string
  | EvHITLRequest string bool
  | EvRound string int
  | EvProcess process_payload
  | EvError gerr
  | EvFields "(string \<times> string) list"
  | EvToolExecuted tool_executed

record event =
  ev_Type :: event_type
  ev_SessionID :: string
  ev_CPNID :: string
  ev_CPNDepth :: int
  ev_CPNRole :: string
  ev_TransitionID :: string
  ev_TransitionKind :: node_kind
  ev_Token :: "token option"
  ev_Payload :: event_payload

definition mk_event ::
  "event_type \<Rightarrow> string \<Rightarrow> node_kind \<Rightarrow> token option \<Rightarrow> event_payload \<Rightarrow> event" where
  "mk_event ty tid k tok p =
     \<lparr>ev_Type = ty, ev_SessionID = [], ev_CPNID = [], ev_CPNDepth = 0, ev_CPNRole = [],
      ev_TransitionID = tid, ev_TransitionKind = k, ev_Token = tok, ev_Payload = p\<rparr>"

abbreviation no_kind :: node_kind where
  "no_kind \<equiv> NodeKindOther []"

fun isProcessEvent :: "event_type \<Rightarrow> bool" where
  "isProcessEvent EventProcessStarted = True"
| "isProcessEvent EventProcessStdout = True"
| "isProcessEvent EventProcessStderr = True"
| "isProcessEvent EventProcessExit = True"
| "isProcessEvent _ = False"

text \<open>A buffered channel: its capacity and what it holds. \<open>ch_try_send\<close> is a send with \<open>default\<close>.\<close>

record chan =
  ch_cap :: nat
  ch_buf :: "event list"

definition ch_try_send :: "event \<Rightarrow> chan \<Rightarrow> bool \<times> chan" where
  "ch_try_send e ch =
     (if length (ch_buf ch) < ch_cap ch then (True, ch\<lparr>ch_buf := ch_buf ch @ [e]\<rparr>)
      else (False, ch))"

section \<open>Transitions\<close>

record trace_config =
  tc_TraceID :: string
  tc_TraceName :: string
  tc_SpanName :: string
  tc_GenerationName :: string
  tc_ParentSpanID :: string

text \<open>The fields of \<open>LLMConfig\<close> the engine reads; the other ones only pass to the provider client.\<close>

record json_schema_config =
  js_Name :: string
  js_Description :: string
  js_Schema :: string
  js_Strict :: "bool option"

record provider_max_price =
  xp_Prompt :: string
  xp_Completion :: string
  xp_Image :: string
  xp_Audio :: string
  xp_Request :: string

record provider_config =
  pv_Order :: "string list"
  pv_Only :: "string list"
  pv_Ignore :: "string list"
  pv_AllowFallbacks :: "bool option"
  pv_Sort :: string
  pv_MaxPrice :: "provider_max_price option"
  pv_DataCollection :: string
  pv_ZDR :: bool
  pv_RequireParameters :: bool

record reasoning_config =
  rs_Effort :: string
  rs_Summary :: string
  rs_MaxTokens :: int
  rs_Enabled :: "bool option"
  rs_Exclude :: "bool option"
  rs_BudgetTokens :: int

record cache_control =
  cc_TTL :: string

record llm_config =
  lc_Model :: string
  lc_Role :: string
  lc_FallbackModels :: "string list"
  lc_Endpoint :: string
  lc_MaxTokens :: int
  lc_Temperature :: real
  lc_StreamOutput :: bool
  lc_RequireJSON :: bool
  lc_ResponseFmtRequired :: bool
  lc_JSONSchema :: "json_schema_config option"
  lc_Budget :: real
  lc_Provider :: "provider_config option"
  lc_Trace :: "trace_config option"
  lc_Plugins :: "string list"
  lc_Reasoning :: "reasoning_config option"
  lc_CacheControl :: "cache_control option"
  lc_SkipHistory :: bool
  lc_SkipOutputHistory :: bool
  lc_SkipRegionalPreamble :: bool

record tool_meta =
  tm_Namespace :: string
  tm_Description :: string
  tm_Parameters :: string
  tm_RequiresHITL :: bool

record validate_config =
  vc_Schema :: "(string \<Rightarrow> gerr option) option"
  vc_ValidateFunc :: "(payload \<Rightarrow> gerr option) option"
  vc_MaxCorrections :: int
  vc_CorrectionLLMID :: string
  vc_OnSuccess :: "(payload \<Rightarrow> payload) option"

text \<open>
  One receive on a HITL channel, in a \<open>select\<close> with \<open>ctx.Done\<close>: a token, the closed channel, or the
  cancelled context.
\<close>

datatype hitl_recv = RecvToken token | RecvClosed | RecvDone

record 'w hitl_config =
  hc_Channel :: "('w \<Rightarrow> hitl_recv \<times> 'w) option"
  hc_Prompt :: string
  hc_RevisionLoop :: bool
  hc_CorrectionLLMID :: string
  hc_MaxRevisions :: int
  hc_A2UIPayloadBuilder :: "(token list \<Rightarrow> gerr + payload) option"
  hc_OutputBuilder :: "(token list \<Rightarrow> hitl_response \<Rightarrow> gerr + token) option"

datatype emit_mode = EmitDefault | EmitPerLine | EmitPerChunk | EmitOther string

record bash_config =
  bc_Command :: string
  bc_Args :: "string list"
  bc_Stdin :: string
  bc_Env :: "string list"
  bc_Cwd :: string
  bc_Timeout :: int
  bc_SandboxProfile :: sandbox_profile
  bc_Streaming :: bool
  bc_AllowNonZeroExit :: bool
  bc_SessionID :: string
  bc_EmitMode :: emit_mode
  bc_EmitChunkBytes :: int

record 'w transition =
  tr_ID :: string
  tr_Kind :: node_kind
  tr_InputPlaces :: "string list"
  tr_OutputPlaces :: "string list"
  tr_ErrorPlace :: string
  tr_Guard :: "(token list \<Rightarrow> bool) option"
  tr_Retry :: "retry_policy option"
  tr_cbState :: "breaker option"
  tr_SystemPrompt :: string
  tr_ToolName :: string
  tr_Executor :: "('w \<Rightarrow> token \<Rightarrow> (gerr + token) \<times> 'w) option"
  tr_ToolHandler :: "('w \<Rightarrow> token list \<Rightarrow> (gerr + token gomap) \<times> 'w) option"
  tr_LLMConfig :: "llm_config option"
  tr_LLMTools :: "string list"
  tr_ToolMeta :: "tool_meta option"
  tr_ValidateConfig :: "validate_config option"
  tr_SubNetRole :: "string option"
  tr_HITLConfig :: "'w hitl_config option"
  tr_ObservedCPNID :: string
  tr_EventFilter :: "(event \<Rightarrow> bool) option"
  tr_BashConfig :: "bash_config option"
  tr_RegisterToolConfig :: "register_tool_config option"
  tr_SynthesizeConfig :: "synthesize_config option"
  tr_InstantiateConfig :: "instantiate_config option"
  tr_Silent :: bool
  tr_Deprecated :: bool
  tr_DeprecateReason :: string

definition NewTransition ::
  "string \<Rightarrow> node_kind \<Rightarrow> string list \<Rightarrow> string list \<Rightarrow> 'w transition" where
  "NewTransition tid kind ins outs =
     \<lparr>tr_ID = tid, tr_Kind = kind, tr_InputPlaces = ins, tr_OutputPlaces = outs,
      tr_ErrorPlace = [], tr_Guard = None, tr_Retry = None, tr_cbState = None,
      tr_SystemPrompt = [], tr_ToolName = [], tr_Executor = None, tr_ToolHandler = None,
      tr_LLMConfig = None, tr_LLMTools = [], tr_ToolMeta = None, tr_ValidateConfig = None, tr_SubNetRole = None,
      tr_HITLConfig = None, tr_ObservedCPNID = [], tr_EventFilter = None,
      tr_BashConfig = None, tr_RegisterToolConfig = None,
      tr_SynthesizeConfig = None, tr_InstantiateConfig = None, tr_Silent = (kind = NodeKindObserver), tr_Deprecated = False,
      tr_DeprecateReason = []\<rparr>"

definition SetCircuitBreaker :: "breaker option \<Rightarrow> 'w transition \<Rightarrow> 'w transition" where
  "SetCircuitBreaker cb t = t\<lparr>tr_cbState := cb\<rparr>"

text \<open>
  The loop over the input places in \<open>canFireWith\<close>: the tokens of all of them, or \<open>None\<close> as soon as
  one is missing or empty.
\<close>

fun peek_inputs :: "place gomap \<Rightarrow> string list \<Rightarrow> token list option" where
  "peek_inputs places [] = Some []"
| "peek_inputs places (pid # pids) = (case map_of places pid of
     None \<Rightarrow> None
   | Some p \<Rightarrow> (case Peek p of
        None \<Rightarrow> None
      | Some ts \<Rightarrow> (case peek_inputs places pids of None \<Rightarrow> None | Some rest \<Rightarrow> Some (ts @ rest))))"

definition inputs_ready ::
  "place gomap \<Rightarrow> string list \<Rightarrow> (token list \<Rightarrow> bool) option \<Rightarrow> bool" where
  "inputs_ready places ins guard =
     (if ins = [] then False
      else case peek_inputs places ins of
             None \<Rightarrow> False
           | Some ts \<Rightarrow> (case guard of None \<Rightarrow> True | Some g \<Rightarrow> g ts))"

text \<open>
  \<open>canFireWith\<close> may move a tripped breaker to half-open, so it returns the transition too. The
  clock is read only when the breaker is tripped.
\<close>

definition canFireWith ::
  "('w \<Rightarrow> int \<times> 'w) \<Rightarrow> 'w transition \<Rightarrow> place gomap \<Rightarrow> (token list \<Rightarrow> bool) option \<Rightarrow> 'w \<Rightarrow>
   bool \<times> 'w transition \<times> 'w" where
  "canFireWith now t places guard w =
     (if tr_Deprecated t then (False, t, w)
      else (let (ok, cb', w') = (case tr_cbState t of
                None \<Rightarrow> (True, None, w)
              | Some cb \<Rightarrow>
                  (if cb_TrippedAt cb = None then (True, Some cb, w)
                   else (let (n, w1) = now w; (a, cb1) = Allow n cb in (a, Some cb1, w1))));
                t' = SetCircuitBreaker cb' t
            in if \<not> ok then (False, t', w')
               else (inputs_ready places (tr_InputPlaces t) guard, t', w')))"

definition CanFire ::
  "('w \<Rightarrow> int \<times> 'w) \<Rightarrow> 'w transition \<Rightarrow> place gomap \<Rightarrow> 'w \<Rightarrow> bool \<times> 'w transition \<times> 'w" where
  "CanFire now t places w = canFireWith now t places (tr_Guard t) w"

section \<open>The CPN\<close>

record metric_call =
  mc_Dropped :: bool
  mc_SessionID :: string
  mc_Kind :: event_type
  mc_Reason :: string

text \<open>
  A \<open>BashSessionManager\<close>, as the firing uses it. \<open>sp_Select\<close> is what the receive loop of
  \<open>fireBashSession\<close> gets from its three channels until the call context ends: the receives in
  order, then the error of that context (given a session, its output and a timeout).
\<close>

datatype sess_recv =
    SessLine string | SessChunksClosed | SessStatus string int "gerr option" | SessStatusClosed

record 'w session_port =
  sp_Chunks :: "string \<Rightarrow> gerr option"
  sp_Status :: "string \<Rightarrow> gerr option"
  sp_Write :: "'w \<Rightarrow> string \<Rightarrow> string \<Rightarrow> gerr option \<times> 'w"
  sp_Select :: "'w \<Rightarrow> string \<Rightarrow> int \<Rightarrow> (sess_recv list \<times> ctx_err) \<times> 'w"

text \<open>
  A \<open>HostHITLHandler\<close> is given the HITL channel of the transition, its ID, the operation and the
  gate's error. It returns the terminal error and the approval surface it published, if any.
\<close>

record 'w host_runtime =
  hr_Adapter :: "('w \<Rightarrow> exec_request \<Rightarrow> (exec_result \<times> gerr option) \<times> 'w) option"
  hr_Gate :: "('w \<Rightarrow> string \<Rightarrow> gate_op \<Rightarrow> gerr option \<times> 'w) option"
  hr_Sessions :: "'w session_port option"
  hr_RateLimiter :: "('w \<Rightarrow> string \<Rightarrow> bool \<times> 'w) option"
  hr_Metrics :: "metric_call list option"
  hr_HITLHandler :: "('w \<Rightarrow> ('w \<Rightarrow> hitl_recv \<times> 'w) option \<Rightarrow> string \<Rightarrow> gate_op \<Rightarrow> gerr \<Rightarrow>
     (gerr option \<times> string option) \<times> 'w) option"

section \<open>The LLM client\<close>

record tool_call =
  tl_ID :: string
  tl_ToolName :: string
  tl_Arguments :: string

record llm_message =
  lm_Role :: string
  lm_Content :: string
  lm_ToolCall :: "tool_call option"
  lm_ToolResult :: "(string \<times> string) option"

record llm_tool =
  lt_Name :: string
  lt_Description :: string
  lt_Parameters :: string

record llm_request =
  lr_Model :: string
  lr_Messages :: "llm_message list"
  lr_MaxTokens :: int
  lr_Temperature :: real
  lr_Tools :: "llm_tool list"
  lr_ResponseFmt :: string
  lr_SessionID :: string
  lr_Trace :: "trace_config option"
  lr_Stream :: bool

record llm_response =
  lp_Content :: string
  lp_ToolCalls :: "tool_call list"
  lp_Model :: string
  lp_CostUSD :: real
  lp_StopReason :: string

text \<open>A streamed completion delivers its chunks, in order, and then answers.\<close>

record 'w llm_client =
  lk_Complete :: "'w \<Rightarrow> llm_request \<Rightarrow> (gerr + llm_response) \<times> 'w"
  lk_CompleteStream :: "'w \<Rightarrow> llm_request \<Rightarrow> (string list \<times> (gerr + llm_response)) \<times> 'w"
  lk_EstimateCost :: "llm_request \<Rightarrow> gerr + real"

definition text_message :: "string \<Rightarrow> string \<Rightarrow> llm_message" where
  "text_message role content =
     \<lparr>lm_Role = role, lm_Content = content, lm_ToolCall = None, lm_ToolResult = None\<rparr>"

record mutation_entry =
  me_Approved :: bool
  me_Reason :: string

text \<open>A \<open>GroupAgent\<close> (\<open>cpn/group_agent.go\<close>): its members by ID, active and not.\<close>

record group_agent =
  gr_ID :: string
  gr_Topic :: string
  gr_active :: "string list"
  gr_nonActive :: "string list"

record 'w cpn =
  c_ID :: string
  c_Role :: string
  c_Depth :: int
  c_Mode :: mode
  c_initialMode :: mode
  c_State :: cpn_state
  c_Error :: "gerr option"
  c_Places :: "place gomap"
  c_Transitions :: "'w transition gomap"
  c_SessionID :: string
  c_LLMClient :: "'w llm_client option"
  c_HostRuntime :: "'w host_runtime option"
  c_History :: "message list"
  c_ContextWindowSize :: int
  c_RegionalVariant :: string
  c_EventSink :: "event list option"
  c_EventEmitter :: "chan option"
  c_selfBus :: "chan option"
  c_subNetBuses :: "event list gomap"
  c_Group :: "group_agent option"
  c_GroupNotifier :: "string list option"
  c_activeChildren :: nat
  c_StreamedOutput :: bool
  c_OnHITLWaiting :: "message list list option"
  c_OnHistoryChanged :: "message list list option"
  c_SeedFunc :: "(place gomap \<Rightarrow> place gomap) option"
  c_approvedFlows :: "string list"
  c_ToolRegistry :: "'w tool_registrar option"
  c_FirstRunLedger :: "'w first_run_ledger option"
  c_FlowRepository :: "'w flow_repository option"
  c_SafeRegistry :: "safe_port option"
  c_TopologyRouter :: "'w topology_router option"
  c_MutableAfterStart :: bool
  c_MutationLog :: "mutation_entry list option"

definition NewCPN ::
  "string \<Rightarrow> string \<Rightarrow> int \<Rightarrow> mode \<Rightarrow> string \<Rightarrow> place gomap \<Rightarrow> 'w transition gomap \<Rightarrow> 'w cpn" where
  "NewCPN cid role depth m sid places trs =
     \<lparr>c_ID = cid, c_Role = role, c_Depth = depth, c_Mode = m, c_initialMode = m,
      c_State = StateIdle, c_Error = None, c_Places = places, c_Transitions = trs,
      c_SessionID = sid, c_LLMClient = None, c_HostRuntime = None, c_History = [],
      c_ContextWindowSize = 0, c_RegionalVariant = [],
      c_EventSink = None, c_EventEmitter = None, c_selfBus = None, c_subNetBuses = [], c_Group = None,
      c_GroupNotifier = None, c_activeChildren = 0, c_StreamedOutput = False,
      c_OnHITLWaiting = None, c_OnHistoryChanged = None, c_SeedFunc = None,
      c_approvedFlows = [], c_ToolRegistry = None, c_FirstRunLedger = None,
      c_FlowRepository = None, c_SafeRegistry = None, c_TopologyRouter = None, c_MutableAfterStart = False, c_MutationLog = None\<rparr>"

definition setState :: "cpn_state \<Rightarrow> 'w cpn \<Rightarrow> 'w cpn" where
  "setState s c = c\<lparr>c_State := s\<rparr>"

definition setFailed :: "gerr \<Rightarrow> 'w cpn \<Rightarrow> 'w cpn" where
  "setFailed e c = c\<lparr>c_State := StateFailed, c_Error := Some e\<rparr>"

definition put_place :: "string \<Rightarrow> place \<Rightarrow> 'w cpn \<Rightarrow> 'w cpn" where
  "put_place pid p c = c\<lparr>c_Places := AList.update pid p (c_Places c)\<rparr>"

definition put_transition :: "string \<Rightarrow> 'w transition \<Rightarrow> 'w cpn \<Rightarrow> 'w cpn" where
  "put_transition tid t c = c\<lparr>c_Transitions := AList.update tid t (c_Transitions c)\<rparr>"

subsection \<open>Events\<close>

definition selfEventBusCapacity :: nat where
  "selfEventBusCapacity = 256"

definition selfEventBus :: "'w cpn \<Rightarrow> chan" where
  "selfEventBus c = (case c_selfBus c of
     None \<Rightarrow> \<lparr>ch_cap = selfEventBusCapacity, ch_buf = []\<rparr> | Some b \<Rightarrow> b)"

definition log_metric :: "metric_call \<Rightarrow> 'w cpn \<Rightarrow> 'w cpn" where
  "log_metric mc c = (case c_HostRuntime c of
     None \<Rightarrow> c
   | Some rt \<Rightarrow> (case hr_Metrics rt of
        None \<Rightarrow> c
      | Some l \<Rightarrow> c\<lparr>c_HostRuntime := Some (rt\<lparr>hr_Metrics := Some (l @ [mc])\<rparr>)\<rparr>))"

definition emit :: "event \<Rightarrow> 'w cpn \<Rightarrow> 'w cpn" where
  "emit e0 c =
     (let e = e0\<lparr>ev_CPNID := c_ID c, ev_CPNDepth := c_Depth c, ev_CPNRole := c_Role c,
                 ev_SessionID := c_SessionID c\<rparr>;
          c1 = (case c_EventSink c of None \<Rightarrow> c | Some l \<Rightarrow> c\<lparr>c_EventSink := Some (l @ [e])\<rparr>);
          c2 = (case c_EventEmitter c1 of
                  None \<Rightarrow> c1
                | Some ch \<Rightarrow> c1\<lparr>c_EventEmitter := Some (snd (ch_try_send e ch))\<rparr>)
      in if isProcessEvent (ev_Type e)
         then (let (sent, bus) = ch_try_send e (selfEventBus c2);
                   c3 = c2\<lparr>c_selfBus := Some bus\<rparr>
               in if sent then c3
                  else log_metric
                    \<lparr>mc_Dropped = True,
                     mc_SessionID = (case ev_Payload e of EvProcess pe \<Rightarrow> pp_SessionID pe | _ \<Rightarrow> []),
                     mc_Kind = ev_Type e, mc_Reason = ''self_bus_full''\<rparr> c3)
         else c2)"

text \<open>
  \<open>publish_process\<close> is the body shared by \<open>PublishProcessEvent\<close> and \<open>emitProcessEvent\<close>: rate
  limiter first, then \<open>emit\<close>, then the metrics.
\<close>

definition publish_process ::
  "string \<Rightarrow> event_type \<Rightarrow> process_payload \<Rightarrow> 'w \<Rightarrow> 'w cpn \<Rightarrow> 'w \<times> 'w cpn" where
  "publish_process tid kind pl w c =
     (let (allowed, w') = (case c_HostRuntime c of
             None \<Rightarrow> (True, w)
           | Some rt \<Rightarrow> (case hr_RateLimiter rt of None \<Rightarrow> (True, w) | Some f \<Rightarrow> f w (pp_SessionID pl)))
      in if \<not> allowed
         then (w', log_metric \<lparr>mc_Dropped = True, mc_SessionID = pp_SessionID pl, mc_Kind = kind,
                               mc_Reason = ''rate_limited''\<rparr> c)
         else (w', log_metric \<lparr>mc_Dropped = False, mc_SessionID = pp_SessionID pl, mc_Kind = kind,
                               mc_Reason = []\<rparr>
                     (emit (mk_event kind tid NodeKindBash None (EvProcess pl)) c)))"

definition PublishProcessEvent ::
  "event_type \<Rightarrow> process_payload \<Rightarrow> 'w \<Rightarrow> 'w cpn \<Rightarrow> 'w \<times> 'w cpn" where
  "PublishProcessEvent kind pl w c = publish_process [] kind pl w c"

definition PublishHostApprovalSurface :: "string \<Rightarrow> string \<Rightarrow> 'w cpn \<Rightarrow> 'w cpn" where
  "PublishHostApprovalSurface tid content c =
     emit (mk_event EventStreamChunk tid NodeKindBash None
       (EvChunk \<lparr>sc_SessionID = c_SessionID c, sc_CPNID = c_ID c, sc_CPNRole = c_Role c,
                 sc_Content = content, sc_Done = True, sc_RespondingModel = []\<rparr>)) c"

definition PublishHITLRequested :: "string \<Rightarrow> string \<Rightarrow> bool \<Rightarrow> 'w cpn \<Rightarrow> 'w cpn" where
  "PublishHITLRequested tid prompt custom c =
     emit (mk_event EventHITLRequested tid NodeKindBash None (EvHITLRequest prompt custom)) c"

text \<open>The fields \<open>emit\<close> can change are the sink, the emitter, the self bus and the metrics log.\<close>

lemma log_metric_frame [simp]:
  "c_Places (log_metric m c) = c_Places c" "c_Transitions (log_metric m c) = c_Transitions c"
  "c_Mode (log_metric m c) = c_Mode c" "c_State (log_metric m c) = c_State c"
  "c_Error (log_metric m c) = c_Error c" "c_History (log_metric m c) = c_History c"
  "c_ID (log_metric m c) = c_ID c" "c_Depth (log_metric m c) = c_Depth c"
  "c_SessionID (log_metric m c) = c_SessionID c" "c_Role (log_metric m c) = c_Role c"
  "c_subNetBuses (log_metric m c) = c_subNetBuses c"
  "c_activeChildren (log_metric m c) = c_activeChildren c"
  "c_EventSink (log_metric m c) = c_EventSink c" "c_EventEmitter (log_metric m c) = c_EventEmitter c"
  "c_selfBus (log_metric m c) = c_selfBus c" "c_initialMode (log_metric m c) = c_initialMode c"
  "c_MutableAfterStart (log_metric m c) = c_MutableAfterStart c"
  "c_MutationLog (log_metric m c) = c_MutationLog c"
  by (simp_all add: log_metric_def split: option.splits)

lemma emit_frame [simp]:
  "c_Places (emit e c) = c_Places c" "c_Transitions (emit e c) = c_Transitions c"
  "c_Mode (emit e c) = c_Mode c" "c_State (emit e c) = c_State c"
  "c_Error (emit e c) = c_Error c" "c_History (emit e c) = c_History c"
  "c_ID (emit e c) = c_ID c" "c_Depth (emit e c) = c_Depth c"
  "c_SessionID (emit e c) = c_SessionID c" "c_Role (emit e c) = c_Role c"
  "c_subNetBuses (emit e c) = c_subNetBuses c"
  "c_activeChildren (emit e c) = c_activeChildren c"
  "c_initialMode (emit e c) = c_initialMode c"
  "c_MutableAfterStart (emit e c) = c_MutableAfterStart c"
  "c_MutationLog (emit e c) = c_MutationLog c"
  by (simp_all add: emit_def Let_def split: option.splits prod.splits)

lemma publish_process_frame [simp]:
  "c_Places (snd (publish_process tid k pl w c)) = c_Places c"
  "c_Transitions (snd (publish_process tid k pl w c)) = c_Transitions c"
  "c_Mode (snd (publish_process tid k pl w c)) = c_Mode c"
  "c_State (snd (publish_process tid k pl w c)) = c_State c"
  by (simp_all add: publish_process_def split: option.splits prod.splits)

lemma state_frame [simp]:
  "c_Places (setState s c) = c_Places c" "c_Transitions (setState s c) = c_Transitions c"
  "c_Mode (setState s c) = c_Mode c" "c_State (setState s c) = s"
  "c_Places (setFailed e c) = c_Places c" "c_Transitions (setFailed e c) = c_Transitions c"
  "c_Mode (setFailed e c) = c_Mode c" "c_State (setFailed e c) = StateFailed"
  "c_Error (setFailed e c) = Some e" "c_Error (setState s c) = c_Error c"
  by (simp_all add: setState_def setFailed_def)

lemma put_frame [simp]:
  "c_Places (put_transition k t c) = c_Places c"
  "c_Transitions (put_place k p c) = c_Transitions c"
  "c_Transitions (put_transition k t c) = AList.update k t (c_Transitions c)"
  "c_Places (put_place k p c) = AList.update k p (c_Places c)"
  "c_Mode (put_place k p c) = c_Mode c" "c_Mode (put_transition k t c) = c_Mode c"
  "c_State (put_place k p c) = c_State c" "c_State (put_transition k t c) = c_State c"
  "c_ID (put_place k p c) = c_ID c" "c_Depth (put_place k p c) = c_Depth c"
  "c_SessionID (put_place k p c) = c_SessionID c"
  by (simp_all add: put_place_def put_transition_def)

subsection \<open>Modes and guards\<close>

definition setMode :: "mode \<Rightarrow> 'w cpn \<Rightarrow> 'w cpn" where
  "setMode m c =
     (let old = c_Mode c
      in if old = m then c
         else emit (mk_event EventModeSwitch [] no_kind None (EvModes old m)) (c\<lparr>c_Mode := m\<rparr>))"

definition switchModeToCentaurian :: "'w cpn \<Rightarrow> 'w cpn" where
  "switchModeToCentaurian c = setMode ModeCentaurian c"

definition isComputationTransition :: "'w cpn \<Rightarrow> 'w transition \<Rightarrow> bool" where
  "isComputationTransition c t =
     list_ex (\<lambda>pid. case map_of (c_Places c) pid of
                None \<Rightarrow> False | Some p \<Rightarrow> pl_Space p = SpaceComputation) (tr_OutputPlaces t)"

definition effectiveGuard :: "'w cpn \<Rightarrow> 'w transition \<Rightarrow> (token list \<Rightarrow> bool) option" where
  "effectiveGuard c t =
     (if c_Mode c \<noteq> ModeCentaurian then tr_Guard t
      else if tr_Kind t = NodeKindHITL then tr_Guard t
      else if \<not> isComputationTransition c t then tr_Guard t
      else case tr_Guard t of
             None \<Rightarrow> Some centaurianGuard
           | Some custom \<Rightarrow> Some (\<lambda>ts. centaurianGuard ts \<and> custom ts))"

definition effectiveCanFire ::
  "('w \<Rightarrow> int \<times> 'w) \<Rightarrow> 'w cpn \<Rightarrow> 'w transition \<Rightarrow> 'w \<Rightarrow> bool \<times> 'w transition \<times> 'w" where
  "effectiveCanFire now c t w = canFireWith now t (c_Places c) (effectiveGuard c t) w"

definition hasHumanInComputation :: "'w cpn \<Rightarrow> bool" where
  "hasHumanInComputation c =
     list_ex (\<lambda>(pid, p). pl_Space p = SpaceComputation \<and>
        (case Peek p of None \<Rightarrow> False | Some ts \<Rightarrow> list_ex IsHumanOrigin ts)) (c_Places c)"

text \<open>The loop of \<open>checkModeSwitch\<close> over the transitions: it stops at the first firable HITL one.\<close>

fun hitl_firable ::
  "('w \<Rightarrow> int \<times> 'w) \<Rightarrow> place gomap \<Rightarrow> 'w transition gomap \<Rightarrow> 'w \<Rightarrow>
   bool \<times> 'w transition gomap \<times> 'w" where
  "hitl_firable now places [] w = (False, [], w)"
| "hitl_firable now places ((k, t) # ts) w =
     (if tr_Kind t = NodeKindHITL
      then (let (ok, t', w1) = CanFire now t places w
            in if ok then (True, (k, t') # ts, w1)
               else (let (r, ts', w2) = hitl_firable now places ts w1 in (r, (k, t') # ts', w2)))
      else (let (r, ts', w2) = hitl_firable now places ts w in (r, (k, t) # ts', w2)))"

definition checkModeSwitch :: "('w \<Rightarrow> int \<times> 'w) \<Rightarrow> 'w \<Rightarrow> 'w cpn \<Rightarrow> 'w \<times> 'w cpn" where
  "checkModeSwitch now w c =
     (let human = hasHumanInComputation c
      in if c_Mode c = ModeMAS \<and> human then (w, setMode ModeCentaurian c)
         else if c_Mode c = ModeCentaurian \<and> \<not> human
         then (let (r, trs, w') = hitl_firable now (c_Places c) (c_Transitions c) w;
                   c' = c\<lparr>c_Transitions := trs\<rparr>
               in if r then (w', c') else (w', setMode ModeMAS c'))
         else (w, c))"

subsection \<open>Completion, reset, approvals\<close>

definition TerminalPlaces :: "'w cpn \<Rightarrow> place gomap" where
  "TerminalPlaces c =
     (let inputRefs = concat (map (\<lambda>(k, t). tr_InputPlaces t) (c_Transitions c))
      in filter (\<lambda>(pid, p). pid \<notin> set inputRefs) (c_Places c))"

definition IsComplete :: "'w cpn \<Rightarrow> bool" where
  "IsComplete c =
     (let terminals = TerminalPlaces c
      in terminals \<noteq> [] \<and> list_all (\<lambda>(pid, p). Len p \<noteq> 0) terminals)"

definition Reset :: "'w cpn \<Rightarrow> 'w cpn" where
  "Reset c =
     (let c1 = c\<lparr>c_State := StateIdle, c_Error := None, c_Mode := c_initialMode c,
                 c_History := [], c_StreamedOutput := False\<rparr>;
          c2 = c1\<lparr>c_Places := map (\<lambda>(pid, p). (pid, Clear p)) (c_Places c1)\<rparr>
      in case c_SeedFunc c of None \<Rightarrow> c2 | Some seed \<Rightarrow> c2\<lparr>c_Places := seed (c_Places c2)\<rparr>)"

definition HasApprovedFlow :: "string \<Rightarrow> 'w cpn \<Rightarrow> bool" where
  "HasApprovedFlow fid c = (fid \<in> set (c_approvedFlows c))"

definition MarkFlowApproved :: "string \<Rightarrow> 'w cpn \<Rightarrow> 'w cpn" where
  "MarkFlowApproved fid c =
     (if fid = [] then c else c\<lparr>c_approvedFlows := List.insert fid (c_approvedFlows c)\<rparr>)"

definition registerSubNetBus :: "string \<Rightarrow> event list \<Rightarrow> 'w cpn \<Rightarrow> 'w cpn" where
  "registerSubNetBus cid bus c = c\<lparr>c_subNetBuses := AList.update cid bus (c_subNetBuses c)\<rparr>"

definition resolveLabelForTransition :: "'w cpn \<Rightarrow> 'w transition \<Rightarrow> display_label option" where
  "resolveLabelForTransition c t =
     (if tr_Silent t then None
      else ResolveDisplayLabel (tr_Kind t) (c_Role c)
        \<lparr>tm_ToolName = tr_ToolName t, tm_ToolDetail = [],
         tm_SubNetRole = (if tr_Kind t = NodeKindSubNet
           then (case tr_SubNetRole t of None \<Rightarrow> [] | Some r \<Rightarrow> r) else [])\<rparr>)"

end
