(* ===== verification/Validation.thy ===== *)
theory Validation
  imports Nets
begin

text \<open>
  The structural check of a topology, \<open>cpn/validate.go\<close>: each \<open>check\<close> function is the list of the
  errors it reports, in order, and \<open>Validate\<close> collects them over the transitions sorted by key.
  \<open>wf_transition\<close> is the declarative reading: \<open>Validate\<close> returns nil exactly when every transition
  of the map satisfies it.
\<close>

section \<open>The checks\<close>

definition has_place :: "place gomap \<Rightarrow> string \<Rightarrow> bool" where
  "has_place places pid \<longleftrightarrow> map_of places pid \<noteq> None"

definition arc_error :: "'w transition \<Rightarrow> string \<Rightarrow> string \<Rightarrow> gerr" where
  "arc_error t what pid = Wrap [] (Sentinel ErrInvalidArc)
     ('': transition '' @ tr_ID t @ '' references non-existent '' @ what @ '' place '' @ pid)"

definition checkArcReferences :: "'w transition \<Rightarrow> place gomap \<Rightarrow> gerr list" where
  "checkArcReferences t places =
     map (arc_error t ''input'') (filter (\<lambda>pid. \<not> has_place places pid) (tr_InputPlaces t)) @
     map (arc_error t ''output'') (filter (\<lambda>pid. \<not> has_place places pid) (tr_OutputPlaces t)) @
     (if tr_ErrorPlace t \<noteq> [] \<and> \<not> has_place places (tr_ErrorPlace t)
      then [arc_error t ''error'' (tr_ErrorPlace t)] else [])"

definition in_space :: "place gomap \<Rightarrow> space \<Rightarrow> string \<Rightarrow> bool" where
  "in_space places s pid =
     (case map_of places pid of None \<Rightarrow> False | Some p \<Rightarrow> pl_Space p = s)"

definition checkSpaceViolations :: "'w transition \<Rightarrow> place gomap \<Rightarrow> gerr list" where
  "checkSpaceViolations t places =
     (if \<not> list_ex (in_space places SpaceSurface) (tr_InputPlaces t) then []
      else map (\<lambda>pid. Wrap [] (Sentinel ErrSpaceViolation)
             ('': transition '' @ tr_ID t @ '' wires Surface input to Computation output '' @ pid))
           (filter (in_space places SpaceComputation) (tr_OutputPlaces t)))"

definition checkHITLConfig :: "'w transition \<Rightarrow> gerr list" where
  "checkHITLConfig t =
     (if tr_Kind t \<noteq> NodeKindHITL then []
      else case tr_HITLConfig t of
        None \<Rightarrow> [Wrap [] (Sentinel ErrHITLMisconfigured)
                  ('': transition '' @ tr_ID t @ '' has nil HITLConfig'')]
      | Some cfg \<Rightarrow>
          (if hc_Channel cfg = None
           then [Wrap [] (Sentinel ErrHITLMisconfigured)
                  ('': transition '' @ tr_ID t @ '' has nil HITLConfig.Channel'')]
           else []))"

definition bash_output_ok :: "place gomap \<Rightarrow> string \<Rightarrow> bool" where
  "bash_output_ok places pid =
     (case map_of places pid of
        None \<Rightarrow> True
      | Some p \<Rightarrow> pl_Color p = ColorError \<or> IsShellColor (pl_Color p))"

definition checkBashConfig :: "'w transition \<Rightarrow> place gomap \<Rightarrow> gerr list" where
  "checkBashConfig t places =
     (if tr_Kind t \<noteq> NodeKindBash then []
      else case tr_BashConfig t of
        None \<Rightarrow> [Plain (''bash.missing_config: transition '' @ tr_ID t @ '' has nil BashConfig'')]
      | Some cfg \<Rightarrow>
          (if bc_Command cfg = []
           then [Plain (''bash.missing_command: transition '' @ tr_ID t @
                        '' has empty BashConfig.Command'')]
           else []) @
          map (\<lambda>pid. Plain (''bash.invalid_output_color: transition '' @ tr_ID t @
                 '' output place '' @ pid @ '' has non-shell color '' @
                 (case map_of places pid of None \<Rightarrow> [] | Some p \<Rightarrow> color_str (pl_Color p))))
            (filter (\<lambda>pid. \<not> bash_output_ok places pid) (tr_OutputPlaces t)))"

text \<open>The body of the loop of \<open>Validate\<close> for one transition.\<close>

definition check_transition :: "place gomap \<Rightarrow> 'w transition \<Rightarrow> gerr list" where
  "check_transition places tr =
     (let arcErrs = checkArcReferences tr places
      in arcErrs @
         (if arcErrs = [] \<and> tr_Kind tr \<noteq> NodeKindHITL then checkSpaceViolations tr places else []) @
         checkHITLConfig tr @ checkBashConfig tr places)"

definition validation_errors :: "place gomap \<Rightarrow> 'w transition gomap \<Rightarrow> gerr list" where
  "validation_errors places trs =
     concat (map (\<lambda>tid. case map_of trs tid of None \<Rightarrow> [] | Some tr \<Rightarrow> check_transition places tr)
       (sort (map fst trs)))"

definition Validate :: "place gomap \<Rightarrow> 'w transition gomap \<Rightarrow> gerr option" where
  "Validate places trs =
     (if trs = [] then None
      else (let errs = validation_errors places trs
            in if errs = [] then None else Some (Multi errs)))"

section \<open>What a valid topology is\<close>

definition arcs_ok :: "place gomap \<Rightarrow> 'w transition \<Rightarrow> bool" where
  "arcs_ok places t \<longleftrightarrow>
     (\<forall>pid \<in> set (tr_InputPlaces t @ tr_OutputPlaces t). map_of places pid \<noteq> None) \<and>
     (tr_ErrorPlace t = [] \<or> map_of places (tr_ErrorPlace t) \<noteq> None)"

definition bridges_space :: "place gomap \<Rightarrow> 'w transition \<Rightarrow> bool" where
  "bridges_space places t \<longleftrightarrow>
     (\<exists>i \<in> set (tr_InputPlaces t). in_space places SpaceSurface i) \<and>
     (\<exists>q \<in> set (tr_OutputPlaces t). in_space places SpaceComputation q)"

definition hitl_ok :: "'w transition \<Rightarrow> bool" where
  "hitl_ok t \<longleftrightarrow> (tr_Kind t = NodeKindHITL \<longrightarrow>
     (\<exists>cfg. tr_HITLConfig t = Some cfg \<and> hc_Channel cfg \<noteq> None))"

definition bash_ok :: "place gomap \<Rightarrow> 'w transition \<Rightarrow> bool" where
  "bash_ok places t \<longleftrightarrow> (tr_Kind t = NodeKindBash \<longrightarrow>
     (\<exists>cfg. tr_BashConfig t = Some cfg \<and> bc_Command cfg \<noteq> []) \<and>
     (\<forall>q \<in> set (tr_OutputPlaces t). bash_output_ok places q))"

definition wf_transition :: "place gomap \<Rightarrow> 'w transition \<Rightarrow> bool" where
  "wf_transition places t \<longleftrightarrow> arcs_ok places t \<and>
     (tr_Kind t \<noteq> NodeKindHITL \<longrightarrow> \<not> bridges_space places t) \<and> hitl_ok t \<and> bash_ok places t"

lemma checkArcReferences_Nil_iff: "checkArcReferences t places = [] \<longleftrightarrow> arcs_ok places t"
  by (auto simp: checkArcReferences_def arcs_ok_def has_place_def filter_empty_conv)

lemma checkSpaceViolations_Nil_iff:
  "checkSpaceViolations t places = [] \<longleftrightarrow> \<not> bridges_space places t"
  by (auto simp: checkSpaceViolations_def bridges_space_def filter_empty_conv list_ex_iff)

lemma checkHITLConfig_Nil_iff: "checkHITLConfig t = [] \<longleftrightarrow> hitl_ok t"
  by (auto simp: checkHITLConfig_def hitl_ok_def split: option.splits)

lemma checkBashConfig_Nil_iff: "checkBashConfig t places = [] \<longleftrightarrow> bash_ok places t"
  by (auto simp: checkBashConfig_def bash_ok_def filter_empty_conv split: option.splits)

lemmas check_Nil_iffs = checkArcReferences_Nil_iff checkSpaceViolations_Nil_iff
  checkHITLConfig_Nil_iff checkBashConfig_Nil_iff

lemma check_transition_Nil_iff: "check_transition places t = [] \<longleftrightarrow> wf_transition places t"
  by (auto simp: check_transition_def wf_transition_def check_Nil_iffs Let_def)

lemma validation_errors_in_iff:
  "e \<in> set (validation_errors places trs) \<longleftrightarrow>
     (\<exists>k t. map_of trs k = Some t \<and> e \<in> set (check_transition places t))"
proof
  assume "e \<in> set (validation_errors places trs)"
  then obtain k where
    k: "e \<in> set (case map_of trs k of None \<Rightarrow> [] | Some tr \<Rightarrow> check_transition places tr)"
    by (auto simp only: validation_errors_def set_concat set_map)
  show "\<exists>k t. map_of trs k = Some t \<and> e \<in> set (check_transition places t)"
  proof (cases "map_of trs k")
    case None
    with k show ?thesis by simp
  next
    case (Some t)
    with k have "e \<in> set (check_transition places t)" by simp
    with Some show ?thesis by blast
  qed
next
  assume "\<exists>k t. map_of trs k = Some t \<and> e \<in> set (check_transition places t)"
  then obtain k t where k: "map_of trs k = Some t" "e \<in> set (check_transition places t)" by blast
  moreover have "k \<in> set (sort (map fst trs))" using map_of_SomeD2[OF k(1)] by simp
  ultimately show "e \<in> set (validation_errors places trs)"
    unfolding validation_errors_def set_concat set_map image_image by (intro UN_I[of k]) simp_all
qed

lemma Validate_None: "Validate places trs = None \<longleftrightarrow> validation_errors places trs = []"
  by (auto simp: Validate_def validation_errors_def Let_def)

lemma validate_ok_wf:
  "Validate places trs = None \<longleftrightarrow> (\<forall>k t. map_of trs k = Some t \<longrightarrow> wf_transition places t)"
proof -
  have "validation_errors places trs = [] \<longleftrightarrow>
    (\<forall>k t. map_of trs k = Some t \<longrightarrow> check_transition places t = [])"
    using validation_errors_in_iff[of _ places trs] by (metis ex_in_conv set_empty)
  then show ?thesis by (simp add: Validate_None check_transition_Nil_iff)
qed

lemma check_transition_invalid_arc:
  "(\<exists>e \<in> set (check_transition places t). err_is e ErrInvalidArc) \<longleftrightarrow> \<not> arcs_ok places t"
proof -
  have "\<not> err_is e ErrInvalidArc"
    if "e \<in> set (checkSpaceViolations t places @ checkHITLConfig t @ checkBashConfig t places)" for e
    using that
    by (auto simp: checkSpaceViolations_def checkHITLConfig_def checkBashConfig_def
        split: option.splits if_splits)
  moreover have "err_is e ErrInvalidArc" if "e \<in> set (checkArcReferences t places)" for e
    using that by (auto simp: checkArcReferences_def arc_error_def split: if_splits)
  ultimately show ?thesis
    unfolding checkArcReferences_Nil_iff[symmetric] check_transition_def Let_def
    by (cases "checkArcReferences t places") (auto split: if_splits)
qed

lemma check_transition_space_violation:
  "(\<exists>e \<in> set (check_transition places t). err_is e ErrSpaceViolation) \<longleftrightarrow>
     arcs_ok places t \<and> tr_Kind t \<noteq> NodeKindHITL \<and> bridges_space places t"
proof -
  have n: "\<not> err_is e ErrSpaceViolation"
    if "e \<in> set (checkArcReferences t places @ checkHITLConfig t @ checkBashConfig t places)" for e
    using that
    by (auto simp: checkArcReferences_def arc_error_def checkHITLConfig_def checkBashConfig_def
        split: option.splits if_splits)
  have y: "err_is e ErrSpaceViolation" if "e \<in> set (checkSpaceViolations t places)" for e
    using that by (auto simp: checkSpaceViolations_def split: if_splits)
  have ne: "(\<exists>e. e \<in> set (checkSpaceViolations t places)) \<longleftrightarrow> bridges_space places t"
    by (metis checkSpaceViolations_Nil_iff ex_in_conv set_empty)
  show ?thesis
    unfolding checkArcReferences_Nil_iff[symmetric] ne[symmetric] check_transition_def Let_def
    using n y by (auto split: if_splits)
qed

lemma validation_errors_Nil: "validation_errors places [] = []"
  by (simp add: validation_errors_def)

lemma Validate_err_is:
  "(\<exists>e. Validate places trs = Some e \<and> err_is e s) \<longleftrightarrow>
     (\<exists>k t. map_of trs k = Some t \<and> (\<exists>e \<in> set (check_transition places t). err_is e s))"
proof -
  have "(\<exists>e. Validate places trs = Some e \<and> err_is e s) \<longleftrightarrow>
      (\<exists>e \<in> set (validation_errors places trs). err_is e s)"
    by (cases "trs = []") (auto simp: Validate_def Let_def list_ex_iff validation_errors_Nil)
  then show ?thesis using validation_errors_in_iff[of _ places trs] by blast
qed

text \<open>
  The error value is the same for every order in which the map may be iterated.
\<close>

lemma validation_errors_perm:
  assumes "mset trs = mset trs'" and "distinct (map fst trs)"
  shows "validation_errors places trs = validation_errors places trs'"
proof -
  have s: "sort (map fst trs) = sort (map fst trs')"
    using assms(1) by (metis mset_map properties_for_sort sorted_sort mset_sort)
  have "map_of trs = map_of trs'"
    using assms by (metis mset_eq_imp_distinct_iff mset_map map_of_inject_set set_mset_mset)
  then show ?thesis by (simp add: validation_errors_def s)
qed

end
