(* ===== verification/Mutation.thy ===== *)
theory Mutation
  imports Validation
begin

text \<open>
  Topology mutations at run time, \<open>cpn/cpn_mutate.go\<close>: \<open>CPN.Mutate\<close> and its three \<open>apply\<close>
  functions. The maps hold pointers and the rollback copies the maps only, so after a rejected
  mutation the net has the keys of the snapshot but the objects as the mutation left them;
  \<open>restore_map\<close> states that.
\<close>

section \<open>Mutations\<close>

datatype mutation_kind =
  MutationAddPlace | MutationAddTransition | MutationDeprecateTransition | MutationOther string

fun mutation_kind_str :: "mutation_kind \<Rightarrow> string" where
  "mutation_kind_str MutationAddPlace = ''add_place''"
| "mutation_kind_str MutationAddTransition = ''add_transition''"
| "mutation_kind_str MutationDeprecateTransition = ''deprecate_transition''"
| "mutation_kind_str (MutationOther s) = s"

record place_def =
  pd_ID :: string
  pd_Color :: color
  pd_Space :: space

record transition_def =
  td_ID :: string
  td_Kind :: node_kind
  td_InputPlaces :: "string list"
  td_OutputPlaces :: "string list"

record mutation =
  mu_Kind :: mutation_kind
  mu_RequestedBy :: string
  mu_Reason :: string
  mu_AddPlace :: "place_def option"
  mu_AddTransition :: "transition_def option"
  mu_DeprecateTransitionID :: string
  mu_DeprecateReason :: string

definition applyAddPlace :: "mutation \<Rightarrow> 'w cpn \<Rightarrow> gerr option \<times> 'w cpn" where
  "applyAddPlace m c = (case mu_AddPlace m of
     None \<Rightarrow> (Some (Plain ''add_place mutation missing PlaceDef''), c)
   | Some def \<Rightarrow>
       (if pd_ID def = [] then (Some (Plain ''add_place: place ID must not be empty''), c)
        else if map_of (c_Places c) (pd_ID def) \<noteq> None
        then (Some (Plain (''add_place: place '' @ fmt_q (pd_ID def) @ '' already exists (CON-001)'')), c)
        else (None, put_place (pd_ID def) (NewPlace (pd_ID def) (pd_Color def) (pd_Space def)) c)))"

fun first_missing :: "place gomap \<Rightarrow> string list \<Rightarrow> string option" where
  "first_missing places [] = None"
| "first_missing places (pid # pids) =
     (if map_of places pid = None then Some pid else first_missing places pids)"

text \<open>The struct literal sets four fields, so \<open>Silent\<close> is false for every kind.\<close>

definition transition_of_def :: "transition_def \<Rightarrow> 'w transition" where
  "transition_of_def def =
     (NewTransition (td_ID def) (td_Kind def) (td_InputPlaces def) (td_OutputPlaces def))
       \<lparr>tr_Silent := False\<rparr>"

definition applyAddTransition :: "mutation \<Rightarrow> 'w cpn \<Rightarrow> gerr option \<times> 'w cpn" where
  "applyAddTransition m c = (case mu_AddTransition m of
     None \<Rightarrow> (Some (Plain ''add_transition mutation missing TransitionDef''), c)
   | Some def \<Rightarrow>
       (if td_ID def = [] then (Some (Plain ''add_transition: transition ID must not be empty''), c)
        else if map_of (c_Transitions c) (td_ID def) \<noteq> None
        then (Some (Plain (''add_transition: transition '' @ fmt_q (td_ID def) @ '' already exists'')), c)
        else case first_missing (c_Places c) (td_InputPlaces def) of
          Some pid \<Rightarrow>
            (Some (Plain (''add_transition: input place '' @ fmt_q pid @ '' does not exist (CON-002)'')), c)
        | None \<Rightarrow>
            (case first_missing (c_Places c) (td_OutputPlaces def) of
               Some pid \<Rightarrow>
                 (Some (Plain (''add_transition: output place '' @ fmt_q pid @
                    '' does not exist (CON-002)'')), c)
             | None \<Rightarrow> (None, put_transition (td_ID def) (transition_of_def def) c))))"

definition applyDeprecateTransition :: "mutation \<Rightarrow> 'w cpn \<Rightarrow> gerr option \<times> 'w cpn" where
  "applyDeprecateTransition m c =
     (let tid = mu_DeprecateTransitionID m
      in if tid = [] then (Some (Plain ''deprecate_transition: transition ID must not be empty''), c)
         else case map_of (c_Transitions c) tid of
           None \<Rightarrow>
             (Some (Plain (''deprecate_transition: transition '' @ fmt_q tid @ '' not found'')), c)
         | Some t \<Rightarrow>
             (None, put_transition tid
                (t\<lparr>tr_Deprecated := True, tr_DeprecateReason := mu_DeprecateReason m\<rparr>) c))"

definition restore_map :: "'v gomap \<Rightarrow> 'v gomap \<Rightarrow> 'v gomap" where
  "restore_map snap cur = map (\<lambda>(k, v). (k, case map_of cur k of None \<Rightarrow> v | Some v' \<Rightarrow> v')) snap"

definition rejected_event :: "mutation \<Rightarrow> string \<Rightarrow> event" where
  "rejected_event m reason = mk_event EventTopologyMutationRejected [] no_kind None
     (EvFields [(''reason'', reason), (''mutation_kind'', mutation_kind_str (mu_Kind m))])"

definition log_mutation :: "bool \<Rightarrow> string \<Rightarrow> 'w cpn \<Rightarrow> 'w cpn" where
  "log_mutation approved reason c = (case c_MutationLog c of
     None \<Rightarrow> c
   | Some l \<Rightarrow> c\<lparr>c_MutationLog := Some (l @ [\<lparr>me_Approved = approved, me_Reason = reason\<rparr>])\<rparr>)"

definition apply_mutation :: "mutation \<Rightarrow> 'w cpn \<Rightarrow> gerr option \<times> 'w cpn" where
  "apply_mutation m c = (case mu_Kind m of
     MutationAddPlace \<Rightarrow> applyAddPlace m c
   | MutationAddTransition \<Rightarrow> applyAddTransition m c
   | MutationDeprecateTransition \<Rightarrow> applyDeprecateTransition m c
   | MutationOther s \<Rightarrow> (Some (Plain (''unknown mutation kind '' @ fmt_q s)), c))"

text \<open>The two rejection branches after the snapshot: restore the maps, emit, log.\<close>

definition rollback_mutation :: "mutation \<Rightarrow> gerr \<Rightarrow> 'w cpn \<Rightarrow> 'w cpn \<Rightarrow> 'w cpn" where
  "rollback_mutation m e snap c =
     log_mutation False (err_text e)
       (emit (rejected_event m (err_text e))
          (c\<lparr>c_Places := restore_map (c_Places snap) (c_Places c),
             c_Transitions := restore_map (c_Transitions snap) (c_Transitions c)\<rparr>))"

definition Mutate :: "mutation \<Rightarrow> 'w cpn \<Rightarrow> gerr option \<times> 'w cpn" where
  "Mutate m c =
     (if \<not> c_MutableAfterStart c
      then (Some (Sentinel ErrMutationNotPermitted), emit (rejected_event m ''MutableAfterStart not set'') c)
      else (let (applyErr, c1) = apply_mutation m c
            in case applyErr of
                 Some e \<Rightarrow> (Some e, rollback_mutation m e c c1)
               | None \<Rightarrow>
                   (case Validate (c_Places c1) (c_Transitions c1) of
                      Some e \<Rightarrow> (Some e, rollback_mutation m e c c1)
                    | None \<Rightarrow>
                        (None, log_mutation True []
                          (emit (mk_event EventTopologyMutated [] no_kind None
                             (EvFields [(''mutation_kind'', mutation_kind_str (mu_Kind m)),
                                        (''requested_by'', mu_RequestedBy m),
                                        (''reason'', mu_Reason m)])) c1)))))"

section \<open>Facts about mutations\<close>

lemma log_mutation_frame [simp]:
  "c_Places (log_mutation a r c) = c_Places c" "c_Transitions (log_mutation a r c) = c_Transitions c"
  "c_Mode (log_mutation a r c) = c_Mode c" "c_State (log_mutation a r c) = c_State c"
  by (simp_all add: log_mutation_def split: option.splits)

lemma restore_map_keys [simp]: "map fst (restore_map snap cur) = map fst snap"
  by (induction snap) (auto simp: restore_map_def)

lemma map_of_restore:
  "map_of (restore_map snap cur) k = (case map_of snap k of
     None \<Rightarrow> None
   | Some v \<Rightarrow> Some (case map_of cur k of None \<Rightarrow> v | Some v' \<Rightarrow> v'))"
  by (induction snap) (auto simp: restore_map_def split: option.splits)

lemma restore_map_same: "distinct (map fst snap) \<Longrightarrow> restore_map snap snap = snap"
  unfolding restore_map_def by (rule map_idI) (auto split: option.splits)

lemma restore_map_fresh:
  assumes "distinct (map fst snap)" and "map_of snap k = None"
  shows "restore_map snap (AList.update k v snap) = snap"
  unfolding restore_map_def
proof (rule map_idI)
  fix x
  assume x: "x \<in> set snap"
  then have "fst x \<noteq> k" using assms(2) by (metis map_of_eq_None_iff image_eqI)
  moreover have "map_of snap (fst x) = Some (snd x)" using x assms(1) by simp
  ultimately show "(case x of (k', v') \<Rightarrow> (k', case map_of (AList.update k v snap) k' of
      None \<Rightarrow> v' | Some v'' \<Rightarrow> v'')) = x"
    by (cases x) simp
qed

lemmas apply_defs = apply_mutation_def applyAddPlace_def applyAddTransition_def
  applyDeprecateTransition_def

text \<open>The shape of the net after each of the three mutations.\<close>

lemma applyAddPlace_shape:
  "applyAddPlace m c = (r, c1) \<Longrightarrow>
   c1 = c \<or> (\<exists>k i q s. map_of (c_Places c) k = None \<and> c1 = put_place k (NewPlace i q s) c)"
  unfolding applyAddPlace_def by (cases "mu_AddPlace m") (auto split: if_splits)

lemma applyAddTransition_shape:
  "applyAddTransition m c = (r, c1) \<Longrightarrow>
   c1 = c \<or> (\<exists>k t. map_of (c_Transitions c) k = None \<and> c1 = put_transition k t c)"
  unfolding applyAddTransition_def
  by (cases "mu_AddTransition m") (auto split: if_splits option.splits)

lemma applyDeprecateTransition_shape:
  "applyDeprecateTransition m c = (r, c1) \<Longrightarrow>
   c1 = c \<or> (\<exists>t. map_of (c_Transitions c) (mu_DeprecateTransitionID m) = Some t \<and>
     c1 = put_transition (mu_DeprecateTransitionID m)
       (t\<lparr>tr_Deprecated := True, tr_DeprecateReason := mu_DeprecateReason m\<rparr>) c)"
  unfolding applyDeprecateTransition_def Let_def by (auto split: if_splits option.splits)

lemma apply_mutation_cases [consumes 1, case_names same place fresh depr]:
  assumes "apply_mutation m c = (r, c1)"
  obtains "c1 = c"
  | k i q s where "map_of (c_Places c) k = None" "c1 = put_place k (NewPlace i q s) c"
  | k t where "map_of (c_Transitions c) k = None" "c1 = put_transition k t c"
  | t where "mu_Kind m = MutationDeprecateTransition"
      "map_of (c_Transitions c) (mu_DeprecateTransitionID m) = Some t"
      "c1 = put_transition (mu_DeprecateTransitionID m)
         (t\<lparr>tr_Deprecated := True, tr_DeprecateReason := mu_DeprecateReason m\<rparr>) c"
proof (cases "mu_Kind m")
  case MutationAddPlace
  then have "applyAddPlace m c = (r, c1)" using assms by (simp add: apply_mutation_def)
  from applyAddPlace_shape[OF this] that(1,2) show thesis by blast
next
  case MutationAddTransition
  then have "applyAddTransition m c = (r, c1)" using assms by (simp add: apply_mutation_def)
  from applyAddTransition_shape[OF this] that(1,3) show thesis by blast
next
  case MutationDeprecateTransition
  then have "applyDeprecateTransition m c = (r, c1)" using assms by (simp add: apply_mutation_def)
  from applyDeprecateTransition_shape[OF this] that(1) that(4)[OF MutationDeprecateTransition]
  show thesis by blast
next
  case (MutationOther s)
  then show thesis using assms that(1) by (simp add: apply_mutation_def)
qed

lemma apply_mutation_error_unchanged: "apply_mutation m c = (Some e, c1) \<Longrightarrow> c1 = c"
  by (auto simp: apply_defs Let_def split: mutation_kind.splits option.splits if_splits)

lemma apply_mutation_frame:
  "apply_mutation m c = (r, c1) \<Longrightarrow>
   c_Mode c1 = c_Mode c \<and> c_State c1 = c_State c \<and>
   c_MutableAfterStart c1 = c_MutableAfterStart c"
  by (erule apply_mutation_cases) (simp_all add: put_place_def put_transition_def)

lemma Mutate_ok_valid:
  "Mutate m c = (None, c') \<Longrightarrow> Validate (c_Places c') (c_Transitions c') = None"
  by (auto simp: Mutate_def Let_def split: if_splits prod.splits option.splits)

text \<open>
  What a rejected mutation leaves behind: the places are as before, and the only transition that
  can differ is the one a deprecation has marked in place.
\<close>

lemma Mutate_error_places:
  assumes d: "distinct (map fst (c_Places c))" and r: "Mutate m c = (Some e, c')"
  shows "c_Places c' = c_Places c"
proof (cases "c_MutableAfterStart c")
  case False
  with r show ?thesis by (auto simp: Mutate_def)
next
  case True
  obtain ae c1 where a: "apply_mutation m c = (ae, c1)" by force
  have pl: "c_Places c' = restore_map (c_Places c) (c_Places c1)"
    using r True a by (auto simp: Mutate_def rollback_mutation_def split: option.splits)
  from a show ?thesis
    by (cases rule: apply_mutation_cases) (use d in \<open>simp_all add: pl restore_map_same restore_map_fresh\<close>)
qed

lemma Mutate_error_transitions:
  assumes d: "distinct (map fst (c_Transitions c))" and r: "Mutate m c = (Some e, c')"
  shows "c_Transitions c' = c_Transitions c \<or>
    (mu_Kind m = MutationDeprecateTransition \<and>
     (\<exists>t. map_of (c_Transitions c) (mu_DeprecateTransitionID m) = Some t \<and>
        (\<forall>k. map_of (c_Transitions c') k =
           (if k = mu_DeprecateTransitionID m
            then Some (t\<lparr>tr_Deprecated := True, tr_DeprecateReason := mu_DeprecateReason m\<rparr>)
            else map_of (c_Transitions c) k))))"
proof (cases "c_MutableAfterStart c")
  case False
  with r show ?thesis by (auto simp: Mutate_def)
next
  case True
  obtain ae c1 where a: "apply_mutation m c = (ae, c1)" by force
  have tr: "c_Transitions c' = restore_map (c_Transitions c) (c_Transitions c1)"
    using r True a by (auto simp: Mutate_def rollback_mutation_def split: option.splits)
  from a show ?thesis
  proof (cases rule: apply_mutation_cases)
    case (fresh k t)
    with tr d show ?thesis by (simp add: restore_map_fresh)
  next
    case (depr t)
    then have "\<forall>k. map_of (c_Transitions c') k =
        (if k = mu_DeprecateTransitionID m
         then Some (t\<lparr>tr_Deprecated := True, tr_DeprecateReason := mu_DeprecateReason m\<rparr>)
         else map_of (c_Transitions c) k)"
      by (simp add: tr map_of_restore split: option.split)
    with depr(1,2) show ?thesis by blast
  qed (use tr d in \<open>simp_all add: restore_map_same\<close>)
qed

end
