(* ===== verification/Utf8.thy ===== *)
theory Utf8
  imports Prelude
begin

text \<open>
  How Go ranges over a string: rune by rune, where a byte that does not start a well-formed
  encoding is one rune of its own, U+FFFD. \<open>runes\<close> is the list of the encodings that
  \<open>strings.Builder.WriteRune\<close> writes back, \<open>utf8_valid\<close> is \<open>utf8.ValidString\<close>.
\<close>

definition in_range :: "nat \<Rightarrow> nat \<Rightarrow> char \<Rightarrow> bool" where
  "in_range lo hi c \<longleftrightarrow> lo \<le> (of_char c :: nat) \<and> (of_char c :: nat) \<le> hi"

abbreviation cont :: "char \<Rightarrow> bool" where
  "cont \<equiv> in_range 0x80 0xBF"

text \<open>The length of the well-formed encoding at the head of the string; 0 when there is none.\<close>

definition utf8_len :: "string \<Rightarrow> nat" where
  "utf8_len s = (case s of
     [] \<Rightarrow> 0
   | b0 # t \<Rightarrow>
       (if in_range 0 0x7F b0 then 1
        else case t of
          [] \<Rightarrow> 0
        | b1 # u \<Rightarrow>
            (if in_range 0xC2 0xDF b0 \<and> cont b1 then 2
             else case u of
               [] \<Rightarrow> 0
             | b2 # v \<Rightarrow>
                 (if ((in_range 0xE0 0xE0 b0 \<and> in_range 0xA0 0xBF b1) \<or>
                      (in_range 0xE1 0xEC b0 \<and> cont b1) \<or>
                      (in_range 0xED 0xED b0 \<and> in_range 0x80 0x9F b1) \<or>
                      (in_range 0xEE 0xEF b0 \<and> cont b1)) \<and> cont b2 then 3
                  else case v of
                    [] \<Rightarrow> 0
                  | b3 # _ \<Rightarrow>
                      (if ((in_range 0xF0 0xF0 b0 \<and> in_range 0x90 0xBF b1) \<or>
                           (in_range 0xF1 0xF3 b0 \<and> cont b1) \<or>
                           (in_range 0xF4 0xF4 b0 \<and> in_range 0x80 0x8F b1)) \<and> cont b2 \<and> cont b3
                       then 4 else 0)))))"

definition replacement :: string where
  "replacement = [CHR 0xEF, CHR 0xBF, CHR 0xBD]"

function runes :: "string \<Rightarrow> string list" where
  "runes s =
     (if s = [] then []
      else if utf8_len s = 0 then replacement # runes (tl s)
      else take (utf8_len s) s # runes (drop (utf8_len s) s))"
  by pat_completeness auto
termination
  by (relation "measure length") auto

declare runes.simps [simp del]

function utf8_valid :: "string \<Rightarrow> bool" where
  "utf8_valid s = (if s = [] then True else if utf8_len s = 0 then False else utf8_valid (drop (utf8_len s) s))"
  by pat_completeness auto
termination
  by (relation "measure length") auto

declare utf8_valid.simps [simp del]

lemma runes_Nil [simp]: "runes [] = []"
  by (simp add: runes.simps)

lemma utf8_valid_Nil [simp]: "utf8_valid []"
  by (simp add: utf8_valid.simps)

lemma runes_nonempty: "r \<in> set (runes s) \<Longrightarrow> r \<noteq> []"
proof (induction s rule: runes.induct)
  case (1 s)
  from 1(3) show ?case
    by (subst (asm) runes.simps)
      (auto simp: replacement_def split: if_splits dest: 1(1,2))
qed

lemma runes_ascii:
  "list_all (in_range 0 0x7F) s \<Longrightarrow> runes s = map (\<lambda>c. [c]) s"
proof (induction s)
  case (Cons c s)
  then have "utf8_len (c # s) = 1" by (simp add: utf8_len_def)
  with Cons show ?case by (subst runes.simps) simp
qed simp

lemma runes_concat_valid: "utf8_valid s \<Longrightarrow> concat (runes s) = s"
proof (induction s rule: runes.induct)
  case (1 s)
  show ?case
  proof (cases "s = []")
    case False
    with 1(3) have l: "utf8_len s \<noteq> 0" "utf8_valid (drop (utf8_len s) s)"
      by (subst (asm) utf8_valid.simps; simp split: if_splits)+
    with False 1(2)[OF False l(1) l(2)] show ?thesis by (subst runes.simps) simp
  qed simp
qed

end
