(* ===== verification/Memory.thy ===== *)
theory Memory
  imports Nets Utf8 "HOL-Library.Word"
begin

text \<open>
  The context of an LLM call, \<open>cpn/memory.go\<close>: the three tiers of \<open>BuildContext\<close>, the token estimate,
  and the summary a finished sub-net leaves in its parent's history. The random bytes of a message ID
  and the \<open>%v\<close> of a payload are parameters.
\<close>

section \<open>The context window\<close>

definition DefaultContextWindowSize :: int where "DefaultContextWindowSize = 10"

record context_window =
  cw_SystemPrompt :: string
  cw_Messages :: "llm_message list"
  cw_InputTokenEstimate :: int

definition observer_messages :: "message list \<Rightarrow> llm_message list" where
  "observer_messages history =
     map (\<lambda>m. text_message ''assistant'' (''[Summary from '' @ ms_CPNRole m @ '']: '' @ ms_Content m))
       (filter (\<lambda>m. ms_Role m = RoleObserver) history)"

definition filterRaw :: "message list \<Rightarrow> message list" where
  "filterRaw history = filter (\<lambda>m. ms_Role m = RoleUser \<or> ms_Role m = RoleAssistant) history"

text \<open>\<open>None\<close> is the panic of the slice expression. The product wraps in 64 bits: from \<open>2 ^ 62\<close> on it is negative,
  and the slice starts beyond the end.\<close>

definition window_messages :: "message list \<Rightarrow> int \<Rightarrow> llm_message list option" where
  "window_messages history sz =
     (if sz > 0
      then (let raw = filterRaw history; limit = wrap64 (sz * 2); len = int (length raw);
                start = (if len > limit then wrap64 (len - limit) else 0)
            in if 0 \<le> start \<and> start \<le> len
               then Some (map (\<lambda>m. text_message (role_str (ms_Role m)) (ms_Content m)) (drop (nat start) raw))
               else None)
      else Some [])"

fun estimate_loop :: "int \<Rightarrow> llm_message list \<Rightarrow> int" where
  "estimate_loop n [] = n"
| "estimate_loop n (m # ms) = estimate_loop (n + int (length (lm_Content m) div 4) + 4) ms"

definition estimateTokens :: "string \<Rightarrow> llm_message list \<Rightarrow> int" where
  "estimateTokens sys ms = estimate_loop (int (length sys div 4)) ms"

definition BuildContext :: "string \<Rightarrow> message list \<Rightarrow> int \<Rightarrow> context_window option" where
  "BuildContext sys history sz = map_option (\<lambda>window.
     let ms = observer_messages history @ window
     in \<lparr>cw_SystemPrompt = sys, cw_Messages = ms, cw_InputTokenEstimate = estimateTokens sys ms\<rparr>)
       (window_messages history sz)"

section \<open>Summaries\<close>

fun summary_loop :: "(payload \<Rightarrow> string) \<Rightarrow> bool \<Rightarrow> token list \<Rightarrow> string \<Rightarrow> string" where
  "summary_loop sprint later [] b = b"
| "summary_loop sprint later (t # ts) b =
     (let b1 = b @ (if later then ''; '' else []) @ sprint (tok_Payload t)
      in if length b1 \<ge> 500 then b1 else summary_loop sprint True ts b1)"

text \<open>The loop that drops bytes until the text is valid UTF-8.\<close>

fun drop_partial :: "nat \<Rightarrow> string \<Rightarrow> string" where
  "drop_partial 0 s = s"
| "drop_partial (Suc n) s = (if s \<noteq> [] \<and> \<not> utf8_valid s then drop_partial n (butlast s) else s)"

definition formatSummary :: "(payload \<Rightarrow> string) \<Rightarrow> string \<Rightarrow> int \<Rightarrow> token list \<Rightarrow> string" where
  "formatSummary sprint role depth toks =
     (let head = ''[depth-'' @ fmt_d depth @ '' '' @ role @ ''] produced ''
      in if toks = [] then head @ ''0 output(s)''
         else (let s = summary_loop sprint False toks (head @ fmt_d (int (length toks)) @ '' output(s): '')
               in if length s > 500 then drop_partial 500 (take 500 s) else s))"

text \<open>\<open>newUUID\<close> on the sixteen random bytes.\<close>

definition hex_bytes :: "8 word list \<Rightarrow> string" where
  "hex_bytes bs = concat (map (\<lambda>b. [hex_digit (unat b div 16), hex_digit (unat b mod 16)]) bs)"

unbundle bit_operations_syntax

definition uuid_bits :: "8 word list \<Rightarrow> 8 word list" where
  "uuid_bits bs = bs[6 := (bs ! 6 AND 0x0F) OR 0x40, 8 := (bs ! 8 AND 0x3F) OR 0x80]"

definition newUUID :: "8 word list \<Rightarrow> string" where
  "newUUID bytes =
     (let u = uuid_bits bytes
      in hex_bytes (take 4 u) @ ''-'' @ hex_bytes (take 2 (drop 4 u)) @ ''-'' @
         hex_bytes (take 2 (drop 6 u)) @ ''-'' @ hex_bytes (take 2 (drop 8 u)) @ ''-'' @
         hex_bytes (take 6 (drop 10 u)))"

definition CompressSubNetSummary ::
  "(payload \<Rightarrow> string) \<Rightarrow> gerr + 8 word list \<Rightarrow> string \<Rightarrow> string \<Rightarrow> int \<Rightarrow> token list \<Rightarrow> gerr + message" where
  "CompressSubNetSummary sprint rand childID role depth toks = (case rand of
     Inl e \<Rightarrow> Inl (Wrap ''compress sub-net summary: '' (Wrap ''generate UUID: '' e []) [])
   | Inr bytes \<Rightarrow>
       Inr \<lparr>ms_ID = newUUID bytes, ms_Role = RoleObserver,
            ms_Content = formatSummary sprint role depth toks, ms_CPNID = childID,
            ms_CPNRole = role, ms_CPNDepth = depth, ms_ParentMessageID = []\<rparr>)"

section \<open>Lemmas\<close>

text \<open>Below \<open>2 ^ 62\<close> the window is the end of the raw history, at most two messages per turn. From there on a size
  that fits in an \<open>int\<close> makes the slice panic: no history reaches the addresses the wrapped limit asks for.\<close>

lemma window_messages_small:
  assumes "sz < 2 ^ 62" and "int64 (int (length (filterRaw history)))"
  shows "window_messages history sz = Some (if 0 < sz
    then map (\<lambda>m. text_message (role_str (ms_Role m)) (ms_Content m))
      (drop (length (filterRaw history) - nat (sz * 2)) (filterRaw history)) else [])"
proof (cases "0 < sz")
  case True
  then have w: "wrap64 (sz * 2) = sz * 2" using assms(1) by (intro wrap64_id) (simp add: int64_def)
  have "int (length (filterRaw history)) < 2 ^ 63" using assms(2) by (simp add: int64_def)
  then have "wrap64 (int (length (filterRaw history)) - sz * 2) = int (length (filterRaw history)) - sz * 2"
    using True assms(1) by (intro wrap64_id) (simp add: int64_def)
  then show ?thesis using True by (auto simp: window_messages_def Let_def w nat_diff_distrib')
qed (simp add: window_messages_def)

lemma window_messages_panic:
  assumes "2 ^ 62 \<le> sz" and "int64 sz" and "length (filterRaw history) < 2 ^ 62"
  shows "window_messages history sz = None"
proof -
  have "sz < 2 ^ 63" using assms(2) by (simp add: int64_def)
  then have "(sz * 2 + 2 ^ 63) mod 2 ^ 64 = sz * 2 + 2 ^ 63 - 2 ^ 64"
    using assms(1) by (simp add: mod_pos_geq mod_pos_pos_trivial)
  then have w: "wrap64 (sz * 2) = sz * 2 - 2 ^ 64" by (simp add: wrap64_def)
  have len: "int (length (filterRaw history)) < 2 ^ 62" using assms(3) by (simp flip: of_nat_less_iff)
  have start: "wrap64 (int (length (filterRaw history)) - (sz * 2 - 2 ^ 64)) < 0 \<or>
      wrap64 (int (length (filterRaw history)) - (sz * 2 - 2 ^ 64)) > int (length (filterRaw history))"
  proof (cases "int (length (filterRaw history)) - (sz * 2 - 2 ^ 64) < 2 ^ 63")
    case True
    then have "int64 (int (length (filterRaw history)) - (sz * 2 - 2 ^ 64))" using \<open>sz < 2 ^ 63\<close> by (simp add: int64_def)
    then show ?thesis using \<open>sz < 2 ^ 63\<close> by (simp add: wrap64_id)
  next
    case False
    then have "(int (length (filterRaw history)) - (sz * 2 - 2 ^ 64) + 2 ^ 63) mod 2 ^ 64 =
        int (length (filterRaw history)) - (sz * 2 - 2 ^ 64) + 2 ^ 63 - 2 ^ 64"
      using assms(1) len by (simp add: mod_pos_geq mod_pos_pos_trivial)
    then show ?thesis using assms(1) len by (simp add: wrap64_def)
  qed
  have "sz > 0" using assms(1) by simp
  then show ?thesis using start \<open>sz < 2 ^ 63\<close> by (auto simp: window_messages_def Let_def w)
qed

lemma window_suffix:
  assumes "window_messages history sz = Some window"
  shows "suffix window (map (\<lambda>m. text_message (role_str (ms_Role m)) (ms_Content m)) (filterRaw history))"
proof -
  have "suffix (map f (drop n xs)) (map f xs)" for f :: "message \<Rightarrow> llm_message" and n xs
    by (metis drop_map suffix_drop)
  then show ?thesis using assms by (auto simp: window_messages_def Let_def split: if_splits)
qed

lemma estimate_loop_sum:
  "estimate_loop n ms = n + sum_list (map (\<lambda>m. int (length (lm_Content m) div 4) + 4) ms)"
  by (induction ms arbitrary: n) simp_all

lemma drop_partial_prefix: "prefix (drop_partial n s) s"
proof (induction n arbitrary: s)
  case (Suc n)
  then show ?case
    using prefix_order.trans[OF Suc[of "butlast s"] prefixeq_butlast[of s]] by simp
qed simp

lemma drop_partial_valid: "length s \<le> n \<Longrightarrow> utf8_valid (drop_partial n s)"
  by (induction n arbitrary: s) auto

text \<open>A summary of outputs fits 500 bytes, and a cut one is valid UTF-8.\<close>

lemma formatSummary_bound: "toks \<noteq> [] \<Longrightarrow> length (formatSummary sprint role depth toks) \<le> 500"
proof -
  assume "toks \<noteq> []"
  moreover have "length (drop_partial 500 (take 500 s)) \<le> 500" for s
    using prefix_length_le[OF drop_partial_prefix[of 500 "take 500 s"]] by simp
  ultimately show ?thesis by (simp add: formatSummary_def Let_def)
qed

lemma uuid_version:
  assumes "length bytes = 16"
  shows "uuid_bits bytes ! 6 AND 0xF0 = 0x40 \<and> uuid_bits bytes ! 8 AND 0xC0 = 0x80"
proof -
  have "((x AND 0x0F) OR 0x40) AND 0xF0 = 0x40" for x :: "8 word"
    by (simp add: bit.conj_disj_distrib2 and.assoc)
  moreover have "((x AND 0x3F) OR 0x80) AND 0xC0 = 0x80" for x :: "8 word"
    by (simp add: bit.conj_disj_distrib2 and.assoc)
  ultimately show ?thesis using assms by (simp add: uuid_bits_def)
qed

end
