(* ===== verification/Firing.thy ===== *)
theory Firing
  imports Mutation Memory
begin

text \<open>
  What every fire function shares: the environment the net runs in (\<open>env\<close>), the loop that deposits
  one token per output place, and the contract of a firing. \<open>grows c c'\<close> says that a firing only
  adds: no place loses a token or changes its identity, every new token is one its place admits,
  and a place that a mutation creates is well typed. The locale \<open>sound_firer\<close> carries the
  consequences; each fire function of the model is an interpretation of it.

  The tool firings of \<open>cpn/executor.go\<close> and \<open>cpn/fire_topology_mutate.go\<close> are here too.
\<close>

section \<open>The environment\<close>

text \<open>
  \<open>en_done\<close> polls \<open>ctx.Done()\<close>; \<open>en_order\<close> ranks the transitions of a batch by the order in which
  their goroutines finish, and the entries of an input mapping by its iteration for a token; \<open>en_background\<close> is what sub-net goroutines did to the net since the last
  look, \<open>en_join\<close> what they do until \<open>childWg.Wait()\<close> returns. \<open>en_json\<close> is \<open>json.Marshal\<close>, \<open>en_render\<close> the text in a payload preview,
  \<open>en_sprint\<close> the verb \<open>%v\<close>, \<open>en_mutation\<close> the decoding of a mutation, \<open>en_event_json\<close> the JSON text
  of an event, \<open>en_json_string\<close> the JSON text of a string, \<open>en_type\<close> the verb \<open>%T\<close>, \<open>en_stamp\<close> the
  clock reading in an ID, \<open>en_rand\<close> sixteen random bytes, \<open>en_sha\<close> the hex SHA-256. \<open>en_json_check\<close>, \<open>en_flow_ref\<close>
  and \<open>en_manifest\<close> are \<open>json.Unmarshal\<close> into \<open>any\<close>, a \<open>FlowRef\<close> and a \<open>ToolManifest\<close>. The hooks of
  \<open>cpn/synthesis_handles.go\<close> are \<open>en_lint\<close>, \<open>en_canonicalise\<close>, \<open>en_materialise\<close>, \<open>en_digest\<close>, absent when
  not installed. \<open>en_run_child\<close> is what \<open>Run\<close> on a child net does until it returns, under a timeout;
  \<open>en_factory\<close> and \<open>en_subnet\<close> are the fields of a transition that point to another net, and
  \<open>en_spawn\<close> starts the goroutine of a sub-net.
\<close>

record 'w env =
  en_now :: "'w \<Rightarrow> int \<times> 'w"
  en_sleep :: "int \<Rightarrow> 'w \<Rightarrow> gerr option \<times> 'w"
  en_done :: "'w \<Rightarrow> ctx_err option \<times> 'w"
  en_ovf :: int
  en_order :: "'w \<Rightarrow> string \<Rightarrow> nat"
  en_render :: "payload \<Rightarrow> string"
  en_sprint :: "payload \<Rightarrow> string"
  en_sprint_plus :: "payload \<Rightarrow> string"
  en_json :: "payload \<Rightarrow> gerr + string"
  en_mutation :: "string \<Rightarrow> gerr + mutation"
  en_event_json :: "event \<Rightarrow> string"
  en_json_string :: "string \<Rightarrow> string"
  en_type :: "payload \<Rightarrow> string"
  en_host_context :: "'w cpn \<Rightarrow> string"
  en_shell_args :: "string \<Rightarrow> gerr + string \<times> string list"
  en_path_arg :: "string \<Rightarrow> gerr + string"
  en_usd :: "real \<Rightarrow> string"
  en_approval_json :: "string \<Rightarrow> string \<Rightarrow> string \<Rightarrow> string \<Rightarrow> string"
  en_stamp :: "'w \<Rightarrow> string \<times> 'w"
  en_background :: "'w \<Rightarrow> 'w cpn \<Rightarrow> 'w \<times> 'w cpn"
  en_join :: "'w \<Rightarrow> 'w cpn \<Rightarrow> 'w \<times> 'w cpn"
  en_rand :: "'w \<Rightarrow> (gerr + 8 word list) \<times> 'w"
  en_sha :: "string \<Rightarrow> string"
  en_json_check :: "string \<Rightarrow> gerr option"
  en_flow_ref :: "string \<Rightarrow> gerr + flow_ref"
  en_manifest :: "string \<Rightarrow> gerr + tool_manifest"
  en_lint :: "(string \<Rightarrow> safe_port \<Rightarrow> size_cap \<Rightarrow> bool \<times> gerr option) option"
  en_canonicalise :: "(string \<Rightarrow> gerr + string) option"
  en_materialise :: "(string \<Rightarrow> safe_port \<Rightarrow> gerr + 'w cpn) option"
  en_digest :: "(string \<Rightarrow> topology_digest) option"
  en_run_child :: "int \<Rightarrow> 'w \<Rightarrow> 'w cpn \<Rightarrow> gerr option \<times> 'w \<times> 'w cpn"
  en_factory :: "'w transition \<Rightarrow> ('w \<Rightarrow> 'w cpn option \<times> 'w) option"
  en_subnet :: "'w transition \<Rightarrow> 'w cpn option"
  en_spawn :: "'w transition \<Rightarrow> 'w cpn \<Rightarrow> 'w \<Rightarrow> 'w"

type_synonym 'w firer = "'w transition \<Rightarrow> token list \<Rightarrow> 'w \<Rightarrow> 'w cpn \<Rightarrow> fire_out \<times> 'w \<times> 'w cpn"

definition fail_with :: "gerr \<Rightarrow> 'w \<Rightarrow> 'w cpn \<Rightarrow> fire_out \<times> 'w \<times> 'w cpn" where
  "fail_with e w c = (([], 0, Some e), w, c)"

definition stamp :: "node_kind \<Rightarrow> 'w cpn \<Rightarrow> token \<Rightarrow> token" where
  "stamp k c t = t\<lparr>tok_OriginID := c_ID c, tok_OriginDepth := c_Depth c, tok_OriginKind := k,
     tok_SessionID := c_SessionID c\<rparr>"

definition fresh_token :: "color \<Rightarrow> payload \<Rightarrow> space \<Rightarrow> node_kind \<Rightarrow> 'w cpn \<Rightarrow> token" where
  "fresh_token col p s k c = \<lparr>tok_Color = col, tok_Payload = p, tok_OriginID = c_ID c,
     tok_OriginDepth = c_Depth c, tok_OriginKind = k, tok_Space = s, tok_SessionID = c_SessionID c,
     tok_TraceID = []\<rparr>"

text \<open>
  The deposit loop: \<open>mk\<close> builds the token for an output place, \<open>miss\<close> and \<open>wrp\<close> the errors for a
  place that is not there and for a refused deposit. The tokens returned are the ones built.
\<close>

fun deposit_each ::
  "(string \<Rightarrow> gerr) \<Rightarrow> (string \<Rightarrow> gerr \<Rightarrow> gerr) \<Rightarrow> (string \<Rightarrow> place \<Rightarrow> gerr + token) \<Rightarrow> string list \<Rightarrow>
   'w cpn \<Rightarrow> gerr option \<times> token list \<times> 'w cpn" where
  "deposit_each miss wrp mk [] c = (None, [], c)"
| "deposit_each miss wrp mk (pid # pids) c = (case map_of (c_Places c) pid of
     None \<Rightarrow> (Some (miss pid), [], c)
   | Some p \<Rightarrow> (case mk pid p of
        Inl e \<Rightarrow> (Some e, [], c)
      | Inr tok \<Rightarrow> (case Deposit p tok of
           Inl e \<Rightarrow> (Some (wrp pid e), [tok], c)
         | Inr p' \<Rightarrow> (let (r, ts, c') = deposit_each miss wrp mk pids (put_place pid p' c)
                      in (r, tok # ts, c')))))"

definition out_missing :: "'w transition \<Rightarrow> string \<Rightarrow> gerr" where
  "out_missing t pid = Plain (''transition '' @ tr_ID t @ '': output place '' @ pid @ '' not found'')"

definition out_wrap :: "'w transition \<Rightarrow> string \<Rightarrow> gerr \<Rightarrow> gerr" where
  "out_wrap t pid e = Wrap (''transition '' @ tr_ID t @ '': deposit to '' @ pid @ '': '') e []"

definition no_tokens_error :: "'w transition \<Rightarrow> gerr" where
  "no_tokens_error t = Plain (''transition '' @ tr_ID t @ '': no consumed tokens'')"

section \<open>The contract of a firing\<close>

definition wt_net :: "'w cpn \<Rightarrow> bool" where
  "wt_net c \<longleftrightarrow> (\<forall>pid p. map_of (c_Places c) pid = Some p \<longrightarrow> wt_place p)"

definition place_grows :: "place \<Rightarrow> place \<Rightarrow> bool" where
  "place_grows p p' \<longleftrightarrow>
     (\<exists>ts. p' = p\<lparr>pl_Tokens := pl_Tokens p @ ts\<rparr> \<and> list_all (accepts p) ts)"

definition grows :: "'w cpn \<Rightarrow> 'w cpn \<Rightarrow> bool" where
  "grows c c' \<longleftrightarrow>
     (\<forall>pid p. map_of (c_Places c) pid = Some p \<longrightarrow>
        (\<exists>p'. map_of (c_Places c') pid = Some p' \<and> place_grows p p')) \<and>
     (\<forall>pid p'. map_of (c_Places c') pid = Some p' \<longrightarrow> map_of (c_Places c) pid = None \<longrightarrow> wt_place p')"

lemma place_grows_refl [simp]: "place_grows p p"
  by (auto simp: place_grows_def intro: exI[of _ "[]"])

lemma place_grows_trans: "place_grows p q \<Longrightarrow> place_grows q r \<Longrightarrow> place_grows p r"
  unfolding place_grows_def by auto

lemma place_grows_Deposit: "Deposit p t = Inr p' \<Longrightarrow> place_grows p p'"
  by (auto simp: Deposit_Inr_iff place_grows_def)

lemma place_grows_wt: "place_grows p p' \<Longrightarrow> wt_place p \<Longrightarrow> wt_place p'"
  by (auto simp: place_grows_def wt_place_def)

lemma grows_refl [simp]: "grows c c"
  by (simp add: grows_def)

lemma growsD:
  "grows c c' \<Longrightarrow> map_of (c_Places c) pid = Some p \<Longrightarrow>
   \<exists>p'. map_of (c_Places c') pid = Some p' \<and> place_grows p p'"
  unfolding grows_def by blast

lemma grows_newD:
  "grows c c' \<Longrightarrow> map_of (c_Places c') pid = Some p' \<Longrightarrow> map_of (c_Places c) pid = None \<Longrightarrow>
   wt_place p'"
  unfolding grows_def by blast

lemma grows_trans:
  assumes ab: "grows a b" and bc: "grows b c"
  shows "grows a c"
  unfolding grows_def
proof (intro conjI allI impI)
  fix pid p
  assume "map_of (c_Places a) pid = Some p"
  from growsD[OF ab this] obtain q where q: "map_of (c_Places b) pid = Some q" "place_grows p q"
    by blast
  from growsD[OF bc q(1)] obtain r where "map_of (c_Places c) pid = Some r" "place_grows q r"
    by blast
  with q(2) show "\<exists>p'. map_of (c_Places c) pid = Some p' \<and> place_grows p p'"
    using place_grows_trans by blast
next
  fix pid p'
  assume p': "map_of (c_Places c) pid = Some p'" and n: "map_of (c_Places a) pid = None"
  show "wt_place p'"
  proof (cases "map_of (c_Places b) pid")
    case None
    show ?thesis by (rule grows_newD[OF bc p' None])
  next
    case (Some q)
    from growsD[OF bc Some] p' have "place_grows q p'" by simp
    with grows_newD[OF ab Some n] show ?thesis using place_grows_wt by blast
  qed
qed

lemma grows_places: "c_Places c' = c_Places c \<Longrightarrow> grows c c'"
  by (simp add: grows_def)

lemma grows_cong_right: "c_Places d = c_Places c' \<Longrightarrow> grows c d = grows c c'"
  by (simp add: grows_def)

lemma grows_cong_left: "c_Places d = c_Places c \<Longrightarrow> grows d c' = grows c c'"
  by (simp add: grows_def)

lemma grows_wt:
  assumes g: "grows c c'" and w: "wt_net c"
  shows "wt_net c'"
  unfolding wt_net_def
proof (intro allI impI)
  fix pid p'
  assume p': "map_of (c_Places c') pid = Some p'"
  show "wt_place p'"
  proof (cases "map_of (c_Places c) pid")
    case None
    show ?thesis by (rule grows_newD[OF g p' None])
  next
    case (Some p)
    with growsD[OF g Some] p' have "place_grows p p'" by simp
    moreover have "wt_place p" using w Some by (simp add: wt_net_def)
    ultimately show ?thesis using place_grows_wt by blast
  qed
qed

lemma grows_put_place:
  "map_of (c_Places c) pid = Some p \<Longrightarrow> place_grows p p' \<Longrightarrow> grows c (put_place pid p' c)"
  by (auto simp: grows_def update_conv' split: if_splits)

lemma grows_new_place:
  "map_of (c_Places c) pid = None \<Longrightarrow> wt_place p' \<Longrightarrow> grows c (put_place pid p' c)"
  by (auto simp: grows_def update_conv' split: if_splits)

text \<open>What every accepted deposit preserves, the loop preserves.\<close>

lemma deposit_each_invariant:
  assumes step: "\<And>pid p tok p' c. P c \<Longrightarrow> map_of (c_Places c) pid = Some p \<Longrightarrow>
      Deposit p tok = Inr p' \<Longrightarrow> P (put_place pid p' c)"
  shows "P c \<Longrightarrow> deposit_each miss wrp mk pids c = (r, ts, c') \<Longrightarrow> P c'"
proof (induction pids arbitrary: c r ts c')
  case (Cons pid pids)
  show ?case
  proof (cases "map_of (c_Places c) pid")
    case (Some p)
    show ?thesis
    proof (cases "mk pid p")
      case (Inr tok)
      show ?thesis
      proof (cases "Deposit p tok")
        case dep: (Inr p')
        obtain r1 ts1 c1 where rec:
          "deposit_each miss wrp mk pids (put_place pid p' c) = (r1, ts1, c1)"
          by (metis prod_cases3)
        have "P c1" using Cons.IH[OF step[OF Cons.prems(1) Some dep] rec] .
        then show ?thesis using Cons.prems(2) Some Inr dep rec by simp
      qed (use Cons.prems Some Inr in auto)
    qed (use Cons.prems Some in auto)
  qed (use Cons.prems in auto)
qed simp

lemma deposit_each_grows:
  assumes "deposit_each miss wrp mk pids c = (r, ts, c')"
  shows "grows c c'"
  by (rule deposit_each_invariant[where P = "grows c", OF _ grows_refl assms])
    (blast intro: grows_trans grows_put_place place_grows_Deposit)

lemma deposit_each_frame:
  assumes "deposit_each miss wrp mk pids c = (r, ts, c')"
  shows "c_Transitions c' = c_Transitions c \<and> c_Mode c' = c_Mode c \<and> c_State c' = c_State c \<and>
    map fst (c_Places c') = map fst (c_Places c)"
  by (rule deposit_each_invariant[where P = "\<lambda>d. c_Transitions d = c_Transitions c \<and>
        c_Mode d = c_Mode c \<and> c_State d = c_State c \<and> map fst (c_Places d) = map fst (c_Places c)",
        OF _ _ assms]) (simp_all add: keys_update_existing)

text \<open>
  On success every output place has been given its token, in the order of the output places.
\<close>

definition received :: "string \<Rightarrow> string list \<Rightarrow> token list \<Rightarrow> token list" where
  "received pid pids ts = map snd (filter (\<lambda>(q, t). q = pid) (zip pids ts))"

lemma deposit_each_success:
  "deposit_each miss wrp mk pids c = (None, ts, c') \<Longrightarrow>
   length ts = length pids \<and>
   (\<forall>pid p. map_of (c_Places c) pid = Some p \<longrightarrow>
      map_of (c_Places c') pid = Some (p\<lparr>pl_Tokens := pl_Tokens p @ received pid pids ts\<rparr>))"
proof (induction miss wrp mk pids c arbitrary: ts c' rule: deposit_each.induct)
  case (1 miss wrp mk c)
  then show ?case by (simp add: received_def)
next
  case (2 miss wrp mk pid pids c)
  from 2(2) obtain p tok p' ts1 where
    p: "map_of (c_Places c) pid = Some p" "mk pid p = Inr tok" "Deposit p tok = Inr p'" and
    rec: "deposit_each miss wrp mk pids (put_place pid p' c) = (None, ts1, c')" and
    ts: "ts = tok # ts1"
    by (auto split: option.splits sum.splits prod.splits simp: Let_def)
  note IH = 2(1)[OF p rec]
  have p': "p' = p\<lparr>pl_Tokens := pl_Tokens p @ [tok]\<rparr>" using p(3) by (simp add: Deposit_Inr_iff)
  show ?case
  proof (intro conjI allI impI)
    show "length ts = length (pid # pids)" using IH ts by simp
    fix q r
    assume q: "map_of (c_Places c) q = Some r"
    show "map_of (c_Places c') q = Some (r\<lparr>pl_Tokens := pl_Tokens r @ received q (pid # pids) ts\<rparr>)"
      using IH q p(1) by (cases "q = pid") (auto simp: ts received_def p')
  qed
qed

text \<open>A firing whose effects on the net are additions.\<close>

locale sound_firer =
  fixes fire :: "'w firer"
  assumes fire_grows: "fire t toks w c = (out, w', c') \<Longrightarrow> grows c c'"
begin

lemma fire_wt: "fire t toks w c = (out, w', c') \<Longrightarrow> wt_net c \<Longrightarrow> wt_net c'"
  using fire_grows grows_wt by blast

lemma fire_keeps_tokens:
  "fire t toks w c = (out, w', c') \<Longrightarrow> map_of (c_Places c) pid = Some p \<Longrightarrow>
   \<exists>p' ts. map_of (c_Places c') pid = Some p' \<and> pl_Tokens p' = pl_Tokens p @ ts \<and>
     pl_Color p' = pl_Color p \<and> pl_Space p' = pl_Space p \<and> pl_ID p' = pl_ID p"
  using fire_grows unfolding grows_def place_grows_def by fastforce

end

section \<open>Tool firings\<close>

definition fireToolHandler :: "'w env \<Rightarrow> ('w \<Rightarrow> token list \<Rightarrow> (gerr + token gomap) \<times> 'w) \<Rightarrow> 'w firer" where
  "fireToolHandler env handler t consumed w c =
     (let (res, w1) = handler w consumed
      in case res of
           Inl e \<Rightarrow> fail_with e w1 c
         | Inr results \<Rightarrow>
             (let (err, toks, c') = deposit_each (out_missing t) (out_wrap t)
                (\<lambda>pid p. case map_of results pid of
                    None \<Rightarrow> Inl (Plain (''transition '' @ tr_ID t @
                      '': ToolHandler produced no token for output place '' @ pid))
                  | Some tok \<Rightarrow>
                      (let tok1 = stamp NodeKindTool c tok
                       in Inr (if tok_Space tok1 = space_empty then tok1\<lparr>tok_Space := pl_Space p\<rparr>
                               else tok1)))
                (tr_OutputPlaces t) c
              in case err of
                   Some e \<Rightarrow> fail_with e w1 c'
                 | None \<Rightarrow> ((map (\<lambda>k. Snapshot (en_render env) (Some k)) toks, 0, None), w1, c')))"

definition fireTool :: "'w env \<Rightarrow> 'w firer" where
  "fireTool env t consumed w c = (case tr_ToolHandler t of
     Some handler \<Rightarrow> fireToolHandler env handler t consumed w c
   | None \<Rightarrow> (case tr_Executor t of
        None \<Rightarrow> fail_with (Plain (''transition '' @ tr_ID t @ '': nil Executor'')) w c
      | Some ex \<Rightarrow> (case consumed of
           [] \<Rightarrow> fail_with (no_tokens_error t) w c
         | tok0 # _ \<Rightarrow>
             (let (res, w1) = ex w tok0
              in case res of
                   Inl e \<Rightarrow> fail_with e w1 c
                 | Inr r \<Rightarrow>
                     (let result = stamp NodeKindTool c r;
                          snaps = [Snapshot (en_render env) (Some result)];
                          (err, _, c') = deposit_each (out_missing t) (out_wrap t)
                            (\<lambda>_ _. Inr result) (tr_OutputPlaces t) c
                      in case err of
                           Some e \<Rightarrow> fail_with e w1 c'
                         | None \<Rightarrow> ((snaps, 0, None), w1, c'))))))"

definition fireTopologyMutate :: "'w env \<Rightarrow> 'w firer" where
  "fireTopologyMutate env t consumed w c = (case consumed of
     [] \<Rightarrow> fail_with (no_tokens_error t) w c
   | tok0 # _ \<Rightarrow> (case en_json env (tok_Payload tok0) of
        Inl e \<Rightarrow> fail_with (Wrap (''transition '' @ tr_ID t @ '': marshal mutation payload: '') e []) w c
      | Inr raw \<Rightarrow> (case en_mutation env raw of
           Inl e \<Rightarrow> fail_with (Wrap (''transition '' @ tr_ID t @ '': unmarshal mutation: '') e []) w c
         | Inr m \<Rightarrow>
             (let (mutErr, c1) = Mutate m c;
                  col = (if mutErr = None then ColorArtifact else ColorError);
                  pl = (case mutErr of
                      Some e \<Rightarrow> PMutationResult [(''error'', err_text e),
                        (''mutation_kind'', mutation_kind_str (mu_Kind m))]
                    | None \<Rightarrow> PMutationResult [(''applied'', ''true''),
                        (''mutation_kind'', mutation_kind_str (mu_Kind m))]);
                  (err, toks, c2) = deposit_each (out_missing t) (out_wrap t)
                    (\<lambda>_ p. Inr (fresh_token col pl (pl_Space p) NodeKindTopologyMutate c))
                    (tr_OutputPlaces t) c1
              in case err of
                   Some e \<Rightarrow> fail_with e w c2
                 | None \<Rightarrow>
                     ((map (\<lambda>k. Snapshot (en_render env) (Some k)) toks, 0, mutErr), w, c2)))))"

lemma fail_with_eq [simp]:
  "fail_with e w c = (out, w', c') \<longleftrightarrow> out = ([], 0, Some e) \<and> w' = w \<and> c' = c"
  by (auto simp: fail_with_def)

lemma fireToolHandler_grows:
  "fireToolHandler env h t toks w c = (out, w', c') \<Longrightarrow> grows c c'"
  by (auto simp: fireToolHandler_def Let_def split: prod.splits sum.splits option.splits
      dest: deposit_each_grows)

lemma fireTool_grows: "fireTool env t toks w c = (out, w', c') \<Longrightarrow> grows c c'"
  by (auto simp: fireTool_def Let_def split: prod.splits sum.splits option.splits list.splits
      dest: deposit_each_grows fireToolHandler_grows)

lemma rollback_grows: "grows c (rollback_mutation m e c c1)" if "apply_mutation m c = (r, c1)"
  using that
proof (cases rule: apply_mutation_cases)
  case (place k i q s)
  have "map_of (restore_map (c_Places c) (AList.update k (NewPlace i q s) (c_Places c))) pid =
      map_of (c_Places c) pid" for pid
    using place(1) by (auto simp: map_of_restore update_conv' split: option.splits)
  then show ?thesis by (simp add: grows_def rollback_mutation_def place(2) option.case_eq_if)
qed (simp_all add: grows_def rollback_mutation_def map_of_restore option.case_eq_if)

lemma apply_mutation_grows: "apply_mutation m c = (r, c1) \<Longrightarrow> grows c c1"
  by (erule apply_mutation_cases) (auto intro: grows_new_place wt_NewPlace grows_places)

lemma Mutate_grows:
  assumes r: "Mutate m c = (r, c')"
  shows "grows c c'"
proof (cases "c_MutableAfterStart c")
  case False
  then show ?thesis using r by (auto simp: Mutate_def intro: grows_places)
next
  case True
  obtain ae c1 where a: "apply_mutation m c = (ae, c1)" by force
  note g = rollback_grows[OF a] and g1 = apply_mutation_grows[OF a]
  show ?thesis
  proof (cases ae)
    case (Some e)
    with r True a have "c' = rollback_mutation m e c c1" by (simp add: Mutate_def)
    then show ?thesis using g by simp
  next
    case None
    show ?thesis
    proof (cases "Validate (c_Places c1) (c_Transitions c1)")
      case (Some e)
      with r True a None have "c' = rollback_mutation m e c c1" by (simp add: Mutate_def)
      then show ?thesis using g by simp
    next
      case None2: None
      with r True a None have "c_Places c' = c_Places c1" by (auto simp: Mutate_def)
      then show ?thesis using g1 grows_cong_right by blast
    qed
  qed
qed

lemma fireTopologyMutate_grows:
  "fireTopologyMutate env t toks w c = (out, w', c') \<Longrightarrow> grows c c'"
  by (auto simp: fireTopologyMutate_def Let_def split: prod.splits sum.splits option.splits list.splits
      dest!: deposit_each_grows Mutate_grows intro: grows_trans)

interpretation tool: sound_firer "fireTool env" for env
  by unfold_locales (rule fireTool_grows)

interpretation mutate: sound_firer "fireTopologyMutate env" for env
  by unfold_locales (rule fireTopologyMutate_grows)

end
