(* ===== verification/Hitl.thy ===== *)
theory Hitl
  imports Firing
begin

text \<open>
  Human-in-the-loop firings, \<open>cpn/hitl.go\<close>: \<open>fireHITL\<close> with its optional A2UI surface and output
  builder, \<open>fireHITLWithRevision\<close> with the correction LLM, \<open>depositHITLRevision\<close>, \<open>fireLLMDirect\<close> and
  \<open>appendHITLResponseToHistory\<close>. The wait on the channel is the call of \<open>hc_Channel\<close>.
\<close>

section \<open>Shared steps\<close>

definition A2UIMarker :: string where
  "A2UIMarker = ''$$a2ui:''"

definition notify_group :: "'w cpn \<Rightarrow> 'w cpn" where
  "notify_group c = (case c_GroupNotifier c of
     None \<Rightarrow> c | Some l \<Rightarrow> c\<lparr>c_GroupNotifier := Some (l @ [c_ID c])\<rparr>)"

definition flush_waiting :: "'w cpn \<Rightarrow> 'w cpn" where
  "flush_waiting c = (case c_OnHITLWaiting c of
     None \<Rightarrow> c | Some l \<Rightarrow> c\<lparr>c_OnHITLWaiting := Some (l @ [c_History c])\<rparr>)"

definition append_history :: "message \<Rightarrow> 'w cpn \<Rightarrow> 'w cpn" where
  "append_history m c = c\<lparr>c_History := c_History c @ [m]\<rparr>"

lemma hitl_steps_frame [simp]:
  "c_Places (notify_group c) = c_Places c" "c_Places (flush_waiting c) = c_Places c"
  "c_Places (append_history m c) = c_Places c"
  "c_State (notify_group c) = c_State c" "c_State (flush_waiting c) = c_State c"
  "c_State (append_history m c) = c_State c"
  "c_Transitions (notify_group c) = c_Transitions c"
  "c_Transitions (flush_waiting c) = c_Transitions c"
  "c_Transitions (append_history m c) = c_Transitions c"
  "c_Mode (notify_group c) = c_Mode c" "c_Mode (flush_waiting c) = c_Mode c"
  "c_Mode (append_history m c) = c_Mode c"
  by (simp_all add: notify_group_def flush_waiting_def append_history_def split: option.splits)

lemma setMode_frame [simp]:
  "c_Places (setMode m c) = c_Places c" "c_Transitions (setMode m c) = c_Transitions c"
  "c_State (setMode m c) = c_State c" "c_Mode (setMode m c) = m"
  by (simp_all add: setMode_def Let_def)

definition hitl_misconfigured :: "'w transition \<Rightarrow> gerr" where
  "hitl_misconfigured t = Wrap [] (Sentinel ErrHITLMisconfigured) ('': transition '' @ tr_ID t)"

definition hitl_color_error :: "token \<Rightarrow> gerr" where
  "hitl_color_error tok = Wrap [] (Sentinel ErrColorMismatch)
     ('': expected '' @ color_str ColorHuman @ '', got '' @ color_str (tok_Color tok))"

definition hitl_closed :: "'w transition \<Rightarrow> gerr" where
  "hitl_closed t = Plain (''transition '' @ tr_ID t @ '': HITL channel closed unexpectedly'')"

text \<open>
  The row the human's answer leaves in the history; a rejection and an unknown action leave none.
\<close>

definition hitl_response_content :: "'w env \<Rightarrow> hitl_response \<Rightarrow> string option" where
  "hitl_response_content env resp =
     (let full = ''{\"action\":'' @ en_json_string env (action_str (hr_Action resp)) @
                 '',\"content\":'' @ en_json_string env (hr_Content resp) @ ''}''
      in case hr_Action resp of
           HITLSubmit \<Rightarrow> Some (hr_Content resp)
         | HITLRevise \<Rightarrow> Some full
         | HITLApprove \<Rightarrow>
             Some (if hr_Content resp = []
                   then ''{\"action\":'' @ en_json_string env (action_str (hr_Action resp)) @ ''}''
                   else full)
         | _ \<Rightarrow> None)"

definition appendHITLResponseToHistory ::
  "'w env \<Rightarrow> hitl_response \<Rightarrow> string \<Rightarrow> 'w \<Rightarrow> 'w cpn \<Rightarrow> 'w \<times> 'w cpn" where
  "appendHITLResponseToHistory env resp parentID w c =
     (case hitl_response_content env resp of
        None \<Rightarrow> (w, c)
      | Some content \<Rightarrow>
          (let (st, w1) = en_stamp env w
           in (w1, append_history
                \<lparr>ms_ID = c_SessionID c @ ''-hitlresp-'' @ st, ms_Role = RoleUser,
                 ms_Content = content, ms_CPNID = c_ID c, ms_CPNRole = c_Role c,
                 ms_CPNDepth = c_Depth c, ms_ParentMessageID = parentID\<rparr> c)))"

text \<open>
  The deposit with space bridging, and the switch of mode when a human token entered computation.
\<close>

definition hitl_deposit ::
  "'w env \<Rightarrow> 'w transition \<Rightarrow> token \<Rightarrow> 'w cpn \<Rightarrow> token_snapshot list \<times> gerr option \<times> 'w cpn" where
  "hitl_deposit env t tok c =
     (let out = stamp NodeKindHITL c tok;
          (err, _, c1) = deposit_each (out_missing t) (out_wrap t)
            (\<lambda>_ p. Inr (out\<lparr>tok_Space := pl_Space p\<rparr>)) (tr_OutputPlaces t) c
      in case err of
           Some e \<Rightarrow> ([], Some e, c1)
         | None \<Rightarrow> ([Snapshot (en_render env) (Some out)], None,
             if isComputationTransition c1 t then switchModeToCentaurian c1 else c1))"

definition depositHITLRevision ::
  "'w env \<Rightarrow> 'w transition \<Rightarrow> token \<Rightarrow> 'w cpn \<Rightarrow> token_snapshot list \<times> gerr option \<times> 'w cpn" where
  "depositHITLRevision env t tok c = hitl_deposit env t tok c"

lemma hitl_deposit_grows: "hitl_deposit env t tok c = (s, r, c') \<Longrightarrow> grows c c'"
  by (auto simp: hitl_deposit_def Let_def switchModeToCentaurian_def
      split: prod.splits option.splits if_splits
      dest: deposit_each_grows)
    (metis deposit_each_grows grows_cong_right setMode_frame(1))+

lemma appendHITLResponse_frame [simp]:
  "c_Places (snd (appendHITLResponseToHistory env resp pid w c)) = c_Places c"
  "c_State (snd (appendHITLResponseToHistory env resp pid w c)) = c_State c"
  "c_Mode (snd (appendHITLResponseToHistory env resp pid w c)) = c_Mode c"
  "c_Transitions (snd (appendHITLResponseToHistory env resp pid w c)) = c_Transitions c"
  by (simp_all add: appendHITLResponseToHistory_def split: option.splits prod.splits)

section \<open>The single-turn firing\<close>

definition hitl_chunk :: "'w transition \<Rightarrow> string \<Rightarrow> bool \<Rightarrow> 'w cpn \<Rightarrow> 'w cpn" where
  "hitl_chunk t content done_flag c =
     emit (mk_event EventStreamChunk (tr_ID t) NodeKindHITL None
       (EvChunk \<lparr>sc_SessionID = c_SessionID c, sc_CPNID = c_ID c, sc_CPNRole = c_Role c,
                 sc_Content = content, sc_Done = done_flag, sc_RespondingModel = []\<rparr>)) c"

text \<open>The A2UI surface: the row ID is empty when no surface was published.\<close>

definition hitl_surface ::
  "'w env \<Rightarrow> 'w transition \<Rightarrow> 'w hitl_config \<Rightarrow> token list \<Rightarrow> 'w \<Rightarrow> 'w cpn \<Rightarrow>
   bool \<times> string \<times> 'w \<times> 'w cpn" where
  "hitl_surface env t cfg consumed w c = (case hc_A2UIPayloadBuilder cfg of
     None \<Rightarrow> (False, [], w, c)
   | Some build \<Rightarrow> (case build consumed of
        Inl e \<Rightarrow> (False, [], w, c)
      | Inr pl \<Rightarrow>
          (if pl = PNil then (False, [], w, c)
           else case en_json env pl of
             Inl e \<Rightarrow> (False, [], w, c)
           | Inr encoded \<Rightarrow>
               (let content = A2UIMarker @ encoded;
                    c1 = hitl_chunk t content False (c\<lparr>c_StreamedOutput := True\<rparr>);
                    c2 = hitl_chunk t [] True c1;
                    (st, w1) = en_stamp env w;
                    rowID = c_SessionID c2 @ ''-a2ui-'' @ st
                in (True, rowID, w1, append_history
                     \<lparr>ms_ID = rowID, ms_Role = RoleAssistant, ms_Content = content,
                      ms_CPNID = c_ID c2, ms_CPNRole = c_Role c2, ms_CPNDepth = c_Depth c2,
                      ms_ParentMessageID = []\<rparr> c2)))))"

lemma hitl_chunk_frame [simp]:
  "c_Places (hitl_chunk t s d c) = c_Places c" "c_State (hitl_chunk t s d c) = c_State c"
  "c_Transitions (hitl_chunk t s d c) = c_Transitions c" "c_Mode (hitl_chunk t s d c) = c_Mode c"
  by (simp_all add: hitl_chunk_def)

lemma hitl_surface_frame:
  "hitl_surface env t cfg toks w c = (b, r, w', c') \<Longrightarrow>
   c_Places c' = c_Places c \<and> c_State c' = c_State c \<and> c_Mode c' = c_Mode c \<and>
   c_Transitions c' = c_Transitions c"
  by (auto simp: hitl_surface_def Let_def split: option.splits sum.splits if_splits prod.splits)

definition hitl_resolved :: "'w transition \<Rightarrow> token \<Rightarrow> 'w cpn \<Rightarrow> 'w cpn" where
  "hitl_resolved t tok c =
     emit (mk_event EventHITLResolved (tr_ID t) NodeKindHITL (Some tok) EvNil) c"

text \<open>What follows the receipt of a human token that is not a rejection.\<close>

definition hitl_accept ::
  "'w env \<Rightarrow> 'w transition \<Rightarrow> 'w hitl_config \<Rightarrow> token list \<Rightarrow> string \<Rightarrow> token \<Rightarrow> 'w \<Rightarrow> 'w cpn \<Rightarrow>
   fire_out \<times> 'w \<times> 'w cpn" where
  "hitl_accept env t cfg consumed rowID tok w c =
     (let record_row = (\<lambda>resp w c. if rowID \<noteq> [] then appendHITLResponseToHistory env resp rowID w c
                                   else (w, c));
          resume = (\<lambda>c. hitl_resolved t tok (notify_group (setState StateRunning c)))
      in case hc_OutputBuilder cfg of
           Some build \<Rightarrow>
             (case tok_Payload tok of
                PResponse resp \<Rightarrow>
                  (case build consumed resp of
                     Inl e \<Rightarrow> fail_with (Wrap (''transition '' @ tr_ID t @ '': OutputBuilder: '') e []) w c
                   | Inr built \<Rightarrow>
                       (let (w1, c1) = record_row resp w (resume c);
                            (snaps, err, c2) = hitl_deposit env t built c1
                        in ((snaps, 0, err), w1, c2)))
              | p \<Rightarrow> fail_with (Plain (''transition '' @ tr_ID t @
                       '': OutputBuilder requires HITLResponse payload, got '' @ en_type env p)) w c)
         | None \<Rightarrow>
             (let (w1, c1) = (case tok_Payload tok of
                     PResponse resp \<Rightarrow> record_row resp w (resume c)
                   | _ \<Rightarrow> (w, resume c));
                  (snaps, err, c2) = hitl_deposit env t tok c1
              in ((snaps, 0, err), w1, c2)))"

definition fireHITL :: "'w env \<Rightarrow> 'w firer" where
  "fireHITL env t consumed w c = (case tr_HITLConfig t of
     None \<Rightarrow> fail_with (hitl_misconfigured t) w c
   | Some cfg \<Rightarrow> (case hc_Channel cfg of
        None \<Rightarrow> fail_with (hitl_misconfigured t) w c
      | Some recv \<Rightarrow>
          (let (customSurface, rowID, w1, c1) = hitl_surface env t cfg consumed w c;
               c2 = emit (mk_event EventHITLRequested (tr_ID t) NodeKindHITL None
                      (if customSurface then EvHITLRequest (hc_Prompt cfg) True
                       else EvPrompt (hc_Prompt cfg))) c1;
               c3 = flush_waiting (notify_group (setState StateWaiting c2));
               (r, w2) = recv w1
           in case r of
                RecvClosed \<Rightarrow> fail_with (hitl_closed t) w2 (setFailed (Plain ''HITL channel closed'') c3)
              | RecvDone \<Rightarrow> fail_with (Sentinel ErrTimeout) w2 (setFailed (Sentinel ErrTimeout) c3)
              | RecvToken tok \<Rightarrow>
                  (if tok_Color tok \<noteq> ColorHuman then fail_with (hitl_color_error tok) w2 c3
                   else if (case tok_Payload tok of PResponse resp \<Rightarrow> hr_Action resp = HITLReject
                            | _ \<Rightarrow> False)
                   then fail_with (Sentinel ErrHITLRejected) w2 c3
                   else hitl_accept env t cfg consumed rowID tok w2 c3))))"

lemma hitl_resolved_frame [simp]:
  "c_Places (hitl_resolved t tok c) = c_Places c" "c_State (hitl_resolved t tok c) = c_State c"
  "c_Transitions (hitl_resolved t tok c) = c_Transitions c" "c_Mode (hitl_resolved t tok c) = c_Mode c"
  by (simp_all add: hitl_resolved_def)

lemma hitl_accept_grows:
  assumes "hitl_accept env t cfg toks rowID tok w c = (out, w', c')"
  shows "grows c c'"
proof -
  let ?r = "hitl_resolved t tok (notify_group (setState StateRunning c))"
  have dep: "grows c d" if "hitl_deposit env t k c1 = (s, r, d)" "c_Places c1 = c_Places c" for k c1 s r d
    using hitl_deposit_grows[OF that(1)] grows_cong_left[of c1 c d] that(2) by simp
  have app: "c_Places c1 = c_Places c"
    if "appendHITLResponseToHistory env resp rowID w ?r = (w1, c1)" for resp w1 c1
    using appendHITLResponse_frame(1)[of env resp rowID w ?r] that by simp
  show ?thesis
    using assms
    by (auto simp: hitl_accept_def Let_def
        split: option.splits payload.splits sum.splits prod.splits if_splits
        intro!: dep dest: app)
qed

lemma fireHITL_grows:
  assumes "fireHITL env t toks w c = (out, w', c')"
  shows "grows c c'"
proof (cases "tr_HITLConfig t")
  case None
  with assms show ?thesis by (simp add: fireHITL_def)
next
  case (Some cfg)
  show ?thesis
  proof (cases "hc_Channel cfg")
    case None
    with assms Some show ?thesis by (simp add: fireHITL_def)
  next
    case ch: (Some recv)
    obtain b rowID w1 c1 where s: "hitl_surface env t cfg toks w c = (b, rowID, w1, c1)"
      by (metis prod_cases4)
    obtain r w2 where rv: "recv w1 = (r, w2)" by force
    have acc: "grows c c'" if "hitl_accept env t cfg toks rowID tok w2 d = (out, w', c')"
      "c_Places d = c_Places c" for tok d
      using hitl_accept_grows[OF that(1)] grows_cong_left[OF that(2)] by simp
    show ?thesis
      using assms hitl_surface_frame[OF s]
      by (cases r) (auto simp: fireHITL_def Some ch s rv Let_def split: if_splits
          intro: grows_places acc)
  qed
qed

section \<open>The revision loop\<close>

definition fireLLMDirect ::
  "'w env \<Rightarrow> 'w transition \<Rightarrow> payload \<Rightarrow> 'w \<Rightarrow> 'w cpn \<Rightarrow> string \<times> real \<times> gerr option \<times> 'w" where
  "fireLLMDirect env corr input w c = (case c_LLMClient c of
     None \<Rightarrow> ([], 0, Some (Plain ''nil LLMClient on CPN''), w)
   | Some llm \<Rightarrow>
       (let sys = (if tr_SystemPrompt corr = []
                   then ''You are a revision assistant. Revise the content based on the feedback provided.''
                   else tr_SystemPrompt corr);
            model = (case tr_LLMConfig corr of None \<Rightarrow> [] | Some l \<Rightarrow> lc_Model l);
            maxTokens = (case tr_LLMConfig corr of None \<Rightarrow> 0 | Some l \<Rightarrow> lc_MaxTokens l);
            req = \<lparr>lr_Model = (if model = [] then ''structured'' else model),
                   lr_Messages = [text_message ''system'' sys, text_message ''user'' (en_sprint env input)],
                   lr_MaxTokens = (if maxTokens = 0 then 1024 else maxTokens), lr_Temperature = 0,
                   lr_Tools = [],
                   lr_ResponseFmt = (case tr_LLMConfig corr of None \<Rightarrow> []
                     | Some l \<Rightarrow> if lc_RequireJSON l then ''json_object'' else []),
                   lr_SessionID = c_SessionID c, lr_Trace = None, lr_Stream = False\<rparr>;
            (resp, w1) = lk_Complete llm w req
        in case resp of
             Inl e \<Rightarrow> ([], 0, Some e, w1)
           | Inr r \<Rightarrow> (lp_Content r, lp_CostUSD r, None, w1)))"

definition formatRevisionPrompt :: "string \<Rightarrow> string" where
  "formatRevisionPrompt revised =
     ''The following draft has been revised. Please review and approve, reject, or request further revisions:'' @
     [CHR 0x0A, CHR 0x0A] @ ''---'' @ [CHR 0x0A] @ revised @ [CHR 0x0A] @ ''---''"

text \<open>The payload switch: a bare string approves.\<close>

definition revision_response :: "payload \<Rightarrow> hitl_response option" where
  "revision_response p = (case p of
     PResponse r \<Rightarrow> Some r
   | PString s \<Rightarrow> Some \<lparr>hr_Action = HITLApprove, hr_Content = s\<rparr>
   | _ \<Rightarrow> None)"

datatype round_result = RoundDone fire_out | RoundAgain string real

text \<open>The action switch of one round, after a human token was received.\<close>

definition revision_action ::
  "'w env \<Rightarrow> 'w transition \<Rightarrow> 'w hitl_config \<Rightarrow> token \<Rightarrow> int \<Rightarrow> real \<Rightarrow> 'w \<Rightarrow> 'w cpn \<Rightarrow>
   round_result \<times> 'w \<times> 'w cpn" where
  "revision_action env t cfg tok rounds tot w c = (case revision_response (tok_Payload tok) of
     None \<Rightarrow> (RoundDone ([], tot, Some (Plain (''transition '' @ tr_ID t @
               '': unsupported HITL payload type '' @ en_type env (tok_Payload tok)))), w, c)
   | Some resp \<Rightarrow> (case hr_Action resp of
        HITLApprove \<Rightarrow>
          (let (snaps, err, c1) = depositHITLRevision env t tok (hitl_resolved t tok c)
           in (RoundDone (snaps, tot, err), w, c1))
      | HITLReject \<Rightarrow> (RoundDone ([], tot, Some (Sentinel ErrHITLRejected)), w, c)
      | HITLRevise \<Rightarrow>
          (if rounds \<ge> hc_MaxRevisions cfg
           then (RoundDone ([], tot, Some (Sentinel ErrHITLMaxRevisions)), w, c)
           else case map_of (c_Transitions c) (hc_CorrectionLLMID cfg) of
             None \<Rightarrow> (RoundDone ([], tot, Some (Plain (''transition '' @ tr_ID t @
                '': correction LLM transition '' @ hc_CorrectionLLMID cfg @ '' not found''))), w, c)
           | Some corr \<Rightarrow>
               (let (revised, cost, err, w1) = fireLLMDirect env corr (PString (hr_Content resp)) w c
                in case err of
                     Some e \<Rightarrow> (RoundDone ([], tot + cost, Some (Wrap (''transition '' @ tr_ID t @
                        '': revision LLM (round '' @ fmt_d rounds @ ''): '') e [])), w1, c)
                   | None \<Rightarrow> (RoundAgain (formatRevisionPrompt revised) (tot + cost), w1, c)))
      | _ \<Rightarrow> (RoundDone ([], tot, Some (Plain (''transition '' @ tr_ID t @
               '': unknown HITL action '' @ fmt_q (action_str (hr_Action resp))))), w, c)))"

definition revision_round ::
  "'w env \<Rightarrow> 'w transition \<Rightarrow> 'w hitl_config \<Rightarrow> ('w \<Rightarrow> hitl_recv \<times> 'w) \<Rightarrow> string \<Rightarrow> int \<Rightarrow> real \<Rightarrow>
   'w \<Rightarrow> 'w cpn \<Rightarrow> round_result \<times> 'w \<times> 'w cpn" where
  "revision_round env t cfg recv prompt rounds tot w c =
     (let c1 = emit (mk_event EventHITLRequested (tr_ID t) NodeKindHITL None (EvRound prompt rounds))
                 (setState StateWaiting c);
          c2 = flush_waiting (notify_group c1);
          (r, w1) = recv w
      in case r of
           RecvClosed \<Rightarrow> (RoundDone ([], tot, Some (hitl_closed t)), w1,
                          setFailed (Plain ''HITL channel closed'') c2)
         | RecvDone \<Rightarrow> (RoundDone ([], tot, Some (Sentinel ErrTimeout)), w1,
                        setFailed (Sentinel ErrTimeout) c2)
         | RecvToken tok \<Rightarrow>
             (if tok_Color tok \<noteq> ColorHuman
              then (RoundDone ([], tot, Some (hitl_color_error tok)), w1, c2)
              else revision_action env t cfg tok rounds tot w1
                     (notify_group (setState StateRunning c2))))"

lemma revision_round_again:
  "revision_round env t cfg recv prompt rounds tot w c = (RoundAgain p k, w', c') \<Longrightarrow>
   rounds < hc_MaxRevisions cfg"
  by (auto simp: revision_round_def revision_action_def Let_def
      split: hitl_recv.splits if_splits option.splits hitl_action.splits prod.splits)

text \<open>
  The loop ends because a round that asks for another one has used up one of the \<open>MaxRevisions\<close>.
\<close>

function revision_loop ::
  "'w env \<Rightarrow> 'w transition \<Rightarrow> 'w hitl_config \<Rightarrow> ('w \<Rightarrow> hitl_recv \<times> 'w) \<Rightarrow> string \<Rightarrow> int \<Rightarrow> real \<Rightarrow>
   'w \<Rightarrow> 'w cpn \<Rightarrow> fire_out \<times> 'w \<times> 'w cpn" where
  "revision_loop env t cfg recv prompt rounds tot w c =
     (case revision_round env t cfg recv prompt rounds tot w c of
        (RoundDone out, w', c') \<Rightarrow> (out, w', c')
      | (RoundAgain prompt' tot', w', c') \<Rightarrow>
          revision_loop env t cfg recv prompt' (rounds + 1) tot' w' c')"
  by pat_completeness auto
termination
  by (relation "measure (\<lambda>(env, t, cfg, recv, prompt, rounds, tot, w, c).
        nat (hc_MaxRevisions cfg - rounds))")
    (auto dest!: sym[of "(RoundAgain _ _, _, _)"] dest: revision_round_again)

declare revision_loop.simps [simp del]

definition fireHITLWithRevision :: "'w env \<Rightarrow> 'w firer" where
  "fireHITLWithRevision env t consumed w c = (case tr_HITLConfig t of
     None \<Rightarrow> fail_with (hitl_misconfigured t) w c
   | Some cfg \<Rightarrow> (case hc_Channel cfg of
        None \<Rightarrow> fail_with (hitl_misconfigured t) w c
      | Some recv \<Rightarrow> revision_loop env t cfg recv (hc_Prompt cfg) 0 0 w c))"

lemma revision_action_grows:
  assumes "revision_action env t cfg tok rounds tot w c = (r, w', c')"
  shows "grows c c'"
proof -
  have dep: "grows c d" if "hitl_deposit env t tok (hitl_resolved t tok c) = (s, e, d)" for s e d
    using hitl_deposit_grows[OF that] grows_cong_left[of "hitl_resolved t tok c" c d] by simp
  show ?thesis
    using assms
    by (auto simp: revision_action_def depositHITLRevision_def Let_def
        split: option.splits hitl_action.splits if_splits prod.splits intro: dep)
qed

lemma revision_round_grows:
  assumes "revision_round env t cfg recv prompt rounds tot w c = (r, w', c')"
  shows "grows c c'"
proof -
  obtain rc w1 where rv: "recv w = (rc, w1)" by force
  have act: "grows c c'" if "revision_action env t cfg tok rounds tot w1 d = (r, w', c')"
    "c_Places d = c_Places c" for tok d
    using revision_action_grows[OF that(1)] grows_cong_left[OF that(2)] by simp
  show ?thesis
    using assms
    by (cases rc) (auto simp: revision_round_def rv Let_def split: if_splits
        intro: grows_places act)
qed

lemma revision_loop_grows:
  "revision_loop env t cfg recv prompt rounds tot w c = (out, w', c') \<Longrightarrow> grows c c'"
proof (induction env t cfg recv prompt rounds tot w c arbitrary: out w' c' rule: revision_loop.induct)
  case (1 env t cfg recv prompt rounds tot w c)
  obtain r w1 c1 where rr: "revision_round env t cfg recv prompt rounds tot w c = (r, w1, c1)"
    by (metis prod_cases3)
  note g = revision_round_grows[OF rr]
  show ?case
  proof (cases r)
    case (RoundDone o1)
    with 1(2) rr g show ?thesis by (subst (asm) revision_loop.simps) simp
  next
    case (RoundAgain p k)
    with 1(2) rr have "revision_loop env t cfg recv p (rounds + 1) k w1 c1 = (out, w', c')"
      by (subst (asm) revision_loop.simps) simp
    from 1(1)[OF rr[symmetric] RoundAgain refl this] g show ?thesis using grows_trans by blast
  qed
qed

lemma fireHITLWithRevision_grows:
  "fireHITLWithRevision env t toks w c = (out, w', c') \<Longrightarrow> grows c c'"
  by (auto simp: fireHITLWithRevision_def split: option.splits dest: revision_loop_grows)

text \<open>
  The number of rounds. \<open>revision_trace\<close> is the list of the round results of one run; the run
  returns the result of its last element, and the others asked for another round.
\<close>

function revision_trace ::
  "'w env \<Rightarrow> 'w transition \<Rightarrow> 'w hitl_config \<Rightarrow> ('w \<Rightarrow> hitl_recv \<times> 'w) \<Rightarrow> string \<Rightarrow> int \<Rightarrow> real \<Rightarrow>
   'w \<Rightarrow> 'w cpn \<Rightarrow> round_result list" where
  "revision_trace env t cfg recv prompt rounds tot w c =
     (case revision_round env t cfg recv prompt rounds tot w c of
        (RoundDone out, w', c') \<Rightarrow> [RoundDone out]
      | (RoundAgain prompt' tot', w', c') \<Rightarrow>
          RoundAgain prompt' tot' # revision_trace env t cfg recv prompt' (rounds + 1) tot' w' c')"
  by pat_completeness auto
termination
  by (relation "measure (\<lambda>(env, t, cfg, recv, prompt, rounds, tot, w, c).
        nat (hc_MaxRevisions cfg - rounds))")
    (auto dest!: sym[of "(RoundAgain _ _, _, _)"] dest: revision_round_again)

declare revision_trace.simps [simp del]

lemma revision_trace_bound:
  "length (revision_trace env t cfg recv prompt rounds tot w c) \<le> nat (hc_MaxRevisions cfg - rounds) + 1"
proof (induction env t cfg recv prompt rounds tot w c rule: revision_trace.induct)
  case (1 env t cfg recv prompt rounds tot w c)
  obtain r w1 c1 where rr: "revision_round env t cfg recv prompt rounds tot w c = (r, w1, c1)"
    by (metis prod_cases3)
  show ?case
  proof (cases r)
    case (RoundDone o1)
    with rr show ?thesis by (subst revision_trace.simps) simp
  next
    case (RoundAgain p k)
    with rr have lt: "rounds < hc_MaxRevisions cfg" using revision_round_again by simp
    then have "Suc (nat (hc_MaxRevisions cfg - (rounds + 1))) = nat (hc_MaxRevisions cfg - rounds)"
      by simp
    with 1(1)[OF rr[symmetric] RoundAgain refl] rr RoundAgain show ?thesis
      by (subst revision_trace.simps) simp
  qed
qed

lemma revision_loop_trace:
  "revision_loop env t cfg recv prompt rounds tot w c = (out, w', c') \<Longrightarrow>
   \<exists>ags. revision_trace env t cfg recv prompt rounds tot w c = ags @ [RoundDone out] \<and>
     (\<forall>a\<in>set ags. \<exists>p k. a = RoundAgain p k)"
proof (induction env t cfg recv prompt rounds tot w c arbitrary: out w' c' rule: revision_loop.induct)
  case (1 env t cfg recv prompt rounds tot w c)
  obtain r w1 c1 where rr: "revision_round env t cfg recv prompt rounds tot w c = (r, w1, c1)"
    by (metis prod_cases3)
  show ?case
  proof (cases r)
    case (RoundDone o1)
    with 1(2) rr have "o1 = out" by (subst (asm) revision_loop.simps) simp
    with rr RoundDone show ?thesis by (subst revision_trace.simps) simp
  next
    case (RoundAgain p k)
    with 1(2) rr have "revision_loop env t cfg recv p (rounds + 1) k w1 c1 = (out, w', c')"
      by (subst (asm) revision_loop.simps) simp
    from 1(1)[OF rr[symmetric] RoundAgain refl this] obtain ags where
      "revision_trace env t cfg recv p (rounds + 1) k w1 c1 = ags @ [RoundDone out]"
      "\<forall>a\<in>set ags. \<exists>p k. a = RoundAgain p k" by blast
    with rr RoundAgain show ?thesis
      by (subst revision_trace.simps) (intro exI[of _ "RoundAgain p k # ags"], simp)
  qed
qed

interpretation hitl: sound_firer "fireHITL env" for env
  by unfold_locales (rule fireHITL_grows)

interpretation hitl_revision: sound_firer "fireHITLWithRevision env" for env
  by unfold_locales (rule fireHITLWithRevision_grows)

end
