(* ===== verification/Fire_Validate.thy ===== *)
theory Fire_Validate
  imports Firing
begin

text \<open>
  Validation firings, \<open>cpn/fire_validate.go\<close>: the payload check, the correction loop with its LLM
  calls, the deposit of a valid payload and the routing of an invalid one. A schema is
  \<open>json.Unmarshal\<close> into its Go type; \<open>ValidateFunc\<close> takes precedence.
\<close>

section \<open>The operations\<close>

definition MaxCorrectionCap :: int where
  "MaxCorrectionCap = 10"

definition validateAgainstSchema :: "'w env \<Rightarrow> payload \<Rightarrow> (string \<Rightarrow> gerr option) \<Rightarrow> gerr option" where
  "validateAgainstSchema env p unmarshal =
     (case (case p of PString s \<Rightarrow> Inr s | PBytes b \<Rightarrow> Inr b | PRaw b \<Rightarrow> Inr b | _ \<Rightarrow> en_json env p) of
        Inl e \<Rightarrow> Some (Wrap ''cannot marshal payload to JSON: '' e [])
      | Inr bytes \<Rightarrow> (case unmarshal bytes of
           Some e \<Rightarrow> Some (Wrap ''schema validation failed: '' e [])
         | None \<Rightarrow> None))"

definition validatePayload :: "'w env \<Rightarrow> payload \<Rightarrow> validate_config \<Rightarrow> gerr option" where
  "validatePayload env p cfg = (case vc_ValidateFunc cfg of
     Some f \<Rightarrow> f p
   | None \<Rightarrow> (case vc_Schema cfg of Some g \<Rightarrow> validateAgainstSchema env p g | None \<Rightarrow> None))"

definition nl :: string where "nl = [CHR 0x0A]"

definition fence :: string where "fence = ''```''"

definition stripCodeFences :: "string \<Rightarrow> string" where
  "stripCodeFences s0 =
     (let s = trim_space s0
      in if has_prefix s fence
         then (let (_, rest, found) = cut_at (CHR 0x0A) s;
                   s1 = (if found then rest else s);
                   s2 = (if has_suffix s1 fence then take (length s1 - length fence) s1 else s1)
               in trim_space s2)
         else s)"

definition buildCorrectionPrompt :: "'w env \<Rightarrow> payload \<Rightarrow> string \<Rightarrow> string" where
  "buildCorrectionPrompt env p schemaError =
     (let payloadStr = (case p of PString s \<Rightarrow> s
        | _ \<Rightarrow> (case en_json env p of Inl e \<Rightarrow> en_sprint env p | Inr b \<Rightarrow> b))
      in ''The following JSON output is invalid:'' @ nl @ nl @ ''---'' @ nl @ payloadStr @ nl @ ''---'' @
         nl @ nl @ ''Schema validation error: '' @ schemaError @ nl @ nl @
         ''Fix the JSON to match the expected schema. Return ONLY the corrected JSON, no explanation or markdown.'')"

definition correctionSystemPrompt :: string where
  "correctionSystemPrompt = ''You are a JSON correction assistant. Fix the JSON to match the schema. Return ONLY valid JSON, no explanation.''"

definition callCorrectionLLM ::
  "'w env \<Rightarrow> string \<Rightarrow> payload \<Rightarrow> string \<Rightarrow> 'w \<Rightarrow> 'w cpn \<Rightarrow> payload \<times> real \<times> gerr option \<times> 'w" where
  "callCorrectionLLM env lid p schemaError w c = (case c_LLMClient c of
     None \<Rightarrow> (PNil, 0, Some (Plain ''nil LLMClient on CPN''), w)
   | Some llm \<Rightarrow>
       (let cfg = (case map_of (c_Transitions c) lid of None \<Rightarrow> None | Some t \<Rightarrow> tr_LLMConfig t);
            model = (case cfg of None \<Rightarrow> [] | Some l \<Rightarrow> lc_Model l);
            maxTokens = (case cfg of None \<Rightarrow> 0 | Some l \<Rightarrow> lc_MaxTokens l);
            req = \<lparr>lr_Model = (if model = [] then ''structured'' else model),
                   lr_Messages = [text_message ''system'' correctionSystemPrompt,
                     text_message ''user'' (buildCorrectionPrompt env p schemaError)],
                   lr_MaxTokens = (if maxTokens = 0 then 1024 else maxTokens), lr_Temperature = 0,
                   lr_Tools = [], lr_ResponseFmt = ''json_object'', lr_SessionID = c_SessionID c,
                   lr_Trace = None, lr_Stream = False\<rparr>;
            (resp, w1) = lk_Complete llm w req
        in case resp of
             Inl e \<Rightarrow> (PNil, 0, Some e, w1)
           | Inr r \<Rightarrow> (PString (stripCodeFences (lp_Content r)), lp_CostUSD r, None, w1)))"

definition depositValidated ::
  "'w env \<Rightarrow> 'w transition \<Rightarrow> payload \<Rightarrow> color \<Rightarrow> validate_config \<Rightarrow> 'w cpn \<Rightarrow>
   token_snapshot list \<times> gerr option \<times> 'w cpn" where
  "depositValidated env t p col cfg c =
     (let p1 = (case vc_OnSuccess cfg of None \<Rightarrow> p | Some f \<Rightarrow> f p);
          result = fresh_token col p1 space_empty NodeKindValidate c;
          (err, _, c1) = deposit_each (out_missing t) (out_wrap t)
            (\<lambda>_ q. Inr (result\<lparr>tok_Space := pl_Space q\<rparr>)) (tr_OutputPlaces t) c
      in case err of
           Some e \<Rightarrow> ([], Some e, c1)
         | None \<Rightarrow> ([Snapshot (en_render env) (Some result)], None, c1))"

definition routeValidationError ::
  "'w transition \<Rightarrow> gerr \<Rightarrow> payload \<Rightarrow> 'w cpn \<Rightarrow> gerr option \<times> 'w cpn" where
  "routeValidationError t verr original c =
     (if tr_ErrorPlace t = []
      then (Some (Wrap (''transition '' @ tr_ID t @ '': '') (Sentinel ErrValidationFailed)
              ('': '' @ err_text verr)), c)
      else case map_of (c_Places c) (tr_ErrorPlace t) of
        None \<Rightarrow> (Some (Plain (''transition '' @ tr_ID t @ '': error place '' @ tr_ErrorPlace t @
                   '' not found'')), c)
      | Some ep \<Rightarrow>
          (case Deposit ep (fresh_token ColorError (PErrorMap (err_text verr) original) (pl_Space ep)
                  NodeKindValidate c) of
             Inl e \<Rightarrow> (Some (Wrap (''transition '' @ tr_ID t @ '': deposit to error place '' @
                        tr_ErrorPlace t @ '': '') e []), c)
           | Inr ep' \<Rightarrow> (None, put_place (tr_ErrorPlace t) ep' c)))"

text \<open>The correction loop: how many iterations are left, and the index of this one.\<close>

fun correction_loop ::
  "'w env \<Rightarrow> 'w transition \<Rightarrow> validate_config \<Rightarrow> payload \<Rightarrow> color \<Rightarrow> nat \<Rightarrow> nat \<Rightarrow> payload \<Rightarrow> gerr \<Rightarrow>
   real \<Rightarrow> 'w \<Rightarrow> 'w cpn \<Rightarrow> fire_out \<times> 'w \<times> 'w cpn" where
  "correction_loop env t cfg original col 0 i cur lastErr tot w c =
     (let (err, c1) = routeValidationError t lastErr original c in (([], tot, err), w, c1))"
| "correction_loop env t cfg original col (Suc left) i cur lastErr tot w c =
     (let (d, w1) = en_done env w
      in case d of
           Some x \<Rightarrow> (([], tot, Some (CtxErr x)), w1, c)
         | None \<Rightarrow>
             (let (corrected, cost, cerr, w2) =
                    callCorrectionLLM env (vc_CorrectionLLMID cfg) cur (err_text lastErr) w1 c
              in case cerr of
                   Some e \<Rightarrow> (([], tot + cost, Some (Wrap (''transition '' @ tr_ID t @
                     '': correction LLM (iteration '' @ fmt_d (int i + 1) @ ''): '') e [])), w2, c)
                 | None \<Rightarrow>
                     (case validatePayload env corrected cfg of
                        None \<Rightarrow>
                          (let (snaps, derr, c1) = depositValidated env t corrected col cfg c
                           in ((snaps, tot + cost, derr), w2, c1))
                      | Some e \<Rightarrow>
                          correction_loop env t cfg original col left (Suc i) corrected e
                            (tot + cost) w2 c)))"

definition fireValidate :: "'w env \<Rightarrow> 'w firer" where
  "fireValidate env t consumed w c = (case tr_ValidateConfig t of
     None \<Rightarrow> fail_with (Plain (''transition '' @ tr_ID t @ '': nil ValidateConfig'')) w c
   | Some cfg \<Rightarrow> (case consumed of
        [] \<Rightarrow> fail_with (no_tokens_error t) w c
      | tok0 # _ \<Rightarrow> (case validatePayload env (tok_Payload tok0) cfg of
           None \<Rightarrow>
             (let (snaps, derr, c1) =
                    depositValidated env t (tok_Payload tok0) (tok_Color tok0) cfg c
              in ((snaps, 0, derr), w, c1))
         | Some e \<Rightarrow>
             (let maxCorr = min (vc_MaxCorrections cfg) MaxCorrectionCap
              in if maxCorr \<le> 0 \<or> vc_CorrectionLLMID cfg = []
                 then (let (err, c1) = routeValidationError t e (tok_Payload tok0) c
                       in (([], 0, err), w, c1))
                 else correction_loop env t cfg (tok_Payload tok0) (tok_Color tok0) (nat maxCorr) 0
                        (tok_Payload tok0) e 0 w c))))"

section \<open>Lemmas\<close>

lemma depositValidated_grows: "depositValidated env t p col cfg c = (s, r, c') \<Longrightarrow> grows c c'"
  by (auto simp: depositValidated_def Let_def split: prod.splits option.splits
      dest: deposit_each_grows)

lemma routeValidationError_grows: "routeValidationError t e p c = (r, c') \<Longrightarrow> grows c c'"
  by (auto simp: routeValidationError_def split: if_splits option.splits sum.splits
      intro: grows_put_place place_grows_Deposit)

lemma correction_loop_grows:
  "correction_loop env t cfg orig col n i cur le tot w c = (out, w', c') \<Longrightarrow> grows c c'"
proof (induction n arbitrary: i cur le tot w)
  case 0
  then show ?case by (auto split: prod.splits dest: routeValidationError_grows)
next
  case (Suc n)
  then show ?case
    by (auto simp: Let_def split: prod.splits option.splits
        dest: depositValidated_grows Suc.IH)
qed

lemma fireValidate_grows: "fireValidate env t toks w c = (out, w', c') \<Longrightarrow> grows c c'"
  by (auto simp: fireValidate_def Let_def split: option.splits list.splits prod.splits if_splits
      dest: depositValidated_grows routeValidationError_grows correction_loop_grows)

interpretation validate: sound_firer "fireValidate env" for env
  by unfold_locales (rule fireValidate_grows)

text \<open>
  The deposits of a validation firing. \<open>valid_deposits\<close> holds when the firing succeeded without
  using the error place: every output place got one token whose payload passed the check.
\<close>

lemma depositValidated_success:
  assumes "depositValidated env t p col cfg c = (s, None, c')"
    and "map_of (c_Places c) pid = Some q"
  shows "map_of (c_Places c') pid = Some (q\<lparr>pl_Tokens := pl_Tokens q @
    replicate (count_list (tr_OutputPlaces t) pid)
      ((fresh_token col (case vc_OnSuccess cfg of None \<Rightarrow> p | Some f \<Rightarrow> f p) space_empty
         NodeKindValidate c)\<lparr>tok_Space := pl_Space q\<rparr>)\<rparr>)"
proof -
  let ?r = "fresh_token col (case vc_OnSuccess cfg of None \<Rightarrow> p | Some f \<Rightarrow> f p) space_empty
         NodeKindValidate c"
  have gen: "deposit_each (out_missing t) (out_wrap t) (\<lambda>_ q. Inr (r\<lparr>tok_Space := pl_Space q\<rparr>)) pids d =
      (None, ts, d') \<Longrightarrow> map_of (c_Places d) pid = Some u \<Longrightarrow>
      map_of (c_Places d') pid = Some (u\<lparr>pl_Tokens := pl_Tokens u @
        replicate (count_list pids pid) (r\<lparr>tok_Space := pl_Space u\<rparr>)\<rparr>)" for r pids d ts d' u
  proof (induction pids arbitrary: d ts u)
    case (Cons x pids)
    from Cons.prems(1) obtain v v' ts1 where
      v: "map_of (c_Places d) x = Some v" "Deposit v (r\<lparr>tok_Space := pl_Space v\<rparr>) = Inr v'" and
      rec: "deposit_each (out_missing t) (out_wrap t) (\<lambda>_ q. Inr (r\<lparr>tok_Space := pl_Space q\<rparr>)) pids
        (put_place x v' d) = (None, ts1, d')"
      by (auto split: option.splits sum.splits prod.splits simp: Let_def)
    have v': "v' = v\<lparr>pl_Tokens := pl_Tokens v @ [r\<lparr>tok_Space := pl_Space v\<rparr>]\<rparr>"
      using v(2) by (simp add: Deposit_Inr_iff)
    show ?case
    proof (cases "x = pid")
      case True
      then have "v = u" using v(1) Cons.prems(2) by simp
      with Cons.IH[OF rec, of v'] True show ?thesis by (simp add: v')
    next
      case False
      with Cons.IH[OF rec, of u] Cons.prems(2) show ?thesis by simp
    qed
  qed simp
  show ?thesis
    using assms gen[of ?r "tr_OutputPlaces t" c _ c' q]
    by (auto simp: depositValidated_def Let_def split: prod.splits option.splits)
qed

end
