(* ===== verification/Bash.thy ===== *)
theory Bash
  imports Firing
begin

text \<open>
  Shell firings, \<open>cpn/fire_bash.go\<close>: the gate check and its HITL handler, the one-shot execution,
  the session loop, the splitting of captured output into fragments, and the deposits.
\<close>

section \<open>Splitting output\<close>

text \<open>
  \<open>bufio.Scanner\<close> with the default split function and a buffer of at most one MiB: a line, with its
  newline, has to fit the buffer, or the scan stops there. \<open>dropCR\<close> is the scanner's own.
\<close>

definition maxScanToken :: nat where "maxScanToken = 1024 * 1024"

definition dropCR :: "string \<Rightarrow> string" where
  "dropCR s = (if s \<noteq> [] \<and> last s = CHR 0x0D then butlast s else s)"

function splitLines :: "string \<Rightarrow> string list" where
  "splitLines b =
     (if b = [] then []
      else (let (line, rest, found) = cut_at (CHR 0x0A) b
            in if length line \<ge> maxScanToken then []
               else dropCR line # (if found then splitLines rest else [])))"
  by pat_completeness auto

lemma cut_at_shorter: "cut_at c s = (l, r, True) \<Longrightarrow> length r < length s"
proof -
  assume a: "cut_at c s = (l, r, True)"
  then obtain x where "dropWhile (\<lambda>x. x \<noteq> c) s = x # r"
    by (auto simp: cut_at_def split: list.splits)
  then have "Suc (length r) = length (dropWhile (\<lambda>x. x \<noteq> c) s)" by simp
  also have "\<dots> \<le> length s" by (rule length_dropWhile_le)
  finally show ?thesis by simp
qed

termination splitLines
  by (relation "measure length") (simp, metis cut_at_shorter in_measure)

declare splitLines.simps [simp del]

function chunks_of :: "nat \<Rightarrow> string \<Rightarrow> string list" where
  "chunks_of n b = (if b = [] \<or> n = 0 then [] else take n b # chunks_of n (drop n b))"
  by pat_completeness auto
termination
  by (relation "measure (\<lambda>(_, b). length b)") auto

declare chunks_of.simps [simp del]

definition DefaultEmitChunkBytes :: int where "DefaultEmitChunkBytes = 1024"

definition splitForEmit :: "string \<Rightarrow> bash_config \<Rightarrow> string list" where
  "splitForEmit b cfg =
     (if b = [] then []
      else (let m = (if bc_EmitMode cfg \<noteq> EmitDefault then bc_EmitMode cfg else EmitPerLine)
            in if m = EmitPerChunk
               then chunks_of (nat (if bc_EmitChunkBytes cfg > 0 then bc_EmitChunkBytes cfg
                                    else DefaultEmitChunkBytes)) b
               else splitLines b))"

lemma chunks_of_concat: "0 < n \<Longrightarrow> concat (chunks_of n b) = b"
  by (induction n b rule: chunks_of.induct) (subst chunks_of.simps, auto)

lemma chunks_of_Nil [simp]: "chunks_of n [] = []"
  by (simp add: chunks_of.simps)

lemma chunks_of_Cons: "b \<noteq> [] \<Longrightarrow> 0 < n \<Longrightarrow> chunks_of n b = take n b # chunks_of n (drop n b)"
  by (simp add: chunks_of.simps)

lemma chunks_of_sizes:
  "0 < n \<Longrightarrow> (\<forall>x \<in> set (butlast (chunks_of n b)). length x = n) \<and>
     (\<forall>x \<in> set (chunks_of n b). x \<noteq> [] \<and> length x \<le> n)"
proof (induction "length b" arbitrary: b rule: less_induct)
  case less
  show ?case
  proof (cases "b = []")
    case False
    with less.prems have "length (drop n b) < length b" by simp
    note IH = less.hyps[OF this less.prems]
    have e: "chunks_of n b = take n b # chunks_of n (drop n b)"
      by (rule chunks_of_Cons[OF False less.prems])
    have t: "take n b \<noteq> []" "length (take n b) \<le> n" using False less.prems by simp_all
    show ?thesis
    proof (cases "chunks_of n (drop n b) = []")
      case True
      with e t show ?thesis by simp
    next
      case ne: False
      then have "drop n b \<noteq> []" by (metis chunks_of_Nil)
      then have l: "length (take n b) = n" by simp
      have bl: "butlast (chunks_of n b) = take n b # butlast (chunks_of n (drop n b))"
        using ne by (simp only: e butlast.simps if_False)
      have sb: "set (butlast (chunks_of n b)) = insert (take n b) (set (butlast (chunks_of n (drop n b))))"
        by (simp only: bl list.set)
      have s: "set (chunks_of n b) = insert (take n b) (set (chunks_of n (drop n b)))"
        by (simp only: e list.set)
      show ?thesis
      proof (intro conjI ballI)
        fix x assume "x \<in> set (butlast (chunks_of n b))"
        then have "x = take n b \<or> x \<in> set (butlast (chunks_of n (drop n b)))"
          unfolding sb by (rule insertE) blast+
        then show "length x = n" using l IH by (elim disjE) (simp only:, blast)
      next
        fix x assume "x \<in> set (chunks_of n b)"
        then have "x = take n b \<or> x \<in> set (chunks_of n (drop n b))" unfolding s by (rule insertE) blast+
        then show "x \<noteq> []" "length x \<le> n" using t IH by (elim disjE, simp only:, blast)+
      qed
    qed
  qed simp
qed

section \<open>Tokens and deposits\<close>

text \<open>The space of the first output place that exists.\<close>

fun first_space :: "'w cpn \<Rightarrow> string list \<Rightarrow> space" where
  "first_space c [] = SpaceComputation"
| "first_space c (pid # pids) =
     (case map_of (c_Places c) pid of Some p \<Rightarrow> pl_Space p | None \<Rightarrow> first_space c pids)"

definition newShellChunkToken :: "'w cpn \<Rightarrow> 'w transition \<Rightarrow> string \<Rightarrow> token" where
  "newShellChunkToken c t line =
     fresh_token ColorShellChunk (PString line) (first_space c (tr_OutputPlaces t)) NodeKindBash c"

definition newShellResultToken :: "'w cpn \<Rightarrow> 'w transition \<Rightarrow> exec_result \<Rightarrow> int \<Rightarrow> token" where
  "newShellResultToken c t r durationMs =
     fresh_token ColorShellResult (PShellResult (r\<lparr>xs_DurationMs := durationMs\<rparr>))
       (first_space c (tr_OutputPlaces t)) NodeKindBash c"

definition depositAll :: "string list \<Rightarrow> token \<Rightarrow> 'w cpn \<Rightarrow> gerr option \<times> 'w cpn" where
  "depositAll pids tok c =
     (let (err, _, c1) = deposit_each (\<lambda>pid. Plain (''output place '' @ pid @ '' not found''))
            (\<lambda>pid e. Wrap (''deposit to '' @ pid @ '': '') e [])
            (\<lambda>_ p. Inr (tok\<lparr>tok_Space := pl_Space p\<rparr>)) pids c
      in (err, c1))"

definition emitProcessEvent ::
  "'w transition \<Rightarrow> event_type \<Rightarrow> process_payload \<Rightarrow> 'w \<Rightarrow> 'w cpn \<Rightarrow> 'w \<times> 'w cpn" where
  "emitProcessEvent t kind pl w c = publish_process (tr_ID t) kind pl w c"

definition proc :: "string \<Rightarrow> string \<Rightarrow> int \<Rightarrow> process_payload" where
  "proc sid line code = \<lparr>pp_PID = 0, pp_SessionID = sid, pp_Line = line, pp_ExitCode = code, pp_Err = []\<rparr>"

lemma depositAll_grows: "depositAll pids tok c = (r, c') \<Longrightarrow> grows c c'"
  by (auto simp: depositAll_def split: prod.splits dest: deposit_each_grows)

lemma emitProcessEvent_grows: "emitProcessEvent t k pl w c = (w', c') \<Longrightarrow> grows c c'"
  using publish_process_frame(1)[of "tr_ID t" k pl w c]
  by (auto simp: emitProcessEvent_def intro: grows_places)

section \<open>One-shot execution\<close>

text \<open>The loop over the stdout fragments: one token and one event each.\<close>

fun emit_fragments ::
  "'w env \<Rightarrow> 'w transition \<Rightarrow> string list \<Rightarrow> token_snapshot list \<Rightarrow> 'w \<Rightarrow> 'w cpn \<Rightarrow>
   gerr option \<times> token_snapshot list \<times> 'w \<times> 'w cpn" where
  "emit_fragments env t [] snaps w c = (None, snaps, w, c)"
| "emit_fragments env t (frag # frags) snaps w c =
     (let tok = newShellChunkToken c t frag;
          (err, c1) = depositAll (tr_OutputPlaces t) tok c
      in case err of
           Some e \<Rightarrow> (Some e, snaps, w, c1)
         | None \<Rightarrow>
             (let (w2, c2) = emitProcessEvent t EventProcessStdout (proc [] frag 0) w c1
              in emit_fragments env t frags (snaps @ [Snapshot (en_render env) (Some tok)]) w2 c2))"

definition emit_stderr :: "'w transition \<Rightarrow> string list \<Rightarrow> 'w \<Rightarrow> 'w cpn \<Rightarrow> 'w \<times> 'w cpn" where
  "emit_stderr t frags w c =
     fold (\<lambda>frag (w, c). emitProcessEvent t EventProcessStderr (proc [] frag 0) w c) frags (w, c)"

definition exec_request_of :: "bash_config \<Rightarrow> exec_request" where
  "exec_request_of cfg =
     \<lparr>xr_Command = bc_Command cfg, xr_Args = bc_Args cfg, xr_Stdin = bc_Stdin cfg,
      xr_Env = bc_Env cfg, xr_Cwd = bc_Cwd cfg, xr_Timeout = bc_Timeout cfg,
      xr_Sandbox = bc_SandboxProfile cfg, xr_AllowNonZero = bc_AllowNonZeroExit cfg\<rparr>"

definition fireBashOneShot ::
  "'w env \<Rightarrow> 'w transition \<Rightarrow> bash_config \<Rightarrow> ('w \<Rightarrow> exec_request \<Rightarrow> (exec_result \<times> gerr option) \<times> 'w) \<Rightarrow>
   'w \<Rightarrow> 'w cpn \<Rightarrow> fire_out \<times> 'w \<times> 'w cpn" where
  "fireBashOneShot env t cfg adapter w c =
     (let (start, w1) = en_now env w;
          ((result, err0), w2) = adapter w1 (exec_request_of cfg);
          (stop, w3) = en_now env w2;
          durationMs = (stop - start) div 10 ^ 6;
          err = (case err0 of None \<Rightarrow> None
                 | Some e \<Rightarrow> if bc_AllowNonZeroExit cfg \<and> err_is_host e HostErrCodeNonZeroExit
                            then None else Some e)
      in case err of
           Some e \<Rightarrow> fail_with e w3 c
         | None \<Rightarrow>
             (if \<not> bc_AllowNonZeroExit cfg \<and> xs_ExitCode result \<noteq> 0
              then fail_with (NewHostError HostErrCodeNonZeroExit
                     (bc_Command cfg @ '' exited with code '' @ fmt_d (xs_ExitCode result)) None) w3 c
              else (let (serr, snaps, w4, c4) =
                          (if bc_Streaming cfg
                           then emit_fragments env t (splitForEmit (xs_Stdout result) cfg) [] w3 c
                           else (None, [], w3, c))
                    in case serr of
                         Some e \<Rightarrow> fail_with e w4 c4
                       | None \<Rightarrow>
                           (let (w5, c5) = (if bc_Streaming cfg
                                  then emit_stderr t (splitForEmit (xs_Stderr result) cfg) w4 c4
                                  else (w4, c4));
                                tok = newShellResultToken c5 t result durationMs;
                                (derr, c6) = depositAll (tr_OutputPlaces t) tok c5
                            in case derr of
                                 Some e \<Rightarrow> fail_with e w5 c6
                               | None \<Rightarrow>
                                   (let (w7, c7) = emitProcessEvent t EventProcessExit
                                          (proc [] [] (xs_ExitCode result)) w5 c6
                                    in ((snaps @ [Snapshot (en_render env) (Some tok)], 0, None),
                                        w7, c7))))))"

section \<open>Sessions\<close>

definition trim_crlf :: "string \<Rightarrow> string" where
  "trim_crlf s = rev (dropWhile (\<lambda>x. x = CHR 0x0D \<or> x = CHR 0x0A) (rev s))"

definition session_result :: "string \<Rightarrow> int \<Rightarrow> exec_result" where
  "session_result out code =
     \<lparr>xs_ExitCode = code, xs_Stdout = out, xs_Stderr = [], xs_DurationMs = 0, xs_Truncated = False\<rparr>"

text \<open>
  The receive loop over what \<open>sp_Select\<close> delivers; \<open>ms\<close> is the elapsed time of the final token and
  \<open>buf\<close> the captured output.
\<close>

fun session_loop ::
  "'w env \<Rightarrow> 'w transition \<Rightarrow> bash_config \<Rightarrow> int \<Rightarrow> ctx_err \<Rightarrow> sess_recv list \<Rightarrow> string \<Rightarrow>
   token_snapshot list \<Rightarrow> 'w \<Rightarrow> 'w cpn \<Rightarrow> fire_out \<times> 'w \<times> 'w cpn" where
  "session_loop env t cfg ms cerr [] buf snaps w c =
     (if cerr = DeadlineExceeded
      then fail_with (NewHostError HostErrCodeTimeout ''session write exceeded timeout''
             (Some (CtxErr cerr))) w c
      else fail_with (CtxErr cerr) w c)"
| "session_loop env t cfg ms cerr (SessChunksClosed # evs) buf snaps w c =
     (let tok = newShellResultToken c t (session_result buf 0) ms;
          (derr, c1) = depositAll (tr_OutputPlaces t) tok c
      in case derr of
           Some e \<Rightarrow> fail_with e w c1
         | None \<Rightarrow> ((snaps @ [Snapshot (en_render env) (Some tok)], 0, None), w, c1))"
| "session_loop env t cfg ms cerr (SessLine line # evs) buf snaps w c =
     (let buf' = buf @ line @ (if has_suffix line [CHR 0x0A] then [] else [CHR 0x0A]);
          asText = trim_crlf line;
          tok = newShellChunkToken c t asText;
          (derr, c1) = depositAll (tr_OutputPlaces t) tok c
      in case derr of
           Some e \<Rightarrow> fail_with e w c1
         | None \<Rightarrow>
             (let (w2, c2) = emitProcessEvent t EventProcessStdout
                    (proc (bc_SessionID cfg) asText 0) w c1
              in session_loop env t cfg ms cerr evs buf'
                   (snaps @ [Snapshot (en_render env) (Some tok)]) w2 c2))"
| "session_loop env t cfg ms cerr (SessStatusClosed # evs) buf snaps w c =
     session_loop env t cfg ms cerr evs buf snaps w c"
| "session_loop env t cfg ms cerr (SessStatus kind code serr # evs) buf snaps w c =
     (if kind = ''exited'' \<or> kind = ''error''
      then (let tok = newShellResultToken c t (session_result buf code) ms;
                (derr, c1) = depositAll (tr_OutputPlaces t) tok c
            in case derr of
                 Some e \<Rightarrow> fail_with e w c1
               | None \<Rightarrow>
                   (let snaps' = snaps @ [Snapshot (en_render env) (Some tok)];
                        (w2, c2) = emitProcessEvent t EventProcessExit
                          (proc (bc_SessionID cfg) [] code) w c1
                    in if kind = ''error'' \<and> serr \<noteq> None then ((snaps', 0, serr), w2, c2)
                       else if code \<noteq> 0 \<and> \<not> bc_AllowNonZeroExit cfg
                       then ((snaps', 0, Some (NewHostError HostErrCodeNonZeroExit
                               (''session '' @ bc_SessionID cfg @ '' exited with code '' @ fmt_d code)
                               None)), w2, c2)
                       else ((snaps', 0, None), w2, c2)))
      else session_loop env t cfg ms cerr evs buf snaps w c)"

definition fireBashSession ::
  "'w env \<Rightarrow> 'w transition \<Rightarrow> bash_config \<Rightarrow> 'w session_port option \<Rightarrow> 'w \<Rightarrow> 'w cpn \<Rightarrow>
   fire_out \<times> 'w \<times> 'w cpn" where
  "fireBashSession env t cfg sessions w c = (case sessions of
     None \<Rightarrow> fail_with (Plain (''transition '' @ tr_ID t @
       '': HostRuntime.Sessions is nil, cannot address session '' @ bc_SessionID cfg)) w c
   | Some sp \<Rightarrow> (case sp_Chunks sp (bc_SessionID cfg) of
        Some e \<Rightarrow> fail_with e w c
      | None \<Rightarrow> (case sp_Status sp (bc_SessionID cfg) of
           Some e \<Rightarrow> fail_with e w c
         | None \<Rightarrow>
             (let (start, w1) = en_now env w;
                  (werr, w2) = (if bc_Stdin cfg \<noteq> [] then sp_Write sp w1 (bc_SessionID cfg) (bc_Stdin cfg)
                                else (None, w1))
              in case werr of
                   Some e \<Rightarrow> fail_with e w2 c
                 | None \<Rightarrow>
                     (let ((evs, cerr), w3) = sp_Select sp w2 (bc_SessionID cfg) (bc_Timeout cfg);
                          (stop, w4) = en_now env w3
                      in session_loop env t cfg ((stop - start) div 10 ^ 6) cerr evs [] [] w4 c)))))"

section \<open>The firing\<close>

text \<open>
  The two events of \<open>SessionHITLRouter.Publish\<close>, and the gate: \<open>None\<close> lets the firing proceed.
\<close>

definition approval_title :: string where
  "approval_title = ''Permiso para operar en tu m'' @ [CHR 0xC3, CHR 0xA1] @ ''quina''"

definition publish_approval :: "string \<Rightarrow> string option \<Rightarrow> 'w cpn \<Rightarrow> 'w cpn" where
  "publish_approval tid surface c = (case surface of
     None \<Rightarrow> c
   | Some content \<Rightarrow> PublishHITLRequested tid approval_title True (PublishHostApprovalSurface tid content c))"

definition bash_gate ::
  "'w transition \<Rightarrow> 'w host_runtime \<Rightarrow> bash_config \<Rightarrow> 'w \<Rightarrow> 'w cpn \<Rightarrow>
   gerr option \<times> 'w \<times> 'w cpn" where
  "bash_gate t rt cfg w c = (case hr_Gate rt of
     None \<Rightarrow> (None, w, c)
   | Some check \<Rightarrow>
       (let op = \<lparr>op_Kind = (if bc_SessionID cfg \<noteq> [] then ''spawn_pty'' else ''exec''),
                  op_Command = bc_Command cfg, op_Path = [], op_Sandbox = bc_SandboxProfile cfg,
                  op_SessionID = c_SessionID c\<rparr>;
            (err, w1) = check w (c_SessionID c) op
        in case err of
             None \<Rightarrow> (None, w1, c)
           | Some e \<Rightarrow> (case hr_HITLHandler rt of
                None \<Rightarrow> (Some e, w1, c)
              | Some handler \<Rightarrow>
                  (let inject = (case tr_HITLConfig t of None \<Rightarrow> None | Some h \<Rightarrow> hc_Channel h);
                       ((handled, surface), w2) = handler w1 inject (tr_ID t) op e
                   in (handled, w2, publish_approval (tr_ID t) surface c)))))"

definition fireBash :: "'w env \<Rightarrow> 'w firer" where
  "fireBash env t consumed w c = (case tr_BashConfig t of
     None \<Rightarrow> fail_with (Plain (''transition '' @ tr_ID t @ '': nil BashConfig'')) w c
   | Some cfg \<Rightarrow>
       (case (case c_HostRuntime c of None \<Rightarrow> None
              | Some rt \<Rightarrow> (case hr_Adapter rt of None \<Rightarrow> None | Some ad \<Rightarrow> Some (rt, ad))) of
          None \<Rightarrow> fail_with (Plain (''transition '' @ tr_ID t @ '': HostRuntime not injected '' @
             [CHR 0xE2, CHR 0x80, CHR 0x94] @ '' cannot fire NodeKindBash'')) w c
        | Some (rt, ad) \<Rightarrow>
            (let (gerr, w1, c1) = bash_gate t rt cfg w c
             in case gerr of
                  Some e \<Rightarrow> fail_with e w1 c1
                | None \<Rightarrow>
                    (let (w2, c2) = emitProcessEvent t EventProcessStarted
                           (proc (bc_SessionID cfg) [] 0) w1 c1
                     in if bc_SessionID cfg \<noteq> []
                        then fireBashSession env t cfg (hr_Sessions rt) w2 c2
                        else fireBashOneShot env t cfg ad w2 c2))))"

section \<open>The firing only adds\<close>

lemma emit_fragments_grows:
  "emit_fragments env t frags snaps w c = (r, s, w', c') \<Longrightarrow> grows c c'"
proof (induction frags arbitrary: snaps w c)
  case (Cons f frags)
  obtain err c1 where d: "depositAll (tr_OutputPlaces t) (newShellChunkToken c t f) c = (err, c1)"
    by force
  obtain w2 c2 where e: "emitProcessEvent t EventProcessStdout (proc [] f 0) w c1 = (w2, c2)" by force
  show ?case
    using Cons.prems Cons.IH depositAll_grows[OF d] emitProcessEvent_grows[OF e]
    by (cases err) (auto simp: d e Let_def intro: grows_trans)
qed simp

lemma emit_stderr_grows: "emit_stderr t frags w c = (w', c') \<Longrightarrow> grows c c'"
  unfolding emit_stderr_def
proof (induction frags arbitrary: w c)
  case (Cons f frags)
  obtain w2 c2 where e: "emitProcessEvent t EventProcessStderr (proc [] f 0) w c = (w2, c2)" by force
  show ?case
    using Cons.prems Cons.IH[of w2 c2] emitProcessEvent_grows[OF e] by (auto simp: e intro: grows_trans)
qed simp

lemma session_loop_grows:
  "session_loop env t cfg ms ce evs buf snaps w c = (out, w', c') \<Longrightarrow> grows c c'"
proof (induction env t cfg ms ce evs buf snaps w c arbitrary: out w' c' rule: session_loop.induct)
  case (1 env t cfg ms cerr buf snaps w c)
  then show ?case by (auto split: if_splits)
next
  case (2 env t cfg ms cerr evs buf snaps w c)
  then show ?case by (auto simp: Let_def split: prod.splits option.splits dest: depositAll_grows)
next
  case (3 env t cfg ms cerr line evs buf snaps w c)
  let ?x = "trim_crlf line"
  obtain err c1 where d: "depositAll (tr_OutputPlaces t) (newShellChunkToken c t ?x) c = (err, c1)"
    by force
  obtain w2 c2 where
    e: "emitProcessEvent t EventProcessStdout (proc (bc_SessionID cfg) ?x 0) w c1 = (w2, c2)" by force
  have g: "grows c c2"
    using depositAll_grows[OF d] emitProcessEvent_grows[OF e] grows_trans by blast
  show ?case
  proof (cases err)
    case None
    with 3(2) d e have "session_loop env t cfg ms cerr evs
        (buf @ line @ (if has_suffix line [CHR 0x0A] then [] else [CHR 0x0A]))
        (snaps @ [Snapshot (en_render env) (Some (newShellChunkToken c t ?x))]) w2 c2 = (out, w', c')"
      by (simp add: Let_def)
    from 3(1)[OF refl refl refl refl d[symmetric] None refl e[symmetric] this] g show ?thesis using grows_trans by blast
  next
    case (Some x)
    with 3(2) d depositAll_grows[OF d] show ?thesis by (simp add: Let_def)
  qed
next
  case (4 env t cfg ms cerr evs buf snaps w c)
  then show ?case by simp
next
  case (5 env t cfg ms cerr kind code serr evs buf snaps w c)
  show ?case
  proof (cases "kind = ''exited'' \<or> kind = ''error''")
    case True
    then show ?thesis using 5(2)
      by (auto simp: Let_def split: prod.splits option.splits if_splits
          dest!: depositAll_grows emitProcessEvent_grows intro: grows_trans)
  next
    case False
    with 5 show ?thesis by auto
  qed
qed

lemma publish_approval_frame [simp]:
  "c_Places (publish_approval tid s c) = c_Places c"
  by (simp add: publish_approval_def PublishHITLRequested_def PublishHostApprovalSurface_def
      split: option.splits)

lemma bash_gate_grows: "bash_gate t rt cfg w c = (r, w', c') \<Longrightarrow> grows c c'"
  by (auto simp: bash_gate_def Let_def split: option.splits prod.splits intro: grows_places)

lemma fireBashOneShot_grows:
  assumes "fireBashOneShot env t cfg ad w c = (out, w', c')"
  shows "grows c c'"
  using assms
  by (auto simp: fireBashOneShot_def Let_def split: prod.splits option.splits if_splits
      dest!: depositAll_grows emitProcessEvent_grows emit_fragments_grows emit_stderr_grows
      intro: grows_trans)

lemma fireBashSession_grows:
  "fireBashSession env t cfg sp w c = (out, w', c') \<Longrightarrow> grows c c'"
  by (auto simp: fireBashSession_def Let_def split: prod.splits option.splits if_splits
      dest: session_loop_grows)

lemma fireBash_grows:
  assumes f: "fireBash env t toks w c = (out, w', c')"
  shows "grows c c'"
proof -
  have step: "grows c c'"
    if "bash_gate t rt cfg w c = (ge, w1, c1)"
      "emitProcessEvent t EventProcessStarted pl w1 c1 = (w2, c2)" "grows c2 c'" for rt cfg ge w1 c1 pl w2 c2
    using bash_gate_grows[OF that(1)] emitProcessEvent_grows[OF that(2)] that(3) grows_trans by blast
  show ?thesis
    using f unfolding fireBash_def
    by (auto simp: Let_def split: option.splits prod.splits if_splits
        dest: bash_gate_grows fireBashSession_grows fireBashOneShot_grows intro: step)
qed

interpretation bash: sound_firer "fireBash env" for env
  by unfold_locales (rule fireBash_grows)

end
