(* ===== verification/Regional.thy ===== *)
theory Regional
  imports Prelude
begin

text \<open>
  The regional registers of the system prompt, \<open>cpn/prompts/regional.go\<close>: the variants, the fallback of
  an unknown one, and the preamble of each. The texts are byte strings in UTF-8.
\<close>

section \<open>Preambles\<close>

definition preambleEsCO :: string where
  \<open>preambleEsCO =
    ''USER CONTEXT '' @ [CHR 0xE2, CHR 0x80, CHR 0x94] @ '' REGIONAL REGISTER'' @ [CHR 0x0A] @
    ''The user writes in Espa'' @ [CHR 0xC3, CHR 0xB1] @
    ''ol (Colombia). In this register, treat the following as conversational unless the broader sentence clearly demands otherwise:'' @
    [CHR 0x0A] @ ''- "cuenta / cu'' @ [CHR 0xC3, CHR 0xA9] @
    ''ntame": often "tell me the story / spill it", not "count".'' @ [CHR 0x0A] @ ''- "reg'' @
    [CHR 0xC3, CHR 0xA1] @ ''lame X": polite "please pass me X", not literal gifting.'' @
    [CHR 0x0A] @ ''- "ahorita": vague near-future, not "right now".'' @ [CHR 0x0A] @
    ''Use this only to interpret intent and tone, not to imitate the dialect.''\<close>

definition preambleEsMX :: string where
  \<open>preambleEsMX =
    ''USER CONTEXT '' @ [CHR 0xE2, CHR 0x80, CHR 0x94] @ '' REGIONAL REGISTER'' @ [CHR 0x0A] @
    ''The user writes in Espa'' @ [CHR 0xC3, CHR 0xB1] @ ''ol (M'' @ [CHR 0xC3, CHR 0xA9] @
    ''xico). In this register, treat the following as conversational unless the broader sentence clearly demands otherwise:'' @
    [CHR 0x0A] @ ''- "ahorita": vague soon, not literally "right now".'' @ [CHR 0x0A] @
    ''- "mande": polite "pardon? / what did you say?", not a command.'' @ [CHR 0x0A] @ ''- "'' @
    [CHR 0xC3, CHR 0xB3] @ ''rale": broad reaction word '' @ [CHR 0xE2, CHR 0x80, CHR 0x94] @
    '' surprise, agreement, or encouragement.'' @ [CHR 0x0A] @
    ''Use this only to interpret intent and tone, not to imitate the dialect.''\<close>

definition preambleEsAR :: string where
  \<open>preambleEsAR =
    ''USER CONTEXT '' @ [CHR 0xE2, CHR 0x80, CHR 0x94] @ '' REGIONAL REGISTER'' @ [CHR 0x0A] @
    ''The user writes in Espa'' @ [CHR 0xC3, CHR 0xB1] @
    ''ol (Argentina). In this register, treat the following as conversational unless the broader sentence clearly demands otherwise:'' @
    [CHR 0x0A] @ ''- "che": vocative filler ("hey"), not a name.'' @ [CHR 0x0A] @ ''- "b'' @
    [CHR 0xC3, CHR 0xA1] @ ''rbaro / genial": "great / cool", not literal.'' @ [CHR 0x0A] @
    ''- "tipo": hedge meaning "like / sort of", not "type".'' @ [CHR 0x0A] @
    ''Use this only to interpret intent and tone, not to imitate the dialect.''\<close>

definition preambleEsES :: string where
  \<open>preambleEsES =
    ''USER CONTEXT '' @ [CHR 0xE2, CHR 0x80, CHR 0x94] @ '' REGIONAL REGISTER'' @ [CHR 0x0A] @
    ''The user writes in Espa'' @ [CHR 0xC3, CHR 0xB1] @ ''ol (Espa'' @ [CHR 0xC3, CHR 0xB1] @
    ''a). In this register, treat the following as conversational unless the broader sentence clearly demands otherwise:'' @
    [CHR 0x0A] @ ''- "vale": "ok / got it", a discourse marker, not "it is worth".'' @ [CHR 0x0A] @
    ''- "venga": "come on / alright", not the verb "to come".'' @ [CHR 0x0A] @ ''- "t'' @
    [CHR 0xC3, CHR 0xAD] @ ''o / t'' @ [CHR 0xC3, CHR 0xAD] @
    ''a": "dude / mate", not literal aunt/uncle.'' @ [CHR 0x0A] @
    ''Use this only to interpret intent and tone, not to imitate the dialect.''\<close>

definition preambleEnGB :: string where
  \<open>preambleEnGB =
    ''USER CONTEXT '' @ [CHR 0xE2, CHR 0x80, CHR 0x94] @ '' REGIONAL REGISTER'' @ [CHR 0x0A] @
    ''The user writes in English (UK). In this register, treat the following as conversational unless the broader sentence clearly demands otherwise:'' @
    [CHR 0x0A] @ ''- "you alright?": a greeting, not a welfare check.'' @ [CHR 0x0A] @
    ''- "cheers": "thanks / bye", not a toast.'' @ [CHR 0x0A] @
    ''- "quite good": mildly positive, sometimes lukewarm '' @ [CHR 0xE2, CHR 0x80, CHR 0x94] @
    '' calibrate accordingly.'' @ [CHR 0x0A] @
    ''Use this only to interpret intent and tone, not to imitate the dialect.''\<close>

definition preambleEnUS :: string where
  \<open>preambleEnUS =
    ''USER CONTEXT '' @ [CHR 0xE2, CHR 0x80, CHR 0x94] @ '' REGIONAL REGISTER'' @ [CHR 0x0A] @
    ''The user writes in English (US). In this register, treat the following as conversational unless the broader sentence clearly demands otherwise:'' @
    [CHR 0x0A] @ ''- "what's up?": a greeting, not a literal question.'' @ [CHR 0x0A] @
    ''- "I could care less": idiomatic "I don't care", same meaning as "couldn't".'' @ [CHR 0x0A] @
    ''- "real quick": hedge meaning "briefly", not a speed instruction.'' @ [CHR 0x0A] @
    ''Use this only to interpret intent and tone, not to imitate the dialect.''\<close>

definition preambleEnAU :: string where
  \<open>preambleEnAU =
    ''USER CONTEXT '' @ [CHR 0xE2, CHR 0x80, CHR 0x94] @ '' REGIONAL REGISTER'' @ [CHR 0x0A] @
    ''The user writes in English (Australia). In this register, treat the following as conversational unless the broader sentence clearly demands otherwise:'' @
    [CHR 0x0A] @ ''- "how ya going?": a greeting, not a travel question.'' @ [CHR 0x0A] @
    ''- "no worries": "you're welcome / it's fine".'' @ [CHR 0x0A] @
    ''- "heaps": "a lot", quantifier not literal piles.'' @ [CHR 0x0A] @
    ''Use this only to interpret intent and tone, not to imitate the dialect.''\<close>

section \<open>Variants\<close>

record variant_info =
  vi_Lang :: string
  vi_Label :: string
  vi_Preamble :: string

definition SupportedVariants :: "(string \<times> variant_info) list" where
  "SupportedVariants =
    [(''es-CO'', \<lparr>vi_Lang = ''es'', vi_Label = ''Espa'' @ [CHR 0xC3, CHR 0xB1] @ ''ol (Colombia)'', vi_Preamble = preambleEsCO\<rparr>),
     (''es-MX'', \<lparr>vi_Lang = ''es'', vi_Label = ''Espa'' @ [CHR 0xC3, CHR 0xB1] @ ''ol (M'' @ [CHR 0xC3, CHR 0xA9] @ ''xico)'', vi_Preamble = preambleEsMX\<rparr>),
     (''es-AR'', \<lparr>vi_Lang = ''es'', vi_Label = ''Espa'' @ [CHR 0xC3, CHR 0xB1] @ ''ol (Argentina)'', vi_Preamble = preambleEsAR\<rparr>),
     (''es-ES'', \<lparr>vi_Lang = ''es'', vi_Label = ''Espa'' @ [CHR 0xC3, CHR 0xB1] @ ''ol (Espa'' @ [CHR 0xC3, CHR 0xB1] @ ''a)'', vi_Preamble = preambleEsES\<rparr>),
     (''en-GB'', \<lparr>vi_Lang = ''en'', vi_Label = ''English (UK)'', vi_Preamble = preambleEnGB\<rparr>),
     (''en-US'', \<lparr>vi_Lang = ''en'', vi_Label = ''English (US)'', vi_Preamble = preambleEnUS\<rparr>),
     (''en-AU'', \<lparr>vi_Lang = ''en'', vi_Label = ''English (Australia)'', vi_Preamble = preambleEnAU\<rparr>)]"

definition IsSupported :: "string \<Rightarrow> bool" where
  "IsSupported code = (if code = [] then False else map_of SupportedVariants code \<noteq> None)"

definition DefaultVariant :: "string \<Rightarrow> string" where
  "DefaultVariant lang = (if lang = ''en'' then ''en-GB'' else ''es-CO'')"

definition PreambleFor :: "string \<Rightarrow> string" where
  "PreambleFor variant = (case map_of SupportedVariants variant of
     Some v \<Rightarrow> vi_Preamble v
   | None \<Rightarrow> (case map_of SupportedVariants (DefaultVariant []) of
        Some v \<Rightarrow> vi_Preamble v | None \<Rightarrow> []))"

lemma DefaultVariant_supported: "IsSupported (DefaultVariant lang)"
  by (simp add: IsSupported_def DefaultVariant_def SupportedVariants_def)

text \<open>Callers never get an empty preamble.\<close>

lemma PreambleFor_nonempty: "PreambleFor variant \<noteq> []"
proof -
  have "vi_Preamble v \<noteq> []" if "(k, v) \<in> set SupportedVariants" for k v
    using that
    by (auto simp: SupportedVariants_def preambleEsCO_def preambleEsMX_def preambleEsAR_def
        preambleEsES_def preambleEnGB_def preambleEnUS_def preambleEnAU_def)
  note ne = this
  obtain d where d: "map_of SupportedVariants (DefaultVariant []) = Some d"
    by (simp add: DefaultVariant_def SupportedVariants_def)
  show ?thesis
    using ne[OF map_of_SomeD] ne[OF map_of_SomeD[OF d]]
    by (cases "map_of SupportedVariants variant") (auto simp: PreambleFor_def d)
qed

end
