(* ===== verification/Shell_Parse.thy ===== *)
theory Shell_Parse
  imports Firing
begin

text \<open>
  Tool invocations as shell commands, \<open>cpn/shell_parse.go\<close>: what the approval card shows and the
  operation the gate checks. The arguments are the raw JSON of a tool call; decoding their fields is a
  parameter of the environment.
\<close>

definition isShellWrapper :: "string \<Rightarrow> bool" where
  "isShellWrapper command =
     (command \<in> set [''bash'', ''sh'', ''/bin/bash'', ''/bin/sh'', ''zsh'', ''/bin/zsh''])"

definition isDashC :: "string \<Rightarrow> bool" where
  "isDashC flag \<longleftrightarrow> flag = ''-c'' \<or> flag = ''-lc''"

text \<open>\<open>rawArgsJSON\<close> on a \<open>json.RawMessage\<close>; \<open>%v\<close> of an empty one prints \<open>[]\<close>.\<close>

definition rawArgsJSON :: "string \<Rightarrow> string option" where
  "rawArgsJSON args = (if args = [] then None else Some args)"

definition stringifyFallback :: "string \<Rightarrow> string" where
  "stringifyFallback args = (case rawArgsJSON args of Some b \<Rightarrow> b | None \<Rightarrow> ''[]'')"

definition arrow_right :: string where "arrow_right = [CHR 0xE2, CHR 0x86, CHR 0x92]"
definition arrow_left :: string where "arrow_left = [CHR 0xE2, CHR 0x86, CHR 0x90]"

definition ParseShellInvocation :: "'w env \<Rightarrow> string \<Rightarrow> string \<Rightarrow> string \<times> bool" where
  "ParseShellInvocation env tool args =
     (if tool = ''bash_exec''
      then (case rawArgsJSON args of
              None \<Rightarrow> (stringifyFallback args, False)
            | Some raw \<Rightarrow> (case en_shell_args env raw of
                 Inl e \<Rightarrow> (raw, False)
               | Inr (command, argv) \<Rightarrow>
                   (if command = [] then (raw, False)
                    else if isShellWrapper command \<and> length argv \<ge> 2 \<and> isDashC (argv ! 0)
                    then (argv ! 1, True)
                    else if argv = [] then (command, True)
                    else (command @ '' '' @ join_str '' '' argv, True))))
      else if tool = ''file_write'' \<or> tool = ''file_read''
      then (case rawArgsJSON args of
              None \<Rightarrow> (stringifyFallback args, False)
            | Some raw \<Rightarrow> (case en_path_arg env raw of
                 Inl e \<Rightarrow> (stringifyFallback args, False)
               | Inr path \<Rightarrow>
                   (if path = [] then (stringifyFallback args, False)
                    else ((if tool = ''file_write'' then ''write '' @ arrow_right else ''read '' @ arrow_left) @
                          '' '' @ path, True))))
      else (stringifyFallback args, False))"

definition host_op :: "string \<Rightarrow> string \<Rightarrow> string \<Rightarrow> gate_op" where
  "host_op kind command path = \<lparr>op_Kind = kind, op_Command = command, op_Path = path,
     op_Sandbox = SandboxOther [], op_SessionID = []\<rparr>"

definition DeriveHostGateOp :: "'w env \<Rightarrow> string \<Rightarrow> string \<Rightarrow> gate_op option" where
  "DeriveHostGateOp env tool args =
     (if tool = ''bash_exec''
      then (case rawArgsJSON args of
              None \<Rightarrow> None
            | Some raw \<Rightarrow> (case en_shell_args env raw of
                 Inl e \<Rightarrow> None
               | Inr (command, argv) \<Rightarrow>
                   (if command = [] then None
                    else Some (host_op ''exec''
                      (if argv = [] then command else command @ '' '' @ join_str '' '' argv) []))))
      else if tool = ''file_read'' \<or> tool = ''file_write''
      then (case rawArgsJSON args of
              None \<Rightarrow> None
            | Some raw \<Rightarrow> (case en_path_arg env raw of
                 Inl e \<Rightarrow> None
               | Inr path \<Rightarrow>
                   (if path = [] then None
                    else Some (host_op (if tool = ''file_read'' then ''read_file'' else ''write_file'') [] path))))
      else None)"

text \<open>A call the gate can check is one the card can show.\<close>

lemma derived_parsed:
  "DeriveHostGateOp env tool args \<noteq> None \<Longrightarrow> snd (ParseShellInvocation env tool args)"
  by (auto simp: DeriveHostGateOp_def ParseShellInvocation_def split: if_splits option.splits sum.splits)

end
