(* ===== verification/Fire_Llm.thy ===== *)
theory Fire_Llm
  imports Memory Regional Shell_Parse Hitl Bash
begin

text \<open>
  LLM firings, \<open>cpn/fire_llm.go\<close>: the assembly of the prompt, the budget check, the call with its retry
  for a missing JSON object, the tool-call loop with the gate and the tool approvals, and the deposit.
  The structured log lines and the model name recorded for the completion event are left out.
\<close>

section \<open>The request\<close>

definition nlnl :: string where "nlnl = [CHR 0x0A, CHR 0x0A]"

definition renderSystemPrompt :: "'w env \<Rightarrow> 'w transition \<Rightarrow> 'w cpn \<Rightarrow> string" where
  "renderSystemPrompt env t c =
     (let hostPreamble = en_host_context env c;
          skip = (case tr_LLMConfig t of None \<Rightarrow> False | Some l \<Rightarrow> lc_SkipRegionalPreamble l);
          base = (if skip then tr_SystemPrompt t
                  else (let regional = PreambleFor (c_RegionalVariant c)
                        in if regional = [] then tr_SystemPrompt t
                           else if tr_SystemPrompt t = [] then regional
                           else regional @ nlnl @ tr_SystemPrompt t))
      in if hostPreamble = [] then base
         else if base = [] then hostPreamble else hostPreamble @ nlnl @ base)"

definition MaxToolCallIterations :: nat where "MaxToolCallIterations = 10"

text \<open>The scan of \<open>responseContainsJSONObject\<close> with its depth and its two flags.\<close>

fun json_scan :: "int \<Rightarrow> bool \<Rightarrow> bool \<Rightarrow> string \<Rightarrow> bool" where
  "json_scan depth inString escaped [] = False"
| "json_scan depth inString escaped (c # s) =
     (if inString
      then (if escaped then json_scan depth True False s
            else if c = CHR 0x5C then json_scan depth True True s
            else if c = CHR 0x22 then json_scan depth False False s
            else json_scan depth True False s)
      else if c = CHR 0x22 then json_scan depth True False s
      else if c = CHR 0x7B then json_scan (depth + 1) False False s
      else if c = CHR 0x7D
      then (if depth - 1 = 0 then True else json_scan (depth - 1) False False s)
      else json_scan depth False False s)"

definition responseContainsJSONObject :: "string \<Rightarrow> bool" where
  "responseContainsJSONObject s = json_scan 0 False False s"

fun token_sections :: "'w env \<Rightarrow> int \<Rightarrow> token list \<Rightarrow> string list" where
  "token_sections env i [] = []"
| "token_sections env i (tok # toks) =
     (''[Token '' @ fmt_d i @ '' ('' @ color_str (tok_Color tok) @ '')]: '' @ en_sprint env (tok_Payload tok)) #
     token_sections env (i + 1) toks"

definition formatTokenPayload :: "'w env \<Rightarrow> token list \<Rightarrow> string" where
  "formatTokenPayload env toks = (case toks of
     [tok] \<Rightarrow> en_sprint env (tok_Payload tok)
   | _ \<Rightarrow> join_str ([CHR 0x0A] @ ''---'' @ [CHR 0x0A]) (token_sections env 1 toks))"

definition buildToolSchema :: "'w transition \<Rightarrow> llm_tool" where
  "buildToolSchema tool =
     (let d = (case tr_ToolMeta tool of None \<Rightarrow> [] | Some m \<Rightarrow> tm_Description m)
      in \<lparr>lt_Name = tr_ToolName tool,
          lt_Description = (if d = [] then ''Execute tool: '' @ tr_ToolName tool else d),
          lt_Parameters = (case tr_ToolMeta tool of None \<Rightarrow> [] | Some m \<Rightarrow> tm_Parameters m)\<rparr>)"

definition resolve_tools :: "'w transition \<Rightarrow> 'w cpn \<Rightarrow> llm_tool list" where
  "resolve_tools t c = concat (map (\<lambda>k. case map_of (c_Transitions c) k of
     None \<Rightarrow> [] | Some tool \<Rightarrow> [buildToolSchema tool]) (tr_LLMTools t))"

definition buildTrace :: "'w transition \<Rightarrow> llm_config \<Rightarrow> 'w cpn \<Rightarrow> trace_config" where
  "buildTrace t cfg c = (case lc_Trace cfg of
     Some tr \<Rightarrow> tr
   | None \<Rightarrow> \<lparr>tc_TraceID = c_SessionID c, tc_TraceName = [], tc_SpanName = c_ID c @ ''/'' @ tr_ID t,
              tc_GenerationName = tr_ID t, tc_ParentSpanID = []\<rparr>)"

definition user_tokens :: "token list \<Rightarrow> token list" where
  "user_tokens consumed = filter (\<lambda>tok. tok_Color tok = ColorString \<or> tok_Color tok = ColorArtifact) consumed"

definition llm_messages ::
  "'w env \<Rightarrow> 'w transition \<Rightarrow> llm_config \<Rightarrow> token list \<Rightarrow> 'w cpn \<Rightarrow> llm_message list option" where
  "llm_messages env t cfg consumed c =
     (let sz = (if c_ContextWindowSize c = 0 then DefaultContextWindowSize else c_ContextWindowSize c);
          ut = user_tokens consumed
      in map_option (\<lambda>cw. text_message ''system'' (cw_SystemPrompt cw) # cw_Messages cw @
           (if ut = [] then [] else [text_message ''user'' (formatTokenPayload env ut)]))
         (BuildContext (renderSystemPrompt env t c) (c_History c) (if lc_SkipHistory cfg then 0 else sz)))"

definition llm_req ::
  "'w transition \<Rightarrow> llm_config \<Rightarrow> 'w cpn \<Rightarrow> llm_tool list \<Rightarrow> llm_message list \<Rightarrow> bool \<Rightarrow> llm_request" where
  "llm_req t cfg c tools messages stream =
     \<lparr>lr_Model = lc_Model cfg, lr_Messages = messages, lr_MaxTokens = lc_MaxTokens cfg,
      lr_Temperature = lc_Temperature cfg, lr_Tools = tools,
      lr_ResponseFmt = (if lc_RequireJSON cfg then ''json_object'' else []),
      lr_SessionID = c_SessionID c, lr_Trace = Some (buildTrace t cfg c), lr_Stream = stream\<rparr>"

section \<open>The call\<close>

definition llm_chunk :: "'w transition \<Rightarrow> string \<Rightarrow> bool \<Rightarrow> string \<Rightarrow> 'w cpn \<Rightarrow> 'w cpn" where
  "llm_chunk t content done_flag responding c =
     emit (mk_event EventStreamChunk (tr_ID t) NodeKindLLM None
       (EvChunk \<lparr>sc_SessionID = c_SessionID c, sc_CPNID = c_ID c, sc_CPNRole = c_Role c,
                 sc_Content = content, sc_Done = done_flag, sc_RespondingModel = responding\<rparr>)) c"

definition on_chunk :: "'w transition \<Rightarrow> string \<Rightarrow> 'w cpn \<Rightarrow> 'w cpn" where
  "on_chunk t chunk c = llm_chunk t chunk False [] (c\<lparr>c_StreamedOutput := True\<rparr>)"

definition complete ::
  "'w llm_client \<Rightarrow> 'w transition \<Rightarrow> llm_request \<Rightarrow> 'w \<Rightarrow> 'w cpn \<Rightarrow> (gerr + llm_response) \<times> 'w \<times> 'w cpn" where
  "complete llm t req w c =
     (if lr_Stream req
      then (let ((chunks, r), w1) = lk_CompleteStream llm w req in (r, w1, fold (on_chunk t) chunks c))
      else (let (r, w1) = lk_Complete llm w req in (r, w1, c)))"

definition json_directive :: string where
  "json_directive = nlnl @ ''JSON only, no thinking, no fences. Your entire response MUST be a single JSON object starting with { and ending with }.''"

definition retry_messages :: "llm_message list \<Rightarrow> llm_message list" where
  "retry_messages ms = (case ms of
     [] \<Rightarrow> []
   | m # rest \<Rightarrow> (if lm_Role m = ''system'' then m\<lparr>lm_Content := lm_Content m @ json_directive\<rparr> # rest
                  else ms))"

text \<open>The retry for a response without a JSON object: the response to go on with, and its cost.\<close>

definition verify_json ::
  "'w llm_client \<Rightarrow> llm_config \<Rightarrow> llm_request \<Rightarrow> llm_response \<Rightarrow> 'w \<Rightarrow> (llm_response \<times> real) \<times> 'w" where
  "verify_json llm cfg req resp w =
     (if lc_ResponseFmtRequired cfg \<and> \<not> lc_StreamOutput cfg \<and> lc_RequireJSON cfg \<and>
         \<not> responseContainsJSONObject (lp_Content resp)
      then (let (r, w1) = lk_Complete llm w (req\<lparr>lr_Messages := retry_messages (lr_Messages req)\<rparr>)
            in case r of
                 Inl e \<Rightarrow> ((resp, 0), w1)
               | Inr resp2 \<Rightarrow> ((resp2, lp_CostUSD resp2), w1))
      else ((resp, 0), w))"

section \<open>Tool calls\<close>

definition tool_message :: "tool_call \<Rightarrow> string \<Rightarrow> llm_message" where
  "tool_message tc content =
     \<lparr>lm_Role = ''tool'', lm_Content = [], lm_ToolCall = None, lm_ToolResult = Some (tl_ID tc, content)\<rparr>"

text \<open>One assistant message per call; the first one carries the text of the response.\<close>

definition assistant_messages :: "llm_response \<Rightarrow> llm_message list" where
  "assistant_messages resp = (case lp_ToolCalls resp of
     [] \<Rightarrow> [text_message ''assistant'' (lp_Content resp)]
   | tc # tcs \<Rightarrow>
       \<lparr>lm_Role = ''assistant'', lm_Content = lp_Content resp, lm_ToolCall = Some tc, lm_ToolResult = None\<rparr> #
       map (\<lambda>tc. \<lparr>lm_Role = ''assistant'', lm_Content = [], lm_ToolCall = Some tc, lm_ToolResult = None\<rparr>) tcs)"

definition tool_started :: "'w env \<Rightarrow> 'w transition \<Rightarrow> tool_call \<Rightarrow> 'w transition \<Rightarrow> 'w cpn \<Rightarrow> 'w cpn" where
  "tool_started env t tc tool c =
     emit (mk_event EventTransitionStarted (tl_ToolName tc) NodeKindTool None
       (EvStarted [\<lparr>sn_Color = color_str ColorJSON,
                     sn_PayloadPreview = formatPayloadPreview (en_render env) (PString (tl_Arguments tc)),
                     sn_Space = [], sn_OriginID = tr_ID t, sn_OriginKind = kind_str NodeKindLLM\<rparr>]
          (resolveLabelForTransition c tool))) c"

definition tool_resolved :: "'w transition \<Rightarrow> string \<Rightarrow> 'w cpn \<Rightarrow> 'w cpn" where
  "tool_resolved t verdict c =
     emit (mk_event EventHITLResolved (tr_ID t) NodeKindTool None (EvPrompt verdict)) c"

definition rejected_text :: string where "rejected_text = ''Tool execution rejected by user''"

text \<open>
  The host gate in front of a tool: whether the gate is responsible at all, and whether it refused.
\<close>

definition host_gates ::
  "'w cpn \<Rightarrow> (('w \<Rightarrow> string \<Rightarrow> gate_op \<Rightarrow> gerr option \<times> 'w) \<times>
     ('w \<Rightarrow> ('w \<Rightarrow> hitl_recv \<times> 'w) option \<Rightarrow> string \<Rightarrow> gate_op \<Rightarrow> gerr \<Rightarrow>
      (gerr option \<times> string option) \<times> 'w)) option" where
  "host_gates c = (case c_HostRuntime c of
     None \<Rightarrow> None
   | Some rt \<Rightarrow> (case hr_Gate rt of
        None \<Rightarrow> None
      | Some check \<Rightarrow> (case hr_HITLHandler rt of
           None \<Rightarrow> None | Some handler \<Rightarrow> Some (check, handler))))"

definition tool_channel :: "'w transition \<Rightarrow> ('w \<Rightarrow> hitl_recv \<times> 'w) option" where
  "tool_channel t = (case tr_HITLConfig t of None \<Rightarrow> None | Some h \<Rightarrow> hc_Channel h)"

definition tool_gate ::
  "'w env \<Rightarrow> 'w transition \<Rightarrow> tool_call \<Rightarrow> 'w \<Rightarrow> 'w cpn \<Rightarrow> (bool \<times> bool) \<times> 'w \<times> 'w cpn" where
  "tool_gate env t tc w c =
     (case (case DeriveHostGateOp env (tl_ToolName tc) (tl_Arguments tc) of
              None \<Rightarrow> None
            | Some op \<Rightarrow> (case host_gates c of
                 None \<Rightarrow> None | Some (check, handler) \<Rightarrow> Some (op, check, handler))) of
        None \<Rightarrow> ((False, False), w, c)
      | Some (op, check, handler) \<Rightarrow>
          (let (err, w1) = check w (c_SessionID c) op
           in case err of
                None \<Rightarrow> ((True, False), w1, c)
              | Some e \<Rightarrow>
                  (let ((handled, surface), w2) = handler w1 (tool_channel t) (tr_ID t) op e;
                       c2 = publish_approval (tr_ID t) surface c
                   in if handled \<noteq> None
                      then ((True, True), w2, tool_resolved t ''rejected'' c2)
                      else ((True, False), w2, tool_resolved t ''approved'' c2))))"

definition upcase :: "char \<Rightarrow> char" where
  "upcase ch = (let n = of_char ch :: nat in if 97 \<le> n \<and> n \<le> 122 then char_of (n - 32) else ch)"

definition is_reject_text :: "string \<Rightarrow> bool" where
  "is_reject_text s \<longleftrightarrow> map upcase (trim_space s) = ''REJECT''"

definition tool_rejected :: "'w env \<Rightarrow> token \<Rightarrow> bool" where
  "tool_rejected env tok =
     (if tok_Color tok = ColorError then True
      else case tok_Payload tok of
             PResponse r \<Rightarrow> hr_Action r = HITLReject
           | p \<Rightarrow> is_reject_text (en_sprint env p))"

definition buildToolApprovalA2UI :: "'w env \<Rightarrow> string \<Rightarrow> string \<Rightarrow> string" where
  "buildToolApprovalA2UI env toolName args =
     (let risk = (if toolName = ''file_read'' then ''safe'' else ''caution'');
          (command, parsed) = ParseShellInvocation env toolName args;
          risk1 = (if \<not> parsed \<and> risk = ''safe'' then ''caution'' else risk);
          command1 = (if length command > 400 then take 397 command @ ellipsis else command);
          invocationArgs = (if args = [] then ''{}'' else args)
      in ''$$a2ui:'' @ en_approval_json env command1 toolName invocationArgs risk1)"

definition ctx_error :: "'w env \<Rightarrow> 'w \<Rightarrow> gerr \<times> 'w" where
  "ctx_error env w = (let (d, w1) = en_done env w in (CtxErr (case d of Some x \<Rightarrow> x | None \<Rightarrow> Canceled), w1))"

text \<open>
  The approval of a tool with \<open>RequiresHITL\<close>: an error ends the firing, \<open>Inr True\<close> is a refusal.
  Without a channel the tool runs unasked.
\<close>

definition tool_approval ::
  "'w env \<Rightarrow> 'w transition \<Rightarrow> tool_call \<Rightarrow> 'w \<Rightarrow> 'w cpn \<Rightarrow> (gerr + bool) \<times> 'w \<times> 'w cpn" where
  "tool_approval env t tc w c =
     (let c1 = llm_chunk t (buildToolApprovalA2UI env (tl_ToolName tc) (tl_Arguments tc)) True [] c;
          c2 = emit (mk_event EventHITLRequested (tr_ID t) NodeKindTool None
                 (EvHITLRequest approval_title True)) c1;
          c3 = flush_waiting (setState StateWaiting c2)
      in case tool_channel t of
           None \<Rightarrow> (Inr False, w, c3)
         | Some recv \<Rightarrow>
             (let (r, w1) = recv w
              in case r of
                   RecvDone \<Rightarrow> (let (e, w2) = ctx_error env w1 in (Inl e, w2, c3))
                 | RecvClosed \<Rightarrow>
                     (Inl (Plain (''transition '' @ tr_ID t @ '': HITL channel closed unexpectedly'')), w1,
                      setState StateRunning c3)
                 | RecvToken tok \<Rightarrow>
                     (if tool_rejected env tok
                      then (Inr True, w1, tool_resolved t ''rejected'' (setState StateRunning c3))
                      else (Inr False, w1, tool_resolved t ''approved'' (setState StateRunning c3)))))"

text \<open>The execution: what the model is told, and the error of the executor.\<close>

definition tool_execute ::
  "'w env \<Rightarrow> tool_call \<Rightarrow> 'w transition \<Rightarrow> 'w \<Rightarrow> (string \<times> gerr option) \<times> 'w" where
  "tool_execute env tc tool w = (case tr_Executor tool of
     None \<Rightarrow> ((''error: tool '' @ fmt_q (tl_ToolName tc) @ '' has nil executor'', None), w)
   | Some exec \<Rightarrow>
       (let (r, w1) = exec w \<lparr>tok_Color = ColorJSON, tok_Payload = PString (tl_Arguments tc),
              tok_OriginID = [], tok_OriginDepth = 0, tok_OriginKind = no_kind, tok_Space = space_empty,
              tok_SessionID = [], tok_TraceID = []\<rparr>
        in case r of
             Inl e \<Rightarrow> ((''error: '' @ err_text e, Some e), w1)
           | Inr tok \<Rightarrow>
               ((case en_json env (tok_Payload tok) of
                   Inr raw \<Rightarrow> raw | Inl _ \<Rightarrow> en_sprint_plus env (tok_Payload tok), None), w1)))"

definition tool_executed_event ::
  "tool_call \<Rightarrow> 'w transition \<Rightarrow> int \<Rightarrow> gerr option \<Rightarrow> 'w cpn \<Rightarrow> 'w cpn" where
  "tool_executed_event tc tool durationMs err c =
     emit (mk_event EventToolExecuted (tl_ToolName tc) NodeKindTool None
       (EvToolExecuted \<lparr>te_ToolName = tl_ToolName tc,
          te_Namespace = (case tr_ToolMeta tool of None \<Rightarrow> [] | Some m \<Rightarrow> tm_Namespace m),
          te_DurationMs = durationMs, te_Success = (err = None),
          te_Error = (case err of None \<Rightarrow> [] | Some e \<Rightarrow> err_text e), te_Arguments = tl_Arguments tc\<rparr>)) c"

text \<open>One tool call: the message that answers it, or the error that ends the firing.\<close>

definition tool_step ::
  "'w env \<Rightarrow> 'w transition \<Rightarrow> tool_call \<Rightarrow> 'w \<Rightarrow> 'w cpn \<Rightarrow> (gerr + llm_message) \<times> 'w \<times> 'w cpn" where
  "tool_step env t tc w c =
     (if tl_ToolName tc \<notin> set (tr_LLMTools t)
      then (Inl (Wrap (''transition '' @ tr_ID t @ '': tool '' @ fmt_q (tl_ToolName tc) @
              '' not in allowlist: '') (Sentinel ErrDisallowedTool) []), w, c)
      else case map_of (c_Transitions c) (tl_ToolName tc) of
        None \<Rightarrow> (Inr (tool_message tc (''error: tool '' @ fmt_q (tl_ToolName tc) @ '' not found'')), w, c)
      | Some tool \<Rightarrow>
          (let (start, w1) = en_now env w;
               c1 = tool_started env t tc tool c;
               ((gated, refused), w2, c2) = tool_gate env t tc w1 c1
           in if refused then (Inr (tool_message tc rejected_text), w2, c2)
              else (let (asked, w3, c3) =
                          (if \<not> gated \<and> (case tr_ToolMeta tool of None \<Rightarrow> False | Some m \<Rightarrow> tm_RequiresHITL m)
                           then tool_approval env t tc w2 c2 else (Inr False, w2, c2))
                    in case asked of
                         Inl e \<Rightarrow> (Inl e, w3, c3)
                       | Inr True \<Rightarrow> (Inr (tool_message tc rejected_text), w3, c3)
                       | Inr False \<Rightarrow>
                           (let ((content, err), w4) = tool_execute env tc tool w3;
                                (stop, w5) = en_now env w4
                            in (Inr (tool_message tc content), w5,
                                tool_executed_event tc tool ((stop - start) div 10 ^ 6) err c3)))))"

fun run_calls ::
  "'w env \<Rightarrow> 'w transition \<Rightarrow> tool_call list \<Rightarrow> llm_message list \<Rightarrow> 'w \<Rightarrow> 'w cpn \<Rightarrow>
   (gerr + llm_message list) \<times> 'w \<times> 'w cpn" where
  "run_calls env t [] ms w c = (Inr ms, w, c)"
| "run_calls env t (tc # tcs) ms w c =
     (let (r, w1, c1) = tool_step env t tc w c
      in case r of
           Inl e \<Rightarrow> (Inl e, w1, c1)
         | Inr m \<Rightarrow> run_calls env t tcs (ms @ [m]) w1 c1)"

text \<open>The loop: the iterations that are left, and the number of this one.\<close>

fun tool_loop ::
  "'w env \<Rightarrow> 'w llm_client \<Rightarrow> 'w transition \<Rightarrow> llm_config \<Rightarrow> llm_tool list \<Rightarrow> nat \<Rightarrow> nat \<Rightarrow> llm_response \<Rightarrow>
   llm_message list \<Rightarrow> real \<Rightarrow> 'w \<Rightarrow> 'w cpn \<Rightarrow> (gerr + string \<times> real) \<times> 'w \<times> 'w cpn" where
  "tool_loop env llm t cfg tools 0 i resp ms cost w c =
     (Inl (Wrap (''transition '' @ tr_ID t @ '': '') (Sentinel ErrToolCallLoopExceeded) []), w, c)"
| "tool_loop env llm t cfg tools (Suc left) i resp ms cost w c =
     (let (d, w0) = en_done env w
      in case d of
           Some x \<Rightarrow> (Inl (CtxErr x), w0, c)
         | None \<Rightarrow>
             (let (r, w1, c1) = run_calls env t (lp_ToolCalls resp) (ms @ assistant_messages resp) w0 c
              in case r of
                   Inl e \<Rightarrow> (Inl e, w1, c1)
                 | Inr ms1 \<Rightarrow>
                     (let (ans, w2, c2) =
                            complete llm t (llm_req t cfg c1 tools ms1 (lc_StreamOutput cfg)) w1 c1
                      in case ans of
                           Inl e \<Rightarrow> (Inl (Wrap (''transition '' @ tr_ID t @ '': LLM re-call (iteration '' @
                                      fmt_d (int i + 1) @ ''): '') e []), w2, c2)
                         | Inr resp2 \<Rightarrow>
                             (if lp_ToolCalls resp2 = []
                              then (Inr (lp_Content resp2, cost + lp_CostUSD resp2), w2, c2)
                              else tool_loop env llm t cfg tools left (Suc i) resp2 ms1
                                     (cost + lp_CostUSD resp2) w2 c2))))"

section \<open>The firing\<close>

definition truncationNotice :: string where
  "truncationNotice = nlnl @ ''---'' @ [CHR 0x0A] @ ''*[Response truncated '' @
     [CHR 0xE2, CHR 0x80, CHR 0x94] @ '' token limit reached]*''"

definition formatRespondingModel :: "string \<Rightarrow> string \<Rightarrow> string" where
  "formatRespondingModel echoed authored =
     (let id = (if trim_space echoed = [] then trim_space authored else trim_space echoed)
      in if id = [] then [] else id @ '' '' @ [CHR 0xC2, CHR 0xB7] @ '' openrouter'')"

definition inferOutputColor :: "bool \<Rightarrow> color" where
  "inferOutputColor requireJSON = (if requireJSON then ColorJSON else ColorArtifact)"

definition history_row :: "message_role \<Rightarrow> string \<Rightarrow> string \<Rightarrow> string \<Rightarrow> int \<Rightarrow> message" where
  "history_row role content cpn cpnRole depth =
     \<lparr>ms_ID = [], ms_Role = role, ms_Content = content, ms_CPNID = cpn, ms_CPNRole = cpnRole,
      ms_CPNDepth = depth, ms_ParentMessageID = []\<rparr>"

text \<open>After the answer: the truncation notice, the end of the stream, the history, the deposit.\<close>

definition llm_content :: "llm_config \<Rightarrow> llm_response \<Rightarrow> string \<Rightarrow> string" where
  "llm_content cfg resp content =
     (if (lp_StopReason resp = ''length'' \<or> lp_StopReason resp = ''max_tokens'') \<and> lc_StreamOutput cfg
      then content @ truncationNotice else content)"

definition llm_said :: "'w transition \<Rightarrow> llm_config \<Rightarrow> llm_response \<Rightarrow> 'w cpn \<Rightarrow> 'w cpn" where
  "llm_said t cfg resp c =
     (let c1 = (if (lp_StopReason resp = ''length'' \<or> lp_StopReason resp = ''max_tokens'') \<and> lc_StreamOutput cfg
                then llm_chunk t truncationNotice False [] c else c)
      in if lc_StreamOutput cfg
         then llm_chunk t [] True (formatRespondingModel (lp_Model resp) (lc_Model cfg)) c1 else c1)"

definition llm_remember :: "'w env \<Rightarrow> llm_config \<Rightarrow> token list \<Rightarrow> string \<Rightarrow> 'w cpn \<Rightarrow> 'w cpn" where
  "llm_remember env cfg consumed content c =
     (if \<not> lc_SkipHistory cfg \<and> \<not> lc_SkipOutputHistory cfg
      then append_history (history_row RoleAssistant content (c_ID c) (c_Role c) (c_Depth c))
        (if user_tokens consumed = [] then c
         else append_history
           (history_row RoleUser (formatTokenPayload env (user_tokens consumed)) [] [] 0) c)
      else c)"

definition llm_deposit :: "'w transition \<Rightarrow> token \<Rightarrow> 'w cpn \<Rightarrow> gerr option \<times> token list \<times> 'w cpn" where
  "llm_deposit t tok c = deposit_each (out_missing t) (out_wrap t)
     (\<lambda>_ p. Inr (tok\<lparr>tok_Space := pl_Space p\<rparr>)) (tr_OutputPlaces t) c"

definition llm_finish ::
  "'w env \<Rightarrow> 'w transition \<Rightarrow> llm_config \<Rightarrow> token list \<Rightarrow> llm_response \<Rightarrow> string \<Rightarrow> real \<Rightarrow> 'w \<Rightarrow> 'w cpn \<Rightarrow>
   fire_out \<times> 'w \<times> 'w cpn" where
  "llm_finish env t cfg consumed resp content cost w c =
     (let content1 = llm_content cfg resp content;
          c3 = llm_remember env cfg consumed content1 (llm_said t cfg resp c);
          result = fresh_token (inferOutputColor (lc_RequireJSON cfg)) (PString content1) space_empty
            NodeKindLLM c3;
          (err, _, c4) = llm_deposit t result c3
      in case err of
           Some e \<Rightarrow> (([], cost, Some e), w, c4)
         | None \<Rightarrow> (([Snapshot (en_render env) (Some result)], cost, None), w, c4))"

text \<open>The budget check; an estimate that fails is no reason to refuse.\<close>

definition budget_error :: "'w env \<Rightarrow> 'w llm_client \<Rightarrow> 'w transition \<Rightarrow> llm_config \<Rightarrow> llm_request \<Rightarrow> gerr option" where
  "budget_error env llm t cfg req =
     (if lc_Budget cfg > 0
      then (case lk_EstimateCost llm req of
              Inl e \<Rightarrow> None
            | Inr est \<Rightarrow>
                (if est > lc_Budget cfg
                 then Some (Wrap (''transition '' @ tr_ID t @ '': estimated cost $'' @ en_usd env est @
                        '' exceeds budget $'' @ en_usd env (lc_Budget cfg) @ '': '')
                        (Sentinel ErrBudgetExceeded) [])
                 else None))
      else None)"

text \<open>A panic of the context assembly ends the process; here it is the error of a firing that has done nothing.\<close>

definition slice_panic :: gerr where
  "slice_panic = Plain ''runtime error: slice bounds out of range''"

definition fireLLM :: "'w env \<Rightarrow> 'w firer" where
  "fireLLM env t consumed w c = (case tr_LLMConfig t of
     None \<Rightarrow> fail_with (Plain (''transition '' @ tr_ID t @ '': nil LLMConfig'')) w c
   | Some cfg \<Rightarrow> (case c_LLMClient c of
        None \<Rightarrow> fail_with (Plain (''transition '' @ tr_ID t @ '': nil LLMClient on CPN'')) w c
      | Some llm \<Rightarrow> (case llm_messages env t cfg consumed c of
          None \<Rightarrow> fail_with slice_panic w c
        | Some ms \<Rightarrow>
          (let tools = resolve_tools t c;
               req = llm_req t cfg c tools ms False
           in case budget_error env llm t cfg req of
                Some e \<Rightarrow> fail_with e w c
              | None \<Rightarrow>
                  (let req1 = req\<lparr>lr_Stream := lc_StreamOutput cfg\<rparr>;
                       (ans, w1, c1) = complete llm t req1 w c
                   in case ans of
                        Inl e \<Rightarrow> fail_with (Wrap (''transition '' @ tr_ID t @ '': LLM call: '') e []) w1 c1
                      | Inr resp0 \<Rightarrow>
                          (let ((resp, extra), w2) = verify_json llm cfg req1 resp0 w1;
                               cost = lp_CostUSD resp0 + extra
                           in if lp_ToolCalls resp = []
                              then llm_finish env t cfg consumed resp (lp_Content resp) cost w2 c1
                              else (let (r, w3, c3) =
                                          tool_loop env llm t cfg tools MaxToolCallIterations 0 resp ms 0 w2 c1
                                    in case r of
                                         Inl e \<Rightarrow> (([], cost, Some e), w3, c3)
                                       | Inr (content, loopCost) \<Rightarrow>
                                           llm_finish env t cfg consumed resp content (cost + loopCost)
                                             w3 c3)))))))"

section \<open>What a conversation keeps\<close>

text \<open>
  Up to the deposit a firing only talks: it emits events, waits for the user and calls tools. The net keeps
  its tokens, transitions, mode, error and history; its state can only become waiting or running.
\<close>

definition talks :: "'w cpn \<Rightarrow> 'w cpn \<Rightarrow> bool" where
  "talks c c' \<longleftrightarrow> c_Places c' = c_Places c \<and> c_Transitions c' = c_Transitions c \<and>
     c_activeChildren c' = c_activeChildren c \<and> c_Mode c' = c_Mode c \<and> c_Error c' = c_Error c \<and>
     c_History c' = c_History c \<and> c_SessionID c' = c_SessionID c \<and> c_ID c' = c_ID c \<and>
     host_gates c' = host_gates c \<and>
     c_State c' \<in> {c_State c, StateWaiting, StateRunning}"

lemma talks_refl [simp]: "talks c c" by (simp add: talks_def)

lemma talks_trans: "talks a b \<Longrightarrow> talks b c \<Longrightarrow> talks a c" by (auto simp: talks_def)

lemma emit_more_frame:
  "c_activeChildren (emit e c) = c_activeChildren c" "c_ID (emit e c) = c_ID c"
  "c_SessionID (emit e c) = c_SessionID c"
  by (simp_all add: emit_def log_metric_def Let_def split: option.splits prod.splits)

lemma host_gates_cong: "c_HostRuntime d = c_HostRuntime c \<Longrightarrow> host_gates d = host_gates c"
  by (simp add: host_gates_def)

lemma host_gates_log_metric: "host_gates (log_metric m c) = host_gates c"
  by (cases "c_HostRuntime c"; simp add: log_metric_def)
    (simp add: host_gates_def split: option.splits)

lemma host_gates_emit [simp]: "host_gates (emit e c) = host_gates c"
proof -
  have u: "host_gates (d\<lparr>c_EventSink := x\<rparr>) = host_gates d" "host_gates (d\<lparr>c_EventEmitter := y\<rparr>) = host_gates d"
    "host_gates (d\<lparr>c_selfBus := z\<rparr>) = host_gates d" for d :: "'w cpn" and x y z
    by (simp_all add: host_gates_def)
  show ?thesis unfolding emit_def Let_def
    by (simp add: u host_gates_log_metric split: option.split prod.split)
qed

lemma talks_steps:
  "talks c (emit e c)" "talks c (llm_chunk t x d r c)" "talks c (on_chunk t x c)"
  "talks c (tool_started env t tc tool c)" "talks c (tool_resolved t v c)"
  "talks c (tool_executed_event tc tool ms err c)" "talks c (publish_approval tid sf c)"
  "talks c (setState StateWaiting c)" "talks c (setState StateRunning c)" "talks c (flush_waiting c)"
proof -
  show e: "talks c (emit e c)" for c :: "'w cpn" and e by (simp add: talks_def emit_more_frame)
  show "talks c (llm_chunk t x d r c)" "talks c (tool_started env t tc tool c)"
    "talks c (tool_resolved t v c)" "talks c (tool_executed_event tc tool ms err c)"
    by (simp_all add: llm_chunk_def tool_started_def tool_resolved_def tool_executed_event_def e)
  have "talks c (c\<lparr>c_StreamedOutput := True\<rparr>)" by (simp add: talks_def host_gates_def)
  then show "talks c (on_chunk t x c)"
    unfolding on_chunk_def llm_chunk_def by (rule talks_trans[OF _ e])
  show "talks c (publish_approval tid sf c)"
    by (cases sf) (auto simp: publish_approval_def PublishHITLRequested_def
        PublishHostApprovalSurface_def intro: talks_trans e)
  show "talks c (setState StateWaiting c)" "talks c (setState StateRunning c)"
    by (simp_all add: talks_def setState_def host_gates_def)
  show "talks c (flush_waiting c)"
    by (simp add: flush_waiting_def talks_def host_gates_def split: option.splits)
qed

lemma fold_chunks_talk: "talks c (fold (on_chunk t) chunks c)"
  by (induction chunks arbitrary: c) (auto intro: talks_trans[OF talks_steps(3)])

lemma complete_talks: "complete llm t req w c = (r, w', c') \<Longrightarrow> talks c c'"
  by (auto simp: complete_def Let_def fold_chunks_talk split: if_splits prod.splits)

lemma tool_gate_talks: "tool_gate env t tc w c = (r, w', c') \<Longrightarrow> talks c c'"
  using talks_trans[OF talks_steps(7) talks_steps(5)]
  by (auto simp: tool_gate_def Let_def split: option.splits prod.splits if_splits)

lemma tool_approval_talks: "tool_approval env t tc w c = (r, w', c') \<Longrightarrow> talks c c'"
proof -
  assume a: "tool_approval env t tc w c = (r, w', c')"
  define c3 where "c3 = flush_waiting (setState StateWaiting (emit (mk_event EventHITLRequested (tr_ID t)
      NodeKindTool None (EvHITLRequest approval_title True))
      (llm_chunk t (buildToolApprovalA2UI env (tl_ToolName tc) (tl_Arguments tc)) True [] c)))"
  have 3: "talks c c3"
    unfolding c3_def by (intro talks_trans[OF _ talks_steps(10)] talks_trans[OF _ talks_steps(8)]
        talks_trans[OF _ talks_steps(1)] talks_steps(2))
  have run: "talks c (setState StateRunning c3)" by (rule talks_trans[OF 3 talks_steps(9)])
  have "talks c (tool_resolved t v (setState StateRunning c3))" for v
    by (rule talks_trans[OF run talks_steps(5)])
  with a 3 run show ?thesis
    unfolding tool_approval_def Let_def c3_def[symmetric]
    by (auto split: option.splits prod.splits hitl_recv.splits if_splits)
qed

lemma tool_step_talks: "tool_step env t tc w c = (r, w', c') \<Longrightarrow> talks c c'"
proof -
  assume a: "tool_step env t tc w c = (r, w', c')"
  show ?thesis
  proof (cases "tl_ToolName tc \<in> set (tr_LLMTools t) \<and> map_of (c_Transitions c) (tl_ToolName tc) \<noteq> None")
    case False
    with a show ?thesis by (auto simp: tool_step_def split: if_splits option.splits)
  next
    case True
    then obtain tool where tool: "tl_ToolName tc \<in> set (tr_LLMTools t)"
      "map_of (c_Transitions c) (tl_ToolName tc) = Some tool" by blast
    obtain start w1 where n: "en_now env w = (start, w1)" by force
    obtain gated refused w2 c2 where
      g: "tool_gate env t tc w1 (tool_started env t tc tool c) = ((gated, refused), w2, c2)"
      by (metis prod.collapse)
    have 2: "talks c c2" by (rule talks_trans[OF talks_steps(4) tool_gate_talks[OF g]])
    obtain asked w3 c3 where
      k: "(if \<not> gated \<and> (case tr_ToolMeta tool of None \<Rightarrow> False | Some m \<Rightarrow> tm_RequiresHITL m)
           then tool_approval env t tc w2 c2 else (Inr False, w2, c2)) = (asked, w3, c3)"
      by (metis prod_cases3)
    have 3: "talks c c3"
      using k 2 by (auto split: if_splits intro: talks_trans[OF _ tool_approval_talks])
    have fin: "talks c (tool_executed_event tc tool d err c3)" for d err
      by (rule talks_trans[OF 3 talks_steps(6)])
    show ?thesis
      using a 2 3 fin tool
      by (auto simp: tool_step_def n g k Let_def split: if_splits sum.splits bool.splits prod.splits)
  qed
qed

lemma run_calls_talks: "run_calls env t tcs ms w c = (r, w', c') \<Longrightarrow> talks c c'"
  by (induction tcs arbitrary: ms w c)
    (auto simp: Let_def split: prod.splits sum.splits dest!: tool_step_talks intro: talks_trans)

lemma tool_loop_talks:
  "tool_loop env llm t cfg tools n i resp ms cost w c = (r, w', c') \<Longrightarrow> talks c c'"
proof (induction n arbitrary: i resp ms cost w c)
  case (Suc n)
  obtain d w0 where d: "en_done env w = (d, w0)" by force
  show ?case
  proof (cases d)
    case None
    obtain r1 w1 c1 where rc: "run_calls env t (lp_ToolCalls resp) (ms @ assistant_messages resp) w0 c = (r1, w1, c1)"
      by (metis prod_cases3)
    note 1 = run_calls_talks[OF rc]
    show ?thesis
    proof (cases r1)
      case (Inr ms1)
      obtain ans w2 c2 where
        cm: "complete llm t (llm_req t cfg c1 tools ms1 (lc_StreamOutput cfg)) w1 c1 = (ans, w2, c2)"
        by (metis prod_cases3)
      have 2: "talks c c2" by (rule talks_trans[OF 1 complete_talks[OF cm]])
      show ?thesis
      proof (cases ans)
        case (Inr resp2)
        show ?thesis
        proof (cases "lp_ToolCalls resp2 = []")
          case False
          with Suc.prems d None rc \<open>r1 = Inr ms1\<close> cm Inr have
            "tool_loop env llm t cfg tools n (Suc i) resp2 ms1 (cost + lp_CostUSD resp2) w2 c2 = (r, w', c')"
            by simp
          from Suc.IH[OF this] 2 show ?thesis by (rule talks_trans[rotated])
        qed (use Suc.prems d None rc Inr \<open>r1 = Inr ms1\<close> cm 2 in simp)
      qed (use Suc.prems d None rc Inr cm 2 in simp)
    qed (use Suc.prems d None rc 1 in simp)
  qed (use Suc.prems d in simp)
qed simp

text \<open>The end of a firing: it goes on talking, may append to the history, and deposits.\<close>

definition heard :: "'w cpn \<Rightarrow> 'w cpn \<Rightarrow> bool" where
  "heard c c' \<longleftrightarrow> (\<exists>d h. talks c d \<and> c' = d\<lparr>c_History := h\<rparr>)"

lemma heard_frame:
  assumes "heard c c'"
  shows "c_Places c' = c_Places c" "c_Transitions c' = c_Transitions c"
    "c_activeChildren c' = c_activeChildren c" "c_Mode c' = c_Mode c" "c_Error c' = c_Error c"
    "c_State c' \<in> {c_State c, StateWaiting, StateRunning}"
  using assms by (auto simp: heard_def talks_def)

lemma llm_said_talks: "talks c (llm_said t cfg resp c)"
  by (auto simp: llm_said_def Let_def intro: talks_trans[OF talks_steps(2) talks_steps(2)] talks_steps)

lemma llm_remember_heard: "heard c (llm_remember env cfg toks content c)"
proof -
  have "\<exists>h. llm_remember env cfg toks content c = c\<lparr>c_History := h\<rparr>"
  proof (cases "\<not> lc_SkipHistory cfg \<and> \<not> lc_SkipOutputHistory cfg")
    case False
    then have "llm_remember env cfg toks content c = c" unfolding llm_remember_def by (simp only: if_False)
    also have "\<dots> = c\<lparr>c_History := c_History c\<rparr>" by simp
    finally show ?thesis by (rule exI)
  qed (simp add: llm_remember_def append_history_def, blast)
  then obtain h where "llm_remember env cfg toks content c = c\<lparr>c_History := h\<rparr>" ..
  then show ?thesis unfolding heard_def by (intro exI[of _ c] exI[of _ h] conjI talks_refl)
qed

lemma talks_heard: "talks a b \<Longrightarrow> heard b c \<Longrightarrow> heard a c"
  unfolding heard_def using talks_trans by blast

lemma llm_finish_deposits:
  assumes "llm_finish env t cfg toks resp content cost w c = ((s, k, err), w', c')"
  shows "\<exists>d tok ts. heard c d \<and> llm_deposit t tok d = (err, ts, c') \<and>
    tok_Color tok = inferOutputColor (lc_RequireJSON cfg) \<and> (\<exists>x. tok_Payload tok = PString x)"
proof -
  define content1 where "content1 = llm_content cfg resp content"
  define d where "d = llm_remember env cfg toks content1 (llm_said t cfg resp c)"
  define tok where "tok = fresh_token (inferOutputColor (lc_RequireJSON cfg)) (PString content1) space_empty
    NodeKindLLM d"
  obtain e ts x where dd: "llm_deposit t tok d = (e, ts, x)" by (metis prod_cases3)
  from assms have "e = err \<and> x = c'"
    unfolding llm_finish_def Let_def content1_def[symmetric] d_def[symmetric] tok_def[symmetric] dd
    by (cases e) simp_all
  moreover have "heard c d" unfolding d_def by (rule talks_heard[OF llm_said_talks llm_remember_heard])
  moreover have "tok_Color tok = inferOutputColor (lc_RequireJSON cfg)" "tok_Payload tok = PString content1"
    by (simp_all add: tok_def fresh_token_def)
  ultimately show ?thesis using dd by blast
qed

lemma fireLLM_ends:
  assumes "fireLLM env t toks w c = ((s, k, err), w', c')"
  shows "(talks c c' \<and> err \<noteq> None) \<or>
    (\<exists>cfg d tok ts. tr_LLMConfig t = Some cfg \<and> heard c d \<and> llm_deposit t tok d = (err, ts, c') \<and>
       tok_Color tok = inferOutputColor (lc_RequireJSON cfg) \<and> (\<exists>x. tok_Payload tok = PString x))"
proof (cases "tr_LLMConfig t")
  case (Some cfg)
  show ?thesis
  proof (cases "c_LLMClient c")
    case llm: (Some llm)
    show ?thesis
    proof (cases "llm_messages env t cfg toks c")
    case ms: (Some ms)
    let ?req = "llm_req t cfg c (resolve_tools t c) ms False"
    let ?req1 = "?req\<lparr>lr_Stream := lc_StreamOutput cfg\<rparr>"
    show ?thesis
    proof (cases "budget_error env llm t cfg ?req")
      case None
      obtain ans w1 c1 where cm: "complete llm t ?req1 w c = (ans, w1, c1)" by (metis prod_cases3)
      note 1 = complete_talks[OF cm]
      show ?thesis
      proof (cases ans)
        case (Inl e)
        with assms \<open>tr_LLMConfig t = Some cfg\<close> llm ms None cm 1 show ?thesis
          by (auto simp: fireLLM_def Let_def fail_with_def)
      next
        case (Inr resp0)
        obtain resp extra w2 where v: "verify_json llm cfg ?req1 resp0 w1 = ((resp, extra), w2)"
          by (metis prod.collapse)
        have fin: ?thesis if "llm_finish env t cfg toks resp content cost w3 c3 = ((s, k, err), w', c')"
          and "talks c c3" for content cost w3 c3
        proof -
          from llm_finish_deposits[OF that(1)] obtain d tok ts where
            d: "heard c3 d" "llm_deposit t tok d = (err, ts, c')"
              "tok_Color tok = inferOutputColor (lc_RequireJSON cfg) \<and> (\<exists>x. tok_Payload tok = PString x)" by blast
          have "heard c d" using d(1) that(2) talks_trans unfolding heard_def by blast
          with d(2,3) \<open>tr_LLMConfig t = Some cfg\<close> show ?thesis by blast
        qed
        note unf = fireLLM_def Let_def \<open>tr_LLMConfig t = Some cfg\<close> llm ms None cm Inr v
        show ?thesis
        proof (cases "lp_ToolCalls resp = []")
          case True
          with assms have "llm_finish env t cfg toks resp (lp_Content resp) (lp_CostUSD resp0 + extra) w2 c1 =
              ((s, k, err), w', c')" by (simp add: unf)
          then show ?thesis using 1 by (rule fin)
        next
          case False
          obtain r w3 c3 where tl: "tool_loop env llm t cfg (resolve_tools t c) MaxToolCallIterations 0 resp
              ms 0 w2 c1 = (r, w3, c3)" by (metis prod_cases3)
          have 3: "talks c c3" by (rule talks_trans[OF 1 tool_loop_talks[OF tl]])
          show ?thesis
          proof (cases r)
            case (Inl e)
            with assms False tl 3 show ?thesis by (auto simp: unf)
          next
            case (Inr p)
            obtain content lc where p: "p = (content, lc)" by force
            from assms False tl Inr p have
              "llm_finish env t cfg toks resp content (lp_CostUSD resp0 + extra + lc) w3 c3 =
                ((s, k, err), w', c')" by (simp add: unf)
            then show ?thesis using 3 by (rule fin)
          qed
        qed
      qed
    next
      case (Some e)
      with assms \<open>tr_LLMConfig t = Some cfg\<close> llm ms show ?thesis
        by (auto simp: fireLLM_def Let_def fail_with_def)
    qed
    qed (use assms llm \<open>tr_LLMConfig t = Some cfg\<close> in \<open>auto simp: fireLLM_def fail_with_def\<close>)
  qed (use assms Some in \<open>auto simp: fireLLM_def fail_with_def\<close>)
qed (use assms in \<open>auto simp: fireLLM_def fail_with_def\<close>)

lemma fireLLM_grows: "fireLLM env t toks w c = (out, w', c') \<Longrightarrow> grows c c'"
proof -
  assume f: "fireLLM env t toks w c = (out, w', c')"
  obtain s k err where o: "out = (s, k, err)" by (metis prod_cases3)
  from fireLLM_ends[OF f[unfolded o]] show ?thesis
  proof (elim disjE exE conjE)
    assume "talks c c'" then show ?thesis by (intro grows_places) (simp add: talks_def)
  next
    fix cfg d tok ts
    assume h: "heard c d" and l: "llm_deposit t tok d = (err, ts, c')"
    from l have "grows d c'" unfolding llm_deposit_def by (rule deposit_each_grows)
    then show ?thesis using grows_cong_left[OF heard_frame(1)[OF h]] by simp
  qed
qed

interpretation llm: sound_firer "fireLLM env" for env
  by unfold_locales (rule fireLLM_grows)

end
