(* ===== verification/Observers.thy ===== *)
theory Observers
  imports Firing
begin

text \<open>
  Observers, \<open>cpn/observer.go\<close>: \<open>drainObservers\<close> empties the buses of the sub-nets and the net's own
  bus and gives every matching event to every observer transition as a token.
\<close>

definition observers_of :: "'w cpn \<Rightarrow> 'w transition list" where
  "observers_of c = map snd (filter (\<lambda>(k, t). tr_Kind t = NodeKindObserver) (c_Transitions c))"

definition pending_events :: "'w cpn \<Rightarrow> event list" where
  "pending_events c =
     concat (map snd (c_subNetBuses c)) @ (case c_selfBus c of None \<Rightarrow> [] | Some b \<Rightarrow> ch_buf b)"

definition clear_buses :: "'w cpn \<Rightarrow> 'w cpn" where
  "clear_buses c = c\<lparr>c_subNetBuses := map (\<lambda>(k, b). (k, [])) (c_subNetBuses c),
     c_selfBus := map_option (\<lambda>b. b\<lparr>ch_buf := []\<rparr>) (c_selfBus c)\<rparr>"

definition observes :: "'w transition \<Rightarrow> event \<Rightarrow> bool" where
  "observes obs e \<longleftrightarrow>
     \<not> (tr_ObservedCPNID obs \<noteq> [] \<and> ev_CPNID e \<noteq> tr_ObservedCPNID obs) \<and>
     (case tr_EventFilter obs of None \<Rightarrow> True | Some f \<Rightarrow> f e)"

definition event_token :: "'w env \<Rightarrow> string \<Rightarrow> event \<Rightarrow> token" where
  "event_token env sid e = \<lparr>tok_Color = ColorEvent, tok_Payload = POther (en_event_json env e),
     tok_OriginID = ev_CPNID e, tok_OriginDepth = ev_CPNDepth e,
     tok_OriginKind = NodeKindObserver, tok_Space = SpaceObservation,
     tok_SessionID = sid, tok_TraceID = []\<rparr>"

text \<open>A deposit whose error is dropped, as is a place that does not exist.\<close>

definition offer :: "token \<Rightarrow> string \<Rightarrow> 'w cpn \<Rightarrow> 'w cpn" where
  "offer tok pid c = (case map_of (c_Places c) pid of
     None \<Rightarrow> c
   | Some p \<Rightarrow> (case Deposit p tok of Inl e \<Rightarrow> c | Inr p' \<Rightarrow> put_place pid p' c))"

definition dispatch_event :: "'w env \<Rightarrow> 'w transition list \<Rightarrow> event \<Rightarrow> 'w cpn \<Rightarrow> 'w cpn" where
  "dispatch_event env obss e c =
     fold (\<lambda>obs c. if observes obs e then fold (offer (event_token env (c_SessionID c) e)) (tr_OutputPlaces obs) c
                   else c) obss c"

definition drainObservers :: "'w env \<Rightarrow> 'w cpn \<Rightarrow> 'w cpn" where
  "drainObservers env c =
     (if c_subNetBuses c = [] \<and> c_selfBus c = None then c
      else if observers_of c = [] then c
      else fold (dispatch_event env (observers_of c)) (pending_events c) (clear_buses c))"

section \<open>What draining does\<close>

lemma fold_invariant: "(\<And>x c. P c \<Longrightarrow> P (f x c)) \<Longrightarrow> P c \<Longrightarrow> P (fold f xs c)"
  by (induction xs arbitrary: c) simp_all

lemma offer_grows: "grows c (offer tok pid c)"
  by (auto simp: offer_def split: option.splits sum.splits
      intro: grows_put_place place_grows_Deposit)

lemma drainObservers_invariant:
  assumes offers: "\<And>tok pid c. P c \<Longrightarrow> P (offer tok pid c)" and clear: "P c \<Longrightarrow> P (clear_buses c)"
    and start: "P c"
  shows "P (drainObservers env c)"
proof -
  have f: "P (fold (offer tok) pids d)" if "P d" for tok pids d
    using that offers by (rule fold_invariant[rotated])
  have "P (dispatch_event env obss e d)" if "P d" for obss e d
    unfolding dispatch_event_def by (rule fold_invariant) (simp_all add: f that)
  then have "P (fold (dispatch_event env (observers_of c)) es (clear_buses c))" for es
    using clear[OF start] by (rule fold_invariant)
  then show ?thesis
    unfolding drainObservers_def using start by simp
qed

lemma clear_buses_frame [simp]:
  "c_Places (clear_buses c) = c_Places c" "c_Transitions (clear_buses c) = c_Transitions c"
  "c_Mode (clear_buses c) = c_Mode c" "c_State (clear_buses c) = c_State c"
  by (simp_all add: clear_buses_def)

lemma drainObservers_grows: "grows c (drainObservers env c)"
proof (rule drainObservers_invariant[where P = "grows c"])
  show "grows c (offer tok pid d)" if "grows c d" for tok pid d
    using that offer_grows by (rule grows_trans)
  show "grows c (clear_buses c)" by (rule grows_places) simp
qed simp

lemma offer_frame [simp]:
  "c_Transitions (offer tok pid c) = c_Transitions c" "c_Mode (offer tok pid c) = c_Mode c"
  "c_State (offer tok pid c) = c_State c"
  by (auto simp: offer_def split: option.splits sum.splits)

lemma drainObservers_frame [simp]:
  "c_Transitions (drainObservers env c) = c_Transitions c"
  "c_Mode (drainObservers env c) = c_Mode c" "c_State (drainObservers env c) = c_State c"
  by (rule drainObservers_invariant[where P = "\<lambda>d. c_Transitions d = c_Transitions c"],
      simp_all add: clear_buses_def,
      rule drainObservers_invariant[where P = "\<lambda>d. c_Mode d = c_Mode c"],
      simp_all add: clear_buses_def,
      rule drainObservers_invariant[where P = "\<lambda>d. c_State d = c_State c"],
      simp_all add: clear_buses_def)

section \<open>What an observer receives\<close>

lemma offer_effect:
  "map_of (c_Places c) pid = Some p \<Longrightarrow> accepts p tok \<Longrightarrow>
   map_of (c_Places (offer tok q c)) pid =
     Some (if q = pid then p\<lparr>pl_Tokens := pl_Tokens p @ [tok]\<rparr> else p)"
  by (auto simp: offer_def Deposit_accepts split: option.splits sum.splits)

lemma fold_offer_effect:
  "map_of (c_Places c) pid = Some p \<Longrightarrow> accepts p tok \<Longrightarrow>
   map_of (c_Places (fold (offer tok) pids c)) pid =
     Some (p\<lparr>pl_Tokens := pl_Tokens p @ replicate (count_list pids pid) tok\<rparr>)"
proof (induction pids arbitrary: c p)
  case (Cons q pids)
  note o = offer_effect[OF Cons.prems, of q]
  show ?case
  proof (cases "q = pid")
    case True
    with o Cons.IH[of "offer tok q c" "p\<lparr>pl_Tokens := pl_Tokens p @ [tok]\<rparr>"] Cons.prems
    show ?thesis by simp
  next
    case False
    with o Cons.IH[of "offer tok q c" p] Cons.prems show ?thesis by simp
  qed
qed simp

text \<open>The copies of one event that a place gets.\<close>

definition event_copies ::
  "'w env \<Rightarrow> 'w transition list \<Rightarrow> string \<Rightarrow> string \<Rightarrow> event \<Rightarrow> token list" where
  "event_copies env obss pid sid e =
     concat (map (\<lambda>obs. if observes obs e
       then replicate (count_list (tr_OutputPlaces obs) pid) (event_token env sid e) else []) obss)"

lemma offer_session [simp]: "c_SessionID (offer tok pid c) = c_SessionID c"
  by (auto simp: offer_def split: option.splits sum.splits)

lemma fold_offer_session [simp]: "c_SessionID (fold (offer tok) pids c) = c_SessionID c"
  by (induction pids arbitrary: c) simp_all

lemma dispatch_session [simp]: "c_SessionID (dispatch_event env obss e c) = c_SessionID c"
  unfolding dispatch_event_def by (induction obss arbitrary: c) simp_all

lemma dispatch_effect:
  assumes "map_of (c_Places c) pid = Some p" and "pl_Color p = ColorEvent"
    and "pl_Space p = SpaceObservation"
  shows "map_of (c_Places (dispatch_event env obss e c)) pid =
    Some (p\<lparr>pl_Tokens := pl_Tokens p @ event_copies env obss pid (c_SessionID c) e\<rparr>)"
  using assms unfolding dispatch_event_def
proof (induction obss arbitrary: c p)
  case Nil
  then show ?case by (simp add: event_copies_def)
next
  case (Cons obs obss)
  have a: "accepts p (event_token env (c_SessionID c) e)"
    using Cons.prems(2,3) by (simp add: accepts_def event_token_def)
  show ?case
  proof (cases "observes obs e")
    case True
    let ?d = "fold (offer (event_token env (c_SessionID c) e)) (tr_OutputPlaces obs) c"
    note o = fold_offer_effect[OF Cons.prems(1) a, of "tr_OutputPlaces obs"]
    with True o Cons.IH[OF o] Cons.prems(2,3) show ?thesis
      by (simp add: event_copies_def)
  next
    case False
    with Cons.IH[OF Cons.prems] show ?thesis by (simp add: event_copies_def)
  qed
qed

lemma drain_effect:
  assumes "map_of (c_Places c) pid = Some p" and "pl_Color p = ColorEvent"
    and "pl_Space p = SpaceObservation"
  shows "map_of (c_Places (drainObservers env c)) pid =
    Some (p\<lparr>pl_Tokens := pl_Tokens p @
      concat (map (event_copies env (observers_of c) pid (c_SessionID c)) (pending_events c))\<rparr>)"
proof -
  have gen: "map_of (c_Places (fold (dispatch_event env obss) es d)) pid =
      Some (q\<lparr>pl_Tokens := pl_Tokens q @ concat (map (event_copies env obss pid (c_SessionID c)) es)\<rparr>)"
    if "map_of (c_Places d) pid = Some q" "pl_Color q = ColorEvent" "pl_Space q = SpaceObservation"
      "c_SessionID d = c_SessionID c" for es obss d q
    using that
  proof (induction es arbitrary: d q)
    case (Cons e es)
    note o = dispatch_effect[OF Cons.prems(1-3), of env obss e]
    with Cons.IH[OF o] Cons.prems show ?case by simp
  qed simp
  have sess: "c_SessionID (clear_buses c) = c_SessionID c" by (simp add: clear_buses_def)
  show ?thesis
  proof (cases "observers_of c = [] \<or> (c_subNetBuses c = [] \<and> c_selfBus c = None)")
    case True
    have "concat (map (event_copies env (observers_of c) pid (c_SessionID c)) (pending_events c)) = []"
    proof (cases "observers_of c = []")
      case True
      then show ?thesis by (simp add: event_copies_def)
    next
      case False
      with \<open>observers_of c = [] \<or> _\<close> show ?thesis by (simp add: pending_events_def)
    qed
    with True assms(1) show ?thesis by (auto simp: drainObservers_def)
  next
    case False
    then have "drainObservers env c =
        fold (dispatch_event env (observers_of c)) (pending_events c) (clear_buses c)"
      by (auto simp: drainObservers_def)
    with gen[of "clear_buses c" p] assms sess show ?thesis by simp
  qed
qed

end
