(* ===== verification/Fire_Registry.thy ===== *)
theory Fire_Registry
  imports Fire_Validate
begin

text \<open>
  \<open>cpn/fire_register_tool.go\<close> and \<open>cpn/fire_synthesize.go\<close>: publishing a tool manifest, and letting the
  LLM author a topology that is stored once the linter has passed it. The ports of the net (tool
  registry, first-run ledger, flow repository, safe registry) and the synthesis hooks are those of the
  net and the environment.
\<close>

section \<open>Registering a tool\<close>

definition decode_manifest :: "'w env \<Rightarrow> string \<Rightarrow> gerr + tool_manifest" where
  "decode_manifest env raw = (case en_manifest env raw of
     Inl e \<Rightarrow> Inl (Wrap ''decode token payload as ToolManifest: '' e []) | Inr m \<Rightarrow> Inr m)"

definition resolveRegisterManifest :: "'w env \<Rightarrow> 'w transition \<Rightarrow> token list \<Rightarrow> gerr + tool_manifest" where
  "resolveRegisterManifest env t consumed = (case tr_RegisterToolConfig t of
     Some cfg \<Rightarrow> Inr (ToManifest cfg)
   | None \<Rightarrow> (case consumed of
       [] \<Rightarrow> Inl (Plain ''no input token and no RegisterToolConfig'')
     | tok # _ \<Rightarrow> (case tok_Payload tok of
         PManifest m \<Rightarrow> Inr m
       | PManifestPtr None \<Rightarrow> Inl (Plain ''nil ToolManifest pointer in token'')
       | PManifestPtr (Some m) \<Rightarrow> Inr m
       | PRegister c \<Rightarrow> Inr (ToManifest c)
       | PRegisterPtr None \<Rightarrow> Inl (Plain ''nil RegisterToolConfig pointer in token'')
       | PRegisterPtr (Some c) \<Rightarrow> Inr (ToManifest c)
       | PRaw b \<Rightarrow> decode_manifest env b
       | PBytes b \<Rightarrow> decode_manifest env b
       | PString s \<Rightarrow> decode_manifest env s
       | p \<Rightarrow> (case en_json env p of
           Inl e \<Rightarrow> Inl (Plain (''unsupported token payload type '' @ en_type env p))
         | Inr raw \<Rightarrow> decode_manifest env raw))))"

definition stamp_manifest :: "'w cpn \<Rightarrow> tool_manifest \<Rightarrow> tool_manifest" where
  "stamp_manifest c m =
     (let m1 = (if pn_AuthoringCPNID (tn_Provenance m) = []
                then m\<lparr>tn_Provenance := (tn_Provenance m)\<lparr>pn_AuthoringCPNID := c_ID c\<rparr>\<rparr> else m)
      in if tn_RegisteredBy m1 = [] then m1\<lparr>tn_RegisteredBy := c_ID c\<rparr> else m1)"

text \<open>The first-run ledger is asked about a binary; without one the manifest passes.\<close>

definition first_run :: "'w transition \<Rightarrow> tool_manifest \<Rightarrow> 'w \<Rightarrow> 'w cpn \<Rightarrow> gerr option \<times> 'w" where
  "first_run t m w c =
     (if tn_BinarySHA256 m = [] then (None, w)
      else case c_FirstRunLedger c of
        None \<Rightarrow> (None, w)
      | Some approve \<Rightarrow> (case approve w (tn_BinaryPath m) (tn_BinarySHA256 m) of
          (None, w1) \<Rightarrow> (None, w1)
        | (Some e, w1) \<Rightarrow> (Some (Wrap (''transition '' @ tr_ID t @ '': first-run ledger rejected '' @
             tn_BinaryPath m @ '': '') e []), w1)))"

definition fireRegisterTool :: "'w env \<Rightarrow> 'w firer" where
  "fireRegisterTool env t consumed w c = (case c_ToolRegistry c of
     None \<Rightarrow> fail_with (Plain (''transition '' @ tr_ID t @ '': CPN has no ToolRegistry wired'')) w c
   | Some registrar \<Rightarrow> (case resolveRegisterManifest env t consumed of
       Inl e \<Rightarrow> fail_with (Wrap (''transition '' @ tr_ID t @ '': '') e []) w c
     | Inr m0 \<Rightarrow>
         (let m = stamp_manifest c m0
          in case first_run t m w c of
               (Some e, w1) \<Rightarrow> fail_with e w1 c
             | (None, w1) \<Rightarrow> (case registrar w1 m of
                 (Inl e, w2) \<Rightarrow> fail_with e w2 c
               | (Inr res, w2) \<Rightarrow>
                   (let tok = fresh_token ColorArtifact (PManifestResult res) SpaceComputation
                          NodeKindRegisterTool c;
                        (err, _, c') = deposit_each (out_missing t) (out_wrap t)
                          (\<lambda>_ p. Inr (if tok_Space tok = space_empty then tok\<lparr>tok_Space := pl_Space p\<rparr> else tok))
                          (tr_OutputPlaces t) c
                    in case err of
                         Some e \<Rightarrow> fail_with e w2 c'
                       | None \<Rightarrow> (([Snapshot (en_render env) (Some tok)], 0, None), w2, c'))))))"

lemma fireRegisterTool_grows: "fireRegisterTool env t toks w c = (out, w', c') \<Longrightarrow> grows c c'"
  by (auto simp: fireRegisterTool_def Let_def split: option.splits sum.splits prod.splits
      dest: deposit_each_grows)

interpretation register: sound_firer "fireRegisterTool env" for env
  by unfold_locales (rule fireRegisterTool_grows)

section \<open>The text of a reply\<close>

text \<open>\<open>strings.Index\<close> and \<open>strings.ReplaceAll\<close>, whose pattern is never empty here.\<close>

fun str_index :: "string \<Rightarrow> string \<Rightarrow> nat option" where
  "str_index s p = (if has_prefix s p then Some 0
     else case s of [] \<Rightarrow> None | _ # s' \<Rightarrow> map_option Suc (str_index s' p))"

declare str_index.simps [simp del]

function replace_all :: "string \<Rightarrow> string \<Rightarrow> string \<Rightarrow> string" where
  "replace_all s old new =
     (if old \<noteq> [] \<and> has_prefix s old then new @ replace_all (drop (length old) s) old new
      else case s of [] \<Rightarrow> [] | c # s' \<Rightarrow> c # replace_all s' old new)"
  by pat_completeness auto
termination
proof (relation "measure (\<lambda>(s, old, new). length s)", goal_cases)
  case (2 s old new)
  then have "s \<noteq> []" by (cases s) (auto simp: has_prefix_iff)
  with 2 show ?case by (cases old) auto
qed auto

declare replace_all.simps [simp del]

text \<open>
  The scanner of \<open>firstJSONObject\<close>: the whole text, the position, what is left, the depth, where the
  object started, and whether the position is inside a string or after a backslash.
\<close>

fun scan_object :: "string \<Rightarrow> nat \<Rightarrow> string \<Rightarrow> int \<Rightarrow> nat option \<Rightarrow> bool \<Rightarrow> bool \<Rightarrow> string" where
  "scan_object s i [] depth start inString escaped = []"
| "scan_object s i (c # rest) depth start inString escaped =
     (if inString
      then (if escaped then scan_object s (Suc i) rest depth start True False
            else if c = CHR 0x5C then scan_object s (Suc i) rest depth start True True
            else scan_object s (Suc i) rest depth start (c \<noteq> CHR 0x22) False)
      else if c = CHR 0x22 then scan_object s (Suc i) rest depth start True escaped
      else if c = CHR 0x7B
      then scan_object s (Suc i) rest (depth + 1) (if depth = 0 then Some i else start) False escaped
      else if c = CHR 0x7D
      then (case start of
              Some b \<Rightarrow> if depth - 1 = 0 then drop b (take (Suc i) s)
                else scan_object s (Suc i) rest (depth - 1) start False escaped
            | None \<Rightarrow> scan_object s (Suc i) rest (depth - 1) start False escaped)
      else scan_object s (Suc i) rest depth start False escaped)"

definition firstJSONObject :: "string \<Rightarrow> string" where
  "firstJSONObject s = scan_object s 0 s 0 None False False"

definition open_tag :: string where "open_tag = ''<topology>''"
definition close_tag :: string where "close_tag = ''</topology>''"

definition extractTopologyBlock :: "string \<Rightarrow> string" where
  "extractTopologyBlock raw = (case str_index raw open_tag of
     None \<Rightarrow> firstJSONObject raw
   | Some i \<Rightarrow> (let body = drop (i + length open_tag) raw
       in case str_index body close_tag of
            None \<Rightarrow> firstJSONObject body
          | Some j \<Rightarrow> trim_space (take j body)))"

definition parseTopologyResponse :: "'w env \<Rightarrow> string \<Rightarrow> gerr + string" where
  "parseTopologyResponse env raw =
     (let payload = extractTopologyBlock raw
      in if payload = [] then Inl (Plain ''no <topology>...</topology> block found'')
         else case en_json_check env payload of
                Some e \<Rightarrow> Inl (Wrap ''decode topology: '' e []) | None \<Rightarrow> Inr payload)"

section \<open>The prompt\<close>

definition arrow :: string where "arrow = [CHR 0xE2, CHR 0x86, CHR 0x92]"

definition defaultSynthesizeSystemPrompt :: string where
  "defaultSynthesizeSystemPrompt =
     ''You are the CPN synthesiser for brae.'' @ nl @
     ''Produce a Colored Petri Net topology that solves the task below.'' @ nl @
     nl @
     ''RULES:'' @ nl @
     ''- You may reference only the primitives listed in the CATALOGUE below.'' @ nl @
     ''- Max 50 places, 50 transitions, 200 arcs.'' @ nl @
     ''- Respect space isolation: surface '' @ arrow @ '' observation '' @ arrow @ '' computation (no surface'' @ arrow @ ''computation edges except via HITL).'' @ nl @
     ''- Every topology MUST include at least one terminal place.'' @ nl @
     ''- You MUST NOT emit a register_tool transition.'' @ nl"

definition topologySchemaHint :: string where
  "topologySchemaHint =
     ''{'' @ nl @
     ''  \"id\": \"string\",'' @ nl @
     ''  \"role\": \"string\",'' @ nl @
     ''  \"mode\": \"mas\" | \"centaurian\",'' @ nl @
     ''  \"places\": { \"<id>\": {\"id\":\"<id>\",\"color\":\"STRING|JSON|ARTIFACT|...\",\"space\":\"surface|computation|observation\"} },'' @ nl @
     ''  \"transitions\": { \"<id>\": {\"id\":\"<id>\",\"kind\":\"tool|llm|validate|subnet|hitl\",\"inputPlaces\":[\"...\"],\"outputPlaces\":[\"...\"],\"guardFunc\":\"<safe name>\",\"executorFunc\":\"<safe name>\",\"factoryFunc\":\"<safe name>\"} }'' @ nl @
     ''}''"


definition extractTaskPayload :: "'w env \<Rightarrow> token list \<Rightarrow> string" where
  "extractTaskPayload env consumed = (case consumed of
     [] \<Rightarrow> []
   | tok # _ \<Rightarrow> (case tok_Payload tok of
       PString s \<Rightarrow> s | PBytes b \<Rightarrow> b | PRaw b \<Rightarrow> b
     | p \<Rightarrow> (case en_json env p of Inr b \<Rightarrow> b | Inl e \<Rightarrow> en_sprint env p)))"

definition buildSynthesizePrompt :: "synthesize_config \<Rightarrow> string \<Rightarrow> string \<Rightarrow> string" where
  "buildSynthesizePrompt cfg catalogue task =
     (let body0 = (if sy_SystemPrompt cfg = [] then defaultSynthesizeSystemPrompt else sy_SystemPrompt cfg);
          body = (if sy_TaskPlaceholder cfg \<noteq> [] then replace_all body0 (sy_TaskPlaceholder cfg) task else body0)
      in body @ nl @ nl @ ''CATALOGUE (JSON):'' @ nl @ (if catalogue = [] then ''[]'' else catalogue) @
         nl @ nl @ ''TOPOLOGY SCHEMA (informal):'' @ nl @ topologySchemaHint @
         nl @ nl @ ''RESPONSE FORMAT:'' @ nl @
         ''Return your topology as JSON wrapped exactly between <topology> and </topology> delimiters. Nothing else outside the delimiters.'')"

section \<open>The hooks\<close>

definition lintTopology :: "'w env \<Rightarrow> string \<Rightarrow> safe_port \<Rightarrow> size_cap \<Rightarrow> bool \<times> gerr option" where
  "lintTopology env topo safe cap = (case en_lint env of None \<Rightarrow> (True, None) | Some f \<Rightarrow> f topo safe cap)"

definition canonicaliseTopology :: "'w env \<Rightarrow> string \<Rightarrow> gerr + string" where
  "canonicaliseTopology env topo = (case en_canonicalise env of None \<Rightarrow> Inr topo | Some f \<Rightarrow> f topo)"

definition materialiseTopology :: "'w env \<Rightarrow> string \<Rightarrow> safe_port \<Rightarrow> gerr + 'w cpn" where
  "materialiseTopology env topo safe = (case en_materialise env of
     None \<Rightarrow> Inl (Sentinel ErrNoMaterialiser) | Some f \<Rightarrow> f topo safe)"

definition no_digest :: topology_digest where
  "no_digest = \<lparr>dg_Name = [], dg_Role = [], dg_SizePlaces = 0, dg_SizeTransitions = 0, dg_ReferencedPrimitives = []\<rparr>"

definition topologyDigest :: "'w env \<Rightarrow> string \<Rightarrow> topology_digest" where
  "topologyDigest env topo = (case en_digest env of None \<Rightarrow> no_digest | Some f \<Rightarrow> f topo)"

section \<open>Synthesis\<close>

text \<open>\<open>fmt.Errorf\<close> with the verb \<open>%w\<close> of a nil error prints \<open>%!w(<nil>)\<close>.\<close>

definition routeSynthErr :: "gerr option \<Rightarrow> string \<Rightarrow> gerr option" where
  "routeSynthErr err detail =
     (if detail = [] then err
      else case err of None \<Rightarrow> Some (Plain (''%!w(<nil>): '' @ detail)) | Some e \<Rightarrow> Some (Wrap [] e ('': '' @ detail)))"

definition opt_text :: "gerr option \<Rightarrow> string" where
  "opt_text e = (case e of None \<Rightarrow> ''<nil>'' | Some x \<Rightarrow> err_text x)"

definition synth_request ::
  "synthesize_config \<Rightarrow> string \<Rightarrow> string \<Rightarrow> string \<Rightarrow> 'w cpn \<Rightarrow> llm_request" where
  "synth_request cfg base task feedback c =
     \<lparr>lr_Model = sy_Model cfg,
      lr_Messages = [text_message ''system'' (if feedback = [] then base
          else base @ nl @ nl @ ''PREVIOUS ATTEMPT FEEDBACK:'' @ nl @ feedback @ nl @ nl @ ''Try again.''),
        text_message ''user'' task],
      lr_MaxTokens = sy_MaxTokens cfg, lr_Temperature = sy_Temperature cfg, lr_Tools = [], lr_ResponseFmt = [],
      lr_SessionID = c_SessionID c, lr_Trace = None, lr_Stream = False\<rparr>"

text \<open>
  The attempts: how many corrections are left, the feedback of the last attempt, the cost so far. The
  result is the error of the firing, which may be nil, or the text of the topology.
\<close>

fun synth_loop ::
  "'w env \<Rightarrow> 'w transition \<Rightarrow> 'w llm_client \<Rightarrow> safe_port \<Rightarrow> synthesize_config \<Rightarrow> string \<Rightarrow> string \<Rightarrow> 'w cpn \<Rightarrow>
   nat \<Rightarrow> string \<Rightarrow> real \<Rightarrow> 'w \<Rightarrow> (gerr option + string) \<times> real \<times> 'w" where
  "synth_loop env t llm safe cfg base task c left feedback tot w =
     (case lk_Complete llm w (synth_request cfg base task feedback c) of
        (Inl e, w1) \<Rightarrow> (Inl (Some (Wrap (''transition '' @ tr_ID t @ '': LLM call: '') e [])), tot, w1)
      | (Inr resp, w1) \<Rightarrow>
          (let tot1 = tot + lp_CostUSD resp
           in case parseTopologyResponse env (lp_Content resp) of
                Inl pe \<Rightarrow> (case left of
                    0 \<Rightarrow> (Inl (routeSynthErr (Some (Sentinel ErrTopologyParseFailed)) (err_text pe)), tot1, w1)
                  | Suc k \<Rightarrow> synth_loop env t llm safe cfg base task c k (''parse error: '' @ err_text pe) tot1 w1)
              | Inr parsed \<Rightarrow>
                  (let (passed, lerr) = lintTopology env parsed safe (sy_SizeCap cfg);
                       fb = ''lint errors: '' @ opt_text lerr
                   in if passed then (Inr parsed, tot1, w1)
                      else case left of
                             0 \<Rightarrow> (Inl (routeSynthErr lerr fb), tot1, w1)
                           | Suc k \<Rightarrow> synth_loop env t llm safe cfg base task c k fb tot1 w1)))"

declare synth_loop.simps [simp del]

definition summaryForDigest :: "string \<Rightarrow> topology_digest \<Rightarrow> string" where
  "summaryForDigest explicit d =
     (if explicit \<noteq> [] then explicit else if dg_Role d \<noteq> [] then dg_Role d else dg_Name d)"

definition synth_save ::
  "'w env \<Rightarrow> 'w flow_repository \<Rightarrow> synthesize_config \<Rightarrow> string \<Rightarrow> 'w cpn \<Rightarrow> string \<Rightarrow> 'w \<Rightarrow>
   (gerr + flow_ref) \<times> 'w" where
  "synth_save env repo cfg base c canonical w =
     (let d = topologyDigest env canonical;
          prov = \<lparr>fw_AuthoredByCPNID = c_ID c, fw_AuthoredFromPromptHash = en_sha env base,
                  fw_SessionID = c_SessionID c\<rparr>;
          summary = summaryForDigest (sy_Summary cfg) d;
          (r, w1) = fy_SaveAuthored repo w canonical summary (dg_SizePlaces d) (dg_SizeTransitions d)
                      (dg_ReferencedPrimitives d) prov
      in (case r of Inl e \<Rightarrow> Inl e | Inr (fid, _) \<Rightarrow> Inr \<lparr>fl_FlowID = fid, fl_Summary = summary\<rparr>, w1))"

definition synth_missing :: "'w transition \<Rightarrow> string \<Rightarrow> gerr" where
  "synth_missing t pid = Plain (''transition '' @ tr_ID t @ '': output place '' @ pid @ '' missing'')"

text \<open>What follows an accepted topology: canonicalise, save, deposit a reference.\<close>

definition synth_finish ::
  "'w env \<Rightarrow> 'w transition \<Rightarrow> 'w flow_repository \<Rightarrow> synthesize_config \<Rightarrow> string \<Rightarrow> string \<Rightarrow> real \<Rightarrow> 'w \<Rightarrow>
   'w cpn \<Rightarrow> fire_out \<times> 'w \<times> 'w cpn" where
  "synth_finish env t repo cfg base topo tot w c = (case canonicaliseTopology env topo of
     Inl e \<Rightarrow> (([], tot, Some (Wrap (''transition '' @ tr_ID t @ '': canonicalise: '') e [])), w, c)
   | Inr canonical \<Rightarrow> (case synth_save env repo cfg base c canonical w of
       (Inl e, w1) \<Rightarrow> (([], tot, Some (Wrap (''transition '' @ tr_ID t @ '': save authored: '') e [])), w1, c)
     | (Inr ref, w1) \<Rightarrow>
         (let tok = fresh_token ColorFlowRef (PFlowRef ref) space_empty NodeKindSynthesize c;
              (err, _, c') = deposit_each (synth_missing t) (out_wrap t)
                (\<lambda>_ p. Inr (tok\<lparr>tok_Space := pl_Space p\<rparr>)) (tr_OutputPlaces t) c
          in case err of
               Some e \<Rightarrow> (([], tot, Some e), w1, c')
             | None \<Rightarrow> (([Snapshot (en_render env) (Some tok)], tot, None), w1, c'))))"

definition fireSynthesize :: "'w env \<Rightarrow> 'w firer" where
  "fireSynthesize env t consumed w c = (case tr_SynthesizeConfig t of
     None \<Rightarrow> fail_with (Plain (''transition '' @ tr_ID t @ '': SynthesizeConfig missing'')) w c
   | Some cfg \<Rightarrow> (case c_LLMClient c of
     None \<Rightarrow> fail_with (Plain (''transition '' @ tr_ID t @ '': no LLMClient on CPN'')) w c
   | Some llm \<Rightarrow> (case c_FlowRepository c of
     None \<Rightarrow> fail_with (Plain (''transition '' @ tr_ID t @ '': no FlowRepository on CPN'')) w c
   | Some repo \<Rightarrow> (case c_SafeRegistry c of
     None \<Rightarrow> fail_with (Plain (''transition '' @ tr_ID t @ '': no SafeRegistry on CPN'')) w c
   | Some safe \<Rightarrow>
       (let task = extractTaskPayload env consumed;
            base = buildSynthesizePrompt cfg (sf_Catalogue safe) task;
            (r, tot, w1) = synth_loop env t llm safe cfg base task c (nat (sy_MaxCorrections cfg)) [] 0 w
        in case r of
             Inl err \<Rightarrow> (([], tot, err), w1, c)
           | Inr topo \<Rightarrow> synth_finish env t repo cfg base topo tot w1 c)))))"

lemma synth_finish_grows: "synth_finish env t repo cfg base topo tot w c = (out, w', c') \<Longrightarrow> grows c c'"
  by (auto simp: synth_finish_def Let_def split: option.splits sum.splits prod.splits dest: deposit_each_grows)

lemma fireSynthesize_grows: "fireSynthesize env t toks w c = (out, w', c') \<Longrightarrow> grows c c'"
  by (auto simp: fireSynthesize_def Let_def split: option.splits sum.splits prod.splits
      dest: synth_finish_grows)

interpretation synthesize: sound_firer "fireSynthesize env" for env
  by unfold_locales (rule fireSynthesize_grows)

end
