(* ===== verification/Subnets.thy ===== *)
theory Subnets
  imports Fire_Registry
begin

text \<open>
  Sub-nets: \<open>cpn/subnet.go\<close> and \<open>cpn/group_agent.go\<close>. \<open>fireSubNet\<close> builds the child, injects the consumed
  tokens and starts its goroutine; what that goroutine does to the parent when the child's \<open>Run\<close> has
  returned is \<open>finish_subnet\<close>, one of the steps \<open>en_background\<close> and \<open>en_join\<close> stand for. The events a
  running child puts on its bus are not part of that step.
\<close>

section \<open>The group agent\<close>

definition NewGroupAgent :: "string \<Rightarrow> string \<Rightarrow> group_agent" where
  "NewGroupAgent i topic = \<lparr>gr_ID = i, gr_Topic = topic, gr_active = [], gr_nonActive = []\<rparr>"

definition isActiveState :: "cpn_state \<Rightarrow> bool" where
  "isActiveState s \<longleftrightarrow> s = StateRunning \<or> s = StateIdle"

text \<open>The members are pointers to nets: \<open>state\<close> reads the state of the net with an ID.\<close>

definition GroupRegister :: "string \<Rightarrow> cpn_state \<Rightarrow> group_agent \<Rightarrow> group_agent" where
  "GroupRegister i s g = (if isActiveState s then g\<lparr>gr_active := gr_active g @ [i]\<rparr>
     else g\<lparr>gr_nonActive := gr_nonActive g @ [i]\<rparr>)"

definition Deliver :: "event \<Rightarrow> group_agent \<Rightarrow> (string \<Rightarrow> chan option) \<Rightarrow> string \<Rightarrow> chan option" where
  "Deliver e g emitter = fold (\<lambda>i em. case em i of None \<Rightarrow> em | Some ch \<Rightarrow> em(i := Some (snd (ch_try_send e ch))))
     (gr_active g) emitter"

definition GroupDeregister :: "string \<Rightarrow> group_agent \<Rightarrow> group_agent" where
  "GroupDeregister i g = g\<lparr>gr_active := filter (\<lambda>x. x \<noteq> i) (gr_active g)\<rparr>"

definition SwitchCMP :: "(string \<Rightarrow> cpn_state) \<Rightarrow> string \<Rightarrow> group_agent \<Rightarrow> group_agent" where
  "SwitchCMP state i g =
     (if i \<in> set (gr_active g)
      then (if \<not> isActiveState (state i)
            then g\<lparr>gr_active := filter (\<lambda>x. x \<noteq> i) (gr_active g), gr_nonActive := gr_nonActive g @ [i]\<rparr> else g)
      else if i \<in> set (gr_nonActive g)
      then (if isActiveState (state i)
            then g\<lparr>gr_nonActive := filter (\<lambda>x. x \<noteq> i) (gr_nonActive g), gr_active := gr_active g @ [i]\<rparr> else g)
      else g)"

definition group_len :: "group_agent \<Rightarrow> nat \<times> nat" where
  "group_len g = (length (gr_active g), length (gr_nonActive g))"

text \<open>The two sets are disjoint and repeat no member.\<close>

definition group_ok :: "group_agent \<Rightarrow> bool" where
  "group_ok g \<longleftrightarrow> distinct (gr_active g @ gr_nonActive g)"

lemma group_ok_steps:
  "group_ok (NewGroupAgent i topic)"
  "group_ok g \<Longrightarrow> i \<notin> set (gr_active g) \<union> set (gr_nonActive g) \<Longrightarrow> group_ok (GroupRegister i s g)"
  "group_ok g \<Longrightarrow> group_ok (GroupDeregister i g)"
  "group_ok g \<Longrightarrow> group_ok (SwitchCMP state i g)"
  by (auto simp: group_ok_def NewGroupAgent_def GroupRegister_def GroupDeregister_def SwitchCMP_def)

text \<open>After a switch the member is where its state says, and nobody is lost.\<close>

lemma SwitchCMP_places:
  assumes "group_ok g" and m: "i \<in> set (gr_active g) \<union> set (gr_nonActive g)"
  shows "i \<in> set (gr_active (SwitchCMP state i g)) \<longleftrightarrow> isActiveState (state i)"
    "set (gr_active (SwitchCMP state i g)) \<union> set (gr_nonActive (SwitchCMP state i g)) =
     set (gr_active g) \<union> set (gr_nonActive g)"
  using assms by (auto simp: SwitchCMP_def group_ok_def)

section \<open>Building the child\<close>

definition cloneCPN :: "'w cpn \<Rightarrow> 'w cpn" where
  "cloneCPN p = (NewCPN [] (c_Role p) 0 (c_Mode p) []
     (map (\<lambda>(k, q). (k, NewPlace (pl_ID q) (pl_Color q) (pl_Space q))) (c_Places p)) (c_Transitions p))
     \<lparr>c_initialMode := ModeOther [], c_LLMClient := c_LLMClient p\<rparr>"

definition sourcePlaces :: "'w cpn \<Rightarrow> place gomap" where
  "sourcePlaces c = filter (\<lambda>(k, p). \<not> list_ex (\<lambda>(i, t). k \<in> set (tr_OutputPlaces t)) (c_Transitions c)) (c_Places c)"

text \<open>The colour index: the last source of a colour in the order of the list.\<close>

definition color_index :: "place gomap \<Rightarrow> color \<Rightarrow> string option" where
  "color_index srcs col = map_of (rev (map (\<lambda>(k, p). (pl_Color p, k)) srcs)) col"

definition by_place_id :: "place gomap \<Rightarrow> place gomap" where
  "by_place_id srcs = sort_key (\<lambda>(k, p). pl_ID p) srcs"

text \<open>A deposit of the token retyped to its target; a refusal is dropped.\<close>

definition retyped :: "place \<Rightarrow> token \<Rightarrow> token" where
  "retyped p tok = tok\<lparr>tok_Color := pl_Color p, tok_Space := pl_Space p\<rparr>"

definition place_into :: "string \<Rightarrow> token \<Rightarrow> 'w cpn \<Rightarrow> 'w cpn" where
  "place_into k tok c = (case map_of (c_Places c) k of
     None \<Rightarrow> c
   | Some p \<Rightarrow> (case Deposit p (retyped p tok) of Inl e \<Rightarrow> c | Inr p' \<Rightarrow> put_place k p' c))"

definition injectTokens :: "'w cpn \<Rightarrow> token list \<Rightarrow> 'w cpn" where
  "injectTokens child tokens =
     (let srcs = sourcePlaces child
      in if srcs = [] then child
         else (let fallback = fst (hd (by_place_id srcs))
               in fold (\<lambda>tok. place_into (case color_index srcs (tok_Color tok) of
                    None \<Rightarrow> fallback | Some k \<Rightarrow> k) tok) tokens child))"

definition SubNetEventBusCapacity :: nat where "SubNetEventBusCapacity = 64"

definition emit_subnet :: "event_type \<Rightarrow> 'w transition \<Rightarrow> event_payload \<Rightarrow> 'w cpn \<Rightarrow> 'w cpn" where
  "emit_subnet ty t p c = emit (mk_event ty (tr_ID t) NodeKindSubNet None p) c"

definition prepare_child :: "string \<Rightarrow> 'w cpn \<Rightarrow> 'w cpn \<Rightarrow> 'w cpn" where
  "prepare_child i parent child = child\<lparr>c_ID := i, c_Depth := c_Depth parent + 1,
     c_SessionID := c_SessionID parent, c_RegionalVariant := c_RegionalVariant parent\<rparr>"

definition uuid_of :: "gerr + 8 word list \<Rightarrow> gerr + string" where
  "uuid_of r = (case r of Inl e \<Rightarrow> Inl (Wrap ''generate UUID: '' e []) | Inr b \<Rightarrow> Inr (newUUID b))"

text \<open>The net a sub-net transition runs: the factory wins over the prototype.\<close>

definition child_net :: "'w env \<Rightarrow> 'w transition \<Rightarrow> 'w \<Rightarrow> (gerr + 'w cpn) \<times> 'w" where
  "child_net env t w = (case en_factory env t of
     Some f \<Rightarrow> (case f w of
         (None, w1) \<Rightarrow> (Inl (Plain (''transition '' @ tr_ID t @ '': SubNetFactory returned nil'')), w1)
       | (Some child, w1) \<Rightarrow> (Inr child, w1))
   | None \<Rightarrow> (case en_subnet env t of
         Some p \<Rightarrow> (Inr (cloneCPN p), w)
       | None \<Rightarrow> (Inl (Plain (''transition '' @ tr_ID t @ '': neither SubNet nor SubNetFactory configured'')), w)))"

definition join_group :: "'w cpn \<Rightarrow> 'w cpn \<Rightarrow> 'w cpn" where
  "join_group child parent =
     (let g = (case c_Group parent of None \<Rightarrow> NewGroupAgent (c_ID parent @ ''-group'') ''subnet'' | Some g \<Rightarrow> g)
      in parent\<lparr>c_Group := Some (GroupRegister (c_ID child) (c_State child) g)\<rparr>)"

definition fireSubNet :: "'w env \<Rightarrow> 'w firer" where
  "fireSubNet env t consumed w parent = (case child_net env t w of
     (Inl e, w1) \<Rightarrow> fail_with e w1 parent
   | (Inr child, w1) \<Rightarrow> (case en_rand env w1 of (rand, w2) \<Rightarrow> (case uuid_of rand of
       Inl e \<Rightarrow> fail_with (Wrap (''transition '' @ tr_ID t @ '': '') e []) w2 parent
     | Inr i \<Rightarrow>
         (let child1 = (prepare_child i parent child)
                \<lparr>c_EventEmitter := Some \<lparr>ch_cap = SubNetEventBusCapacity, ch_buf = []\<rparr>\<rparr>;
              child2 = injectTokens child1 consumed;
              parent1 = emit_subnet EventSubNetStarted t EvNil (join_group child2 (registerSubNetBus i [] parent))
          in (([], 0, None), en_spawn env t child2 w2,
              parent1\<lparr>c_activeChildren := c_activeChildren parent1 + 1\<rparr>)))))"

section \<open>When the child has returned\<close>

definition deregister_child :: "string \<Rightarrow> 'w cpn \<Rightarrow> 'w cpn" where
  "deregister_child i parent = parent\<lparr>c_Group := map_option (GroupDeregister i) (c_Group parent)\<rparr>"

definition subnet_error :: "gerr \<Rightarrow> string" where
  "subnet_error e = sentinel_msg ErrSubNetFailed @ '': '' @ err_text e"

definition child_error_token :: "node_kind \<Rightarrow> 'w cpn \<Rightarrow> 'w cpn \<Rightarrow> place \<Rightarrow> gerr \<Rightarrow> token" where
  "child_error_token k child parent ep e =
     \<lparr>tok_Color = ColorError, tok_Payload = PString (subnet_error e), tok_OriginID = c_ID child,
      tok_OriginDepth = c_Depth child, tok_OriginKind = k, tok_Space = pl_Space ep,
      tok_SessionID = c_SessionID parent, tok_TraceID = []\<rparr>"

definition child_outputs :: "'w cpn \<Rightarrow> token list" where
  "child_outputs child = concat (map (\<lambda>(k, p). map (\<lambda>tok. tok\<lparr>tok_OriginID := c_ID child,
     tok_OriginDepth := c_Depth child\<rparr>) (case Peek p of None \<Rightarrow> [] | Some ts \<Rightarrow> ts)) (TerminalPlaces child))"

text \<open>The deposits of one output place, and of all of them, with the refusals.\<close>

fun deliver_tokens :: "string \<Rightarrow> token list \<Rightarrow> 'w cpn \<Rightarrow> string list \<times> 'w cpn" where
  "deliver_tokens pid [] c = ([], c)"
| "deliver_tokens pid (tok # toks) c = (case map_of (c_Places c) pid of
     None \<Rightarrow> ([], c)
   | Some p \<Rightarrow> (case Deposit p (retyped p tok) of
       Inl e \<Rightarrow> (let (errs, c') = deliver_tokens pid toks c
                 in ((''place '' @ pid @ '': '' @ err_text e) # errs, c'))
     | Inr p' \<Rightarrow> deliver_tokens pid toks (put_place pid p' c)))"

fun deliver_outputs :: "string list \<Rightarrow> token list \<Rightarrow> 'w cpn \<Rightarrow> string list \<times> 'w cpn" where
  "deliver_outputs [] toks c = ([], c)"
| "deliver_outputs (pid # pids) toks c =
     (let (errs1, c1) = deliver_tokens pid toks c; (errs2, c2) = deliver_outputs pids toks c1
      in (errs1 @ errs2, c2))"

definition child_failed :: "'w transition \<Rightarrow> 'w cpn \<Rightarrow> gerr \<Rightarrow> 'w cpn \<Rightarrow> 'w cpn" where
  "child_failed t child e parent =
     (let p1 = emit_subnet EventSubNetFailed t (EvError e) parent;
          p2 = (if tr_ErrorPlace t \<noteq> []
                then (case map_of (c_Places p1) (tr_ErrorPlace t) of
                    None \<Rightarrow> p1
                  | Some ep \<Rightarrow> (case Deposit ep (child_error_token NodeKindSubNet child parent ep e) of
                      Inl de \<Rightarrow> emit_subnet EventSubNetFailed t
                        (EvError (Wrap ''error place deposit failed: '' de [])) p1
                    | Inr ep' \<Rightarrow> put_place (tr_ErrorPlace t) ep' p1))
                else setFailed (Wrap [] (Sentinel ErrSubNetFailed) ('': '' @ err_text e)) p1)
      in deregister_child (c_ID child) p2)"

definition child_completed ::
  "'w env \<Rightarrow> 'w transition \<Rightarrow> 'w cpn \<Rightarrow> 'w \<Rightarrow> 'w cpn \<Rightarrow> 'w \<times> 'w cpn" where
  "child_completed env t child w parent =
     (let toks = child_outputs child;
          (errs, p1) = deliver_outputs (tr_OutputPlaces t) toks parent;
          p2 = (if errs = [] then p1 else emit_subnet EventSubNetFailed t
                 (EvError (Plain (''deposit errors: '' @ join_str ''; '' errs))) p1);
          (rand, w1) = en_rand env w;
          p3 = (case CompressSubNetSummary (en_sprint env) rand (c_ID child) (c_Role child) (c_Depth child) toks of
                  Inl e \<Rightarrow> emit_subnet EventSubNetFailed t (EvError (Wrap ''compress summary: '' e [])) p2
                | Inr m \<Rightarrow> p2\<lparr>c_History := c_History p2 @ [m]\<rparr>)
      in (w1, emit_subnet EventSubNetCompleted t EvNil (deregister_child (c_ID child) p3)))"

definition finish_subnet ::
  "'w env \<Rightarrow> 'w transition \<Rightarrow> 'w cpn \<Rightarrow> gerr option \<Rightarrow> 'w \<Rightarrow> 'w cpn \<Rightarrow> 'w \<times> 'w cpn" where
  "finish_subnet env t child runErr w parent =
     (let (w1, p1) = (case runErr of
            Some e \<Rightarrow> (w, child_failed t child e parent)
          | None \<Rightarrow> child_completed env t child w parent)
      in (w1, p1\<lparr>c_activeChildren := c_activeChildren p1 - 1\<rparr>))"

section \<open>Delivery\<close>

lemma retyped_accepted [simp]: "Deposit p (retyped p tok) = Inr (p\<lparr>pl_Tokens := pl_Tokens p @ [retyped p tok]\<rparr>)"
  by (simp add: Deposit_Inr_iff accepts_def retyped_def)

lemma retyped_frame [simp]: "retyped (p\<lparr>pl_Tokens := ts\<rparr>) = retyped p"
  by (rule ext) (simp add: retyped_def)

definition add_tokens :: "string \<Rightarrow> token list \<Rightarrow> 'w cpn \<Rightarrow> 'w cpn" where
  "add_tokens pid toks c = (case map_of (c_Places c) pid of
     None \<Rightarrow> c
   | Some p \<Rightarrow> put_place pid (p\<lparr>pl_Tokens := pl_Tokens p @ map (retyped p) toks\<rparr>) c)"

lemma place_into_add: "place_into k tok c = add_tokens k [tok] c"
  by (simp add: place_into_def add_tokens_def split: option.split)

lemma grows_add_tokens: "grows c (add_tokens pid toks c)"
proof (cases "map_of (c_Places c) pid")
  case (Some p)
  have "place_grows p (p\<lparr>pl_Tokens := pl_Tokens p @ map (retyped p) toks\<rparr>)"
    unfolding place_grows_def by (intro exI[of _ "map (retyped p) toks"]) (simp add: list_all_iff accepts_def retyped_def)
  with Some show ?thesis by (simp add: add_tokens_def grows_put_place)
qed (simp add: add_tokens_def)

lemma lookup_add_tokens:
  "map_of (c_Places (add_tokens pid toks c)) q = (if q = pid
     then map_option (\<lambda>p. p\<lparr>pl_Tokens := pl_Tokens p @ map (retyped p) toks\<rparr>) (map_of (c_Places c) pid)
     else map_of (c_Places c) q)"
  by (simp add: add_tokens_def put_place_def update_conv' split: option.split)

lemma deliver_tokens_eq:
  "fst (deliver_tokens pid toks c) = [] \<and>
   map_of (c_Places (snd (deliver_tokens pid toks c))) = map_of (c_Places (add_tokens pid toks c)) \<and>
   grows c (snd (deliver_tokens pid toks c))"
proof (induction toks arbitrary: c)
  case Nil
  show ?case by (rule conjI, simp, rule conjI, rule ext) (simp_all add: lookup_add_tokens option.map_ident_strong)
next
  case (Cons tok toks)
  show ?case
  proof (cases "map_of (c_Places c) pid")
    case (Some p)
    let ?c1 = "put_place pid (p\<lparr>pl_Tokens := pl_Tokens p @ [retyped p tok]\<rparr>) c"
    have c1: "?c1 = add_tokens pid [tok] c" using Some by (simp add: add_tokens_def)
    have g: "grows c ?c1" unfolding c1 by (rule grows_add_tokens)
    have "map_of (c_Places (add_tokens pid toks ?c1)) = map_of (c_Places (add_tokens pid (tok # toks) c))"
      by (rule ext) (simp add: lookup_add_tokens c1 Some)
    with Cons.IH[of ?c1] g Some show ?thesis by (auto intro: grows_trans)
  qed (simp add: add_tokens_def)
qed

lemma deliver_outputs_eq:
  "fst (deliver_outputs pids toks c) = [] \<and> grows c (snd (deliver_outputs pids toks c)) \<and>
   (\<forall>pid. map_of (c_Places (snd (deliver_outputs pids toks c))) pid =
      map_option (\<lambda>p. p\<lparr>pl_Tokens := pl_Tokens p @
        concat (replicate (count_list pids pid) (map (retyped p) toks))\<rparr>) (map_of (c_Places c) pid))"
proof (induction pids arbitrary: c)
  case Nil
  show ?case by (simp add: option.map_ident_strong)
next
  case (Cons pid pids)
  let ?c1 = "snd (deliver_tokens pid toks c)"
  have d: "fst (deliver_tokens pid toks c) = []" "grows c ?c1"
    "\<And>q. map_of (c_Places ?c1) q = map_of (c_Places (add_tokens pid toks c)) q"
    using deliver_tokens_eq[of pid toks c] by simp_all
  note IH = Cons.IH[of ?c1]
  have s: "deliver_outputs (pid # pids) toks c =
      (fst (deliver_outputs pids toks ?c1), snd (deliver_outputs pids toks ?c1))"
    using d(1) by (simp add: split_def Let_def)
  show ?case unfolding s fst_conv snd_conv
  proof (intro conjI allI)
    show "fst (deliver_outputs pids toks ?c1) = []" using IH by simp
    show "grows c (snd (deliver_outputs pids toks ?c1))" using IH d(2) grows_trans by blast
    fix q
    show "map_of (c_Places (snd (deliver_outputs pids toks ?c1))) q =
      map_option (\<lambda>p. p\<lparr>pl_Tokens := pl_Tokens p @
        concat (replicate (count_list (pid # pids) q) (map (retyped p) toks))\<rparr>) (map_of (c_Places c) q)"
      using IH by (simp add: d(3) lookup_add_tokens option.map_comp comp_def)
  qed
qed

lemma fold_place_into_grows: "grows c (fold (\<lambda>tok. place_into (f tok) tok) toks c)"
  by (induction toks arbitrary: c) (auto simp: place_into_add intro: grows_trans[OF grows_add_tokens])

lemma injectTokens_grows: "grows child (injectTokens child toks)"
  by (simp add: injectTokens_def Let_def fold_place_into_grows)

text \<open>The number of buffered tokens, over all places.\<close>

definition buffered :: "'w cpn \<Rightarrow> nat" where
  "buffered c = sum_list (map (\<lambda>(k, p). Len p) (c_Places c))"

lemma buffered_place_into:
  assumes "distinct (map fst (c_Places c))" "k \<in> fst ` set (c_Places c)"
  shows "buffered (place_into k tok c) = Suc (buffered c)"
proof -
  have "sum_list (map (\<lambda>(k, p). Len p) (AList.update k (p\<lparr>pl_Tokens := pl_Tokens p @ [x]\<rparr>) xs)) =
      Suc (sum_list (map (\<lambda>(k, p). Len p) xs))"
    if "map_of xs k = Some p" for xs p x
    using that by (induction xs) (auto simp: Len_def split: if_splits)
  then show ?thesis using assms(2)
    by (cases "map_of (c_Places c) k") (auto simp: place_into_def buffered_def put_place_def map_of_eq_None_iff)
qed

lemma color_index_source: "color_index srcs col = Some k \<Longrightarrow> k \<in> fst ` set srcs"
  by (force simp: color_index_def dest!: map_of_SomeD)

lemma by_place_id_source: "srcs \<noteq> [] \<Longrightarrow> fst (hd (by_place_id srcs)) \<in> fst ` set srcs"
proof -
  assume "srcs \<noteq> []"
  then have "by_place_id srcs \<noteq> []" by (metis by_place_id_def length_0_conv length_sort)
  then have "hd (by_place_id srcs) \<in> set srcs" by (metis by_place_id_def list.set_sel(1) set_sort)
  then show ?thesis by simp
qed

lemma fold_place_into:
  assumes d: "distinct (map fst (c_Places c))" and k: "\<And>tok. f tok \<in> fst ` set (c_Places c)"
  shows "buffered (fold (\<lambda>tok. place_into (f tok) tok) toks c) = buffered c + length toks"
  using assms
proof (induction toks arbitrary: c)
  case (Cons tok toks)
  have keys: "map fst (c_Places (place_into (f tok) tok c)) = map fst (c_Places c)"
    by (auto simp: place_into_def put_place_def keys_update_existing split: option.split)
  then have "fst ` set (c_Places (place_into (f tok) tok c)) = fst ` set (c_Places c)"
    by (metis list.set_map)
  with Cons.IH[of "place_into (f tok) tok c"] Cons.prems keys buffered_place_into[of c "f tok" tok]
  show ?case by simp
qed simp

text \<open>With a source place no injected token is lost; without one all of them are.\<close>

lemma injectTokens_conserves:
  assumes "distinct (map fst (c_Places child))"
  shows "buffered (injectTokens child toks) = buffered child + (if sourcePlaces child = [] then 0 else length toks)"
proof (cases "sourcePlaces child = []")
  case False
  have sub: "fst ` set (sourcePlaces child) \<subseteq> fst ` set (c_Places child)" by (auto simp: sourcePlaces_def)
  have "(case color_index (sourcePlaces child) (tok_Color tok) of
      None \<Rightarrow> fst (hd (by_place_id (sourcePlaces child))) | Some k \<Rightarrow> k) \<in> fst ` set (c_Places child)" for tok
    using sub by_place_id_source[OF False] color_index_source by (auto split: option.split)
  from fold_place_into[OF assms this] False show ?thesis by (simp add: injectTokens_def Let_def)
qed (simp add: injectTokens_def)

section \<open>The steps of a sub-net\<close>

lemma grows_same_places: "grows c c' \<Longrightarrow> c_Places d = c_Places c' \<Longrightarrow> grows c d"
  using grows_cong_right by blast

lemma child_failed_places:
  "c_Places (child_failed t child e parent) = (if tr_ErrorPlace t = [] then c_Places parent
     else case map_of (c_Places parent) (tr_ErrorPlace t) of
       None \<Rightarrow> c_Places parent
     | Some ep \<Rightarrow> (case Deposit ep (child_error_token NodeKindSubNet child parent ep e) of
         Inl de \<Rightarrow> c_Places parent
       | Inr ep' \<Rightarrow> AList.update (tr_ErrorPlace t) ep' (c_Places parent)))"
  unfolding child_failed_def deregister_child_def setFailed_def emit_subnet_def put_place_def Let_def
  by (simp split: option.split sum.split)

lemma finish_subnet_grows: "grows parent (snd (finish_subnet env t child r w parent))"
proof (cases r)
  case (Some e)
  have "grows parent (child_failed t child e parent)"
  proof (cases "map_of (c_Places parent) (tr_ErrorPlace t)")
    case (Some ep)
    show ?thesis
    proof (cases "Deposit ep (child_error_token NodeKindSubNet child parent ep e)")
      case (Inr ep')
      have "grows parent (put_place (tr_ErrorPlace t) ep' parent)"
        by (rule grows_put_place[OF Some place_grows_Deposit[OF Inr]])
      moreover have "tr_ErrorPlace t \<noteq> [] \<Longrightarrow>
          c_Places (child_failed t child e parent) = c_Places (put_place (tr_ErrorPlace t) ep' parent)"
        unfolding child_failed_places Some option.case Inr sum.case put_place_def by simp
      ultimately show ?thesis
        by (cases "tr_ErrorPlace t = []")
          (rule grows_places, simp add: child_failed_places, blast intro: grows_same_places)
    qed (rule grows_places, simp add: child_failed_places Some)
  qed (rule grows_places, simp add: child_failed_places)
  then show ?thesis
    by (rule grows_same_places) (simp add: finish_subnet_def Some)
next
  case None
  have "c_Places (snd (child_completed env t child w parent)) =
      c_Places (snd (deliver_outputs (tr_OutputPlaces t) (child_outputs child) parent))"
    by (simp add: child_completed_def Let_def split_def deregister_child_def emit_subnet_def split: sum.split)
  then have "grows parent (snd (child_completed env t child w parent))"
    using deliver_outputs_eq[of "tr_OutputPlaces t" "child_outputs child" parent] grows_same_places by blast
  then show ?thesis by (rule grows_same_places) (simp add: finish_subnet_def split_def Let_def None)
qed

lemma fireSubNet_places:
  "fireSubNet env t toks w c = (out, w', c') \<Longrightarrow> c_Places c' = c_Places c"
  by (auto simp: fireSubNet_def Let_def emit_subnet_def join_group_def registerSubNetBus_def
      split: sum.splits option.splits prod.splits)

lemma fireSubNet_grows: "fireSubNet env t toks w c = (out, w', c') \<Longrightarrow> grows c c'"
  by (drule fireSubNet_places) (rule grows_places)

interpretation subnet: sound_firer "fireSubNet env" for env
  by unfold_locales (rule fireSubNet_grows)

text \<open>
  A child that returned without error: every output place of the transition gets all its terminal tokens,
  in order, retyped to the place, once per mention; nothing is refused.
\<close>

lemma child_completed_places:
  "map_of (c_Places (snd (finish_subnet env t child None w parent))) pid =
     map_option (\<lambda>p. p\<lparr>pl_Tokens := pl_Tokens p @
       concat (replicate (count_list (tr_OutputPlaces t) pid) (map (retyped p) (child_outputs child)))\<rparr>)
       (map_of (c_Places parent) pid)"
proof -
  have "c_Places (snd (finish_subnet env t child None w parent)) =
      c_Places (snd (deliver_outputs (tr_OutputPlaces t) (child_outputs child) parent))"
    by (simp add: finish_subnet_def child_completed_def Let_def split_def deregister_child_def emit_subnet_def
        split: sum.split)
  then show ?thesis using deliver_outputs_eq[of "tr_OutputPlaces t" "child_outputs child" parent] by simp
qed

lemma child_completed_state:
  "c_State (snd (finish_subnet env t child None w parent)) = c_State parent"
  "c_Error (snd (finish_subnet env t child None w parent)) = c_Error parent"
proof -
  have "c_State (snd (deliver_tokens pid toks c)) = c_State c \<and> c_Error (snd (deliver_tokens pid toks c)) = c_Error c"
    for pid toks and c :: "'a cpn"
    by (induction toks arbitrary: c) (auto simp: put_place_def split: option.split)
  then have "c_State (snd (deliver_outputs pids toks c)) = c_State c \<and> c_Error (snd (deliver_outputs pids toks c)) = c_Error c"
    for pids toks and c :: "'a cpn"
    by (induction pids arbitrary: c) (auto simp: Let_def split_def)
  then show "c_State (snd (finish_subnet env t child None w parent)) = c_State parent"
    "c_Error (snd (finish_subnet env t child None w parent)) = c_Error parent"
    by (simp_all add: finish_subnet_def child_completed_def Let_def split_def deregister_child_def emit_subnet_def
        split: sum.split)
qed

text \<open>A child that failed: an error token in the error place, or a failed parent.\<close>

lemma child_failed_heard:
  assumes "tr_ErrorPlace t = []"
  shows "c_State (snd (finish_subnet env t child (Some e) w parent)) = StateFailed \<and>
    c_Error (snd (finish_subnet env t child (Some e) w parent)) = Some (Wrap [] (Sentinel ErrSubNetFailed) ('': '' @ err_text e))"
  using assms by (simp add: finish_subnet_def child_failed_def Let_def deregister_child_def setFailed_def)

lemma child_failed_token:
  assumes "tr_ErrorPlace t \<noteq> []" and "map_of (c_Places parent) (tr_ErrorPlace t) = Some ep" and "pl_Color ep = ColorError"
  shows "map_of (c_Places (snd (finish_subnet env t child (Some e) w parent))) (tr_ErrorPlace t) =
     Some (ep\<lparr>pl_Tokens := pl_Tokens ep @ [child_error_token NodeKindSubNet child parent ep e]\<rparr>)"
proof -
  have "Deposit ep (child_error_token NodeKindSubNet child parent ep e) =
      Inr (ep\<lparr>pl_Tokens := pl_Tokens ep @ [child_error_token NodeKindSubNet child parent ep e]\<rparr>)"
    using assms(3) by (simp add: Deposit_Inr_iff accepts_def child_error_token_def)
  with assms show ?thesis
    by (simp add: finish_subnet_def child_failed_def Let_def deregister_child_def emit_subnet_def put_place_def)
qed

text \<open>A clone has no host runtime, so the gate of its parent does not guard it.\<close>

lemma cloneCPN_ungated: "c_HostRuntime (cloneCPN p) = None \<and> c_LLMClient (cloneCPN p) = c_LLMClient p"
  by (simp add: cloneCPN_def NewCPN_def)

end
