(* ===== verification/Fire_Instantiate.thy ===== *)
theory Fire_Instantiate
  imports Subnets
begin

text \<open>
  \<open>cpn/fire_instantiate.go\<close>: a stored flow is loaded, linted again, approved once per net, materialised
  and run as a child whose terminal tokens are deposited in the parent. The child runs to its end within
  the firing, so the parent's bus receives the events of its whole run; cost tracking is left out.
\<close>

section \<open>The operations\<close>

definition payload_flow_ref :: "'w env \<Rightarrow> payload \<Rightarrow> flow_ref option" where
  "payload_flow_ref env p = (case p of
     PFlowRef r \<Rightarrow> Some r
   | PFlowRefPtr r \<Rightarrow> r
   | PObject m \<Rightarrow>
       (let str = (\<lambda>k. case map_of m k of Some (PString s) \<Rightarrow> s | _ \<Rightarrow> [])
        in if str ''flow_id'' = [] then None
           else Some \<lparr>fl_FlowID = str ''flow_id'', fl_Summary = str ''summary''\<rparr>)
   | PString s \<Rightarrow> (if trim_space s = [] then None else Some \<lparr>fl_FlowID = trim_space s, fl_Summary = []\<rparr>)
   | PRaw b \<Rightarrow> (case en_flow_ref env b of
         Inl e \<Rightarrow> None | Inr r \<Rightarrow> if fl_FlowID r = [] then None else Some r)
   | _ \<Rightarrow> None)"

fun first_flow_ref :: "'w env \<Rightarrow> token list \<Rightarrow> flow_ref option" where
  "first_flow_ref env [] = None"
| "first_flow_ref env (tok # toks) =
     (case (if tok_Color tok = ColorFlowRef then payload_flow_ref env (tok_Payload tok) else None) of
        Some r \<Rightarrow> Some r | None \<Rightarrow> first_flow_ref env toks)"

definition extractFlowRef :: "'w env \<Rightarrow> token list \<Rightarrow> gerr + flow_ref" where
  "extractFlowRef env consumed =
     (if consumed = [] then Inl (Plain ''no consumed tokens'')
      else case first_flow_ref env consumed of
             None \<Rightarrow> Inl (Plain ''no ColorFlowRef token consumed'') | Some r \<Rightarrow> Inr r)"

text \<open>
  The approval: the outcome, and the net with the approval marked. Without a router the flow counts as
  approved.
\<close>

definition approve_flow ::
  "'w env \<Rightarrow> 'w transition \<Rightarrow> flow_ref \<Rightarrow> topology_digest \<Rightarrow> 'w \<Rightarrow> 'w cpn \<Rightarrow> gerr option \<times> 'w \<times> 'w cpn" where
  "approve_flow env t ref d w c =
     (if (case tr_InstantiateConfig t of None \<Rightarrow> False | Some cfg \<Rightarrow> in_SkipHITL cfg) \<or>
         HasApprovedFlow (fl_FlowID ref) c
      then (None, w, c)
      else case c_TopologyRouter c of
        None \<Rightarrow> (None, w, MarkFlowApproved (fl_FlowID ref) c)
      | Some router \<Rightarrow>
          (let summary = \<lparr>ts_FlowID = fl_FlowID ref, ts_Name = dg_Name d, ts_Summary = fl_Summary ref,
                 ts_SizePlaces = dg_SizePlaces d, ts_SizeTransitions = dg_SizeTransitions d,
                 ts_ReferencedPrimitives = dg_ReferencedPrimitives d\<rparr>
           in case router w summary of
                (Inl e, w1) \<Rightarrow> (Some (Wrap (''transition '' @ tr_ID t @ '': topology approval: '') e []), w1, c)
              | (Inr False, w1) \<Rightarrow> (Some (Sentinel ErrHITLRejected), w1, c)
              | (Inr True, w1) \<Rightarrow> (None, w1, MarkFlowApproved (fl_FlowID ref) c)))"

definition equip_child :: "string \<Rightarrow> 'w cpn \<Rightarrow> 'w cpn \<Rightarrow> 'w cpn" where
  "equip_child i c child = (prepare_child i c child)\<lparr>c_LLMClient := c_LLMClient c,
     c_HostRuntime := c_HostRuntime c, c_ToolRegistry := c_ToolRegistry c,
     c_FlowRepository := c_FlowRepository c, c_SafeRegistry := c_SafeRegistry c,
     c_TopologyRouter := c_TopologyRouter c, c_FirstRunLedger := c_FirstRunLedger c\<rparr>"

text \<open>
  The target of every token: the first mapped place the child has, in the iteration order of the mapping,
  else the source of its colour, else the first source by ID. Go chooses an iteration order anew for every token:
  \<open>rank i\<close> is the one of the token number \<open>i\<close>.
\<close>

definition mapped_place :: "(string \<Rightarrow> nat) \<Rightarrow> instantiate_config option \<Rightarrow> 'w cpn \<Rightarrow> string option" where
  "mapped_place rank cfg child = (case cfg of None \<Rightarrow> None
   | Some i \<Rightarrow> find (\<lambda>k. k \<in> fst ` set (c_Places child)) (map snd (sort_key (rank \<circ> fst) (in_InputMapping i))))"

definition injectMappedTokens ::
  "(nat \<Rightarrow> string \<Rightarrow> nat) \<Rightarrow> 'w cpn \<Rightarrow> token list \<Rightarrow> instantiate_config option \<Rightarrow> 'w cpn" where
  "injectMappedTokens rank child consumed cfg =
     (let srcs = by_place_id (sourcePlaces child)
      in if srcs = [] then child
         else fold (\<lambda>(i, tok). place_into (case mapped_place (rank i) cfg child of
                Some k \<Rightarrow> k
              | None \<Rightarrow> (case color_index srcs (tok_Color tok) of Some k \<Rightarrow> k | None \<Rightarrow> fst (hd srcs))) tok)
              (enumerate 0 consumed) child)"

definition outputMappingOrDefault :: "'w transition \<Rightarrow> string \<Rightarrow> string list" where
  "outputMappingOrDefault t childPID =
     (case tr_InstantiateConfig t of
        Some cfg \<Rightarrow> if in_OutputMapping cfg \<noteq> []
          then map snd (filter (\<lambda>(k, v). k = childPID) (in_OutputMapping cfg)) else tr_OutputPlaces t
      | None \<Rightarrow> tr_OutputPlaces t)"

definition child_copy :: "'w cpn \<Rightarrow> place \<Rightarrow> token \<Rightarrow> token" where
  "child_copy child p tok = retyped p (tok\<lparr>tok_OriginID := c_ID child, tok_OriginDepth := c_Depth child,
     tok_OriginKind := NodeKindInstantiate\<rparr>)"

text \<open>The deposits: the pairs of a token and a parent place, in the order of the loops.\<close>

definition instantiate_pairs :: "'w transition \<Rightarrow> 'w cpn \<Rightarrow> (token \<times> string) list" where
  "instantiate_pairs t child = concat (map (\<lambda>(k, tp).
     concat (map (\<lambda>tok. map (\<lambda>pid. (tok, pid)) (outputMappingOrDefault t (pl_ID tp)))
       (case Peek tp of None \<Rightarrow> [] | Some ts \<Rightarrow> ts))) (TerminalPlaces child))"

fun deposit_pairs ::
  "'w transition \<Rightarrow> 'w cpn \<Rightarrow> (token \<times> string) list \<Rightarrow> 'w cpn \<Rightarrow> token list \<times> gerr option \<times> 'w cpn" where
  "deposit_pairs t child [] c = ([], None, c)"
| "deposit_pairs t child ((tok, pid) # rest) c = (case map_of (c_Places c) pid of
     None \<Rightarrow> deposit_pairs t child rest c
   | Some p \<Rightarrow> (case Deposit p (child_copy child p tok) of
       Inl e \<Rightarrow> ([], Some (out_wrap t pid e), c)
     | Inr p' \<Rightarrow> (let (toks, err, c') = deposit_pairs t child rest (put_place pid p' c)
                  in (child_copy child p tok # toks, err, c'))))"

definition child_error :: "gerr \<Rightarrow> gerr" where
  "child_error e = Wrap [] (Sentinel ErrSubNetFailed) ('': '' @ err_text e)"

text \<open>The run of the child and what follows it.\<close>

definition run_instance ::
  "'w env \<Rightarrow> 'w transition \<Rightarrow> token list \<Rightarrow> 'w cpn \<Rightarrow> 'w \<Rightarrow> 'w cpn \<Rightarrow> fire_out \<times> 'w \<times> 'w cpn" where
  "run_instance env t consumed child0 w c = (case en_rand env w of (rand, w1) \<Rightarrow> (case uuid_of rand of
     Inl e \<Rightarrow> fail_with (Wrap (''transition '' @ tr_ID t @ '': '') e []) w1 c
   | Inr i \<Rightarrow>
       (let rank = (\<lambda>n k. en_order env w1 (digits_of n @ '':'' @ k));
            child1 = injectMappedTokens rank (equip_child i c child0) consumed (tr_InstantiateConfig t);
            child2 = child1\<lparr>c_EventEmitter := Some \<lparr>ch_cap = SubNetEventBusCapacity, ch_buf = []\<rparr>\<rparr>;
            timeout = (case tr_InstantiateConfig t of None \<Rightarrow> 0 | Some cfg \<Rightarrow> max 0 (in_Timeout cfg));
            (runErr, w2, child) = en_run_child env timeout w1 child2;
            c1 = registerSubNetBus i (case c_EventEmitter child of None \<Rightarrow> [] | Some ch \<Rightarrow> ch_buf ch) c
        in case runErr of
             Some e \<Rightarrow>
               (case (if tr_ErrorPlace t \<noteq> [] then map_of (c_Places c1) (tr_ErrorPlace t) else None) of
                  Some ep \<Rightarrow>
                    (let tok = child_error_token NodeKindInstantiate child c ep e
                     in (([], 0, None), w2, (case Deposit ep tok of
                           Inl de \<Rightarrow> c1 | Inr ep' \<Rightarrow> put_place (tr_ErrorPlace t) ep' c1)))
                | None \<Rightarrow> fail_with (child_error e) w2 c1)
           | None \<Rightarrow>
               (let (toks, err, c2) = deposit_pairs t child (instantiate_pairs t child) c1
                in ((map (\<lambda>k. Snapshot (en_render env) (Some k)) toks, 0, err), w2, c2)))))"

text \<open>A loaded flow: the rejection mark, the linter, the approval, the materialiser.\<close>

definition instantiate_flow ::
  "'w env \<Rightarrow> 'w transition \<Rightarrow> token list \<Rightarrow> safe_port \<Rightarrow> flow_ref \<Rightarrow> flow_record \<Rightarrow> 'w \<Rightarrow> 'w cpn \<Rightarrow>
   fire_out \<times> 'w \<times> 'w cpn" where
  "instantiate_flow env t consumed safe ref r w c =
     (if fd_Rejected r
      then fail_with (Wrap [] (Sentinel ErrTopologyRejected)
             ('': '' @ fl_FlowID ref @ '' ('' @ fd_RejectedReason r @ '')'')) w c
      else case lintTopology env (fd_TopologyJSON r) safe DefaultSizeCap of
        (False, lerr) \<Rightarrow> fail_with (Wrap [] (Sentinel ErrDeprecatedDependency) ('': '' @ opt_text lerr)) w c
      | (True, _) \<Rightarrow>
          (case approve_flow env t ref (topologyDigest env (fd_TopologyJSON r)) w c of
             (Some e, w1, c1) \<Rightarrow> fail_with e w1 c1
           | (None, w1, c1) \<Rightarrow> (case materialiseTopology env (fd_TopologyJSON r) safe of
               Inl e \<Rightarrow> fail_with (Wrap (''transition '' @ tr_ID t @ '': materialise: '') e []) w1 c1
             | Inr child \<Rightarrow> run_instance env t consumed child w1 c1)))"

definition fireInstantiate :: "'w env \<Rightarrow> 'w firer" where
  "fireInstantiate env t consumed w c = (case c_FlowRepository c of
     None \<Rightarrow> fail_with (Plain (''transition '' @ tr_ID t @ '': no FlowRepository on CPN'')) w c
   | Some repo \<Rightarrow> (case c_SafeRegistry c of
     None \<Rightarrow> fail_with (Plain (''transition '' @ tr_ID t @ '': no SafeRegistry on CPN'')) w c
   | Some safe \<Rightarrow> (case extractFlowRef env consumed of
     Inl e \<Rightarrow> fail_with (Wrap (''transition '' @ tr_ID t @ '': '') e []) w c
   | Inr ref \<Rightarrow> (case fy_GetByID repo w (fl_FlowID ref) of
     (Inl e, w1) \<Rightarrow> fail_with (Wrap (''transition '' @ tr_ID t @ '': load flow '' @ fl_FlowID ref @ '': '') e []) w1 c
   | (Inr r, w1) \<Rightarrow> instantiate_flow env t consumed safe ref r w1 c))))"

section \<open>Properties of the steps\<close>

lemma approve_flow_places: "approve_flow env t ref d w c = (e, w', c') \<Longrightarrow> c_Places c' = c_Places c"
  by (auto simp: approve_flow_def MarkFlowApproved_def Let_def split: option.splits prod.splits sum.splits bool.splits if_splits)

lemma deposit_pairs_grows: "deposit_pairs t child ps c = (toks, err, c') \<Longrightarrow> grows c c'"
proof (induction t child ps c arbitrary: toks err c' rule: deposit_pairs.induct)
  case (2 t child tok pid rest c)
  show ?case
  proof (cases "map_of (c_Places c) pid")
    case None
    then show ?thesis using 2 by simp
  next
    case (Some p)
    show ?thesis
    proof (cases "Deposit p (child_copy child p tok)")
      case (Inl e)
      then show ?thesis using 2(3) Some by simp
    next
      case (Inr p')
      obtain ts e d where r: "deposit_pairs t child rest (put_place pid p' c) = (ts, e, d)" by (metis prod_cases3)
      have "grows (put_place pid p' c) c'" using 2(2)[OF Some Inr r] 2(3) Some Inr r by simp
      then show ?thesis using grows_put_place[OF Some place_grows_Deposit[OF Inr]] grows_trans by blast
    qed
  qed
qed simp

lemma run_instance_grows: "run_instance env t toks child w c = (out, w', c') \<Longrightarrow> grows c c'"
proof -
  have r: "grows c (registerSubNetBus i b c)" for i b by (rule grows_places) (simp add: registerSubNetBus_def)
  have d: "grows c c'" if "deposit_pairs t ch ps (registerSubNetBus i b c) = (ts, err, c')" for ch ps i b ts err
    using grows_trans[OF r deposit_pairs_grows[OF that]] .
  have p: "grows c (put_place k ep' (registerSubNetBus i b c))"
    if "map_of (c_Places (registerSubNetBus i b c)) k = Some ep" "Deposit ep tok = Inr ep'" for k ep ep' tok i b
    by (rule grows_trans[OF r grows_put_place[OF that(1) place_grows_Deposit[OF that(2)]]])
  assume "run_instance env t toks child w c = (out, w', c')"
  then show ?thesis using r d p
    unfolding run_instance_def Let_def
    by (auto split: prod.splits sum.splits option.splits if_splits)
qed

lemma instantiate_flow_grows: "instantiate_flow env t toks safe ref r w c = (out, w', c') \<Longrightarrow> grows c c'"
  unfolding instantiate_flow_def
  by (auto split: if_splits prod.splits bool.splits option.splits sum.splits
      dest: run_instance_grows approve_flow_places intro: grows_places)
    (metis approve_flow_places grows_cong_left run_instance_grows)

lemma fireInstantiate_grows: "fireInstantiate env t toks w c = (out, w', c') \<Longrightarrow> grows c c'"
  unfolding fireInstantiate_def
  by (auto split: option.splits prod.splits sum.splits dest: instantiate_flow_grows)

interpretation instantiate: sound_firer "fireInstantiate env" for env
  by unfold_locales (rule fireInstantiate_grows)

end
