(* ===== verification/Executor.thy ===== *)
theory Executor
  imports Hitl Fire_Validate Bash Fire_Llm Observers Fire_Instantiate
begin

text \<open>
  The executor, \<open>cpn/executor.go\<close>: one iteration of the loop of \<open>Run\<close> is \<open>run_iter\<close> (poll the
  context, drain the observers, collect the firable transitions, consume their tokens, fire the
  batch, route the errors, flush the history, re-evaluate the mode), and \<open>Run\<close> iterates it on
  fuel.

  The firings of a batch run in goroutines of their own. Here each firing is one step and the batch
  is executed in the order \<open>en_order\<close> gives, which is arbitrary, so a statement for every environment is
  one for every order of completion; the interleaving of two firings between two deposits is not
  modelled. A lookup of a transition that fails, which dereferences nil in Go, is a panic.
\<close>

section \<open>Collecting and consuming\<close>

record 'w firing =
  fr_Key :: string
  fr_Transition :: "'w transition"
  fr_Consumed :: "token list"

text \<open>
  \<open>collect_loop\<close> walks the transition map; it returns the keys of the firable ones and the map with
  the breakers as \<open>Allow\<close> left them.
\<close>

fun collect_loop ::
  "('w \<Rightarrow> int \<times> 'w) \<Rightarrow> 'w cpn \<Rightarrow> 'w transition gomap \<Rightarrow> 'w \<Rightarrow>
   string list \<times> 'w transition gomap \<times> 'w" where
  "collect_loop now c [] w = ([], [], w)"
| "collect_loop now c ((k, t) # ts) w =
     (if tr_Kind t = NodeKindObserver
      then (let (ks, ts', w') = collect_loop now c ts w in (ks, (k, t) # ts', w'))
      else (let (ok, t', w1) = effectiveCanFire now c t w;
                (ks, ts', w2) = collect_loop now c ts w1
            in ((if ok then k # ks else ks), (k, t') # ts', w2)))"

definition collectFirable :: "('w \<Rightarrow> int \<times> 'w) \<Rightarrow> 'w \<Rightarrow> 'w cpn \<Rightarrow> string list \<times> 'w \<times> 'w cpn" where
  "collectFirable now w c =
     (let (ks, ts, w') = collect_loop now c (c_Transitions c) w in (ks, w', c\<lparr>c_Transitions := ts\<rparr>))"

definition transition_id :: "'w cpn \<Rightarrow> string \<Rightarrow> string" where
  "transition_id c k = (case map_of (c_Transitions c) k of None \<Rightarrow> [] | Some t \<Rightarrow> tr_ID t)"

fun consumeAll :: "string list \<Rightarrow> place gomap \<Rightarrow> token list \<times> place gomap" where
  "consumeAll [] places = ([], places)"
| "consumeAll (pid # pids) places = (case map_of places pid of
     None \<Rightarrow> consumeAll pids places
   | Some p \<Rightarrow> (case Consume p of
        Inl e \<Rightarrow> consumeAll pids places
      | Inr (t, p') \<Rightarrow>
          (let (ts, places') = consumeAll pids (AList.update pid p' places) in (t # ts, places'))))"

fun consume_batch ::
  "('w \<Rightarrow> int \<times> 'w) \<Rightarrow> string list \<Rightarrow> 'w \<Rightarrow> 'w cpn \<Rightarrow> 'w firing list \<times> 'w \<times> 'w cpn" where
  "consume_batch now [] w c = ([], w, c)"
| "consume_batch now (k # ks) w c = (case map_of (c_Transitions c) k of
     None \<Rightarrow> consume_batch now ks w c
   | Some t \<Rightarrow>
       (let (ok, t', w1) = effectiveCanFire now c t w;
            c1 = put_transition k t' c
        in if \<not> ok then consume_batch now ks w1 c1
           else (let (toks, places') = consumeAll (tr_InputPlaces t') (c_Places c1);
                     (fs, w2, c2) = consume_batch now ks w1 (c1\<lparr>c_Places := places'\<rparr>)
                 in (\<lparr>fr_Key = k, fr_Transition = t', fr_Consumed = toks\<rparr> # fs, w2, c2))))"

definition emit_started :: "'w env \<Rightarrow> 'w firing \<Rightarrow> 'w cpn \<Rightarrow> 'w cpn" where
  "emit_started env f c =
     emit (mk_event EventTransitionStarted (tr_ID (fr_Transition f)) (tr_Kind (fr_Transition f)) None
       (EvStarted (map (\<lambda>t. Snapshot (en_render env) (Some t)) (fr_Consumed f))
          (resolveLabelForTransition c (fr_Transition f)))) c"

section \<open>Firing\<close>

definition unimplemented_observer :: gerr where
  "unimplemented_observer = Wrap [] (Sentinel ErrInvalidNodeKind) '': Observer dispatch not implemented''"

definition dispatch :: "'w env \<Rightarrow> 'w firer" where
  "dispatch env t consumed w c = (case tr_Kind t of
     NodeKindTool \<Rightarrow> fireTool env t consumed w c
   | NodeKindLLM \<Rightarrow> fireLLM env t consumed w c
   | NodeKindValidate \<Rightarrow> fireValidate env t consumed w c
   | NodeKindSubNet \<Rightarrow> fireSubNet env t consumed w c
   | NodeKindHITL \<Rightarrow>
       (if (case tr_HITLConfig t of None \<Rightarrow> False | Some cfg \<Rightarrow> hc_RevisionLoop cfg)
        then fireHITLWithRevision env t consumed w c else fireHITL env t consumed w c)
   | NodeKindBash \<Rightarrow> fireBash env t consumed w c
   | NodeKindRegisterTool \<Rightarrow> fireRegisterTool env t consumed w c
   | NodeKindSynthesize \<Rightarrow> fireSynthesize env t consumed w c
   | NodeKindInstantiate \<Rightarrow> fireInstantiate env t consumed w c
   | NodeKindTopologyMutate \<Rightarrow> fireTopologyMutate env t consumed w c
   | NodeKindObserver \<Rightarrow> fail_with unimplemented_observer w c
   | NodeKindOther s \<Rightarrow>
       fail_with (Wrap [] (Sentinel ErrInvalidNodeKind) ('': unknown kind '' @ fmt_q s)) w c)"

text \<open>The retry environment over the world and the net; only the world has a clock.\<close>

definition fire_env :: "'w env \<Rightarrow> ('w \<times> 'w cpn) retry_env" where
  "fire_env env =
     \<lparr>re_now = (\<lambda>(w, c). let (n, w') = en_now env w in (n, (w', c))),
      re_sleep = (\<lambda>d (w, c). let (e, w') = en_sleep env d w in (e, (w', c))),
      re_ovf = en_ovf env\<rparr>"

definition set_breaker :: "string \<Rightarrow> breaker option \<Rightarrow> 'w cpn \<Rightarrow> 'w cpn" where
  "set_breaker k cb c = (case map_of (c_Transitions c) k of
     None \<Rightarrow> c | Some t \<Rightarrow> put_transition k (SetCircuitBreaker cb t) c)"

definition get_breaker :: "string \<Rightarrow> 'w cpn \<Rightarrow> breaker option" where
  "get_breaker k c = (case map_of (c_Transitions c) k of None \<Rightarrow> None | Some t \<Rightarrow> tr_cbState t)"

text \<open>The body of the firing goroutine.\<close>

definition fire_one ::
  "'w env \<Rightarrow> 'w firing \<Rightarrow> 'w \<Rightarrow> 'w cpn \<Rightarrow> gerr option \<times> 'w \<times> 'w cpn" where
  "fire_one env f w c =
     (let t = fr_Transition f;
          ((snaps, cost, err), cb, (w1, c1)) =
            doRetry (fire_env env) (tr_Retry t) (get_breaker (fr_Key f) c)
              (\<lambda>(w, c). let (out, w', c') = dispatch env t (fr_Consumed f) w c in (out, (w', c')))
              (w, c);
          c2 = set_breaker (fr_Key f) cb c1;
          c3 = emit (mk_event EventTransitionCompleted (tr_ID t) (tr_Kind t) None
                 (EvCompleted snaps cost (case err of None \<Rightarrow> [] | Some e \<Rightarrow> err_text e)
                    (resolveLabelForTransition c2 t))) c2
      in (err, w1, c3))"

fun fire_all ::
  "'w env \<Rightarrow> 'w firing list \<Rightarrow> 'w \<Rightarrow> 'w cpn \<Rightarrow> (string \<times> gerr) list \<times> 'w \<times> 'w cpn" where
  "fire_all env [] w c = ([], w, c)"
| "fire_all env (f # fs) w c =
     (let (err, w1, c1) = fire_one env f w c;
          (errs, w2, c2) = fire_all env fs w1 c1
      in ((case err of None \<Rightarrow> errs | Some e \<Rightarrow> (tr_ID (fr_Transition f), e) # errs), w2, c2))"

section \<open>Errors and completion\<close>

datatype batch_end = BatchOk | BatchFail gerr | BatchPanic

definition error_token :: "'w cpn \<Rightarrow> 'w transition \<Rightarrow> place \<Rightarrow> gerr \<Rightarrow> token" where
  "error_token c t ep e = fresh_token ColorError (PString (err_text e)) (pl_Space ep) (tr_Kind t) c"

fun process_errors :: "(string \<times> gerr) list \<Rightarrow> 'w cpn \<Rightarrow> batch_end \<times> 'w cpn" where
  "process_errors [] c = (BatchOk, c)"
| "process_errors ((tid, e) # rest) c = (case map_of (c_Transitions c) tid of
     None \<Rightarrow> (BatchPanic, c)
   | Some t \<Rightarrow>
       (case (if tr_ErrorPlace t \<noteq> [] then map_of (c_Places c) (tr_ErrorPlace t) else None) of
          Some ep \<Rightarrow> (case Deposit ep (error_token c t ep e) of
             Inl de \<Rightarrow> (let e' = Wrap ''error place deposit failed: '' de []
                       in (BatchFail e', setFailed e' c))
           | Inr ep' \<Rightarrow> process_errors rest (put_place (tr_ErrorPlace t) ep' c))
        | None \<Rightarrow> (BatchFail e, setFailed e c)))"

definition checkCompletionOrDeadlock ::
  "'w env \<Rightarrow> 'w \<Rightarrow> 'w cpn \<Rightarrow> gerr option \<times> 'w \<times> 'w cpn" where
  "checkCompletionOrDeadlock env w c =
     (if IsComplete c then (None, w, setState StateCompleted c)
      else if c_activeChildren c > 0
      then (let (w1, c1) = en_join env w c
            in if IsComplete c1 then (None, w1, setState StateCompleted c1)
               else if c_State c1 = StateFailed then (c_Error c1, w1, c1)
               else (Some (Sentinel ErrChildrenCompleted), w1, c1))
      else (Some (Sentinel ErrDeadlock), w, setFailed (Sentinel ErrDeadlock) c))"

definition flush_history :: "'w cpn \<Rightarrow> 'w cpn" where
  "flush_history c = (case c_OnHistoryChanged c of
     None \<Rightarrow> c
   | Some l \<Rightarrow> if c_History c \<noteq> [] then c\<lparr>c_OnHistoryChanged := Some (l @ [c_History c])\<rparr> else c)"

section \<open>The loop\<close>

datatype iter_end = IterReturn "gerr option" | IterNext | IterPanic

definition finish_iter :: "'w env \<Rightarrow> 'w \<Rightarrow> 'w cpn \<Rightarrow> iter_end \<times> 'w \<times> 'w cpn" where
  "finish_iter env w c =
     (let (r, w1, c1) = checkCompletionOrDeadlock env w c
      in if r = Some (Sentinel ErrChildrenCompleted) then (IterNext, w1, c1) else (IterReturn r, w1, c1))"

text \<open>The batch: the events, the goroutines and \<open>wg.Wait\<close>, the errors, the flush, the mode.\<close>

definition run_batch :: "'w env \<Rightarrow> 'w firing list \<Rightarrow> 'w \<Rightarrow> 'w cpn \<Rightarrow> iter_end \<times> 'w \<times> 'w cpn" where
  "run_batch env firings w c =
     (let c1 = fold (emit_started env) firings c;
          (errs, w2, c2) =
            fire_all env (sort_key (\<lambda>f. en_order env w (tr_ID (fr_Transition f))) firings) w c1;
          (b, c3) = process_errors errs c2
      in case b of
           BatchPanic \<Rightarrow> (IterPanic, w2, c3)
         | BatchFail e \<Rightarrow> (IterReturn (Some e), w2, c3)
         | BatchOk \<Rightarrow>
             (let (w4, c4) = checkModeSwitch (en_now env) w2 (flush_history c3)
              in (IterNext, w4, c4)))"

definition run_iter :: "'w env \<Rightarrow> 'w \<Rightarrow> 'w cpn \<Rightarrow> iter_end \<times> 'w \<times> 'w cpn" where
  "run_iter env w c =
     (let (d, w1) = en_done env w
      in if d \<noteq> None
         then (IterReturn (Some (Sentinel ErrTimeout)), w1, setFailed (Sentinel ErrTimeout) c)
         else (let (w2, c2) = en_background env w1 c;
                   c3 = drainObservers env c2;
                   (firable, w4, c4) = collectFirable (en_now env) w2 c3
               in if firable = [] then finish_iter env w4 c4
                  else (let (firings, w5, c5) =
                          consume_batch (en_now env) (sort_key (transition_id c4) firable) w4 c4
                        in if firings = [] then finish_iter env w5 c5
                           else run_batch env firings w5 c5)))"

datatype run_end = RunReturn "gerr option" | RunPanic

fun run_loop :: "'w env \<Rightarrow> nat \<Rightarrow> 'w \<Rightarrow> 'w cpn \<Rightarrow> (run_end \<times> 'w \<times> 'w cpn) option" where
  "run_loop env 0 w c = None"
| "run_loop env (Suc n) w c = (case run_iter env w c of
     (IterReturn r, w', c') \<Rightarrow> Some (RunReturn r, w', c')
   | (IterPanic, w', c') \<Rightarrow> Some (RunPanic, w', c')
   | (IterNext, w', c') \<Rightarrow> run_loop env n w' c')"

definition Run :: "'w env \<Rightarrow> nat \<Rightarrow> 'w \<Rightarrow> 'w cpn \<Rightarrow> (run_end \<times> 'w \<times> 'w cpn) option" where
  "Run env fuel w c = (case Validate (c_Places c) (c_Transitions c) of
     Some e \<Rightarrow> Some (RunReturn (Some e), w, setFailed e c)
   | None \<Rightarrow> run_loop env fuel w (setState StateRunning c))"

lemma run_loop_mono: "run_loop env n w c = Some r \<Longrightarrow> n \<le> m \<Longrightarrow> run_loop env m w c = Some r"
proof (induction n arbitrary: w c m)
  case (Suc n)
  then obtain k where "m = Suc k" "n \<le> k" by (cases m) auto
  with Suc show ?case by (auto split: prod.splits iter_end.splits)
qed simp

lemma Run_mono: "Run env n w c = Some r \<Longrightarrow> n \<le> m \<Longrightarrow> Run env m w c = Some r"
  by (auto simp: Run_def split: option.splits intro: run_loop_mono)

text \<open>The induction a statement about the end of a run needs: an invariant of the iterations.\<close>

lemma run_loop_invariant:
  assumes "run_loop env n w c = Some (r, w', c')" and "P w c"
    and next_iter: "\<And>w c w1 c1. P w c \<Longrightarrow> run_iter env w c = (IterNext, w1, c1) \<Longrightarrow> P w1 c1"
    and return: "\<And>w c e w1 c1. P w c \<Longrightarrow> run_iter env w c = (IterReturn e, w1, c1) \<Longrightarrow> Q (RunReturn e) w1 c1"
    and panic: "\<And>w c w1 c1. P w c \<Longrightarrow> run_iter env w c = (IterPanic, w1, c1) \<Longrightarrow> Q RunPanic w1 c1"
  shows "Q r w' c'"
  using assms(1,2)
proof (induction n arbitrary: w c)
  case (Suc n)
  obtain i w1 c1 where i: "run_iter env w c = (i, w1, c1)" by (metis prod_cases3)
  with Suc return panic next_iter show ?case by (cases i) auto
qed simp

end
