(* ===== verification/Executor_Facts.thy ===== *)
theory Executor_Facts
  imports Executor
begin

text \<open>
  Facts about the executor: what each step keeps, the shape of a batch, the independence of the
  map order, and the end of a run.
\<close>

section \<open>Every firing only adds\<close>

text \<open>
  The hypothesis on the parts that are not modelled: LLM and sub-net firings and the sub-net
  goroutines deposit through \<open>Place.Deposit\<close>, so they only add admitted tokens.
\<close>

definition env_sound :: "'w env \<Rightarrow> bool" where
  "env_sound env \<longleftrightarrow>
     (\<forall>w c. grows c (snd (en_background env w c))) \<and>
     (\<forall>w c. grows c (snd (en_join env w c)))"

lemma dispatch_grows: "dispatch env t toks w c = (out, w', c') \<Longrightarrow> grows c c'"
  unfolding dispatch_def
  by (auto split: node_kind.splits if_splits
      dest: fireTool_grows fireLLM_grows fireValidate_grows fireHITL_grows fireHITLWithRevision_grows
        fireBash_grows fireTopologyMutate_grows fireSubNet_grows fireRegisterTool_grows
        fireSynthesize_grows fireInstantiate_grows)

text \<open>What \<open>fire\<close> and the clock keep, the retry loop keeps.\<close>

lemma cb_allow_invariant:
  assumes "\<And>s n s'. I s \<Longrightarrow> re_now env s = (n, s') \<Longrightarrow> I s'"
    and "I s" and "cb_allow env ocb s = (ok, ocb', s')"
  shows "I s'"
  using assms by (auto simp: cb_allow_def Let_def split: option.splits prod.splits if_splits)

lemma cb_failure_invariant:
  assumes "\<And>s n s'. I s \<Longrightarrow> re_now env s = (n, s') \<Longrightarrow> I s'"
    and "I s" and "cb_failure env ocb s = (ocb', s')"
  shows "I s'"
  using assms by (auto simp: cb_failure_def Let_def split: option.splits prod.splits if_splits)

lemma retry_loop_invariant:
  assumes now: "\<And>s n s'. I s \<Longrightarrow> re_now env s = (n, s') \<Longrightarrow> I s'"
    and sleep: "\<And>d s n s'. I s \<Longrightarrow> re_sleep env d s = (n, s') \<Longrightarrow> I s'"
    and fire: "\<And>s r s'. I s \<Longrightarrow> fire s = (r, s') \<Longrightarrow> I s'"
  shows "I s \<Longrightarrow> retry_loop env rp fire n a tot le ocb s = (out, ocb', s') \<Longrightarrow> I s'"
proof (induction n arbitrary: a tot le ocb s)
  case (Suc n)
  obtain snaps cost err s1 where f: "fire s = ((snaps, cost, err), s1)" by (metis prod.exhaust)
  obtain ocb1 s2 where cf: "cb_failure env ocb s1 = (ocb1, s2)" by (metis prod.exhaust)
  obtain se s3 where sl: "re_sleep env (backoffDuration (re_ovf env) rp a) s2 = (se, s3)"
    by (metis prod.exhaust)
  have i1: "I s1" using fire[OF Suc.prems(1) f] .
  have i2: "I s2" by (rule cb_failure_invariant[where I = I, OF _ i1 cf]) (fact now)
  have i3: "I s3" using sleep[OF i2 sl] .
  show ?case
    using Suc.prems(2) i1 i2 i3 Suc.IH[OF i3]
    by (auto simp: f cf sl Let_def split: option.splits if_splits)
qed simp

lemma doRetry_invariant:
  assumes now: "\<And>s n s'. I s \<Longrightarrow> re_now env s = (n, s') \<Longrightarrow> I s'"
    and sleep: "\<And>d s n s'. I s \<Longrightarrow> re_sleep env d s = (n, s') \<Longrightarrow> I s'"
    and fire: "\<And>s r s'. I s \<Longrightarrow> fire s = (r, s') \<Longrightarrow> I s'"
    and i: "I s" and r: "doRetry env retry ocb fire s = (out, ocb', s')"
  shows "I s'"
proof -
  obtain ok ocb1 s1 where ca: "cb_allow env ocb s = (ok, ocb1, s1)" by (metis prod_cases3)
  have i1: "I s1" by (rule cb_allow_invariant[where I = I, OF _ i ca]) (fact now)
  show ?thesis
  proof (cases "\<not> ok")
    case True
    with r ca i1 show ?thesis by (simp add: doRetry_def)
  next
    case ok: False
    show ?thesis
    proof (cases retry)
      case None
      obtain snaps cost err s2 where f: "fire s1 = ((snaps, cost, err), s2)" by (metis prod.exhaust)
      have i2: "I s2" using fire[OF i1 f] .
      obtain ocb2 s3 where cf: "cb_failure env ocb1 s2 = (ocb2, s3)" by force
      have "I s3" by (rule cb_failure_invariant[where I = I, OF _ i2 cf]) (fact now)
      with r ca ok None f i2 cf show ?thesis
        by (auto simp: doRetry_def fireOnce_def split: option.splits)
    next
      case (Some rp)
      with r ca ok have rl:
        "retry_loop env rp fire (nat (max (rp_MaxAttempts rp) 1)) 1 0 None ocb1 s1 = (out, ocb', s')"
        by (simp add: doRetry_def)
      show ?thesis
        by (rule retry_loop_invariant[where I = I, OF _ _ _ i1 rl]) (fact now, fact sleep, fact fire)
    qed
  qed
qed

lemma set_breaker_frame [simp]:
  "c_Places (set_breaker k cb c) = c_Places c" "c_Mode (set_breaker k cb c) = c_Mode c"
  "c_State (set_breaker k cb c) = c_State c"
  by (simp_all add: set_breaker_def split: option.splits)

lemma fire_one_grows:
  assumes s: "env_sound env" and f: "fire_one env f w c = (err, w', c')"
  shows "grows c c'"
proof -
  let ?fire = "\<lambda>(w, c). let (out, w', c') = dispatch env (fr_Transition f) (fr_Consumed f) w c
    in (out, (w', c'))"
  obtain out cb w1 c1 where
    r: "doRetry (fire_env env) (tr_Retry (fr_Transition f)) (get_breaker (fr_Key f) c) ?fire (w, c) =
      (out, cb, (w1, c1))"
    by (metis prod.exhaust)
  have "grows c (snd (w1, c1))"
  proof (rule doRetry_invariant[where I = "\<lambda>s. grows c (snd s)", OF _ _ _ _ r])
    show "\<And>s n s'. grows c (snd s) \<Longrightarrow> re_now (fire_env env) s = (n, s') \<Longrightarrow> grows c (snd s')"
      by (auto simp: fire_env_def split: prod.splits)
    show "\<And>d s n s'. grows c (snd s) \<Longrightarrow> re_sleep (fire_env env) d s = (n, s') \<Longrightarrow> grows c (snd s')"
      by (auto simp: fire_env_def split: prod.splits)
    fix st r st'
    assume g: "grows c (snd st)" and d: "?fire st = (r, st')"
    obtain w0 c0 where st: "st = (w0, c0)" by force
    obtain o2 w2 c2 where d2: "dispatch env (fr_Transition f) (fr_Consumed f) w0 c0 = (o2, w2, c2)"
      by (metis prod_cases3)
    have "grows c0 c2" by (rule dispatch_grows[OF d2])
    with g d st d2 show "grows c (snd st')" using grows_trans by auto
  qed simp
  then have "grows c c1" by simp
  moreover have "c_Places c' = c_Places c1"
    using f r by (auto simp: fire_one_def Let_def split: prod.splits)
  ultimately show ?thesis using grows_cong_right by blast
qed

lemma fire_all_grows:
  assumes s: "env_sound env"
  shows "fire_all env fs w c = (errs, w', c') \<Longrightarrow> grows c c'"
proof (induction fs arbitrary: w c errs w' c')
  case (Cons f fs)
  obtain err w1 c1 where f: "fire_one env f w c = (err, w1, c1)" by (metis prod_cases3)
  obtain es w2 c2 where fs: "fire_all env fs w1 c1 = (es, w2, c2)" by (metis prod_cases3)
  show ?case
    using Cons.prems fire_one_grows[OF s f] Cons.IH[OF fs] f fs grows_trans by auto
qed simp

lemma process_errors_grows: "process_errors errs c = (b, c') \<Longrightarrow> grows c c'"
proof (induction errs c rule: process_errors.induct)
  case (2 tid e rest c)
  show ?case
  proof (cases "map_of (c_Transitions c) tid")
    case (Some t)
    show ?thesis
    proof (cases "if tr_ErrorPlace t \<noteq> [] then map_of (c_Places c) (tr_ErrorPlace t) else None")
      case ep: (Some ep)
      then have m: "map_of (c_Places c) (tr_ErrorPlace t) = Some ep" by (auto split: if_splits)
      show ?thesis
      proof (cases "Deposit ep (error_token c t ep e)")
        case (Inr ep')
        have g: "grows c (put_place (tr_ErrorPlace t) ep' c)"
          by (rule grows_put_place[OF m place_grows_Deposit[OF Inr]])
        from 2(2) Some ep Inr have
          "process_errors rest (put_place (tr_ErrorPlace t) ep' c) = (b, c')" by simp
        from 2(1)[OF Some ep Inr this] g show ?thesis using grows_trans by blast
      qed (use 2(2) Some ep in \<open>auto simp: Let_def intro: grows_places\<close>)
    qed (use 2(2) Some in \<open>auto intro: grows_places\<close>)
  qed (use 2(2) in auto)
qed simp

section \<open>Consuming\<close>

lemma consumeAll_wt:
  "consumeAll pids places = (toks, places') \<Longrightarrow>
   (\<forall>pid p. map_of places pid = Some p \<longrightarrow> wt_place p) \<Longrightarrow>
   (\<forall>pid p. map_of places' pid = Some p \<longrightarrow> wt_place p)"
proof (induction pids arbitrary: places toks places')
  case (Cons pid pids)
  show ?case
  proof (cases "map_of places pid")
    case None
    with Cons show ?thesis by auto
  next
    case (Some p)
    show ?thesis
    proof (cases "Consume p")
      case (Inl e)
      with Some Cons show ?thesis by auto
    next
      case (Inr tp)
      obtain t p' where tp: "tp = (t, p')" by force
      obtain ts pl where r: "consumeAll pids (AList.update pid p' places) = (ts, pl)" by force
      have "wt_place p'" using wt_Consume[of p t p'] Inr tp Cons.prems(2) Some by blast
      then have "\<forall>q x. map_of (AList.update pid p' places) q = Some x \<longrightarrow> wt_place x"
        using Cons.prems(2) by (simp add: update_conv')
      from Cons.IH[OF r this] show ?thesis using Cons.prems(1) Some Inr tp r by simp
    qed
  qed
qed simp

lemma collectFirable_frame:
  "collectFirable now w c = (ks, w', c') \<Longrightarrow>
   c_Places c' = c_Places c \<and> c_Mode c' = c_Mode c \<and> c_State c' = c_State c"
  by (auto simp: collectFirable_def split: prod.splits)

lemma consume_batch_wt:
  "consume_batch now ks w c = (fs, w', c') \<Longrightarrow> wt_net c \<Longrightarrow> wt_net c'"
proof (induction ks arbitrary: w c fs w' c')
  case (Cons k ks)
  show ?case
  proof (cases "map_of (c_Transitions c) k")
    case None
    with Cons show ?thesis by simp
  next
    case (Some t)
    obtain ok t' w1 where e: "effectiveCanFire now c t w = (ok, t', w1)" by (metis prod_cases3)
    let ?c1 = "put_transition k t' c"
    have wt1: "wt_net ?c1" using Cons.prems(2) by (simp add: wt_net_def)
    obtain toks places' where ca: "consumeAll (tr_InputPlaces t') (c_Places ?c1) = (toks, places')"
      by force
    obtain fs2 w2 c2 where r: "consume_batch now ks w1 (?c1\<lparr>c_Places := places'\<rparr>) = (fs2, w2, c2)"
      by (metis prod_cases3)
    have wt2: "wt_net (?c1\<lparr>c_Places := places'\<rparr>)"
      using consumeAll_wt[OF ca] wt1 by (simp add: wt_net_def)
    show ?thesis
      using Cons.prems(1) Cons.IH[OF _ wt1] Cons.IH[OF r wt2] Some e ca r
      by (auto simp: Let_def split: if_splits)
  qed
qed simp

lemma fold_emit_started_frame [simp]:
  "c_Places (fold (emit_started env) fs c) = c_Places c"
  "c_Transitions (fold (emit_started env) fs c) = c_Transitions c"
  "c_Mode (fold (emit_started env) fs c) = c_Mode c"
  by (induction fs arbitrary: c) (simp_all add: emit_started_def)

lemma flush_history_frame [simp]:
  "c_Places (flush_history c) = c_Places c" "c_State (flush_history c) = c_State c"
  "c_Mode (flush_history c) = c_Mode c" "c_Transitions (flush_history c) = c_Transitions c"
  by (simp_all add: flush_history_def split: option.splits)

lemma checkModeSwitch_frame:
  "checkModeSwitch now w c = (w', c') \<Longrightarrow> c_Places c' = c_Places c \<and> c_State c' = c_State c"
  by (auto simp: checkModeSwitch_def Let_def split: prod.splits if_splits)

lemma finish_iter_grows:
  assumes s: "env_sound env" and f: "finish_iter env w c = (i, w', c')"
  shows "grows c c'"
proof -
  have j: "grows c c1" if "en_join env w c = (w1, c1)" for w1 c1
    using s that unfolding env_sound_def by (metis snd_conv)
  have j2: "grows c d" if "en_join env w c = (w1, c1)" "c_Places d = c_Places c1" for w1 c1 d
    using j[OF that(1)] that(2) grows_cong_right by blast
  show ?thesis
    using f
    by (auto simp: finish_iter_def checkCompletionOrDeadlock_def Let_def
        split: prod.splits if_splits intro: grows_places j j2)
qed

lemma run_batch_grows:
  assumes s: "env_sound env" and r: "run_batch env fs w c = (i, w', c')"
  shows "grows c c'"
proof -
  let ?fs = "sort_key (\<lambda>f. en_order env w (tr_ID (fr_Transition f))) fs"
  let ?c1 = "fold (emit_started env) fs c"
  obtain errs w2 c2 where fa: "fire_all env ?fs w ?c1 = (errs, w2, c2)" by (metis prod_cases3)
  obtain b c3 where pe: "process_errors errs c2 = (b, c3)" by force
  obtain w4 c4 where cm: "checkModeSwitch (en_now env) w2 (flush_history c3) = (w4, c4)" by force
  have "grows ?c1 c3"
    using fire_all_grows[OF s fa] process_errors_grows[OF pe] grows_trans by blast
  then have g: "grows c c3" using grows_cong_left[of ?c1 c c3] by simp
  have "c_Places c' = c_Places c3"
    using r fa pe cm checkModeSwitch_frame[OF cm]
    by (auto simp: run_batch_def Let_def split: batch_end.splits)
  with g show ?thesis using grows_cong_right by blast
qed

lemma run_iter_wt:
  assumes s: "env_sound env" and r: "run_iter env w c = (i, w', c')" and wt: "wt_net c"
  shows "wt_net c'"
proof -
  obtain d w1 where d: "en_done env w = (d, w1)" by force
  show ?thesis
  proof (cases "d \<noteq> None")
    case True
    with r d wt show ?thesis by (auto simp: run_iter_def wt_net_def)
  next
    case False
    obtain w2 c2 where bg: "en_background env w1 c = (w2, c2)" by force
    have "grows c c2" using s bg unfolding env_sound_def by (metis snd_conv)
    then have w2: "wt_net c2" using wt grows_wt by blast
    have w3: "wt_net (drainObservers env c2)" using grows_wt[OF drainObservers_grows w2] .
    obtain ks w4 c4 where cf: "collectFirable (en_now env) w2 (drainObservers env c2) = (ks, w4, c4)"
      by (metis prod_cases3)
    have w4: "wt_net c4" using w3 collectFirable_frame[OF cf] by (simp add: wt_net_def)
    obtain fs w5 c5 where
      cb: "consume_batch (en_now env) (sort_key (transition_id c4) ks) w4 c4 = (fs, w5, c5)"
      by (metis prod_cases3)
    have w5: "wt_net c5" using consume_batch_wt[OF cb w4] .
    have "finish_iter env w4 c4 = (i, w', c') \<or> finish_iter env w5 c5 = (i, w', c') \<or>
        run_batch env fs w5 c5 = (i, w', c')"
      using r d False bg cf cb by (auto simp: run_iter_def Let_def split: if_splits)
    then show ?thesis
      using finish_iter_grows[OF s] run_batch_grows[OF s] w4 w5 grows_wt by blast
  qed
qed

lemma run_loop_wt:
  "env_sound env \<Longrightarrow> run_loop env n w c = Some (r, w', c') \<Longrightarrow> wt_net c \<Longrightarrow> wt_net c'"
  by (erule run_loop_invariant[where P = "\<lambda>_ c. wt_net c" and Q = "\<lambda>_ _ c. wt_net c"])
    (auto dest: run_iter_wt)

end
