(* ===== verification/Batch.thy ===== *)
theory Batch
  imports Executor_Facts
begin

text \<open>
  What one iteration of the executor does with a marking: which transitions it selects, what it
  consumes, and that the order of the Go maps does not matter. The statements are about nets
  without circuit breakers, which is every net the repository builds: nothing outside the tests
  calls \<open>SetCircuitBreaker\<close>.
\<close>

section \<open>Enabled transitions\<close>

definition no_breakers :: "'w cpn \<Rightarrow> bool" where
  "no_breakers c \<longleftrightarrow> (\<forall>k t. (k, t) \<in> set (c_Transitions c) \<longrightarrow> tr_cbState t = None)"

definition can_fire :: "'w cpn \<Rightarrow> 'w transition \<Rightarrow> bool" where
  "can_fire c t \<longleftrightarrow> \<not> tr_Deprecated t \<and> inputs_ready (c_Places c) (tr_InputPlaces t) (effectiveGuard c t)"

definition enabled :: "'w cpn \<Rightarrow> 'w transition \<Rightarrow> bool" where
  "enabled c t \<longleftrightarrow> tr_Kind t \<noteq> NodeKindObserver \<and> can_fire c t"

lemma SetCircuitBreaker_None [simp]: "tr_cbState t = None \<Longrightarrow> SetCircuitBreaker None t = t"
  by (simp add: SetCircuitBreaker_def)

lemma effectiveCanFire_plain:
  "tr_cbState t = None \<Longrightarrow> effectiveCanFire now c t w = (can_fire c t, t, w)"
  by (simp add: effectiveCanFire_def canFireWith_def can_fire_def)

lemma collect_loop_plain:
  "(\<forall>k t. (k, t) \<in> set ts \<longrightarrow> tr_cbState t = None) \<Longrightarrow>
   collect_loop now c ts w = (map fst (filter (\<lambda>(k, t). enabled c t) ts), ts, w)"
proof (induction ts)
  case (Cons a ts)
  obtain k t where a: "a = (k, t)" by force
  have "tr_cbState t = None" by (rule Cons.prems[rule_format, of k]) (simp add: a)
  note e = effectiveCanFire_plain[OF this, of now c w]
  have "\<forall>k t. (k, t) \<in> set ts \<longrightarrow> tr_cbState t = None"
    using Cons.prems by (meson list.set_intros(2))
  note IH = Cons.IH[OF this]
  show ?case by (simp add: a e IH enabled_def)
qed simp

definition firable_keys :: "'w cpn \<Rightarrow> string list" where
  "firable_keys c = map fst (filter (\<lambda>(k, t). enabled c t) (c_Transitions c))"

lemma collectFirable_plain:
  "no_breakers c \<Longrightarrow> collectFirable now w c = (firable_keys c, w, c)"
  by (simp add: collectFirable_def collect_loop_plain no_breakers_def firable_keys_def)

lemma firable_keys_iff:
  assumes "distinct (map fst (c_Transitions c))"
  shows "k \<in> set (firable_keys c) \<longleftrightarrow> (\<exists>t. map_of (c_Transitions c) k = Some t \<and> enabled c t)"
proof -
  have "k \<in> set (firable_keys c) \<longleftrightarrow> (\<exists>t. (k, t) \<in> set (c_Transitions c) \<and> enabled c t)"
    by (auto simp: firable_keys_def image_iff)
  then show ?thesis using assms by (simp only: map_of_in_set)
qed

section \<open>Consuming from distinct inputs\<close>

definition distinct_inputs :: "'w cpn \<Rightarrow> bool" where
  "distinct_inputs c \<longleftrightarrow> (\<forall>k t. map_of (c_Transitions c) k = Some t \<longrightarrow> distinct (tr_InputPlaces t))"

definition head_of :: "place gomap \<Rightarrow> string \<Rightarrow> token" where
  "head_of places pid = (case map_of places pid of None \<Rightarrow> undefined | Some p \<Rightarrow> hd (pl_Tokens p))"

lemma peek_inputs_nonempty:
  "peek_inputs places pids = Some ts \<Longrightarrow> pid \<in> set pids \<Longrightarrow>
   \<exists>p. map_of places pid = Some p \<and> pl_Tokens p \<noteq> []"
  by (induction pids arbitrary: ts) (auto simp: Peek_def split: option.splits if_splits)

text \<open>
  With distinct input places that all hold a token, one token is taken from each, the oldest.
\<close>

lemma consumeAll_heads:
  assumes "distinct pids"
    and "\<And>pid. pid \<in> set pids \<Longrightarrow> \<exists>p. map_of places pid = Some p \<and> pl_Tokens p \<noteq> []"
    and "consumeAll pids places = (toks, places')"
  shows "toks = map (head_of places) pids \<and>
    (\<forall>pid. map_of places' pid =
       (if pid \<in> set pids then map_option (\<lambda>p. p\<lparr>pl_Tokens := tl (pl_Tokens p)\<rparr>) (map_of places pid)
        else map_of places pid))"
  using assms
proof (induction pids arbitrary: places toks places')
  case (Cons pid pids)
  obtain p where p: "map_of places pid = Some p" "pl_Tokens p \<noteq> []" using Cons.prems(2)[of pid] by auto
  let ?p' = "p\<lparr>pl_Tokens := tl (pl_Tokens p)\<rparr>"
  have con: "Consume p = Inr (hd (pl_Tokens p), ?p')"
    using p(2) by (cases "pl_Tokens p") (auto simp: Consume_def)
  obtain ts pl where r: "consumeAll pids (AList.update pid ?p' places) = (ts, pl)" by force
  have ne: "\<exists>p. map_of (AList.update pid ?p' places) q = Some p \<and> pl_Tokens p \<noteq> []"
    if "q \<in> set pids" for q
    using Cons.prems(1) Cons.prems(2)[of q] that by (auto simp: update_conv')
  have "toks = hd (pl_Tokens p) # ts" "places' = pl" using Cons.prems(3) p(1) con r by auto
  moreover have "head_of (AList.update pid ?p' places) q = head_of places q" if "q \<in> set pids" for q
    using that Cons.prems(1) by (auto simp: head_of_def update_conv')
  ultimately show ?case
    using Cons.IH[OF _ ne r] Cons.prems(1) p(1) by (auto simp: head_of_def update_conv')
qed simp

lemma can_fire_nonempty:
  "can_fire c t \<Longrightarrow> pid \<in> set (tr_InputPlaces t) \<Longrightarrow>
   \<exists>p. map_of (c_Places c) pid = Some p \<and> pl_Tokens p \<noteq> []"
  by (auto simp: can_fire_def inputs_ready_def split: option.splits if_splits
      dest: peek_inputs_nonempty)

lemma put_transition_same:
  "map_of (c_Transitions c) k = Some t \<Longrightarrow> distinct (map fst (c_Transitions c)) \<Longrightarrow>
   put_transition k t c = c"
proof -
  assume a: "map_of (c_Transitions c) k = Some t" "distinct (map fst (c_Transitions c))"
  have "AList.update k t m = m" if "map_of m k = Some t" for m :: "'a transition gomap"
    using that by (induction m) (auto split: if_splits)
  then show ?thesis using a by (simp add: put_transition_def)
qed

text \<open>The batch as a function of the marking, when no breaker is involved.\<close>

fun plan_batch :: "'w cpn \<Rightarrow> string list \<Rightarrow> 'w firing list \<times> 'w cpn" where
  "plan_batch c [] = ([], c)"
| "plan_batch c (k # ks) = (case map_of (c_Transitions c) k of
     None \<Rightarrow> plan_batch c ks
   | Some t \<Rightarrow>
       (if \<not> can_fire c t then plan_batch c ks
        else (let (toks, places') = consumeAll (tr_InputPlaces t) (c_Places c);
                  (fs, c') = plan_batch (c\<lparr>c_Places := places'\<rparr>) ks
              in (\<lparr>fr_Key = k, fr_Transition = t, fr_Consumed = toks\<rparr> # fs, c'))))"

lemma consume_batch_plan:
  assumes "no_breakers c" and "distinct (map fst (c_Transitions c))"
  shows "consume_batch now ks w c = (fst (plan_batch c ks), w, snd (plan_batch c ks))"
  using assms
proof (induction ks arbitrary: c)
  case (Cons k ks)
  show ?case
  proof (cases "map_of (c_Transitions c) k")
    case None
    with Cons show ?thesis by simp
  next
    case (Some t)
    then have nb: "tr_cbState t = None" using Cons.prems map_of_SomeD by (fastforce simp: no_breakers_def)
    obtain toks pl where ca: "consumeAll (tr_InputPlaces t) (c_Places c) = (toks, pl)" by force
    have "no_breakers (c\<lparr>c_Places := pl\<rparr>)" "distinct (map fst (c_Transitions (c\<lparr>c_Places := pl\<rparr>)))"
      using Cons.prems by (simp_all add: no_breakers_def)
    note IH2 = Cons.IH[OF this]
    show ?thesis
      using Some ca Cons.IH[OF Cons.prems] IH2 put_transition_same[OF Some Cons.prems(2)]
      by (simp add: effectiveCanFire_plain[OF nb] Let_def split: prod.splits)
  qed
qed simp

text \<open>
  Conservation: what the batch took from a place, in order, followed by what is left, is what the
  place held.
\<close>

definition taken :: "string \<Rightarrow> 'w firing list \<Rightarrow> token list" where
  "taken pid fs =
     concat (map (\<lambda>f. received pid (tr_InputPlaces (fr_Transition f)) (fr_Consumed f)) fs)"

lemma received_heads:
  "distinct pids \<Longrightarrow> received pid pids (map g pids) = (if pid \<in> set pids then [g pid] else [])"
  by (induction pids) (auto simp: received_def)

lemma plan_batch_conserves:
  assumes "distinct_inputs c" and "plan_batch c ks = (fs, c')" and "map_of (c_Places c) pid = Some p"
  shows "\<exists>p'. map_of (c_Places c') pid = Some p' \<and> p' = p\<lparr>pl_Tokens := pl_Tokens p'\<rparr> \<and>
    pl_Tokens p = taken pid fs @ pl_Tokens p'"
  using assms
proof (induction ks arbitrary: c fs p c')
  case Nil
  then show ?case by (simp add: taken_def)
next
  case (Cons k ks)
  show ?case
  proof (cases "map_of (c_Transitions c) k")
    case None
    with Cons show ?thesis by simp
  next
    case (Some t)
    show ?thesis
    proof (cases "can_fire c t")
      case False
      with Some Cons show ?thesis by simp
    next
      case True
      have d: "distinct (tr_InputPlaces t)" using Cons.prems(1) Some by (simp add: distinct_inputs_def)
      obtain toks pl where ca: "consumeAll (tr_InputPlaces t) (c_Places c) = (toks, pl)" by force
      obtain fs2 c2 where r: "plan_batch (c\<lparr>c_Places := pl\<rparr>) ks = (fs2, c2)" by force
      note h = consumeAll_heads[OF d can_fire_nonempty[OF True] ca]
      let ?f = "\<lparr>fr_Key = k, fr_Transition = t, fr_Consumed = toks\<rparr>"
      have fs: "fs = ?f # fs2" "c' = c2" using Cons.prems(2) Some True ca r by auto
      let ?q = "if pid \<in> set (tr_InputPlaces t) then p\<lparr>pl_Tokens := tl (pl_Tokens p)\<rparr> else p"
      have "map_of pl pid = Some ?q" using h Cons.prems(3) by simp
      moreover have "distinct_inputs (c\<lparr>c_Places := pl\<rparr>)" using Cons.prems(1) by (simp add: distinct_inputs_def)
      ultimately obtain p' where p': "map_of (c_Places c2) pid = Some p'"
        "p' = ?q\<lparr>pl_Tokens := pl_Tokens p'\<rparr>" "pl_Tokens ?q = taken pid fs2 @ pl_Tokens p'"
        using Cons.IH[OF _ r, of ?q] by auto
      have tk: "taken pid fs = (if pid \<in> set (tr_InputPlaces t) then [head_of (c_Places c) pid] else []) @ taken pid fs2"
        using h received_heads[OF d, of pid "head_of (c_Places c)"] by (simp add: fs taken_def)
      have ne: "pl_Tokens p \<noteq> []" if "pid \<in> set (tr_InputPlaces t)"
        using can_fire_nonempty[OF True that] Cons.prems(3) by simp
      have "pl_Tokens p = taken pid fs @ pl_Tokens p'"
        using tk p'(3) ne Cons.prems(3)
        by (cases "pid \<in> set (tr_InputPlaces t)"; cases "pl_Tokens p") (simp_all add: head_of_def)
      moreover have "p' = p\<lparr>pl_Tokens := pl_Tokens p'\<rparr>"
        using p'(2) by (cases "pid \<in> set (tr_InputPlaces t)") auto
      ultimately show ?thesis using p'(1) fs(2) by blast
    qed
  qed
qed

text \<open>
  Every firing of the batch was enabled in a marking that the batch itself reached by consuming.
\<close>

lemma consumeAll_spaces:
  "consumeAll pids places = (toks, places') \<Longrightarrow>
   map (\<lambda>(k, p). (k, pl_Space p)) places' = map (\<lambda>(k, p). (k, pl_Space p)) places"
proof (induction pids arbitrary: places toks places')
  case (Cons pid pids)
  have upd: "map (\<lambda>(k, p). (k, pl_Space p)) (AList.update pid p' m) = map (\<lambda>(k, p). (k, pl_Space p)) m"
    if "map_of m pid = Some p" "pl_Space p' = pl_Space p" for m :: "place gomap" and p p'
    using that by (induction m) (auto split: if_splits)
  show ?case
  proof (cases "map_of places pid")
    case (Some p)
    show ?thesis
    proof (cases "Consume p")
      case (Inr tp)
      obtain t p' where tp: "tp = (t, p')" by force
      obtain ts pl where r: "consumeAll pids (AList.update pid p' places) = (ts, pl)" by force
      have "pl_Space p' = pl_Space p" using Inr tp by (auto simp: Consume_def split: list.splits)
      with Cons.IH[OF r] Cons.prems Some Inr tp r upd[OF Some] show ?thesis by simp
    qed (use Cons Some in auto)
  qed (use Cons in auto)
qed simp

lemma plan_batch_enabled:
  assumes "plan_batch c ks = (fs, c')" and "f \<in> set fs"
  shows "\<exists>places. map_of (c_Transitions c) (fr_Key f) = Some (fr_Transition f) \<and> fr_Key f \<in> set ks \<and>
    can_fire (c\<lparr>c_Places := places\<rparr>) (fr_Transition f) \<and>
    fst (consumeAll (tr_InputPlaces (fr_Transition f)) places) = fr_Consumed f \<and>
    map (\<lambda>(k, p). (k, pl_Space p)) places = map (\<lambda>(k, p). (k, pl_Space p)) (c_Places c)"
  using assms
proof (induction ks arbitrary: c fs c')
  case (Cons k ks)
  show ?case
  proof (cases "map_of (c_Transitions c) k")
    case None
    with Cons show ?thesis by simp
  next
    case (Some t)
    show ?thesis
    proof (cases "can_fire c t")
      case False
      with Some Cons show ?thesis by simp
    next
      case True
      obtain toks pl where ca: "consumeAll (tr_InputPlaces t) (c_Places c) = (toks, pl)" by force
      obtain fs2 c2 where r: "plan_batch (c\<lparr>c_Places := pl\<rparr>) ks = (fs2, c2)" by force
      let ?f = "\<lparr>fr_Key = k, fr_Transition = t, fr_Consumed = toks\<rparr>"
      have fs: "fs = ?f # fs2" using Cons.prems(1) Some True ca r by auto
      show ?thesis
      proof (cases "f = ?f")
        case f: True
        show ?thesis using True Some ca by (intro exI[of _ "c_Places c"]) (simp add: f)
      next
        case False
        then have "f \<in> set fs2" using Cons.prems(2) fs by simp
        from Cons.IH[OF r this] obtain places where
          "map_of (c_Transitions c) (fr_Key f) = Some (fr_Transition f)" "fr_Key f \<in> set ks"
          "can_fire (c\<lparr>c_Places := places\<rparr>) (fr_Transition f)"
          "fst (consumeAll (tr_InputPlaces (fr_Transition f)) places) = fr_Consumed f"
          "map (\<lambda>(k, p). (k, pl_Space p)) places = map (\<lambda>(k, p). (k, pl_Space p)) pl"
          by auto
        then show ?thesis using consumeAll_spaces[OF ca] by auto
      qed
    qed
  qed
qed simp

text \<open>The first key in ID order always fires, so a non-empty selection gives a non-empty batch.\<close>

lemma plan_batch_first:
  "map_of (c_Transitions c) k = Some t \<Longrightarrow> can_fire c t \<Longrightarrow>
   \<exists>toks fs c'. plan_batch c (k # ks) =
     (\<lparr>fr_Key = k, fr_Transition = t, fr_Consumed = toks\<rparr> # fs, c')"
  by (simp split: prod.splits)

section \<open>The order of the maps\<close>

text \<open>
  Two nets that differ only in the order in which their transition maps are iterated select the
  same keys in the same order, and consume the same tokens.
\<close>

lemma can_fire_transitions [simp]: "can_fire (c\<lparr>c_Transitions := ts\<rparr>) t = can_fire c t"
  by (simp add: can_fire_def effectiveGuard_def isComputationTransition_def)

lemma enabled_transitions [simp]: "enabled (c\<lparr>c_Transitions := ts\<rparr>) t = enabled c t"
  by (simp add: enabled_def)

lemma plan_batch_map_order:
  assumes "map_of ts = map_of (c_Transitions c)"
  shows "plan_batch (c\<lparr>c_Transitions := ts\<rparr>) ks =
    (fst (plan_batch c ks), (snd (plan_batch c ks))\<lparr>c_Transitions := ts\<rparr>)"
  using assms
proof (induction ks arbitrary: c)
  case (Cons k ks)
  show ?case
  proof (cases "map_of (c_Transitions c) k")
    case None
    with Cons show ?thesis by simp
  next
    case (Some t)
    obtain toks pl where ca: "consumeAll (tr_InputPlaces t) (c_Places c) = (toks, pl)" by force
    have r: "c\<lparr>c_Transitions := ts, c_Places := pl\<rparr> = c\<lparr>c_Places := pl, c_Transitions := ts\<rparr>" by simp
    have "map_of ts = map_of (c_Transitions (c\<lparr>c_Places := pl\<rparr>))" using Cons.prems by simp
    note IH2 = Cons.IH[OF this]
    show ?thesis
      using Some ca Cons.prems Cons.IH[OF Cons.prems] IH2
      by (simp add: r split: prod.splits)
  qed
qed simp

lemma firable_order:
  assumes m: "mset ts = mset (c_Transitions c)" and k: "distinct (map fst (c_Transitions c))"
    and i: "distinct (map (tr_ID \<circ> snd) (c_Transitions c))"
  shows "sort_key (transition_id (c\<lparr>c_Transitions := ts\<rparr>)) (firable_keys (c\<lparr>c_Transitions := ts\<rparr>)) =
    sort_key (transition_id c) (firable_keys c)"
proof -
  have mo: "map_of ts = map_of (c_Transitions c)"
    using m k by (metis mset_eq_imp_distinct_iff mset_map map_of_inject_set set_mset_mset)
  have id: "transition_id (c\<lparr>c_Transitions := ts\<rparr>) = transition_id c"
    by (rule ext) (simp add: transition_id_def mo)
  let ?E = "filter (\<lambda>(k, t). enabled c t) (c_Transitions c)"
  have ms: "mset (firable_keys (c\<lparr>c_Transitions := ts\<rparr>)) = mset (firable_keys c)"
  proof -
    have e: "(\<lambda>(k :: string, t). enabled (c\<lparr>c_Transitions := ts\<rparr>) t) = (\<lambda>(k, t). enabled c t)"
      by (rule ext) (simp split: prod.split)
    show ?thesis unfolding firable_keys_def e by (simp add: m)
  qed
  have "map (transition_id c) (firable_keys c) = map (tr_ID \<circ> snd) ?E"
  proof -
    have "transition_id c (fst x) = (tr_ID \<circ> snd) x" if "x \<in> set ?E" for x
      using that k by (auto simp: transition_id_def)
    then show ?thesis by (simp add: firable_keys_def)
  qed
  moreover have "distinct (map (tr_ID \<circ> snd) ?E)" using i by (simp add: distinct_map_filter)
  ultimately have "distinct (map (transition_id c) (firable_keys c))" by simp
  then have "distinct (map (transition_id c) (firable_keys (c\<lparr>c_Transitions := ts\<rparr>)))"
    using ms by (metis mset_map mset_eq_imp_distinct_iff)
  then show ?thesis unfolding id by (rule sort_key_perm[OF ms])
qed

section \<open>One iteration\<close>

text \<open>
  One iteration on a net without breakers, from the marking after the observers were drained:
  if something is enabled the batch is not empty and starts with the least ID; otherwise the net is
  complete, waits for its children, or is deadlocked.
\<close>

definition drained :: "'w env \<Rightarrow> 'w \<Rightarrow> 'w cpn \<Rightarrow> 'w \<times> 'w cpn" where
  "drained env w c =
     (let (w2, c2) = en_background env (snd (en_done env w)) c in (w2, drainObservers env c2))"

lemma run_iter_plan:
  assumes "fst (en_done env w) = None" and "drained env w c = (w3, c3)" and "no_breakers c3"
    and "distinct (map fst (c_Transitions c3))"
  shows "run_iter env w c =
    (let ks = sort_key (transition_id c3) (firable_keys c3); (fs, c5) = plan_batch c3 ks
     in if firable_keys c3 = [] then finish_iter env w3 c3
        else if fs = [] then finish_iter env w3 c5 else run_batch env fs w3 c5)"
proof -
  obtain w1 where d: "en_done env w = (None, w1)" using assms(1) by (cases "en_done env w") auto
  obtain w2 c2 where bg: "en_background env w1 c = (w2, c2)" by force
  have e: "w3 = w2" "c3 = drainObservers env c2" using assms(2) d bg by (auto simp: drained_def)
  show ?thesis
    using assms(3,4) d bg
    by (simp add: run_iter_def e collectFirable_plain consume_batch_plan Let_def split: prod.splits)
qed

lemma firable_first:
  assumes "distinct (map fst (c_Transitions c))" and "firable_keys c \<noteq> []"
  obtains k ks t where "sort_key (transition_id c) (firable_keys c) = k # ks"
    "map_of (c_Transitions c) k = Some t" "enabled c t"
proof -
  obtain k ks where s: "sort_key (transition_id c) (firable_keys c) = k # ks"
    using assms(2) by (cases "sort_key (transition_id c) (firable_keys c)")
      (auto dest: arg_cong[where f = length])
  have "k \<in> set (sort_key (transition_id c) (firable_keys c))" unfolding s by simp
  then have "k \<in> set (firable_keys c)" by (simp only: set_sort)
  then show thesis using that s firable_keys_iff[OF assms(1)] by blast
qed

lemma run_iter_progress:
  assumes "fst (en_done env w) = None" and "drained env w c = (w3, c3)" and "no_breakers c3"
    and "distinct (map fst (c_Transitions c3))" and "firable_keys c3 \<noteq> []"
  shows "\<exists>f fs c5. plan_batch c3 (sort_key (transition_id c3) (firable_keys c3)) = (f # fs, c5) \<and>
    run_iter env w c = run_batch env (f # fs) w3 c5 \<and> enabled c3 (fr_Transition f) \<and>
    map_of (c_Transitions c3) (fr_Key f) = Some (fr_Transition f)"
proof -
  obtain k ks t where s: "sort_key (transition_id c3) (firable_keys c3) = k # ks"
    and t: "map_of (c_Transitions c3) k = Some t" "enabled c3 t"
    using firable_first[OF assms(4,5)] by blast
  have "can_fire c3 t" using t(2) by (simp add: enabled_def)
  from plan_batch_first[OF t(1) this, of ks] obtain toks fs c5 where
    p: "plan_batch c3 (k # ks) = (\<lparr>fr_Key = k, fr_Transition = t, fr_Consumed = toks\<rparr> # fs, c5)"
    by blast
  have "run_iter env w c = run_batch env (\<lparr>fr_Key = k, fr_Transition = t, fr_Consumed = toks\<rparr> # fs) w3 c5"
    unfolding run_iter_plan[OF assms(1-4)] Let_def s p using assms(5) by simp
  with s p t show ?thesis by simp
qed

text \<open>The selection of a batch in \<open>Run\<close>: collect, sort by ID, re-check and consume.\<close>

definition select_batch ::
  "('w \<Rightarrow> int \<times> 'w) \<Rightarrow> 'w \<Rightarrow> 'w cpn \<Rightarrow> 'w firing list \<times> 'w \<times> 'w cpn" where
  "select_batch now w c =
     (let (ks, w1, c1) = collectFirable now w c
      in consume_batch now (sort_key (transition_id c1) ks) w1 c1)"

lemma select_batch_plan:
  assumes "no_breakers c" and "distinct (map fst (c_Transitions c))"
  shows "select_batch now w c =
    (fst (plan_batch c (sort_key (transition_id c) (firable_keys c))), w,
     snd (plan_batch c (sort_key (transition_id c) (firable_keys c))))"
  using assms by (simp add: select_batch_def collectFirable_plain consume_batch_plan)

lemma isComputation_spaces:
  assumes "map (\<lambda>(k, p). (k, pl_Space p)) places = map (\<lambda>(k, p). (k, pl_Space p)) (c_Places c)"
  shows "isComputationTransition (c\<lparr>c_Places := places\<rparr>) t = isComputationTransition c t"
proof -
  have m: "map_of (map (\<lambda>(k, p). (k, pl_Space p)) ps) pid = map_option pl_Space (map_of ps pid)"
    for ps :: "place gomap" and pid
    by (induction ps) auto
  have "map_option pl_Space (map_of places pid) = map_option pl_Space (map_of (c_Places c) pid)" for pid
    using m[of places] m[of "c_Places c"] assms by metis
  then have "(case map_of places pid of None \<Rightarrow> False | Some p \<Rightarrow> pl_Space p = SpaceComputation) =
      (case map_of (c_Places c) pid of None \<Rightarrow> False | Some p \<Rightarrow> pl_Space p = SpaceComputation)" for pid
    by (metis (no_types, lifting) option.case_eq_if option.map_disc_iff option.map_sel)
  then show ?thesis by (simp add: isComputationTransition_def)
qed

lemma guard_centaurian:
  assumes "can_fire c t" and "c_Mode c = ModeCentaurian" and "tr_Kind t \<noteq> NodeKindHITL"
    and "isComputationTransition c t"
  shows "\<exists>ts. peek_inputs (c_Places c) (tr_InputPlaces t) = Some ts \<and> centaurianGuard ts"
  using assms
  by (auto simp: can_fire_def inputs_ready_def effectiveGuard_def split: option.splits if_splits)

end
