(* ===== verification/Failures.thy ===== *)
theory Failures
  imports Executor_Facts
begin

text \<open>
  A net that is in \<open>StateFailed\<close> carries the error it failed with. \<open>recorded\<close> is that invariant;
  the locale \<open>recording_firer\<close> extends the contract of a firing by it, and every fire function of the
  model is an interpretation. The executor keeps it, so \<open>Run\<close> never returns nil from a failed net.
\<close>

definition recorded :: "'w cpn \<Rightarrow> bool" where
  "recorded c \<longleftrightarrow> (c_State c = StateFailed \<longrightarrow> c_Error c \<noteq> None)"

text \<open>Steps that leave both fields alone.\<close>

definition quiet :: "'w cpn \<Rightarrow> 'w cpn \<Rightarrow> bool" where
  "quiet c c' \<longleftrightarrow> c_State c' = c_State c \<and> c_Error c' = c_Error c"

lemma quiet_refl [simp]: "quiet c c" by (simp add: quiet_def)

lemma quiet_trans: "quiet a b \<Longrightarrow> quiet b c \<Longrightarrow> quiet a c" by (simp add: quiet_def)

lemma quiet_recorded: "quiet c c' \<Longrightarrow> recorded c' = recorded c"
  by (simp add: quiet_def recorded_def)

lemma recorded_set [simp]:
  "recorded (setFailed e c)" "s \<noteq> StateFailed \<Longrightarrow> recorded (setState s c)"
  by (simp_all add: recorded_def)

lemma quiet_steps:
  "quiet c (emit e c)" "quiet c (put_place k p c)" "quiet c (put_transition k t c)"
  "quiet c (log_metric m c)" "quiet c (notify_group c)" "quiet c (flush_waiting c)"
  "quiet c (append_history msg c)" "quiet c (setMode md c)" "quiet c (log_mutation a r c)"
  "quiet c (snd (publish_process tid pk pl w c))" "quiet c (hitl_chunk t s d c)"
  "quiet c (hitl_resolved t tok c)" "quiet c (flush_history c)" "quiet c (set_breaker k cb c)"
  "quiet c (offer tok pid c)" "quiet c (clear_buses c)"
  "quiet c (snd (appendHITLResponseToHistory env resp pid w c))"
  by (simp_all add: quiet_def put_place_def put_transition_def notify_group_def flush_waiting_def
      append_history_def setMode_def log_mutation_def publish_process_def hitl_chunk_def
      hitl_resolved_def flush_history_def set_breaker_def offer_def clear_buses_def
      appendHITLResponseToHistory_def Let_def
      split: option.splits prod.splits sum.splits)

lemma quiet_deposit:
  assumes "deposit_each miss wrp mk pids c = (r, ts, c')"
  shows "quiet c c'"
  by (rule deposit_each_invariant[where P = "\<lambda>d. quiet c d", OF _ _ assms])
    (auto intro: quiet_trans quiet_steps)

locale recording_firer = sound_firer +
  assumes fire_recorded: "fire t toks w c = (out, w', c') \<Longrightarrow> recorded c \<Longrightarrow> recorded c'"

section \<open>The fire functions\<close>

lemma fireTool_recorded: "fireTool env t toks w c = (out, w', c') \<Longrightarrow> quiet c c'"
  by (auto simp: fireTool_def fireToolHandler_def Let_def
      split: prod.splits sum.splits option.splits list.splits dest: quiet_deposit)

lemma quiet_apply: "apply_mutation m c = (r, c1) \<Longrightarrow> quiet c c1"
  by (erule apply_mutation_cases) (auto intro: quiet_steps)

lemma quiet_rollback: "quiet c c1 \<Longrightarrow> quiet c (rollback_mutation m e d c1)"
  by (simp add: quiet_def rollback_mutation_def log_mutation_def split: option.splits)

lemma quiet_Mutate: "Mutate m c = (r, c') \<Longrightarrow> quiet c c'"
  by (auto simp: Mutate_def split: if_splits prod.splits option.splits
      intro!: quiet_rollback quiet_steps dest: quiet_apply intro: quiet_trans)

lemma fireTopologyMutate_recorded: "fireTopologyMutate env t toks w c = (out, w', c') \<Longrightarrow> quiet c c'"
  by (auto simp: fireTopologyMutate_def Let_def split: prod.splits sum.splits option.splits list.splits
      dest!: quiet_deposit quiet_Mutate intro: quiet_trans)

lemma quiet_depositValidated: "depositValidated env t p col cfg c = (s, r, c') \<Longrightarrow> quiet c c'"
  by (auto simp: depositValidated_def Let_def split: prod.splits option.splits dest: quiet_deposit)

lemma quiet_route: "routeValidationError t e p c = (r, c') \<Longrightarrow> quiet c c'"
  by (auto simp: routeValidationError_def Let_def split: option.splits sum.splits if_splits
      intro: quiet_steps)

lemma quiet_correction:
  "correction_loop env t cfg orig col n i cur le tot w c = (out, w', c') \<Longrightarrow> quiet c c'"
proof (induction n arbitrary: i cur le tot w)
  case 0
  then show ?case by (auto split: prod.splits dest: quiet_route)
next
  case (Suc n)
  from Suc.prems show ?case
    by (auto simp: Let_def split: prod.splits option.splits dest: Suc.IH quiet_depositValidated)
qed

lemma fireValidate_recorded: "fireValidate env t toks w c = (out, w', c') \<Longrightarrow> quiet c c'"
  by (auto simp: fireValidate_def Let_def split: prod.splits option.splits list.splits if_splits
      dest: quiet_route quiet_depositValidated quiet_correction)

lemma quiet_depositAll: "depositAll pids tok c = (r, c') \<Longrightarrow> quiet c c'"
  by (auto simp: depositAll_def split: prod.splits dest: quiet_deposit)

lemma quiet_process: "emitProcessEvent t k pl w c = (w', c') \<Longrightarrow> quiet c c'"
  by (metis emitProcessEvent_def quiet_steps(10) snd_conv)

lemma quiet_fragments: "emit_fragments env t frags snaps w c = (r, s, w', c') \<Longrightarrow> quiet c c'"
proof (induction frags arbitrary: snaps w c)
  case (Cons f frags)
  obtain err c1 where d: "depositAll (tr_OutputPlaces t) (newShellChunkToken c t f) c = (err, c1)"
    by force
  obtain w2 c2 where e: "emitProcessEvent t EventProcessStdout (proc [] f 0) w c1 = (w2, c2)" by force
  show ?case
    using Cons.prems Cons.IH quiet_depositAll[OF d] quiet_process[OF e]
    by (cases err) (auto simp: d e Let_def intro: quiet_trans)
qed simp

lemma quiet_stderr: "emit_stderr t frags w c = (w', c') \<Longrightarrow> quiet c c'"
  unfolding emit_stderr_def
proof (induction frags arbitrary: w c)
  case (Cons f frags)
  obtain w2 c2 where e: "emitProcessEvent t EventProcessStderr (proc [] f 0) w c = (w2, c2)" by force
  show ?case using Cons.prems Cons.IH[of w2 c2] quiet_process[OF e] by (auto simp: e intro: quiet_trans)
qed simp

lemma quiet_session:
  "session_loop env t cfg ms ce evs buf snaps w c = (out, w', c') \<Longrightarrow> quiet c c'"
proof (induction env t cfg ms ce evs buf snaps w c arbitrary: out w' c' rule: session_loop.induct)
  case (3 env t cfg ms cerr line evs buf snaps w c)
  let ?x = "trim_crlf line"
  obtain err c1 where d: "depositAll (tr_OutputPlaces t) (newShellChunkToken c t ?x) c = (err, c1)"
    by force
  obtain w2 c2 where
    e: "emitProcessEvent t EventProcessStdout (proc (bc_SessionID cfg) ?x 0) w c1 = (w2, c2)" by force
  have g: "quiet c c2" using quiet_depositAll[OF d] quiet_process[OF e] quiet_trans by blast
  show ?case
  proof (cases err)
    case None
    with 3(2) d e have "session_loop env t cfg ms cerr evs
        (buf @ line @ (if has_suffix line [CHR 0x0A] then [] else [CHR 0x0A]))
        (snaps @ [Snapshot (en_render env) (Some (newShellChunkToken c t ?x))]) w2 c2 = (out, w', c')"
      by (simp add: Let_def)
    from 3(1)[OF refl refl refl refl d[symmetric] None refl e[symmetric] this] g
    show ?thesis using quiet_trans by blast
  next
    case (Some x)
    with 3(2) d quiet_depositAll[OF d] show ?thesis by (simp add: Let_def)
  qed
next
  case (5 env t cfg ms cerr kind code serr evs buf snaps w c)
  show ?case
  proof (cases "kind = ''exited'' \<or> kind = ''error''")
    case True
    then show ?thesis using 5(2)
      by (auto simp: Let_def split: prod.splits option.splits if_splits
          dest!: quiet_depositAll quiet_process intro: quiet_trans)
  qed (use 5 in auto)
qed (auto simp: Let_def split: prod.splits option.splits if_splits dest: quiet_depositAll)

lemma quiet_gate: "bash_gate t rt cfg w c = (r, w', c') \<Longrightarrow> quiet c c'"
  by (auto simp: bash_gate_def publish_approval_def PublishHITLRequested_def
      PublishHostApprovalSurface_def quiet_def Let_def split: option.splits prod.splits)

lemma quiet_oneshot: "fireBashOneShot env t cfg ad w c = (out, w', c') \<Longrightarrow> quiet c c'"
  by (auto simp: fireBashOneShot_def Let_def split: prod.splits option.splits if_splits
      dest!: quiet_depositAll quiet_process quiet_fragments quiet_stderr intro: quiet_trans)

lemma quiet_bash_session: "fireBashSession env t cfg sp w c = (out, w', c') \<Longrightarrow> quiet c c'"
  by (auto simp: fireBashSession_def Let_def split: prod.splits option.splits if_splits
      dest: quiet_session)

lemma fireBash_recorded:
  assumes f: "fireBash env t toks w c = (out, w', c')"
  shows "quiet c c'"
proof -
  have step: "quiet c c'"
    if "bash_gate t rt cfg w c = (ge, w1, c1)"
      "emitProcessEvent t EventProcessStarted pl w1 c1 = (w2, c2)" "quiet c2 c'" for rt cfg ge w1 c1 pl w2 c2
    using quiet_gate[OF that(1)] quiet_process[OF that(2)] that(3) quiet_trans by blast
  show ?thesis
    using f unfolding fireBash_def
    by (auto simp: Let_def split: option.splits prod.splits if_splits
        dest: quiet_gate quiet_bash_session quiet_oneshot intro: step)
qed

section \<open>Human-in-the-loop firings\<close>

text \<open>These change the state: to waiting, to running, or to failed with the error.\<close>

lemma recorded_step: "quiet c c' \<Longrightarrow> recorded c \<Longrightarrow> recorded c'"
  by (simp add: quiet_recorded)

lemma quiet_hitl_deposit: "hitl_deposit env t tok c = (s, r, c') \<Longrightarrow> quiet c c'"
  unfolding hitl_deposit_def switchModeToCentaurian_def Let_def
  by (auto split: prod.splits option.splits if_splits dest!: quiet_deposit
      intro: quiet_trans quiet_steps(8))

lemma quiet_surface:
  assumes "hitl_surface env t cfg toks w c = (b, r, w', c')"
  shows "quiet c c'"
  using assms
  by (auto simp: hitl_surface_def hitl_chunk_def append_history_def quiet_def Let_def
      split: option.splits sum.splits if_splits prod.splits)

lemma hitl_accept_recorded:
  assumes "hitl_accept env t cfg toks rowID tok w c = (out, w', c')" and r: "recorded c"
  shows "recorded c'"
proof -
  let ?r = "hitl_resolved t tok (notify_group (setState StateRunning c))"
  have run: "recorded ?r"
    by (rule recorded_step[OF quiet_steps(12) recorded_step[OF quiet_steps(5)]]) simp
  have dep: "recorded d" if "hitl_deposit env t k c1 = (s, e, d)" "recorded c1" for k c1 s e d
    by (rule recorded_step[OF quiet_hitl_deposit[OF that(1)] that(2)])
  have app: "recorded c1"
    if "appendHITLResponseToHistory env resp rowID w ?r = (w1, c1)" for resp w1 c1
    using recorded_step[OF quiet_steps(17) run] that by (metis snd_conv)
  show ?thesis
    using assms(1) r run
    by (auto simp: hitl_accept_def Let_def
        split: option.splits payload.splits sum.splits prod.splits if_splits
        intro: dep app)
qed

lemma recorded_waiting:
  "recorded (flush_waiting (notify_group (emit e (setState StateWaiting c))))"
  "recorded (flush_waiting (notify_group (setState StateWaiting c)))"
  by (simp_all add: recorded_def)

lemma fireHITL_recorded:
  assumes "fireHITL env t toks w c = (out, w', c')" and r: "recorded c"
  shows "recorded c'"
proof (cases "tr_HITLConfig t")
  case None
  with assms show ?thesis by (simp add: fireHITL_def)
next
  case (Some cfg)
  show ?thesis
  proof (cases "hc_Channel cfg")
    case None
    with assms Some show ?thesis by (simp add: fireHITL_def)
  next
    case ch: (Some recv)
    obtain b rowID w1 c1 where s: "hitl_surface env t cfg toks w c = (b, rowID, w1, c1)"
      by (metis prod_cases4)
    obtain r w2 where rv: "recv w1 = (r, w2)" by force
    show ?thesis
      using assms(1)
      by (cases r) (auto simp: fireHITL_def Some ch s rv Let_def recorded_waiting split: if_splits
          intro: hitl_accept_recorded)
  qed
qed

lemma revision_action_recorded:
  assumes "revision_action env t cfg tok rounds tot w c = (r, w', c')" and c: "recorded c"
  shows "recorded c'"
proof -
  have dep: "recorded d" if "hitl_deposit env t tok (hitl_resolved t tok c) = (s, e, d)" for s e d
    using recorded_step[OF quiet_hitl_deposit[OF that]] recorded_step[OF quiet_steps(12) c] by blast
  show ?thesis
    using assms
    by (auto simp: revision_action_def depositHITLRevision_def Let_def
        split: option.splits hitl_action.splits if_splits prod.splits intro: dep)
qed

lemma revision_round_recorded:
  assumes "revision_round env t cfg recv prompt rounds tot w c = (r, w', c')"
  shows "recorded c'"
proof -
  obtain rc w1 where rv: "recv w = (rc, w1)" by force
  have run: "recorded c'"
    if "revision_action env t cfg tok rounds tot w1 (notify_group (setState StateRunning d)) = (r, w', c')"
    for d tok
    by (rule revision_action_recorded[OF that]) (simp add: recorded_def)
  show ?thesis
    using assms
    by (cases rc) (auto simp: revision_round_def rv Let_def recorded_waiting split: if_splits
        intro: run)
qed

lemma revision_loop_recorded:
  "revision_loop env t cfg recv prompt rounds tot w c = (out, w', c') \<Longrightarrow> recorded c'"
proof (induction env t cfg recv prompt rounds tot w c arbitrary: out w' c' rule: revision_loop.induct)
  case (1 env t cfg recv prompt rounds tot w c)
  obtain r w1 c1 where rr: "revision_round env t cfg recv prompt rounds tot w c = (r, w1, c1)"
    by (metis prod_cases3)
  show ?case
  proof (cases r)
    case (RoundDone o1)
    with 1(2) rr revision_round_recorded[OF rr] show ?thesis
      by (subst (asm) revision_loop.simps) simp
  next
    case (RoundAgain p k)
    with 1(2) rr have "revision_loop env t cfg recv p (rounds + 1) k w1 c1 = (out, w', c')"
      by (subst (asm) revision_loop.simps) simp
    from 1(1)[OF rr[symmetric] RoundAgain refl this] show ?thesis .
  qed
qed

lemma fireHITLWithRevision_recorded:
  "fireHITLWithRevision env t toks w c = (out, w', c') \<Longrightarrow> recorded c \<Longrightarrow> recorded c'"
  by (auto simp: fireHITLWithRevision_def split: option.splits dest: revision_loop_recorded)

interpretation tool_rec: recording_firer "fireTool env" for env
  by unfold_locales (blast intro: recorded_step fireTool_recorded)

interpretation mutate_rec: recording_firer "fireTopologyMutate env" for env
  by unfold_locales (blast intro: recorded_step fireTopologyMutate_recorded)

interpretation validate_rec: recording_firer "fireValidate env" for env
  by unfold_locales (blast intro: recorded_step fireValidate_recorded)

interpretation bash_rec: recording_firer "fireBash env" for env
  by unfold_locales (blast intro: recorded_step fireBash_recorded)

interpretation hitl_rec: recording_firer "fireHITL env" for env
  by unfold_locales (rule fireHITL_recorded)

interpretation revision_rec: recording_firer "fireHITLWithRevision env" for env
  by unfold_locales (rule fireHITLWithRevision_recorded)

text \<open>An LLM firing may leave the net waiting or running, never failed, and keeps its error.\<close>

lemma heard_recorded: "heard c d \<Longrightarrow> recorded c \<Longrightarrow> recorded d"
  using heard_frame(5,6)[of c d] by (auto simp: recorded_def)

lemma talks_heard_refl: "talks c d \<Longrightarrow> heard c d"
  unfolding heard_def by (intro exI[of _ d] exI[of _ "c_History d"]) simp

lemma fireLLM_recorded:
  assumes f: "fireLLM env t toks w c = (out, w', c')" and r: "recorded c"
  shows "recorded c'"
proof -
  obtain s k err where o: "out = (s, k, err)" by (metis prod_cases3)
  from fireLLM_ends[OF f[unfolded o]] show ?thesis
  proof (elim disjE exE conjE)
    assume "talks c c'" then show ?thesis using heard_recorded[OF talks_heard_refl r] by simp
  next
    fix cfg d tok ts
    assume h: "heard c d" and l: "llm_deposit t tok d = (err, ts, c')"
    from quiet_deposit[OF l[unfolded llm_deposit_def]] show ?thesis
      using quiet_recorded heard_recorded[OF h r] by metis
  qed
qed

interpretation llm_rec: recording_firer "fireLLM env" for env
  by unfold_locales (rule fireLLM_recorded)

lemma fireRegisterTool_quiet: "fireRegisterTool env t toks w c = (out, w', c') \<Longrightarrow> quiet c c'"
  by (auto simp: fireRegisterTool_def Let_def split: option.splits sum.splits prod.splits dest: quiet_deposit)

lemma synth_finish_quiet: "synth_finish env t repo cfg base topo tot w c = (out, w', c') \<Longrightarrow> quiet c c'"
  by (auto simp: synth_finish_def Let_def split: option.splits sum.splits prod.splits dest: quiet_deposit)

lemma fireSynthesize_quiet: "fireSynthesize env t toks w c = (out, w', c') \<Longrightarrow> quiet c c'"
  by (auto simp: fireSynthesize_def Let_def split: option.splits sum.splits prod.splits
      dest: synth_finish_quiet)

lemma deposit_pairs_quiet: "deposit_pairs t child ps c = (toks, err, c') \<Longrightarrow> quiet c c'"
  by (induction t child ps c arbitrary: toks err c' rule: deposit_pairs.induct)
    (auto simp: Let_def quiet_def put_place_def split: option.splits sum.splits prod.splits)

lemma run_instance_quiet: "run_instance env t toks child w c = (out, w', c') \<Longrightarrow> quiet c c'"
  unfolding run_instance_def Let_def
  by (auto simp: quiet_def registerSubNetBus_def put_place_def
      split: prod.splits sum.splits option.splits if_splits dest!: deposit_pairs_quiet)

lemma approve_flow_quiet: "approve_flow env t ref d w c = (e, w', c') \<Longrightarrow> quiet c c'"
  by (auto simp: approve_flow_def MarkFlowApproved_def Let_def quiet_def
      split: option.splits prod.splits sum.splits bool.splits if_splits)

lemma fireInstantiate_quiet: "fireInstantiate env t toks w c = (out, w', c') \<Longrightarrow> quiet c c'"
  unfolding fireInstantiate_def instantiate_flow_def
  by (auto split: option.splits prod.splits sum.splits if_splits bool.splits
      dest!: run_instance_quiet approve_flow_quiet intro: quiet_trans)

lemma fireSubNet_quiet: "fireSubNet env t toks w c = (out, w', c') \<Longrightarrow> quiet c c'"
  by (auto simp: fireSubNet_def Let_def emit_subnet_def join_group_def registerSubNetBus_def quiet_def
      split: sum.splits option.splits prod.splits)

interpretation register_rec: recording_firer "fireRegisterTool env" for env
  by unfold_locales (blast intro: recorded_step fireRegisterTool_quiet)

interpretation synthesize_rec: recording_firer "fireSynthesize env" for env
  by unfold_locales (blast intro: recorded_step fireSynthesize_quiet)

interpretation instantiate_rec: recording_firer "fireInstantiate env" for env
  by unfold_locales (blast intro: recorded_step fireInstantiate_quiet)

interpretation subnet_rec: recording_firer "fireSubNet env" for env
  by unfold_locales (blast intro: recorded_step fireSubNet_quiet)

section \<open>The executor\<close>

text \<open>The hypothesis on the parts that are not modelled: they too set the error with the state.\<close>

definition env_recording :: "'w env \<Rightarrow> bool" where
  "env_recording env \<longleftrightarrow>
     (\<forall>w c. recorded c \<longrightarrow> recorded (snd (en_background env w c))) \<and>
     (\<forall>w c. recorded c \<longrightarrow> recorded (snd (en_join env w c)))"

lemma env_recordingD:
  assumes "env_recording env" and "recorded c"
  shows "en_background env w c = (w', c') \<Longrightarrow> recorded c'"
    and "en_join env w c = (w', c') \<Longrightarrow> recorded c'"
  using assms unfolding env_recording_def by (metis snd_conv)+

lemma dispatch_recorded:
  assumes r: "recorded c" and d: "dispatch env t toks w c = (out, w', c')"
  shows "recorded c'"
  using d r unfolding dispatch_def
  by (auto split: node_kind.splits if_splits
      dest: tool_rec.fire_recorded mutate_rec.fire_recorded validate_rec.fire_recorded
        llm_rec.fire_recorded bash_rec.fire_recorded hitl_rec.fire_recorded revision_rec.fire_recorded
        register_rec.fire_recorded synthesize_rec.fire_recorded instantiate_rec.fire_recorded subnet_rec.fire_recorded)

lemma fire_one_recorded:
  assumes s: "env_recording env" and f: "fire_one env f w c = (err, w', c')" and r: "recorded c"
  shows "recorded c'"
proof -
  let ?fire = "\<lambda>(w, c). let (out, w', c') = dispatch env (fr_Transition f) (fr_Consumed f) w c
    in (out, (w', c'))"
  obtain out cb w1 c1 where
    d: "doRetry (fire_env env) (tr_Retry (fr_Transition f)) (get_breaker (fr_Key f) c) ?fire (w, c) =
      (out, cb, (w1, c1))"
    by (metis prod.exhaust)
  have "recorded (snd (w1, c1))"
  proof (rule doRetry_invariant[where I = "\<lambda>s. recorded (snd s)", OF _ _ _ _ d])
    show "\<And>s n s'. recorded (snd s) \<Longrightarrow> re_now (fire_env env) s = (n, s') \<Longrightarrow> recorded (snd s')"
      by (auto simp: fire_env_def split: prod.splits)
    show "\<And>d s n s'. recorded (snd s) \<Longrightarrow> re_sleep (fire_env env) d s = (n, s') \<Longrightarrow> recorded (snd s')"
      by (auto simp: fire_env_def split: prod.splits)
    fix st r st'
    assume g: "recorded (snd st)" and d: "?fire st = (r, st')"
    obtain w0 c0 where st: "st = (w0, c0)" by force
    obtain o2 w2 c2 where d2: "dispatch env (fr_Transition f) (fr_Consumed f) w0 c0 = (o2, w2, c2)"
      by (metis prod_cases3)
    have "recorded c2" using dispatch_recorded[OF _ d2] g st by simp
    with d st d2 show "recorded (snd st')" by auto
  qed (simp add: r)
  then have c1: "recorded c1" by simp
  have "c' = emit (mk_event EventTransitionCompleted (tr_ID (fr_Transition f)) (tr_Kind (fr_Transition f))
      None (EvCompleted (fst out) (fst (snd out))
        (case snd (snd out) of None \<Rightarrow> [] | Some e \<Rightarrow> err_text e)
        (resolveLabelForTransition (set_breaker (fr_Key f) cb c1) (fr_Transition f))))
      (set_breaker (fr_Key f) cb c1)"
    using f d by (auto simp: fire_one_def Let_def split: prod.splits)
  then show ?thesis using recorded_step[OF quiet_steps(1)] recorded_step[OF quiet_steps(14) c1] by blast
qed

lemma fire_all_recorded:
  assumes s: "env_recording env"
  shows "fire_all env fs w c = (errs, w', c') \<Longrightarrow> recorded c \<Longrightarrow> recorded c'"
proof (induction fs arbitrary: w c errs w' c')
  case (Cons f fs)
  obtain err w1 c1 where f: "fire_one env f w c = (err, w1, c1)" by (metis prod_cases3)
  obtain es w2 c2 where fs: "fire_all env fs w1 c1 = (es, w2, c2)" by (metis prod_cases3)
  show ?case
    using Cons.prems fire_one_recorded[OF s f] Cons.IH[OF fs] f fs by auto
qed simp

lemma process_errors_recorded:
  "process_errors errs c = (b, c') \<Longrightarrow> recorded c \<Longrightarrow> recorded c'"
proof (induction errs c rule: process_errors.induct)
  case (2 tid e rest c)
  have p: "recorded (put_place k p c)" for k p by (rule recorded_step[OF quiet_steps(2) 2(3)])
  show ?case
    using 2(2,3)
    by (auto simp: Let_def split: option.splits sum.splits if_splits
        dest!: 2(1)[rotated 3, OF _ p])
qed simp

lemma consume_batch_quiet: "consume_batch now ks w c = (fs, w', c') \<Longrightarrow> quiet c c'"
proof (induction now ks w c arbitrary: fs w' c' rule: consume_batch.induct)
  case (2 now k ks w c)
  show ?case
  proof (cases "map_of (c_Transitions c) k")
    case None
    with 2(1)[OF None] 2(4) show ?thesis by simp
  next
    case (Some t)
    obtain ok t' w1 where e: "effectiveCanFire now c t w = (ok, t', w1)" by (metis prod_cases3)
    let ?c1 = "put_transition k t' c"
    obtain toks pl where a: "consumeAll (tr_InputPlaces t') (c_Places ?c1) = (toks, pl)" by force
    obtain gs w2 c2 where b: "consume_batch now ks w1 (?c1\<lparr>c_Places := pl\<rparr>) = (gs, w2, c2)"
      by (metis prod_cases3)
    show ?thesis
    proof (cases ok)
      case False
      with 2(4) Some e have "consume_batch now ks w1 ?c1 = (fs, w', c')" by (simp add: Let_def)
      from 2(2)[OF Some e[symmetric] refl refl refl _ this] False show ?thesis
        using quiet_trans quiet_steps(3) by blast
    next
      case True
      from 2(3)[OF Some e[symmetric] refl refl refl _ a[symmetric] refl b] True
      have "quiet (?c1\<lparr>c_Places := pl\<rparr>) c2" by blast
      then have "quiet c c2" by (simp add: quiet_def put_transition_def)
      then show ?thesis using 2(4) Some e a b True by (simp add: Let_def)
    qed
  qed
qed simp

lemma checkModeSwitch_quiet: "checkModeSwitch now w c = (w', c') \<Longrightarrow> quiet c c'"
  by (auto simp: checkModeSwitch_def setMode_def quiet_def Let_def split: if_splits prod.splits)

lemma IsComplete_state [simp]: "IsComplete (setState s c) = IsComplete c"
  by (simp add: IsComplete_def TerminalPlaces_def setState_def)

definition completed :: "'w cpn \<Rightarrow> bool" where
  "completed c \<longleftrightarrow> c_State c = StateCompleted \<and> IsComplete c"

text \<open>How an iteration can end from a recorded net.\<close>

definition good_end :: "iter_end \<Rightarrow> 'w cpn \<Rightarrow> bool" where
  "good_end i c \<longleftrightarrow> recorded c \<and> (i = IterReturn None \<longrightarrow> completed c)"

lemma finish_iter_end:
  assumes s: "env_recording env" and r: "recorded c" and f: "finish_iter env w c = (i, w', c')"
  shows "good_end i c'"
proof -
  have j: "recorded c1" if "en_join env w c = (w1, c1)" for w1 c1
    by (rule env_recordingD(2)[OF s r that])
  show ?thesis
    using f j
    by (auto simp: good_end_def completed_def finish_iter_def checkCompletionOrDeadlock_def Let_def
        recorded_def split: prod.splits if_splits)
qed

lemma run_batch_end:
  assumes s: "env_recording env" and r: "recorded c" and b: "run_batch env fs w c = (i, w', c')"
  shows "good_end i c'"
proof -
  let ?c1 = "fold (emit_started env) fs c"
  let ?order = "sort_key (\<lambda>f. en_order env w (tr_ID (fr_Transition f))) fs"
  have "quiet c ?c1"
    by (rule fold_invariant[of "quiet c"])
      (auto simp: emit_started_def intro: quiet_trans quiet_steps(1))
  then have r1: "recorded ?c1" using r recorded_step by blast
  obtain errs w2 c2 where fa: "fire_all env ?order w ?c1 = (errs, w2, c2)" by (metis prod_cases3)
  obtain e c3 where pe: "process_errors errs c2 = (e, c3)" by force
  have r3: "recorded c3"
    by (rule process_errors_recorded[OF pe fire_all_recorded[OF s fa r1]])
  obtain w4 c4 where cm: "checkModeSwitch (en_now env) w2 (flush_history c3) = (w4, c4)" by force
  have "recorded c4"
    by (rule recorded_step[OF checkModeSwitch_quiet[OF cm] recorded_step[OF quiet_steps(13) r3]])
  with r3 show ?thesis
    using b fa pe cm by (cases e) (auto simp: run_batch_def good_end_def)
qed

lemma run_iter_end:
  assumes s: "env_recording env" and r: "recorded c" and i: "run_iter env w c = (i, w', c')"
  shows "good_end i c'"
proof -
  obtain d w1 where d: "en_done env w = (d, w1)" by force
  obtain w2 c2 where bg: "en_background env w1 c = (w2, c2)" by force
  have "quiet c2 (drainObservers env c2)"
    by (rule drainObservers_invariant) (auto intro: quiet_trans quiet_steps)
  then have r3: "recorded (drainObservers env c2)"
    using recorded_step env_recordingD(1)[OF s r bg] by blast
  obtain ks w4 c4 where cf: "collectFirable (en_now env) w2 (drainObservers env c2) = (ks, w4, c4)"
    by (metis prod_cases3)
  then have "quiet (drainObservers env c2) c4"
    by (auto simp: collectFirable_def quiet_def split: prod.splits)
  with r3 have r4: "recorded c4" using recorded_step by blast
  obtain fs w5 c5 where
    cb: "consume_batch (en_now env) (sort_key (transition_id c4) ks) w4 c4 = (fs, w5, c5)"
    by (metis prod_cases3)
  have r5: "recorded c5" by (rule recorded_step[OF consume_batch_quiet[OF cb] r4])
  have "good_end i c'" if "d = None"
    using i d that bg cf cb finish_iter_end[OF s r4] finish_iter_end[OF s r5] run_batch_end[OF s r5]
    by (auto simp: run_iter_def Let_def split: if_splits)
  moreover have "good_end i c'" if "d \<noteq> None"
    using i d that by (auto simp: run_iter_def good_end_def)
  ultimately show ?thesis by blast
qed

lemma run_loop_completed:
  assumes s: "env_recording env" and r: "recorded c" and l: "run_loop env n w c = Some (RunReturn None, w', c')"
  shows "completed c'"
proof -
  have "RunReturn None = RunReturn None \<longrightarrow> completed c'"
    by (rule run_loop_invariant[where P = "\<lambda>_ c. recorded c" and
          Q = "\<lambda>e _ c'. e = RunReturn None \<longrightarrow> completed c'", OF l r])
      (use run_iter_end[OF s] in \<open>auto simp: good_end_def\<close>)
  then show ?thesis by simp
qed

section \<open>The sub-net goroutines\<close>

text \<open>
  What the goroutines of the sub-nets do to a net is a sequence of finished children. An environment
  that does nothing else in the background satisfies both hypotheses.
\<close>

inductive children_steps :: "'w env \<Rightarrow> 'w \<Rightarrow> 'w cpn \<Rightarrow> 'w \<Rightarrow> 'w cpn \<Rightarrow> bool" for env where
  children_none: "children_steps env w c w' c"
| children_more: "children_steps env w c w1 c1 \<Longrightarrow> finish_subnet env t child r w1 c1 = (w2, c2) \<Longrightarrow>
    children_steps env w c w2 c2"

definition subnet_env :: "'w env \<Rightarrow> bool" where
  "subnet_env env \<longleftrightarrow>
     (\<forall>w c. children_steps env w c (fst (en_background env w c)) (snd (en_background env w c))) \<and>
     (\<forall>w c. children_steps env w c (fst (en_join env w c)) (snd (en_join env w c)))"

lemma finish_subnet_recorded: "recorded c \<Longrightarrow> recorded (snd (finish_subnet env t child r w c))"
proof (cases r)
  case None
  assume "recorded c"
  then show ?thesis using child_completed_state[of env t child w c] by (simp add: recorded_def None)
next
  case (Some e)
  assume "recorded c"
  then show ?thesis
    by (auto simp: Some recorded_def finish_subnet_def child_failed_def Let_def deregister_child_def setFailed_def
        emit_subnet_def put_place_def split: option.splits sum.splits)
qed

lemma children_steps_keep:
  "children_steps env w c w' c' \<Longrightarrow> grows c c' \<and> (recorded c \<longrightarrow> recorded c')"
proof (induction rule: children_steps.induct)
  case (children_more w c w1 c1 t child r w2 c2)
  then show ?case
    using finish_subnet_grows[of c1 env t child r w1] finish_subnet_recorded[of c1 env t child r w1] grows_trans
    by (metis snd_conv)
qed simp

lemma subnet_env_keeps: "subnet_env env \<Longrightarrow> env_sound env \<and> env_recording env"
  unfolding subnet_env_def env_sound_def env_recording_def using children_steps_keep by metis

end
