(* ===== verification/Run_Termination.thy ===== *)
theory Run_Termination
  imports Batch Failures
begin

text \<open>
  A bound on the number of iterations of \<open>Run\<close>. Give every place a weight. A net whose transitions
  all consume more weight than they deposit (the error place included) stops within as many
  iterations as its marking weighs, whatever the executors, the humans and the models
  answer. \<open>gains\<close> is the contract of a firing this needs: it adds at most the weight of its outputs.
  The bound covers tool, LLM, validation and human-in-the-loop transitions without retry and without
  breakers; a bash firing may deposit one token per line of output, so no weight bounds it.
\<close>

section \<open>Weights\<close>

definition weight :: "(string \<Rightarrow> nat) \<Rightarrow> place gomap \<Rightarrow> nat" where
  "weight W places = (\<Sum>(k, p)\<leftarrow>places. W k * length (pl_Tokens p))"

definition out_weight :: "(string \<Rightarrow> nat) \<Rightarrow> string list \<Rightarrow> nat" where
  "out_weight W pids = sum_list (map W pids)"

definition err_weight :: "(string \<Rightarrow> nat) \<Rightarrow> 'w transition \<Rightarrow> nat" where
  "err_weight W t = (if tr_ErrorPlace t = [] then 0 else W (tr_ErrorPlace t))"

lemma weight_update:
  assumes "map_of places k = Some p" and "distinct (map fst places)"
  shows "weight W (AList.update k p' places) + W k * length (pl_Tokens p) =
    weight W places + W k * length (pl_Tokens p')"
  using assms by (induction places) (auto simp: weight_def split: if_splits)

lemma keys_update: "map_of places k = Some p \<Longrightarrow> map fst (AList.update k p' places) = map fst places"
  by (induction places) (auto split: if_splits)

text \<open>Everything an iteration's bookkeeping leaves alone.\<close>

definition still :: "'w cpn \<Rightarrow> 'w cpn \<Rightarrow> bool" where
  "still c c' \<longleftrightarrow> c_Transitions c' = c_Transitions c \<and> c_activeChildren c' = c_activeChildren c \<and>
     c_Places c' = c_Places c"

definition gains :: "(string \<Rightarrow> nat) \<Rightarrow> nat \<Rightarrow> 'w cpn \<Rightarrow> 'w cpn \<Rightarrow> bool" where
  "gains W n c c' \<longleftrightarrow> c_Transitions c' = c_Transitions c \<and> c_activeChildren c' = c_activeChildren c \<and>
     map fst (c_Places c') = map fst (c_Places c) \<and>
     weight W (c_Places c') \<le> weight W (c_Places c) + n"

lemma still_gains: "still c c' \<Longrightarrow> gains W n c c'"
  by (simp add: still_def gains_def)

lemma gains_refl [simp]: "gains W n c c" by (simp add: gains_def)

lemma gains_trans: "gains W m a b \<Longrightarrow> gains W n b c \<Longrightarrow> gains W (m + n) a c"
  by (simp add: gains_def)

lemma gains_mono: "gains W m a b \<Longrightarrow> m \<le> n \<Longrightarrow> gains W n a b"
  by (simp add: gains_def)

lemma gains_still: "gains W n a b \<Longrightarrow> still b c \<Longrightarrow> gains W n a c"
  by (simp add: gains_def still_def)

lemma still_then: "still a b \<Longrightarrow> gains W n b c \<Longrightarrow> gains W n a c"
  by (simp add: gains_def still_def)

lemma still_trans: "still a b \<Longrightarrow> still b c \<Longrightarrow> still a c"
  by (simp add: still_def)

lemma still_steps:
  "still c c" "still c (emit e c)" "still c (log_metric m c)" "still c (notify_group c)"
  "still c (flush_waiting c)" "still c (append_history msg c)" "still c (setMode md c)"
  "still c (setState s c)" "still c (setFailed err c)" "still c (hitl_chunk t s2 d c)"
  "still c (hitl_resolved t tok c)" "still c (flush_history c)"
  "still c (snd (appendHITLResponseToHistory env resp pid w c))"
  by (simp_all add: still_def notify_group_def flush_waiting_def append_history_def setMode_def
      setState_def setFailed_def hitl_chunk_def hitl_resolved_def flush_history_def
      appendHITLResponseToHistory_def Let_def split: option.splits prod.splits)

lemma gains_put:
  assumes "map_of (c_Places c) k = Some p" and "Deposit p tok = Inr p'" and "distinct (map fst (c_Places c))"
  shows "gains W (W k) c (put_place k p' c)"
proof -
  have "length (pl_Tokens p') = Suc (length (pl_Tokens p))" using assms(2) by (simp add: Deposit_Inr_iff)
  then show ?thesis
    using weight_update[OF assms(1,3), of W p'] keys_update[OF assms(1), of p']
    by (simp add: gains_def put_place_def)
qed

lemma deposit_each_gains:
  "deposit_each miss wrp mk pids c = (r, ts, c') \<Longrightarrow> distinct (map fst (c_Places c)) \<Longrightarrow>
   gains W (out_weight W pids) c c'"
proof (induction miss wrp mk pids c arbitrary: r ts c' rule: deposit_each.induct)
  case (2 miss wrp mk pid pids c)
  show ?case
  proof (cases "\<exists>p tok p'. map_of (c_Places c) pid = Some p \<and> mk pid p = Inr tok \<and> Deposit p tok = Inr p'")
    case True
    then obtain p tok p' where
      p: "map_of (c_Places c) pid = Some p" "mk pid p = Inr tok" "Deposit p tok = Inr p'" by blast
    obtain r1 ts1 c1 where d: "deposit_each miss wrp mk pids (put_place pid p' c) = (r1, ts1, c1)"
      by (metis prod_cases3)
    have g: "gains W (W pid) c (put_place pid p' c)" by (rule gains_put[OF p(1,3) 2(3)])
    have "distinct (map fst (c_Places (put_place pid p' c)))" using g 2(3) by (simp add: gains_def)
    from gains_trans[OF g 2(1)[OF p d this]] show ?thesis
      using 2(2) p d by (simp add: out_weight_def)
  next
    case False
    then have "c' = c" using 2(2) by (auto simp: Let_def split: option.splits sum.splits prod.splits)
    then show ?thesis by simp
  qed
qed simp

section \<open>Firings\<close>

definition bounded_kind :: "'w transition \<Rightarrow> bool" where
  "bounded_kind t \<longleftrightarrow> tr_Kind t \<in> {NodeKindTool, NodeKindLLM, NodeKindValidate, NodeKindHITL,
     NodeKindRegisterTool, NodeKindSynthesize}"

text \<open>
  What one firing may add: its outputs, and the error place when it succeeds, because a validation
  routes its own error there.
\<close>

definition fire_bound :: "(string \<Rightarrow> nat) \<Rightarrow> 'w transition \<Rightarrow> gerr option \<Rightarrow> nat" where
  "fire_bound W t err = out_weight W (tr_OutputPlaces t) + (if err = None then err_weight W t else 0)"

lemma fire_bound_ge: "out_weight W (tr_OutputPlaces t) \<le> fire_bound W t err"
  by (simp add: fire_bound_def)

lemma gains_outputs: "gains W (out_weight W (tr_OutputPlaces t)) c c' \<Longrightarrow> gains W (fire_bound W t err) c c'"
  by (erule gains_mono) (rule fire_bound_ge)

lemma fireTool_gains:
  assumes "fireTool env t toks w c = ((s, k, err), w', c')" and "distinct (map fst (c_Places c))"
  shows "gains W (fire_bound W t err) c c'"
  using assms
  by (auto simp: fireTool_def fireToolHandler_def Let_def
      split: prod.splits sum.splits option.splits list.splits
      intro: gains_outputs dest: deposit_each_gains)

lemma depositValidated_gains:
  assumes "depositValidated env t p col cfg c = (s, r, c')" and "distinct (map fst (c_Places c))"
  shows "gains W (out_weight W (tr_OutputPlaces t)) c c'"
  using assms
  by (auto simp: depositValidated_def Let_def split: prod.splits option.splits
      dest: deposit_each_gains)

lemma route_gains:
  assumes r: "routeValidationError t e p c = (err, c')" and d: "distinct (map fst (c_Places c))"
  shows "gains W (fire_bound W t err) c c'"
proof (cases "err = None")
  case True
  with r obtain ep ep' tok where "tr_ErrorPlace t \<noteq> []" "map_of (c_Places c) (tr_ErrorPlace t) = Some ep"
    "Deposit ep tok = Inr ep'" "c' = put_place (tr_ErrorPlace t) ep' c"
    by (auto simp: routeValidationError_def split: if_splits option.splits sum.splits)
  with gains_put[OF _ _ d, of "tr_ErrorPlace t" ep tok ep' W] True show ?thesis
    by (auto simp: fire_bound_def err_weight_def intro: gains_mono)
next
  case False
  with r have "c' = c"
    by (auto simp: routeValidationError_def split: if_splits option.splits sum.splits)
  then show ?thesis by simp
qed

lemma correction_gains:
  "correction_loop env t cfg orig col n i cur le tot w c = ((s, k, err), w', c') \<Longrightarrow>
   distinct (map fst (c_Places c)) \<Longrightarrow> gains W (fire_bound W t err) c c'"
proof (induction n arbitrary: i cur le tot w)
  case 0
  then show ?case by (auto split: prod.splits dest: route_gains)
next
  case (Suc n)
  from Suc.prems show ?case
    by (auto simp: Let_def split: prod.splits option.splits
        dest: Suc.IH depositValidated_gains intro: gains_outputs)
qed

lemma fireValidate_gains:
  assumes "fireValidate env t toks w c = ((s, k, err), w', c')" and "distinct (map fst (c_Places c))"
  shows "gains W (fire_bound W t err) c c'"
  using assms
  by (auto simp: fireValidate_def Let_def split: prod.splits option.splits list.splits if_splits
      dest: route_gains depositValidated_gains correction_gains intro: gains_outputs)

lemma hitl_deposit_gains:
  assumes "hitl_deposit env t tok c = (s, r, c')" and "distinct (map fst (c_Places c))"
  shows "gains W (out_weight W (tr_OutputPlaces t)) c c'"
  using assms unfolding hitl_deposit_def switchModeToCentaurian_def Let_def
  by (auto split: prod.splits option.splits if_splits dest: deposit_each_gains
      intro: gains_still still_steps)

lemma surface_still: "hitl_surface env t cfg toks w c = (b, r, w', c') \<Longrightarrow> still c c'"
  by (auto simp: hitl_surface_def hitl_chunk_def append_history_def still_def Let_def
      split: option.splits sum.splits if_splits prod.splits)

lemma hitl_accept_gains:
  assumes a: "hitl_accept env t cfg toks rowID tok w c = (out, w', c')" and d: "distinct (map fst (c_Places c))"
  shows "gains W (out_weight W (tr_OutputPlaces t)) c c'"
proof -
  let ?r = "hitl_resolved t tok (notify_group (setState StateRunning c))"
  have run: "still c ?r"
    by (rule still_trans[OF still_trans[OF still_steps(8) still_steps(4)] still_steps(11)])
  have dep: "gains W (out_weight W (tr_OutputPlaces t)) c d"
    if "hitl_deposit env t k c1 = (s, e, d)" "still c c1" for k c1 s e d
    using still_then[OF that(2) hitl_deposit_gains[OF that(1)]] d that(2) by (simp add: still_def)
  have app: "still c c1"
    if "appendHITLResponseToHistory env resp rowID w ?r = (w1, c1)" for resp w1 c1
    using still_trans[OF run still_steps(13)] that by (metis snd_conv)
  show ?thesis
    using a run
    by (auto simp: hitl_accept_def Let_def
        split: option.splits payload.splits sum.splits prod.splits if_splits
        intro: dep app)
qed

lemma still_waiting: "still c (flush_waiting (notify_group (setState StateWaiting (emit e c))))"
  "still c (flush_waiting (notify_group (emit e (setState StateWaiting c))))"
  by (simp_all add: still_def flush_waiting_def notify_group_def setState_def split: option.splits)

lemma fireHITL_gains:
  assumes f: "fireHITL env t toks w c = (out, w', c')" and d: "distinct (map fst (c_Places c))"
  shows "gains W (out_weight W (tr_OutputPlaces t)) c c'"
proof (cases "tr_HITLConfig t")
  case None
  with f show ?thesis by (simp add: fireHITL_def)
next
  case (Some cfg)
  show ?thesis
  proof (cases "hc_Channel cfg")
    case None
    with f Some show ?thesis by (simp add: fireHITL_def)
  next
    case ch: (Some recv)
    obtain b rowID w1 c1 where s: "hitl_surface env t cfg toks w c = (b, rowID, w1, c1)"
      by (metis prod_cases4)
    obtain r w2 where rv: "recv w1 = (r, w2)" by force
    let ?n = "out_weight W (tr_OutputPlaces t)"
    have wait: "still c (flush_waiting (notify_group (setState StateWaiting (emit e c1))))" for e
      by (rule still_trans[OF surface_still[OF s] still_waiting(1)])
    have failed: "still c (setFailed x (flush_waiting (notify_group (setState StateWaiting (emit e c1)))))" for x e
      by (rule still_trans[OF wait still_steps(9)])
    have acc: "gains W ?n c c'" if "hitl_accept env t cfg toks rowID tok w2 z = (out, w', c')" "still c z" for tok z
      using still_then[OF that(2) hitl_accept_gains[OF that(1)]] d that(2) by (simp add: still_def)
    show ?thesis
      using f
      by (cases r) (auto simp: fireHITL_def Some ch s rv Let_def split: if_splits
          intro: acc wait failed still_gains)
  qed
qed

lemma revision_action_gains:
  assumes a: "revision_action env t cfg tok rounds tot w c = (r, w', c')" and d: "distinct (map fst (c_Places c))"
  shows "(case r of RoundDone out \<Rightarrow> gains W (out_weight W (tr_OutputPlaces t)) c c' | RoundAgain p k \<Rightarrow> still c c')"
proof -
  have dep: "gains W (out_weight W (tr_OutputPlaces t)) c d"
    if "hitl_deposit env t tok (hitl_resolved t tok c) = (s, e, d)" for s e d
    using still_then[OF still_steps(11) hitl_deposit_gains[OF that]] d still_steps(11)[of c t tok]
    by (simp add: still_def)
  show ?thesis
    using a
    by (auto simp: revision_action_def depositHITLRevision_def Let_def still_steps(1)
        split: option.splits hitl_action.splits if_splits prod.splits intro: dep)
qed

lemma revision_round_gains:
  assumes a: "revision_round env t cfg recv prompt rounds tot w c = (r, w', c')" and d: "distinct (map fst (c_Places c))"
  shows "(case r of RoundDone out \<Rightarrow> gains W (out_weight W (tr_OutputPlaces t)) c c' | RoundAgain p k \<Rightarrow> still c c')"
proof -
  obtain rc w1 where rv: "recv w = (rc, w1)" by force
  let ?wait = "flush_waiting (notify_group (emit (mk_event EventHITLRequested (tr_ID t) NodeKindHITL None
      (EvRound prompt rounds)) (setState StateWaiting c)))"
  let ?run = "notify_group (setState StateRunning ?wait)"
  have run: "still c ?run" using still_trans still_waiting(2) still_steps(4,8) by meson
  have failed: "still c (setFailed x ?wait)" for x using still_trans still_waiting(2) still_steps(9) by meson
  have act: "(case r of RoundDone out \<Rightarrow> gains W (out_weight W (tr_OutputPlaces t)) c c' | RoundAgain p k \<Rightarrow> still c c')"
    if "revision_action env t cfg tok rounds tot w1 ?run = (r, w', c')" for tok
  proof -
    have "distinct (map fst (c_Places ?run))" using d run by (simp add: still_def)
    from revision_action_gains[OF that this] show ?thesis
      using run by (cases r) (auto intro: still_then still_trans)
  qed
  show ?thesis
  proof (cases rc)
    case (RecvToken tok)
    show ?thesis
    proof (cases "tok_Color tok = ColorHuman")
      case True
      with a RecvToken rv have
        "revision_action env t cfg tok rounds tot w1 ?run = (r, w', c')"
        by (simp add: revision_round_def Let_def)
      then show ?thesis by (rule act)
    next
      case False
      with a RecvToken rv have "r = RoundDone ([], tot, Some (hitl_color_error tok))" "c' = ?wait"
        by (auto simp: revision_round_def Let_def)
      then show ?thesis using still_gains[OF still_waiting(2)] by simp
    qed
  next
    case RecvClosed
    with a rv have "r = RoundDone ([], tot, Some (hitl_closed t))"
      "c' = setFailed (Plain ''HITL channel closed'') ?wait"
      by (auto simp: revision_round_def Let_def)
    then show ?thesis using still_gains[OF failed] by simp
  next
    case RecvDone
    with a rv have "r = RoundDone ([], tot, Some (Sentinel ErrTimeout))"
      "c' = setFailed (Sentinel ErrTimeout) ?wait"
      by (auto simp: revision_round_def Let_def)
    then show ?thesis using still_gains[OF failed] by simp
  qed
qed

lemma revision_loop_gains:
  "revision_loop env t cfg recv prompt rounds tot w c = (out, w', c') \<Longrightarrow> distinct (map fst (c_Places c)) \<Longrightarrow>
   gains W (out_weight W (tr_OutputPlaces t)) c c'"
proof (induction env t cfg recv prompt rounds tot w c arbitrary: out w' c' rule: revision_loop.induct)
  case (1 env t cfg recv prompt rounds tot w c)
  obtain r w1 c1 where rr: "revision_round env t cfg recv prompt rounds tot w c = (r, w1, c1)"
    by (metis prod_cases3)
  note g = revision_round_gains[OF rr 1(3), of W]
  show ?case
  proof (cases r)
    case (RoundDone o1)
    with 1(2) rr g show ?thesis by (subst (asm) revision_loop.simps) simp
  next
    case (RoundAgain p k)
    with 1(2) rr have "revision_loop env t cfg recv p (rounds + 1) k w1 c1 = (out, w', c')"
      by (subst (asm) revision_loop.simps) simp
    moreover have s: "still c c1" using g RoundAgain by simp
    moreover have "distinct (map fst (c_Places c1))" using 1(3) s by (simp add: still_def)
    ultimately show ?thesis using 1(1)[OF rr[symmetric] RoundAgain refl] still_then by blast
  qed
qed

lemma heard_still: "heard c d \<Longrightarrow> still c d"
  using heard_frame(1,2,3)[of c d] by (simp add: still_def)

lemma fireLLM_gains:
  assumes f: "fireLLM env t toks w c = ((s, k, err), w', c')" and p: "distinct (map fst (c_Places c))"
  shows "gains W (out_weight W (tr_OutputPlaces t)) c c'"
  using fireLLM_ends[OF f]
proof (elim disjE exE conjE)
  assume "talks c c'"
  then show ?thesis by (rule still_gains[OF heard_still[OF talks_heard_refl]])
next
  fix cfg d tok ts
  assume h: "heard c d" and l: "llm_deposit t tok d = (err, ts, c')"
  have "distinct (map fst (c_Places d))" using heard_still[OF h] p by (simp add: still_def)
  from still_then[OF heard_still[OF h] deposit_each_gains[OF l[unfolded llm_deposit_def] this]]
  show ?thesis .
qed

lemma fireRegisterTool_gains:
  assumes "fireRegisterTool env t toks w c = ((s, k, err), w', c')" and "distinct (map fst (c_Places c))"
  shows "gains W (out_weight W (tr_OutputPlaces t)) c c'"
  using assms
  by (auto simp: fireRegisterTool_def Let_def split: option.splits sum.splits prod.splits
      dest: deposit_each_gains)

lemma fireSynthesize_gains:
  assumes "fireSynthesize env t toks w c = ((s, k, err), w', c')" and "distinct (map fst (c_Places c))"
  shows "gains W (out_weight W (tr_OutputPlaces t)) c c'"
  using assms
  by (auto simp: fireSynthesize_def synth_finish_def Let_def split: option.splits sum.splits prod.splits
      dest: deposit_each_gains)

lemma dispatch_gains:
  assumes d: "dispatch env t toks w c = ((s, k, err), w', c')" and b: "bounded_kind t"
    and p: "distinct (map fst (c_Places c))"
  shows "gains W (fire_bound W t err) c c'"
proof -
  have rev: "gains W (fire_bound W t err) c c'" if "fireHITLWithRevision env t toks w c = ((s, k, err), w', c')"
    using that p by (auto simp: fireHITLWithRevision_def split: option.splits
        intro: gains_outputs revision_loop_gains)
  show ?thesis
    using d b unfolding dispatch_def bounded_kind_def
    by (auto split: if_splits intro: rev fireTool_gains[OF _ p] gains_outputs[OF fireLLM_gains[OF _ p]] fireValidate_gains[OF _ p]
        gains_outputs[OF fireHITL_gains[OF _ p]] gains_outputs[OF fireRegisterTool_gains[OF _ p]]
        gains_outputs[OF fireSynthesize_gains[OF _ p]])
qed

section \<open>A batch\<close>

definition tame :: "(string \<Rightarrow> nat) \<Rightarrow> string \<Rightarrow> 'w transition \<Rightarrow> bool" where
  "tame W k t \<longleftrightarrow> bounded_kind t \<and> tr_Retry t = None \<and> tr_cbState t = None \<and>
     distinct (tr_InputPlaces t) \<and> tr_ID t = k \<and>
     out_weight W (tr_OutputPlaces t) + err_weight W t < out_weight W (tr_InputPlaces t)"

definition tame_net :: "(string \<Rightarrow> nat) \<Rightarrow> 'w cpn \<Rightarrow> bool" where
  "tame_net W c \<longleftrightarrow> distinct (map fst (c_Places c)) \<and> distinct (map fst (c_Transitions c)) \<and>
     c_activeChildren c = 0 \<and> list_all (\<lambda>(k, t). tame W k t) (c_Transitions c)"

lemma tame_netD: "tame_net W c \<Longrightarrow> map_of (c_Transitions c) k = Some t \<Longrightarrow> tame W k t"
  by (auto simp: tame_net_def list_all_iff dest: map_of_SomeD)

lemma tame_net_gains: "gains W n c c' \<Longrightarrow> tame_net W c' = tame_net W c"
  by (simp add: gains_def tame_net_def)

lemma fire_one_gains:
  assumes n: "tame_net W c" and t: "map_of (c_Transitions c) (fr_Key f) = Some (fr_Transition f)"
    and f: "fire_one env f w c = (err, w', c')"
  shows "gains W (fire_bound W (fr_Transition f) err) c c'"
proof -
  let ?t = "fr_Transition f"
  have tm: "tame W (fr_Key f) ?t" by (rule tame_netD[OF n t])
  then have cb: "get_breaker (fr_Key f) c = None" by (simp add: get_breaker_def t tame_def)
  obtain s k err1 w1 c1 where d: "dispatch env ?t (fr_Consumed f) w c = ((s, k, err1), w1, c1)"
    by (metis prod.exhaust)
  have g: "gains W (fire_bound W ?t err1) c c1"
    using dispatch_gains[OF d] tm n by (simp add: tame_def tame_net_def)
  have same: "set_breaker (fr_Key f) None c1 = c1"
  proof -
    have "map_of (c_Transitions c1) (fr_Key f) = Some ?t" "distinct (map fst (c_Transitions c1))"
      using g t n by (simp_all add: gains_def tame_net_def)
    with put_transition_same[OF this] tm show ?thesis by (simp add: set_breaker_def tame_def)
  qed
  have "err = err1" "still c1 c'"
    using f d tm cb same
    by (auto simp: fire_one_def Let_def doRetry_def cb_allow_def fireOnce_def cb_failure_def cb_success_def
        tame_def still_steps split: option.splits)
  with gains_still[OF g] show ?thesis by simp
qed

definition error_cost :: "(string \<Rightarrow> nat) \<Rightarrow> 'w transition gomap \<Rightarrow> (string \<times> gerr) list \<Rightarrow> nat" where
  "error_cost W trs errs =
     (\<Sum>(tid, e)\<leftarrow>errs. case map_of trs tid of None \<Rightarrow> 0 | Some t \<Rightarrow> err_weight W t)"

definition firing_cost :: "(string \<Rightarrow> nat) \<Rightarrow> 'w firing list \<Rightarrow> nat" where
  "firing_cost W fs =
     (\<Sum>f\<leftarrow>fs. out_weight W (tr_OutputPlaces (fr_Transition f)) + err_weight W (fr_Transition f))"

lemma fire_all_gains:
  "fire_all env fs w c = (errs, w', c') \<Longrightarrow> tame_net W c \<Longrightarrow>
   list_all (\<lambda>f. map_of (c_Transitions c) (fr_Key f) = Some (fr_Transition f)) fs \<Longrightarrow>
   \<exists>n. gains W n c c' \<and> n + error_cost W (c_Transitions c) errs \<le> firing_cost W fs"
proof (induction fs arbitrary: w c errs w' c')
  case (Cons f fs)
  obtain err w1 c1 where f: "fire_one env f w c = (err, w1, c1)" by (metis prod_cases3)
  obtain es w2 c2 where fs: "fire_all env fs w1 c1 = (es, w2, c2)" by (metis prod_cases3)
  let ?t = "fr_Transition f"
  have t: "map_of (c_Transitions c) (fr_Key f) = Some ?t" using Cons.prems(3) by simp
  have g: "gains W (fire_bound W ?t err) c c1" by (rule fire_one_gains[OF Cons.prems(2) t f])
  then have tr: "c_Transitions c1 = c_Transitions c" by (simp add: gains_def)
  obtain n where n: "gains W n c1 c2" "n + error_cost W (c_Transitions c) es \<le> firing_cost W fs"
    using Cons.IH[OF fs] tame_net_gains[OF g] Cons.prems(2,3) by (auto simp: tr)
  have id: "tr_ID ?t = fr_Key f" using tame_netD[OF Cons.prems(2) t] by (simp add: tame_def)
  have "gains W (fire_bound W ?t err + n) c c'" "errs = (case err of None \<Rightarrow> es | Some e \<Rightarrow> (tr_ID ?t, e) # es)"
    using gains_trans[OF g n(1)] Cons.prems(1) f fs by (auto split: option.splits)
  moreover have "fire_bound W ?t err + n + error_cost W (c_Transitions c) errs \<le> firing_cost W (f # fs)"
    using n(2) calculation(2)
    by (cases err) (auto simp: fire_bound_def firing_cost_def error_cost_def id t)
  ultimately show ?case by blast
qed (auto simp: error_cost_def firing_cost_def)

lemma process_errors_gains:
  "process_errors errs c = (b, c') \<Longrightarrow> distinct (map fst (c_Places c)) \<Longrightarrow>
   gains W (error_cost W (c_Transitions c) errs) c c'"
proof (induction errs c rule: process_errors.induct)
  case (2 tid e rest c)
  show ?case
  proof (cases "map_of (c_Transitions c) tid")
    case (Some t)
    show ?thesis
    proof (cases "if tr_ErrorPlace t \<noteq> [] then map_of (c_Places c) (tr_ErrorPlace t) else None")
      case ep: (Some ep)
      then have m: "map_of (c_Places c) (tr_ErrorPlace t) = Some ep" "tr_ErrorPlace t \<noteq> []"
        by (auto split: if_splits)
      show ?thesis
      proof (cases "Deposit ep (error_token c t ep e)")
        case (Inr ep')
        let ?c1 = "put_place (tr_ErrorPlace t) ep' c"
        have g: "gains W (err_weight W t) c ?c1"
          using gains_put[OF m(1) Inr 2(3)] m(2) by (simp add: err_weight_def)
        have "distinct (map fst (c_Places ?c1))" using g 2(3) by (simp add: gains_def)
        moreover have "process_errors rest ?c1 = (b, c')" using 2(2) Some ep Inr by simp
        ultimately have "gains W (error_cost W (c_Transitions ?c1) rest) ?c1 c'"
          using 2(1)[OF Some ep Inr] by blast
        from gains_trans[OF g this] Some show ?thesis by (simp add: error_cost_def)
      qed (use 2(2) Some ep in \<open>auto simp: Let_def intro: still_gains still_steps\<close>)
    qed (use 2(2) Some in \<open>auto intro: still_gains still_steps\<close>)
  qed (use 2(2) in auto)
qed simp

lemma consumeAll_weight:
  assumes "distinct pids" and "distinct (map fst places)"
    and "\<And>pid. pid \<in> set pids \<Longrightarrow> \<exists>p. map_of places pid = Some p \<and> pl_Tokens p \<noteq> []"
    and "consumeAll pids places = (toks, places')"
  shows "map fst places' = map fst places \<and> weight W places' + out_weight W pids = weight W places"
  using assms
proof (induction pids arbitrary: places toks places')
  case (Cons pid pids)
  obtain p where p: "map_of places pid = Some p" "pl_Tokens p \<noteq> []" using Cons.prems(3)[of pid] by auto
  let ?p' = "p\<lparr>pl_Tokens := tl (pl_Tokens p)\<rparr>"
  have con: "Consume p = Inr (hd (pl_Tokens p), ?p')"
    using p(2) by (cases "pl_Tokens p") (auto simp: Consume_def)
  obtain ts pl where r: "consumeAll pids (AList.update pid ?p' places) = (ts, pl)" by force
  have ne: "\<exists>p. map_of (AList.update pid ?p' places) q = Some p \<and> pl_Tokens p \<noteq> []"
    if "q \<in> set pids" for q
    using Cons.prems(1) Cons.prems(3)[of q] that by (auto simp: update_conv')
  have k: "map fst (AList.update pid ?p' places) = map fst places" by (rule keys_update[OF p(1)])
  obtain x xs where x: "pl_Tokens p = x # xs" using p(2) by (cases "pl_Tokens p") auto
  have "weight W (AList.update pid ?p' places) + W pid = weight W places"
    using weight_update[OF p(1) Cons.prems(2), of W ?p'] by (simp add: x)
  moreover have "map fst pl = map fst places" "weight W pl + out_weight W pids = weight W (AList.update pid ?p' places)"
    using Cons.IH[OF _ _ ne r] Cons.prems(1,2) k by auto
  ultimately show ?case using Cons.prems(4) p(1) con r by (simp add: out_weight_def)
qed (simp add: out_weight_def)

definition input_cost :: "(string \<Rightarrow> nat) \<Rightarrow> 'w firing list \<Rightarrow> nat" where
  "input_cost W fs = (\<Sum>f\<leftarrow>fs. out_weight W (tr_InputPlaces (fr_Transition f)))"

lemma plan_batch_weight:
  "plan_batch c ks = (fs, c') \<Longrightarrow> tame_net W c \<Longrightarrow>
   tame_net W c' \<and> c_Transitions c' = c_Transitions c \<and>
   weight W (c_Places c') + input_cost W fs = weight W (c_Places c)"
proof (induction ks arbitrary: c fs c')
  case (Cons k ks)
  show ?case
  proof (cases "\<exists>t. map_of (c_Transitions c) k = Some t \<and> can_fire c t")
    case False
    then have "plan_batch c ks = (fs, c')" using Cons.prems(1) by (auto split: option.splits if_splits)
    from Cons.IH[OF this Cons.prems(2)] show ?thesis .
  next
    case True
    then obtain t where t: "map_of (c_Transitions c) k = Some t" "can_fire c t" by blast
    obtain toks pl where ca: "consumeAll (tr_InputPlaces t) (c_Places c) = (toks, pl)" by force
    obtain gs c2 where pb: "plan_batch (c\<lparr>c_Places := pl\<rparr>) ks = (gs, c2)" by force
    have "distinct (tr_InputPlaces t)" "distinct (map fst (c_Places c))"
      using tame_netD[OF Cons.prems(2) t(1)] Cons.prems(2) by (simp_all add: tame_def tame_net_def)
    note w = consumeAll_weight[OF this can_fire_nonempty[OF t(2)] ca, of W]
    have "tame_net W (c\<lparr>c_Places := pl\<rparr>)" using Cons.prems(2) w by (simp add: tame_net_def)
    from Cons.IH[OF pb this] w Cons.prems(1) t ca pb show ?thesis
      by (auto simp: input_cost_def)
  qed
qed (simp add: input_cost_def)

section \<open>The run\<close>

definition still_env :: "'w env \<Rightarrow> bool" where
  "still_env env \<longleftrightarrow> (\<forall>w c. still c (snd (en_background env w c)))"

lemma tame_net_still: "still c c' \<Longrightarrow> tame_net W c' = tame_net W c"
  by (simp add: still_def tame_net_def)

lemma firing_cost_sort: "firing_cost W (sort_key f fs) = firing_cost W fs"
proof -
  let ?g = "\<lambda>x. out_weight W (tr_OutputPlaces (fr_Transition x)) + err_weight W (fr_Transition x)"
  have "mset (map ?g (sort_key f fs)) = mset (map ?g fs)" by simp
  then have "sum_mset (mset (map ?g (sort_key f fs))) = sum_mset (mset (map ?g fs))" by (simp only:)
  then show ?thesis by (simp only: firing_cost_def sum_mset_sum_list)
qed

lemma cost_less:
  assumes "fs \<noteq> []"
    and "list_all (\<lambda>f. tame W (fr_Key f) (fr_Transition f)) fs"
  shows "firing_cost W fs < input_cost W fs"
  using assms
proof (induction fs)
  case (Cons f fs)
  then show ?case by (cases "fs = []") (auto simp: firing_cost_def input_cost_def tame_def)
qed simp

lemma hitl_firable_plain:
  "hitl_firable now places ts w = (b, ts', w1) \<Longrightarrow> list_all (\<lambda>(k, t). tr_cbState t = None) ts \<Longrightarrow> ts' = ts"
proof (induction ts arbitrary: w b ts' w1)
  case (Cons x ts)
  obtain k t where x: "x = (k, t)" by force
  have nb: "tr_cbState t = None" using Cons.prems(2) x by simp
  let ?ok = "\<not> tr_Deprecated t \<and> inputs_ready places (tr_InputPlaces t) (tr_Guard t)"
  have e: "CanFire now t places w = (?ok, t, w)"
    by (simp add: CanFire_def canFireWith_def nb)
  obtain r ts2 w2 where h: "hitl_firable now places ts w = (r, ts2, w2)" by (metis prod_cases3)
  with Cons.IH Cons.prems(2) x have t2: "ts2 = ts" by simp
  show ?case
    using Cons.prems(1) unfolding x hitl_firable.simps e Let_def by (simp add: h t2 split: if_splits)
qed simp

lemma checkModeSwitch_still:
  assumes cm: "checkModeSwitch now w c = (w', c')"
    and n: "list_all (\<lambda>(k, t). tr_cbState t = None) (c_Transitions c)"
  shows "still c c'"
proof -
  obtain r ts w1 where h: "hitl_firable now (c_Places c) (c_Transitions c) w = (r, ts, w1)"
    by (metis prod_cases3)
  have t: "ts = c_Transitions c" by (rule hitl_firable_plain[OF h n])
  have "c' = c \<or> (\<exists>m. c' = setMode m c)"
    using cm unfolding checkModeSwitch_def Let_def h t by (simp split: if_splits) blast+
  then show ?thesis using still_steps(1,7) by blast
qed

text \<open>A non-empty batch makes the marking lighter.\<close>

lemma run_batch_lighter:
  assumes n: "tame_net W c" and p: "plan_batch c ks = (fs, c1)" and ne: "fs \<noteq> []"
    and r: "run_batch env fs w c1 = (IterNext, w', c')"
  shows "tame_net W c' \<and> weight W (c_Places c') < weight W (c_Places c)"
proof -
  note pw = plan_batch_weight[OF p n]
  let ?c2 = "fold (emit_started env) fs c1"
  let ?order = "sort_key (\<lambda>f. en_order env w (tr_ID (fr_Transition f))) fs"
  have s2: "still c1 ?c2"
    by (rule fold_invariant[of "still c1"])
      (auto simp: emit_started_def intro: still_trans still_steps(2) still_steps(1))
  have look: "list_all (\<lambda>f. map_of (c_Transitions ?c2) (fr_Key f) = Some (fr_Transition f)) ?order"
    using plan_batch_enabled[OF p] pw s2 by (fastforce simp: list_all_iff still_def)
  obtain errs w2 c3 where fa: "fire_all env ?order w ?c2 = (errs, w2, c3)" by (metis prod_cases3)
  have t2: "tame_net W ?c2" using pw tame_net_still[OF s2] by blast
  obtain m where m: "gains W m ?c2 c3" "m + error_cost W (c_Transitions ?c2) errs \<le> firing_cost W fs"
    using fire_all_gains[OF fa t2 look] by (auto simp: firing_cost_sort)
  obtain e c4 where pe: "process_errors errs c3 = (e, c4)" by force
  have t3: "tame_net W c3" using tame_net_gains[OF m(1)] t2 by blast
  then have "gains W (error_cost W (c_Transitions c3) errs) c3 c4"
    using process_errors_gains[OF pe] by (simp add: tame_net_def)
  from gains_trans[OF m(1) this] have g: "gains W (firing_cost W fs) ?c2 c4"
    using m by (auto simp: gains_def)
  obtain w5 c5 where cm: "checkModeSwitch (en_now env) w2 (flush_history c4) = (w5, c5)" by force
  have c': "c' = c5" using r fa pe cm by (cases e) (auto simp: run_batch_def)
  have "still (flush_history c4) c5"
    by (rule checkModeSwitch_still[OF cm]) (use g t2 in
      \<open>auto simp: gains_def tame_net_def tame_def list_all_iff\<close>)
  then have s5: "still c4 c5" using still_trans still_steps(12) by blast
  from gains_still[OF g s5] s2 have "gains W (firing_cost W fs) c1 c'"
    using still_then c' by blast
  moreover have "list_all (\<lambda>f. tame W (fr_Key f) (fr_Transition f)) fs"
    using plan_batch_enabled[OF p] tame_netD[OF n] by (fastforce simp: list_all_iff)
  note cost_less[OF ne this]
  ultimately show ?thesis using pw tame_net_gains by (fastforce simp: gains_def)
qed

lemma tame_no_breakers: "tame_net W c \<Longrightarrow> no_breakers c"
  by (auto simp: tame_net_def tame_def no_breakers_def list_all_iff)

lemma tame_no_observers: "tame_net W c \<Longrightarrow> drainObservers env c = c"
proof -
  assume "tame_net W c"
  then have "observers_of c = []"
    by (fastforce simp: observers_of_def tame_net_def tame_def bounded_kind_def list_all_iff filter_empty_conv)
  then show ?thesis by (simp add: drainObservers_def)
qed

lemma finish_iter_returns:
  "c_activeChildren c = 0 \<Longrightarrow> finish_iter env w c = (i, w', c') \<Longrightarrow> i \<noteq> IterNext"
  by (auto simp: finish_iter_def checkCompletionOrDeadlock_def Let_def split: if_splits)

lemma run_iter_lighter:
  assumes e: "still_env env" and n: "tame_net W c" and r: "run_iter env w c = (IterNext, w', c')"
  shows "tame_net W c' \<and> weight W (c_Places c') < weight W (c_Places c)"
proof -
  obtain d w1 where d: "en_done env w = (d, w1)" by force
  have dn: "d = None" using r d by (auto simp: run_iter_def split: if_splits)
  obtain w2 c2 where bg: "en_background env w1 c = (w2, c2)" by force
  have s: "still c c2" using e bg unfolding still_env_def by (metis snd_conv)
  have n2: "tame_net W c2" using tame_net_still[OF s] n by blast
  let ?ks = "sort_key (transition_id c2) (firable_keys c2)"
  obtain fs c5 where p: "plan_batch c2 ?ks = (fs, c5)" by force
  have k: "distinct (map fst (c_Transitions c2))" using n2 by (simp add: tame_net_def)
  note cf = collectFirable_plain[OF tame_no_breakers[OF n2], of "en_now env" w2]
  note cb = consume_batch_plan[OF tame_no_breakers[OF n2] k, of "en_now env" ?ks w2]
  have fin: "finish_iter env w3 c3 \<noteq> (IterNext, w', c')" if "c_activeChildren c3 = 0" for w3 and c3 :: "'a cpn"
    using finish_iter_returns[OF that] by blast
  have a2: "c_activeChildren c2 = 0" "c_activeChildren c5 = 0"
    using n2 plan_batch_weight[OF p n2] by (simp_all add: tame_net_def)
  have it: "run_iter env w c =
      (if firable_keys c2 = [] then finish_iter env w2 c2
       else if fs = [] then finish_iter env w2 c5 else run_batch env fs w2 c5)"
    by (simp add: run_iter_def d dn bg tame_no_observers[OF n2] cf cb p Let_def)
  have "fs \<noteq> []" and "run_batch env fs w2 c5 = (IterNext, w', c')"
    using r it fin a2 by (auto split: if_splits)
  from run_batch_lighter[OF n2 p this] s show ?thesis by (simp add: still_def)
qed

lemma run_loop_returns:
  assumes e: "still_env env"
  shows "tame_net W c \<Longrightarrow> weight W (c_Places c) < n \<Longrightarrow> \<exists>r. run_loop env n w c = Some r"
proof (induction n arbitrary: w c)
  case (Suc n)
  obtain i w1 c1 where i: "run_iter env w c = (i, w1, c1)" by (metis prod_cases3)
  show ?case
  proof (cases i)
    case IterNext
    have "tame_net W c1" "weight W (c_Places c1) < weight W (c_Places c)"
      using run_iter_lighter[OF e Suc.prems(1)] i IterNext by blast+
    with Suc.prems(2) Suc.IH[of c1 w1] show ?thesis by (simp add: i IterNext)
  qed (simp_all add: i)
qed simp

end
