(* ===== verification/Sample_Nets.thy ===== *)
theory Sample_Nets
  imports Run_Termination
begin

text \<open>
  Small nets and environments on which the properties are evaluated: a clock that ticks, a context
  that is never cancelled, and one- and two-transition nets of tools.
\<close>

definition quiet_env :: "nat env" where
  "quiet_env =
     \<lparr>en_now = (\<lambda>w. (int w, Suc w)), en_sleep = (\<lambda>d w. (None, w)), en_done = (\<lambda>w. (None, w)),
      en_ovf = 0, en_order = (\<lambda>w s. 0), en_render = (\<lambda>p. []), en_sprint = (\<lambda>p. []), en_sprint_plus = (\<lambda>p. []),
      en_json = (\<lambda>p. Inr []), en_mutation = (\<lambda>s. Inl (Plain [])), en_event_json = (\<lambda>e. []),
      en_json_string = (\<lambda>s. s), en_type = (\<lambda>p. []),
      en_host_context = (\<lambda>c. []), en_shell_args = (\<lambda>s. Inl (Plain [])), en_path_arg = (\<lambda>s. Inl (Plain [])),
      en_usd = (\<lambda>x. []), en_approval_json = (\<lambda>c t a r. []), en_stamp = (\<lambda>w. (''0'', w)),
      en_background = (\<lambda>w c. (w, c)), en_join = (\<lambda>w c. (w, c)),
      en_rand = (\<lambda>w. (Inr (replicate 16 0), Suc w)), en_sha = (\<lambda>s. s), en_json_check = (\<lambda>s. None),
      en_flow_ref = (\<lambda>s. Inl (Plain [])), en_manifest = (\<lambda>s. Inl (Plain [])), en_lint = None,
      en_canonicalise = None, en_materialise = None, en_digest = None,
      en_run_child = (\<lambda>d w c. (None, w, c)), en_factory = (\<lambda>t. None), en_subnet = (\<lambda>t. None),
      en_spawn = (\<lambda>t c w. w)\<rparr>"

text \<open>A client that answers every request with the same text, and its cost.\<close>

definition text_response :: "string \<Rightarrow> llm_response" where
  "text_response s = \<lparr>lp_Content = s, lp_ToolCalls = [], lp_Model = [], lp_CostUSD = 1, lp_StopReason = []\<rparr>"

definition echo_client :: "string \<Rightarrow> nat llm_client" where
  "echo_client s = \<lparr>lk_Complete = (\<lambda>w q. (Inr (text_response s), Suc w)),
     lk_CompleteStream = (\<lambda>w q. (([s], Inr (text_response s)), Suc w)), lk_EstimateCost = (\<lambda>q. Inr 1)\<rparr>"

definition json_token :: "node_kind \<Rightarrow> string \<Rightarrow> token" where
  "json_token k s =
     \<lparr>tok_Color = ColorJSON, tok_Payload = PString s, tok_OriginID = [], tok_OriginDepth = 0,
      tok_OriginKind = k, tok_Space = SpaceComputation, tok_SessionID = ''s'', tok_TraceID = []\<rparr>"

definition queue_of :: "string \<Rightarrow> token list \<Rightarrow> place" where
  "queue_of pid ts = (NewPlace pid ColorJSON SpaceComputation)\<lparr>pl_Tokens := ts\<rparr>"

definition copy_tool :: "string \<Rightarrow> string list \<Rightarrow> string list \<Rightarrow> nat transition" where
  "copy_tool tid ins outs =
     (NewTransition tid NodeKindTool ins outs)\<lparr>tr_Executor := Some (\<lambda>w tok. (Inr tok, w))\<rparr>"

definition ai_token :: token where "ai_token = json_token NodeKindTool ''a''"
definition human_token :: token where "human_token = json_token NodeKindHITL ''h''"

text \<open>Two tools compete for place \<open>a\<close>, which holds one token; \<open>t1\<close> wins by its ID.\<close>

definition contest_net :: "nat cpn" where
  "contest_net = NewCPN ''n'' ''r'' 0 ModeMAS ''s''
     [(''a'', queue_of ''a'' [ai_token]), (''b'', queue_of ''b'' [])]
     [(''t2'', copy_tool ''t2'' [''a''] [''b'']), (''t1'', copy_tool ''t1'' [''a''] [''b''])]"

text \<open>A computation that joins a place of AI tokens and a place that also holds a human one.\<close>

definition join_net :: "nat cpn" where
  "join_net = NewCPN ''n'' ''r'' 0 ModeCentaurian ''s''
     [(''a'', queue_of ''a'' [ai_token, human_token]), (''b'', queue_of ''b'' [])]
     [(''t1'', copy_tool ''t1'' [''a''] [''b''])]"

lemma quiet_env_sound: "env_sound quiet_env"
  by (simp add: env_sound_def quiet_env_def)

lemma queue_of_wt: "wt_place (queue_of pid ts) \<longleftrightarrow>
    list_all (\<lambda>t. tok_Color t = ColorJSON \<and> tok_Space t = SpaceComputation) ts"
  by (auto simp: wt_place_def queue_of_def NewPlace_def accepts_def list_all_iff)

end
