(* ===== verification/Engine_Properties.thy ===== *)
theory Engine_Properties
  imports Sample_Nets
begin

text \<open>
  The properties of the executor and of the net it runs: typing, conservation of tokens, the guard
  of the Centaurian mode, independence of Go's map order, completion, progress.
\<close>

section \<open>Runs\<close>

text \<open>
  C1: a whole run keeps the marking well typed: however many iterations it takes and however it
  ends, every token in every place, the ones a mutation created included, has the colour and the
  space of its place, so no token crosses a space outside the deposits that restamp it.
\<close>
theorem Run_well_typed:
  assumes "env_sound env" and "wt_net c" and "Run env n w c = Some (r, w', c')"
  shows "wt_net c'"
proof -
  have wt: "wt_net (setState s d) = wt_net d" "wt_net (setFailed e d) = wt_net d" for s e and d :: "'a cpn"
    by (simp_all add: wt_net_def)
  show ?thesis
    using assms run_loop_wt[OF assms(1)] by (auto simp: Run_def wt split: option.splits)
qed

lemma contest_net_run:
  "case Run quiet_env 3 0 contest_net of
     Some (RunReturn None, w', c') \<Rightarrow>
       map (\<lambda>(k, p). (k, map tok_Payload (pl_Tokens p))) (c_Places c') =
         [(''a'', []), (''b'', [PString ''a''])] \<and> c_State c' = StateCompleted
   | _ \<Rightarrow> False"
  by code_simp

lemma contest_run:
  obtains w' c' where "Run quiet_env 3 0 contest_net = Some (RunReturn None, w', c')"
    "c_State c' = StateCompleted"
  using contest_net_run by (auto split: option.splits prod.splits run_end.splits)

lemma contest_net_wt: "wt_net contest_net"
  unfolding wt_net_def contest_net_def NewCPN_def
  by (auto simp: queue_of_wt ai_token_def json_token_def split: if_splits)

theorem Run_well_typed_witness:
  "\<exists>w' c'. Run quiet_env 3 0 contest_net = Some (RunReturn None, w', c') \<and> wt_net c'"
proof -
  obtain w' c' where r: "Run quiet_env 3 0 contest_net = Some (RunReturn None, w', c')"
    by (rule contest_run)
  with Run_well_typed[OF quiet_env_sound contest_net_wt r] show ?thesis by blast
qed

text \<open>
  C3: a run that returns no error ends completed: its state is \<open>StateCompleted\<close>, there is a terminal
  place and every terminal place holds a token. The hypothesis is that the firings that are not
  modelled and the sub-net goroutines record an error when they fail the net.
\<close>
theorem Run_completed:
  assumes "env_recording env" and "Run env n w c = Some (RunReturn None, w', c')"
  shows "c_State c' = StateCompleted \<and> IsComplete c'"
proof -
  have r: "run_loop env n w (setState StateRunning c) = Some (RunReturn None, w', c')"
    using assms(2) by (simp add: Run_def split: option.splits)
  have "recorded (setState StateRunning c)" by simp
  from run_loop_completed[OF assms(1) this r] show ?thesis by (simp add: completed_def)
qed

lemma quiet_env_recording: "env_recording quiet_env"
  by (simp add: env_recording_def quiet_env_def)

theorem Run_completed_witness:
  "\<exists>w' c'. Run quiet_env 3 0 contest_net = Some (RunReturn None, w', c') \<and> IsComplete c'"
proof -
  obtain w' c' where r: "Run quiet_env 3 0 contest_net = Some (RunReturn None, w', c')"
    by (rule contest_run)
  with Run_completed[OF quiet_env_recording r] show ?thesis by blast
qed

text \<open>
  C2: \<open>Run\<close> ends. If every transition consumes more weight than it deposits, its error place
  included, then as many iterations as the marking weighs, plus one, are enough, for every clock,
  cancellation, executor, validator, human answer and order of completion. It covers the nets of
  tool, validation and human-in-the-loop transitions without retry.
\<close>
theorem Run_terminates:
  assumes "still_env env" and "tame_net W c"
  shows "\<exists>r. Run env (Suc (weight W (c_Places c))) w c = Some r"
proof (cases "Validate (c_Places c) (c_Transitions c)")
  case None
  have "tame_net W (setState StateRunning c)" using tame_net_still[OF still_steps(8)] assms(2) by blast
  from run_loop_returns[OF assms(1) this] None show ?thesis by (simp add: Run_def del: run_loop.simps)
next
  case (Some e)
  then show ?thesis by (simp add: Run_def)
qed

lemma quiet_env_still: "still_env quiet_env"
  by (simp add: still_env_def quiet_env_def still_steps)

definition contest_weight :: "string \<Rightarrow> nat" where
  "contest_weight pid = (if pid = ''a'' then 1 else 0)"

lemma contest_tame: "tame_net contest_weight contest_net"
  by (simp add: tame_net_def contest_net_def NewCPN_def tame_def copy_tool_def NewTransition_def
      bounded_kind_def out_weight_def err_weight_def contest_weight_def)

theorem Run_terminates_witness:
  "\<exists>r. Run quiet_env (Suc (weight contest_weight (c_Places contest_net))) 0 contest_net = Some r"
  by (rule Run_terminates[OF quiet_env_still contest_tame])

section \<open>Batches\<close>

text \<open>
  C4: selecting a batch neither loses nor invents a token. What the batch took from a place, in the
  order of its firings, followed by what is left there, is exactly the queue before: every place is
  consumed from the front.
\<close>
theorem batch_conserves:
  assumes "no_breakers c" and "distinct (map fst (c_Transitions c))" and "distinct_inputs c"
    and "select_batch now w c = (fs, w', c')" and "map_of (c_Places c) pid = Some p"
  shows "\<exists>p'. map_of (c_Places c') pid = Some p' \<and> p' = p\<lparr>pl_Tokens := pl_Tokens p'\<rparr> \<and>
    pl_Tokens p = taken pid fs @ pl_Tokens p'"
proof -
  have "plan_batch c (sort_key (transition_id c) (firable_keys c)) = (fs, c')"
    using assms(4) select_batch_plan[OF assms(1,2)] by (simp add: prod_eq_iff)
  from plan_batch_conserves[OF assms(3) this assms(5)] show ?thesis .
qed

lemma contest_plain:
  "no_breakers contest_net" "distinct (map fst (c_Transitions contest_net))" "distinct_inputs contest_net"
  "distinct (map (tr_ID \<circ> snd) (c_Transitions contest_net))"
  by (auto simp: no_breakers_def distinct_inputs_def contest_net_def NewCPN_def copy_tool_def
      NewTransition_def split: if_splits)

lemma contest_place: "map_of (c_Places contest_net) ''a'' = Some (queue_of ''a'' [ai_token])"
  by (simp add: contest_net_def NewCPN_def)

theorem batch_conserves_witness:
  "\<exists>fs w' c' p'. select_batch (en_now quiet_env) 0 contest_net = (fs, w', c') \<and>
     map_of (c_Places c') ''a'' = Some p' \<and> [ai_token] = taken ''a'' fs @ pl_Tokens p'"
proof -
  obtain fs w' c' where s: "select_batch (en_now quiet_env) 0 contest_net = (fs, w', c')"
    by (metis prod_cases3)
  from batch_conserves[OF contest_plain(1-3) s contest_place] s show ?thesis
    by (fastforce simp: queue_of_def)
qed

text \<open>
  C5: what a batch may contain. Every firing belongs to a transition of the net that is neither an
  observer nor deprecated, its tokens were taken from a marking in which it was enabled, and in the
  Centaurian mode a transition that deposits into computation, unless it is itself a human-in-the-loop
  one, saw a token of human origin and one of another origin in its input places.
\<close>
theorem batch_guarded:
  assumes "no_breakers c" and "distinct (map fst (c_Transitions c))"
    and "select_batch now w c = (fs, w', c')" and "f \<in> set fs"
  shows "map_of (c_Transitions c) (fr_Key f) = Some (fr_Transition f) \<and>
    tr_Kind (fr_Transition f) \<noteq> NodeKindObserver \<and> \<not> tr_Deprecated (fr_Transition f) \<and>
    (\<exists>places ts. peek_inputs places (tr_InputPlaces (fr_Transition f)) = Some ts \<and>
       fst (consumeAll (tr_InputPlaces (fr_Transition f)) places) = fr_Consumed f \<and>
       (c_Mode c = ModeCentaurian \<and> tr_Kind (fr_Transition f) \<noteq> NodeKindHITL \<and>
        isComputationTransition c (fr_Transition f) \<longrightarrow>
        (\<exists>h\<in>set ts. IsHumanOrigin h) \<and> (\<exists>a\<in>set ts. \<not> IsHumanOrigin a)))"
proof -
  let ?t = "fr_Transition f"
  have p: "plan_batch c (sort_key (transition_id c) (firable_keys c)) = (fs, c')"
    using assms(3) select_batch_plan[OF assms(1,2)] by (simp add: prod_eq_iff)
  from plan_batch_enabled[OF p assms(4)] obtain places where
    t: "map_of (c_Transitions c) (fr_Key f) = Some ?t" "fr_Key f \<in> set (firable_keys c)" and
    cf: "can_fire (c\<lparr>c_Places := places\<rparr>) ?t" and
    ca: "fst (consumeAll (tr_InputPlaces ?t) places) = fr_Consumed f" and
    sp: "map (\<lambda>(k, p). (k, pl_Space p)) places = map (\<lambda>(k, p). (k, pl_Space p)) (c_Places c)"
    by auto
  from cf obtain ts where ts: "peek_inputs places (tr_InputPlaces ?t) = Some ts"
    by (auto simp: can_fire_def inputs_ready_def split: option.splits if_splits)
  have "enabled c ?t" using t firable_keys_iff[OF assms(2)] by auto
  moreover have "(\<exists>h\<in>set ts. IsHumanOrigin h) \<and> (\<exists>a\<in>set ts. \<not> IsHumanOrigin a)"
    if "c_Mode c = ModeCentaurian" "tr_Kind ?t \<noteq> NodeKindHITL" "isComputationTransition c ?t"
    using guard_centaurian[OF cf] that ts by (auto simp: isComputation_spaces[OF sp] centaurianGuard_iff)
  ultimately show ?thesis using t ts ca by (auto simp: enabled_def can_fire_def)
qed

lemma join_plain: "no_breakers join_net" "distinct (map fst (c_Transitions join_net))"
  by (auto simp: no_breakers_def join_net_def NewCPN_def copy_tool_def NewTransition_def)

lemma join_batch:
  "(case select_batch (en_now quiet_env) 0 join_net of
     ([f], w', c') \<Rightarrow> fr_Key f = ''t1'' \<and> fr_Consumed f = [ai_token] | _ \<Rightarrow> False)"
  by code_simp

theorem batch_guarded_witness:
  "\<exists>fs w' c' f ts. select_batch (en_now quiet_env) 0 join_net = (fs, w', c') \<and> f \<in> set fs \<and>
     fr_Consumed f = [ai_token] \<and> tr_Kind (fr_Transition f) \<noteq> NodeKindObserver"
proof -
  obtain fs w' c' where s: "select_batch (en_now quiet_env) 0 join_net = (fs, w', c')"
    by (metis prod_cases3)
  with join_batch obtain f where f: "fs = [f]" "fr_Consumed f = [ai_token]"
    by (auto split: list.splits)
  then have "f \<in> set fs" by simp
  from batch_guarded[OF join_plain s this] s f show ?thesis by auto
qed

text \<open>
  C6: the order of Go's map iteration is invisible. Permute the transition map: the batch has the
  same firings with the same tokens, and leaves the same marking.
\<close>
theorem batch_map_order:
  assumes "no_breakers c" and "distinct (map fst (c_Transitions c))"
    and "distinct (map (tr_ID \<circ> snd) (c_Transitions c))" and "mset ts = mset (c_Transitions c)"
  shows "fst (select_batch now w (c\<lparr>c_Transitions := ts\<rparr>)) = fst (select_batch now w c) \<and>
    c_Places (snd (snd (select_batch now w (c\<lparr>c_Transitions := ts\<rparr>)))) =
    c_Places (snd (snd (select_batch now w c)))"
proof -
  let ?d = "c\<lparr>c_Transitions := ts\<rparr>"
  have st: "set ts = set (c_Transitions c)" by (rule mset_eq_setD[OF assms(4)])
  have nb: "no_breakers ?d" using assms(1) by (simp add: no_breakers_def st)
  have "mset (map fst ts) = mset (map fst (c_Transitions c))" using assms(4) by simp
  then have k: "distinct (map fst ts)" using assms(2) by (rule mset_eq_imp_distinct_iff[THEN iffD2])
  have m: "map_of ts = map_of (c_Transitions c)"
    using map_of_inject_set[OF k assms(2)] st by simp
  have kd: "distinct (map fst (c_Transitions ?d))" using k by simp
  show ?thesis
    unfolding select_batch_plan[OF assms(1,2)] select_batch_plan[OF nb kd] firable_order[OF assms(4,2,3)]
      plan_batch_map_order[OF m]
    by simp
qed

theorem batch_map_order_witness:
  "fst (select_batch (en_now quiet_env) 0
     (contest_net\<lparr>c_Transitions := rev (c_Transitions contest_net)\<rparr>)) =
   fst (select_batch (en_now quiet_env) 0 contest_net)"
  using batch_map_order[OF contest_plain(1,2,4), of "rev (c_Transitions contest_net)"] by simp

text \<open>
  C7: as long as something is enabled, an iteration makes progress: the batch is not empty, its first
  firing is enabled, and the iteration fires it.
\<close>
theorem iteration_progress:
  assumes "fst (en_done env w) = None" and "drained env w c = (w3, c3)" and "no_breakers c3"
    and "distinct (map fst (c_Transitions c3))"
    and "map_of (c_Transitions c3) k = Some t" and "enabled c3 t"
  shows "\<exists>f fs c5. select_batch (en_now env) w3 c3 = (f # fs, w3, c5) \<and>
    enabled c3 (fr_Transition f) \<and> run_iter env w c = run_batch env (f # fs) w3 c5"
proof -
  have "firable_keys c3 \<noteq> []" using firable_keys_iff[OF assms(4)] assms(5,6) by force
  from run_iter_progress[OF assms(1-4) this] show ?thesis
    by (auto simp: select_batch_plan[OF assms(3,4)])
qed

lemma contest_enabled: "\<exists>t. map_of (c_Transitions contest_net) ''t1'' = Some t \<and> enabled contest_net t"
  by (simp add: contest_net_def NewCPN_def enabled_def can_fire_def copy_tool_def NewTransition_def
      inputs_ready_def queue_of_def Peek_def NewPlace_def effectiveGuard_def)

theorem iteration_progress_witness:
  "\<exists>f fs c5. select_batch (en_now quiet_env) 0 contest_net = (f # fs, 0, c5) \<and>
     run_iter quiet_env 0 contest_net = run_batch quiet_env (f # fs) 0 c5"
proof -
  obtain t where t: "map_of (c_Transitions contest_net) ''t1'' = Some t" "enabled contest_net t"
    using contest_enabled by blast
  have "fst (en_done quiet_env 0) = None" "drained quiet_env 0 contest_net = (0, contest_net)"
    by (simp_all add: quiet_env_def drained_def drainObservers_def observers_of_def contest_net_def
        NewCPN_def)
  from iteration_progress[OF this contest_plain(1,2) t] show ?thesis by blast
qed

end
