(* ===== verification/Firing_Properties.thy ===== *)
theory Firing_Properties
  imports Sample_Nets
begin

text \<open>
  The properties of the net operations and of the firings: queues, validation, mutation, modes,
  observers, retry, human-in-the-loop rounds, validated deposits, streamed output.
\<close>

section \<open>Nets\<close>

text \<open>
  a place is a guarded queue. Deposits that are all admitted succeed in order, and consuming as
  many tokens gives them back in the same order and leaves the place empty.
\<close>
theorem place_fifo:
  assumes "pl_Tokens p = []" and "list_all (accepts p) ts"
  shows "\<exists>p1 p2. put_seq Deposit p ts = Inr p1 \<and> get_seq Consume (length ts) p1 = Inr (ts, p2) \<and>
    pl_Tokens p2 = []"
  using assms by (rule plq.fifo)

theorem place_fifo_witness:
  "\<exists>p1 p2. put_seq Deposit (queue_of ''a'' []) [ai_token, human_token] = Inr p1 \<and>
     get_seq Consume (length [ai_token, human_token]) p1 = Inr ([ai_token, human_token], p2) \<and>
     pl_Tokens p2 = []"
  by (rule place_fifo)
    (simp_all add: queue_of_def NewPlace_def accepts_def ai_token_def human_token_def json_token_def)

text \<open>
  C8: the validation is sound and complete: it reports nothing exactly when every transition of the
  net is well formed, and it reports an invalid arc exactly when some arc dangles.
\<close>
theorem Validate_correct:
  "(Validate places trs = None) = (\<forall>k t. map_of trs k = Some t \<longrightarrow> wf_transition places t) \<and>
   (\<exists>e. Validate places trs = Some e \<and> err_is e ErrInvalidArc) =
   (\<exists>k t. map_of trs k = Some t \<and> \<not> arcs_ok places t)"
  unfolding validate_ok_wf Validate_err_is check_transition_invalid_arc by (rule conjI) (rule refl)+

theorem Validate_correct_witness:
  "Validate (c_Places contest_net) (c_Transitions contest_net) = None \<and>
   wf_transition (c_Places contest_net) (copy_tool ''t1'' [''a''] [''b''])"
proof -
  have "Validate (c_Places contest_net) (c_Transitions contest_net) = None" by code_simp
  moreover have "map_of (c_Transitions contest_net) ''t1'' = Some (copy_tool ''t1'' [''a''] [''b''])"
    by (simp add: contest_net_def NewCPN_def)
  ultimately show ?thesis
    using Validate_correct[of "c_Places contest_net" "c_Transitions contest_net"] by blast
qed

text \<open>
  C12: an accepted mutation leaves a valid net. A rejected one leaves the places as they were, and the
  transitions too, but for the one a deprecation has already marked: the snapshot shares it.
\<close>
theorem Mutate_safe:
  assumes "distinct (map fst (c_Places c))" and "distinct (map fst (c_Transitions c))"
    and "Mutate m c = (r, c')"
  shows "case r of None \<Rightarrow> Validate (c_Places c') (c_Transitions c') = None
    | Some e \<Rightarrow> c_Places c' = c_Places c \<and>
        (c_Transitions c' = c_Transitions c \<or>
         mu_Kind m = MutationDeprecateTransition \<and>
         (\<exists>t. map_of (c_Transitions c) (mu_DeprecateTransitionID m) = Some t \<and>
            (\<forall>k. map_of (c_Transitions c') k =
               (if k = mu_DeprecateTransitionID m
                then Some (t\<lparr>tr_Deprecated := True, tr_DeprecateReason := mu_DeprecateReason m\<rparr>)
                else map_of (c_Transitions c) k))))"
proof (cases r)
  case None
  with assms(3) Mutate_ok_valid show ?thesis by simp
next
  case (Some e)
  then have "Mutate m c = (Some e, c')" using assms(3) by simp
  note r = Mutate_error_places[OF assms(1) this] Mutate_error_transitions[OF assms(2) this]
  show ?thesis unfolding Some option.case by (intro conjI) (fact r)+
qed

definition add_b2 :: mutation where
  "add_b2 = \<lparr>mu_Kind = MutationAddPlace, mu_RequestedBy = [], mu_Reason = [],
     mu_AddPlace = Some \<lparr>pd_ID = ''b2'', pd_Color = ColorJSON, pd_Space = SpaceComputation\<rparr>,
     mu_AddTransition = None, mu_DeprecateTransitionID = [], mu_DeprecateReason = []\<rparr>"

lemma add_b2_ok: "fst (Mutate add_b2 (contest_net\<lparr>c_MutableAfterStart := True\<rparr>)) = None"
  by code_simp

theorem Mutate_safe_witness:
  "\<exists>c'. Mutate add_b2 (contest_net\<lparr>c_MutableAfterStart := True\<rparr>) = (None, c') \<and>
     Validate (c_Places c') (c_Transitions c') = None"
proof -
  let ?c = "contest_net\<lparr>c_MutableAfterStart := True\<rparr>"
  obtain c' where m: "Mutate add_b2 ?c = (None, c')" using add_b2_ok by (metis prod.collapse)
  have "distinct (map fst (c_Places ?c))" "distinct (map fst (c_Transitions ?c))"
    by (simp_all add: contest_net_def NewCPN_def)
  from Mutate_safe[OF this m] m show ?thesis by simp
qed

text \<open>
  the mode follows the marking. After \<open>checkModeSwitch\<close> a net in one of the two modes is
  Centaurian if a human token waits in computation, and back in the autonomous mode if there is none
  and no human-in-the-loop transition has its inputs.
\<close>
theorem checkModeSwitch_mode:
  assumes "checkModeSwitch now w c = (w', c')" and "c_Mode c \<in> {ModeMAS, ModeCentaurian}"
    and "\<not> hasHumanInComputation c \<Longrightarrow> list_all (\<lambda>(k, t). tr_Kind t = NodeKindHITL \<longrightarrow>
      tr_Deprecated t \<or> \<not> inputs_ready (c_Places c) (tr_InputPlaces t) (tr_Guard t)) (c_Transitions c)"
  shows "c_Mode c' = (if hasHumanInComputation c then ModeCentaurian else ModeMAS) \<and>
    c_Places c' = c_Places c"
proof -
  have no: "fst (hitl_firable now places ts w) = False"
    if "list_all (\<lambda>(k, t). tr_Kind t = NodeKindHITL \<longrightarrow>
      tr_Deprecated t \<or> \<not> inputs_ready places (tr_InputPlaces t) (tr_Guard t)) ts" for places ts and w :: 'a
    using that
  proof (induction now places ts w rule: hitl_firable.induct)
    case (2 now places k t ts w)
    show ?case
    proof (cases "tr_Kind t = NodeKindHITL")
      case True
      obtain ok t' w1 where c: "CanFire now t places w = (ok, t', w1)" by (metis prod_cases3)
      have "\<not> ok" using 2(3) True c
        by (auto simp: CanFire_def canFireWith_def Let_def split: if_splits prod.splits)
      with 2(1)[OF True c[symmetric] refl] 2(3) True c show ?thesis by (auto split: prod.splits)
    next
      case False
      with 2(2)[OF False] 2(3) show ?thesis by (auto split: prod.splits)
    qed
  qed simp
  show ?thesis
  proof (cases "hasHumanInComputation c")
    case True
    with assms(1,2) show ?thesis by (auto simp: checkModeSwitch_def Let_def)
  next
    case False
    obtain ts w1 where "hitl_firable now (c_Places c) (c_Transitions c) w = (False, ts, w1)"
      using no[OF assms(3)[OF False], of w] by (metis prod.collapse)
    with False assms(1,2) show ?thesis by (auto simp: checkModeSwitch_def Let_def)
  qed
qed

theorem checkModeSwitch_mode_witness:
  "c_Mode (snd (checkModeSwitch (en_now quiet_env) 0 (contest_net\<lparr>c_Mode := ModeCentaurian\<rparr>))) = ModeMAS"
proof -
  let ?c = "contest_net\<lparr>c_Mode := ModeCentaurian\<rparr>"
  have h: "\<not> hasHumanInComputation ?c" by code_simp
  have "c_Mode ?c \<in> {ModeMAS, ModeCentaurian}" by simp
  moreover have "list_all (\<lambda>(k, t). tr_Kind t = NodeKindHITL \<longrightarrow>
      tr_Deprecated t \<or> \<not> inputs_ready (c_Places ?c) (tr_InputPlaces t) (tr_Guard t)) (c_Transitions ?c)"
    by (simp add: contest_net_def NewCPN_def copy_tool_def NewTransition_def)
  moreover obtain w' c' where s: "checkModeSwitch (en_now quiet_env) 0 ?c = (w', c')" by force
  ultimately show ?thesis using checkModeSwitch_mode[OF s] h by (simp add: s)
qed

text \<open>
  draining delivers every event to every observer that watches it. An observation place of the
  event colour gets, in the order of the events and observers, one token per delivery and nothing
  else, and keeps what it held.
\<close>
theorem drain_delivers:
  assumes "map_of (c_Places c) pid = Some p" and "pl_Color p = ColorEvent" and "pl_Space p = SpaceObservation"
    and "observers_of c \<noteq> []" and "c_subNetBuses c \<noteq> []"
  shows "map_of (c_Places (drainObservers env c)) pid =
      Some (p\<lparr>pl_Tokens := pl_Tokens p @
        concat (map (event_copies env (observers_of c) pid (c_SessionID c)) (pending_events c))\<rparr>) \<and>
    pending_events (drainObservers env c) = []"
proof -
  have bus: "pending_events (offer tok q d) = pending_events d" for tok q and d :: "'a cpn"
    by (auto simp: offer_def put_place_def pending_events_def split: option.splits sum.splits)
  have "pending_events (fold (offer tok) pids d) = pending_events d" for tok pids and d :: "'a cpn"
    by (induction pids arbitrary: d) (simp_all add: bus)
  then have "pending_events (dispatch_event env obss e d) = pending_events d" for obss e and d :: "'a cpn"
    unfolding dispatch_event_def by (induction obss arbitrary: d) simp_all
  then have "pending_events (fold (dispatch_event env obss) es d) = pending_events d" for obss es and d :: "'a cpn"
    by (induction es arbitrary: d) simp_all
  moreover have "pending_events (clear_buses c) = []"
    by (simp add: pending_events_def clear_buses_def comp_def case_prod_beta split: option.splits)
  ultimately show ?thesis
    using drain_effect[OF assms(1-3)] assms(4,5) by (simp add: drainObservers_def)
qed

definition watch_net :: "nat cpn" where
  "watch_net = (NewCPN ''n'' ''r'' 0 ModeMAS ''s''
     [(''o'', NewPlace ''o'' ColorEvent SpaceObservation)]
     [(''w'', NewTransition ''w'' NodeKindObserver [] [''o''])])
     \<lparr>c_subNetBuses := [(''kid'', [mk_event EventStreamChunk [] no_kind None EvNil])]\<rparr>"

theorem drain_delivers_witness:
  "\<exists>p. map_of (c_Places (drainObservers quiet_env watch_net)) ''o'' = Some p \<and>
     length (pl_Tokens p) = 1 \<and> pending_events (drainObservers quiet_env watch_net) = []"
proof -
  have e: "observers_of watch_net = [NewTransition ''w'' NodeKindObserver [] [''o'']]"
    "pending_events watch_net = [mk_event EventStreamChunk [] no_kind None EvNil]"
    by (simp_all add: watch_net_def observers_of_def pending_events_def NewCPN_def NewTransition_def)
  have "map_of (c_Places watch_net) ''o'' = Some (NewPlace ''o'' ColorEvent SpaceObservation)"
    "c_subNetBuses watch_net \<noteq> []"
    by (simp_all add: watch_net_def NewCPN_def)
  from drain_delivers[OF this(1) _ _ _ this(2), of quiet_env] show ?thesis
    by (simp add: e NewPlace_def event_copies_def observes_def NewTransition_def)
qed

section \<open>Retry\<close>

text \<open>
  C21: the retry loop, read from a log of the calls it made. It calls the firing at most \<open>MaxAttempts\<close> times (once
  without a policy); every call but the last failed with an error that the policy retries at that attempt; the
  cost is the total of all of them in order. The last call gives the result: its snapshots when it succeeded, its
  error when the attempts are used up or the policy does not retry it, and otherwise the error of the interrupted
  wait. Without a call the breaker was open.
\<close>
theorem doRetry_log:
  assumes "doRetry (logged_env env) retry ocb (logged fire) (s, []) = (r, ocb', (s', calls))"
  shows "(calls = [] \<longrightarrow> snd (snd r) = Some (Sentinel ErrCircuitOpen) \<and> ocb \<noteq> None) \<and>
    (calls \<noteq> [] \<longrightarrow> fst (snd r) = total_cost 0 calls \<and>
      (case retry of
         None \<Rightarrow> calls = [r]
       | Some rp \<Rightarrow> (let n = nat (max (rp_MaxAttempts rp) 1) in length calls \<le> n \<and>
           (\<forall>k. Suc k < length calls \<longrightarrow> (\<exists>e. snd (snd (calls ! k)) = Some e \<and> retryable rp e (Suc k))) \<and>
           (case snd (snd (last calls)) of
              None \<Rightarrow> fst r = fst (last calls) \<and> snd (snd r) = None
            | Some e \<Rightarrow> fst r = [] \<and>
                (snd (snd r) = Some e \<and> (length calls = n \<or> \<not> retryable rp e (length calls)) \<or>
                 (retryable rp e (length calls) \<and> length calls < n \<and>
                   (\<exists>s e' s'. re_sleep env (backoffDuration (re_ovf env) rp (length calls)) s = (Some e', s') \<and>
                     snd (snd r) = Some e')))))))"
proof -
  obtain ok ocb1 s1 where ca: "cb_allow env ocb s = (ok, ocb1, s1)" by (metis prod_cases3)
  note cal = cb_allow_logged[of env ocb s "[]", unfolded ca Let_def prod.case]
  have open_breaker: "ocb \<noteq> None" if "\<not> ok" using ca that by (cases ocb) (auto simp: cb_allow_def)
  show ?thesis
  proof (cases "ok \<and> retry \<noteq> None")
    case True
    then obtain rp where rp: "retry = Some rp" by blast
    let ?n = "nat (max (rp_MaxAttempts rp) 1)"
    have l: "retry_loop (logged_env env) rp (logged fire) ?n 1 0 None ocb1 (s1, []) = (r, ocb', (s', calls))"
      using assms True by (simp add: doRetry_def cal rp)
    have "0 < ?n" by simp
    from retry_loop_log[OF l this] have calls: "calls \<noteq> []" "length calls \<le> ?n" "log_ok env rp ?n 1 r calls"
      "fst (snd r) = total_cost 0 calls" by auto
    have len: "Suc ?n - length calls = 1 \<longleftrightarrow> length calls = ?n" "1 < Suc ?n - length calls \<longleftrightarrow> length calls < ?n"
      "1 + length calls - 1 = length calls" using calls(1,2) by auto
    have "log_ends env rp (Suc ?n - length calls) (1 + length calls - 1) r (last calls)"
      using calls(3) by (simp add: log_ok_def)
    note last = this[unfolded log_ends_def len]
    show ?thesis using calls(1,2,4) last calls(3) by (simp add: rp Let_def log_ok_def)
  next
    case False
    obtain snaps cost err s2 where f: "fire s1 = ((snaps, cost, err), s2)" by (metis prod.exhaust)
    obtain ocb2 s3 where cf: "cb_failure env ocb1 s2 = (ocb2, s3)" by force
    have lf: "logged fire (s1, []) = ((snaps, cost, err), (s2, [(snaps, cost, err)]))"
      by (simp add: logged_def f)
    show ?thesis
    proof (cases ok)
      case True
      with False have "retry = None" by simp
      with assms True show ?thesis
        by (cases err) (auto simp: doRetry_def cal fireOnce_def lf cb_failure_logged cf total_cost_def)
    next
      case no: False
      with assms open_breaker show ?thesis by (auto simp: doRetry_def cal)
    qed
  qed
qed

definition tick_env :: "nat retry_env" where
  "tick_env = \<lparr>re_now = (\<lambda>s. (int s, s)), re_sleep = (\<lambda>d s. (None, s)), re_ovf = 0\<rparr>"

definition third_time :: "nat \<Rightarrow> fire_out \<times> nat" where
  "third_time s = (([], 1, if s < 2 then Some (Plain []) else None), Suc s)"

lemma third_time_run:
  "\<exists>r ocb' s' calls. doRetry (logged_env tick_env) (Some DefaultRetryPolicy) None (logged third_time) (0, []) =
     (r, ocb', (s', calls)) \<and> length calls = 3"
  by (simp add: doRetry_def cb_allow_def DefaultRetryPolicy_def logged_def third_time_def logged_env_def
      tick_env_def cb_failure_def cb_success_def numeral_3_eq_3)

theorem doRetry_log_witness:
  "\<exists>r ocb' s' calls. doRetry (logged_env tick_env) (Some DefaultRetryPolicy) None (logged third_time) (0, []) =
     (r, ocb', (s', calls)) \<and> length calls = 3 \<and> fst (snd r) = total_cost 0 calls \<and>
     (\<exists>e. snd (snd (calls ! 0)) = Some e \<and> retryable DefaultRetryPolicy e 1)"
proof -
  obtain r ocb' s' calls where
    d: "doRetry (logged_env tick_env) (Some DefaultRetryPolicy) None (logged third_time) (0, []) =
     (r, ocb', (s', calls))" and l: "length calls = 3"
    using third_time_run by blast
  then have c: "calls \<noteq> []" "Suc 0 < length calls" by auto
  note log = doRetry_log[OF d]
  have "fst (snd r) = total_cost 0 calls" using log c(1) by blast
  moreover have "\<exists>e. snd (snd (calls ! 0)) = Some e \<and> retryable DefaultRetryPolicy e 1"
    using log c by (auto simp: Let_def)
  ultimately show ?thesis using d l by blast
qed

text \<open>
  the circuit breaker after any history of events. Its count is the number of failures since the
  last success; from a fresh breaker, it refuses a call exactly when it is tripped and the open period is
  not over; and once it lets a call through after being tripped, one more failure trips it again at
  that moment.
\<close>
theorem breaker_history:
  "let cb = breaker_run es (NewCircuitBreakerState cfg)
   in cb_Failures cb = failures_since es 0 \<and>
      fst (Allow now cb) = (case cb_TrippedAt cb of None \<Rightarrow> True
        | Some t \<Rightarrow> t + bc_OpenDuration cfg < now) \<and>
      (case cb_TrippedAt cb of None \<Rightarrow> True
        | Some t \<Rightarrow> \<not> fst (Allow now cb) \<or> cb_TrippedAt (RecordFailure now' (snd (Allow now cb))) = Some now')"
proof -
  let ?cb = "breaker_run es (NewCircuitBreakerState cfg)"
  have inv: "breaker_inv ?cb" by (rule breaker_run_inv[OF breaker_inv_new])
  have "cb_Config ?cb = cfg" by (simp add: breaker_run_config NewCircuitBreakerState_def)
  moreover have "cb_Failures ?cb = failures_since es 0"
    by (simp add: breaker_run_failures NewCircuitBreakerState_def)
  ultimately show ?thesis
    using Allow_refuses_iff[of now ?cb] half_open_failure_retrips[OF inv]
    by (auto simp: Let_def split: option.splits)
qed

theorem breaker_history_witness:
  "let cb = breaker_run [EvFailure 5, EvFailure 7] (NewCircuitBreakerState
       \<lparr>bc_FailureThreshold = 2, bc_OpenDuration = 10\<rparr>)
   in cb_Failures cb = 2 \<and> \<not> fst (Allow 17 cb) \<and> fst (Allow 18 cb)"
  using breaker_history[of "[EvFailure 5, EvFailure 7]"
      "\<lparr>bc_FailureThreshold = 2, bc_OpenDuration = 10\<rparr>" 17]
    breaker_history[of "[EvFailure 5, EvFailure 7]"
      "\<lparr>bc_FailureThreshold = 2, bc_OpenDuration = 10\<rparr>" 18]
  by (simp add: Let_def breaker_run_def RecordFailure_def NewCircuitBreakerState_def)

text \<open>
  the backoff between two attempts never exceeds \<open>MaxWait\<close>, and inside the range of \<open>int64\<close> it
  is the initial wait times the multiplier to the attempts made, rounded down, or \<open>MaxWait\<close>.
\<close>
theorem backoff_bounded:
  "backoffDuration ovf rp attempt \<le> rp_MaxWait rp \<and>
   (0 \<le> rp_InitialWait rp \<and> 1 \<le> rp_Multiplier rp \<and>
    real_of_int (rp_InitialWait rp) * rp_Multiplier rp ^ (attempt - 1) < 2 ^ 63 \<longrightarrow>
    backoffDuration ovf rp attempt =
      min \<lfloor>real_of_int (rp_InitialWait rp) * rp_Multiplier rp ^ (attempt - 1)\<rfloor> (rp_MaxWait rp))"
  using backoffDuration_in_range[of rp attempt ovf] by (simp add: backoffDuration_def Let_def)

theorem backoff_bounded_witness:
  "backoffDuration 0 DefaultRetryPolicy 2 = 10 ^ 9"
  using backoff_bounded[of 0 DefaultRetryPolicy 2] by (simp add: DefaultRetryPolicy_def)

section \<open>Firings\<close>

text \<open>
  the human revision loop is bounded. However the human answers, a firing goes through at most
  \<open>MaxRevisions\<close> revisions plus a last round; each round before the last asked for another one, and
  the firing returns what the last round decided.
\<close>
theorem revisions_bounded:
  assumes "tr_HITLConfig t = Some cfg" and "hc_Channel cfg = Some recv" and "0 \<le> hc_MaxRevisions cfg"
    and "fireHITLWithRevision env t toks w c = (out, w', c')"
  shows "\<exists>agains. revision_trace env t cfg recv (hc_Prompt cfg) 0 0 w c = agains @ [RoundDone out] \<and>
    int (length agains) \<le> hc_MaxRevisions cfg \<and> (\<forall>a\<in>set agains. \<exists>p k. a = RoundAgain p k)"
proof -
  have l: "revision_loop env t cfg recv (hc_Prompt cfg) 0 0 w c = (out, w', c')"
    using assms by (simp add: fireHITLWithRevision_def)
  from revision_loop_trace[OF l] obtain ags where
    a: "revision_trace env t cfg recv (hc_Prompt cfg) 0 0 w c = ags @ [RoundDone out]"
      "\<forall>a\<in>set ags. \<exists>p k. a = RoundAgain p k" by blast
  have "length (ags @ [RoundDone out]) \<le> nat (hc_MaxRevisions cfg - 0) + 1"
    using revision_trace_bound[of env t cfg recv "hc_Prompt cfg" 0 0 w c] a(1) by simp
  with a assms(3) show ?thesis by (intro exI[of _ ags]) auto
qed

definition revise_config :: "nat hitl_config" where
  "revise_config = \<lparr>hc_Channel = Some (\<lambda>w. (RecvToken (human_token\<lparr>tok_Color := ColorHuman,
       tok_Payload := PResponse \<lparr>hr_Action = HITLRevise, hr_Content = ''more''\<rparr>\<rparr>), Suc w)),
     hc_Prompt = ''ok?'', hc_RevisionLoop = True, hc_CorrectionLLMID = ''l'', hc_MaxRevisions = 1,
     hc_A2UIPayloadBuilder = None, hc_OutputBuilder = None\<rparr>"

definition revise_net :: "nat cpn" where
  "revise_net = (NewCPN ''n'' ''r'' 0 ModeMAS ''s'' []
     [(''h'', (NewTransition ''h'' NodeKindHITL [''a''] [])\<lparr>tr_HITLConfig := Some revise_config\<rparr>),
      (''l'', NewTransition ''l'' NodeKindLLM [] [])])
     \<lparr>c_LLMClient := Some (echo_client ''draft'')\<rparr>"

theorem revisions_bounded_witness:
  "\<exists>out w' c' agains recv. hc_Channel revise_config = Some recv \<and>
     fireHITLWithRevision quiet_env
       ((NewTransition ''h'' NodeKindHITL [''a''] [])\<lparr>tr_HITLConfig := Some revise_config\<rparr>) [] 0 revise_net =
     (out, w', c') \<and> int (length agains) \<le> 1 \<and>
     revision_trace quiet_env
       ((NewTransition ''h'' NodeKindHITL [''a''] [])\<lparr>tr_HITLConfig := Some revise_config\<rparr>)
       revise_config recv (hc_Prompt revise_config) 0 0 0 revise_net = agains @ [RoundDone out]"
proof -
  let ?t = "(NewTransition ''h'' NodeKindHITL [''a''] [])\<lparr>tr_HITLConfig := Some revise_config\<rparr>"
  obtain recv where r: "hc_Channel revise_config = Some recv" by (simp add: revise_config_def)
  obtain out w' c' where f: "fireHITLWithRevision quiet_env ?t [] 0 revise_net = (out, w', c')"
    by (metis prod_cases3)
  have "tr_HITLConfig ?t = Some revise_config" "0 \<le> hc_MaxRevisions revise_config"
    by (simp_all add: revise_config_def)
  moreover have "hc_MaxRevisions revise_config = 1" by (simp add: revise_config_def)
  ultimately show ?thesis using revisions_bounded[OF _ r _ f] r f by fastforce
qed

text \<open>What a place of the outputs holds after a deposit of validated payloads.\<close>

definition added :: "'w cpn \<Rightarrow> 'w cpn \<Rightarrow> string \<Rightarrow> (token \<Rightarrow> bool) \<Rightarrow> bool" where
  "added c c' pid P \<longleftrightarrow> (\<forall>q. map_of (c_Places c) pid = Some q \<longrightarrow>
     (\<exists>ts. map_of (c_Places c') pid = Some (q\<lparr>pl_Tokens := pl_Tokens q @ ts\<rparr>) \<and> list_all P ts))"

lemma added_refl: "added c c pid P"
  by (auto simp: added_def intro: exI[of _ "[]"])

lemma added_mono: "added c c' pid P \<Longrightarrow> (\<And>t. P t \<Longrightarrow> Q t) \<Longrightarrow> added c c' pid Q"
  unfolding added_def list_all_iff by meson

lemma deposit_each_added:
  "deposit_each miss wrp mk pids c = (r, ts, c') \<Longrightarrow> (\<And>q p tok. mk q p = Inr tok \<Longrightarrow> P tok) \<Longrightarrow>
   added c c' pid P"
proof (induction miss wrp mk pids c arbitrary: r ts c' rule: deposit_each.induct)
  case (1 miss wrp mk c)
  then show ?case by (simp add: added_refl)
next
  case (2 miss wrp mk q pids c)
  show ?case
  proof (cases "\<exists>p tok p'. map_of (c_Places c) q = Some p \<and> mk q p = Inr tok \<and> Deposit p tok = Inr p'")
    case True
    then obtain p tok p' where
      p: "map_of (c_Places c) q = Some p" "mk q p = Inr tok" "Deposit p tok = Inr p'" by blast
    obtain r1 ts1 c1 where d: "deposit_each miss wrp mk pids (put_place q p' c) = (r1, ts1, c1)"
      by (metis prod_cases3)
    have a: "added (put_place q p' c) c1 pid P" by (rule 2(1)[OF p d 2(3)])
    have "p' = p\<lparr>pl_Tokens := pl_Tokens p @ [tok]\<rparr>" "P tok"
      using p(3) 2(3)[OF p(2)] by (simp_all add: Deposit_Inr_iff)
    then have "added c c1 pid P" using a p(1)
      by (cases "q = pid") (auto simp: added_def put_place_def)
    with 2(2) p d show ?thesis by simp
  next
    case False
    then have "c' = c" using 2(2) by (auto simp: Let_def split: option.splits sum.splits prod.splits)
    then show ?thesis by (simp add: added_refl)
  qed
qed


definition validated :: "'w env \<Rightarrow> validate_config \<Rightarrow> token \<Rightarrow> bool" where
  "validated env cfg tok \<longleftrightarrow> (\<exists>p. validatePayload env p cfg = None \<and>
     tok_Payload tok = (case vc_OnSuccess cfg of None \<Rightarrow> p | Some f \<Rightarrow> f p))"

lemma depositValidated_added:
  assumes "depositValidated env t p col cfg c = (s, r, c')" and "validatePayload env p cfg = None"
  shows "added c c' pid (validated env cfg)"
  using assms
  by (auto simp: depositValidated_def Let_def validated_def fresh_token_def
      split: prod.splits option.splits elim!: deposit_each_added)

lemma routeValidationError_elsewhere:
  "routeValidationError t e p c = (r, c') \<Longrightarrow> pid \<noteq> tr_ErrorPlace t \<Longrightarrow> added c c' pid P"
  by (auto simp: routeValidationError_def put_place_def added_def intro: exI[of _ "[]"]
      split: if_splits option.splits sum.splits)

lemma correction_loop_added:
  assumes "correction_loop env t cfg orig col n i cur le tot w c = (out, w', c')"
    and "pid \<noteq> tr_ErrorPlace t"
  shows "added c c' pid (validated env cfg)"
  using assms(1)
proof (induction n arbitrary: i cur le tot w)
  case 0
  then show ?case by (auto split: prod.splits dest: routeValidationError_elsewhere[OF _ assms(2)])
next
  case (Suc n)
  from Suc.prems show ?case
    by (auto simp: Let_def split: prod.splits option.splits
        dest: depositValidated_added Suc.IH intro: added_refl)
qed

text \<open>
  C22: whatever the outcome of a validation firing, corrections included, a place other than the error
  place keeps its tokens and gains only tokens whose payload comes from one that passed the check.
\<close>
theorem fireValidate_only_valid:
  assumes "tr_ValidateConfig t = Some cfg" and "fireValidate env t toks w c = (out, w', c')"
    and "pid \<noteq> tr_ErrorPlace t"
  shows "added c c' pid (validated env cfg)"
  using assms(2)
  by (auto simp: fireValidate_def assms(1) Let_def
      split: option.splits list.splits prod.splits if_splits intro: added_refl
      dest: depositValidated_added routeValidationError_elsewhere[OF _ assms(3)]
        correction_loop_added[OF _ assms(3)])

definition check_config :: validate_config where
  "check_config = \<lparr>vc_Schema = None,
     vc_ValidateFunc = Some (\<lambda>p. if p = PString ''good'' then None else Some (Plain ''bad'')),
     vc_MaxCorrections = 3, vc_CorrectionLLMID = ''l'', vc_OnSuccess = None\<rparr>"

definition check_transition :: "nat transition" where
  "check_transition = (NewTransition ''v'' NodeKindValidate [''a''] [''b''])
     \<lparr>tr_ValidateConfig := Some check_config, tr_ErrorPlace := ''e''\<rparr>"

definition check_net :: "nat cpn" where
  "check_net = (NewCPN ''n'' ''r'' 0 ModeMAS ''s''
     [(''b'', NewPlace ''b'' ColorJSON SpaceComputation), (''e'', NewPlace ''e'' ColorError SpaceComputation)]
     [(''v'', check_transition)])
     \<lparr>c_LLMClient := Some (echo_client ''good'')\<rparr>"

lemma check_net_run:
  "(case fireValidate quiet_env check_transition [json_token NodeKindLLM ''x''] 0 check_net of
      ((_, _, err), w, c) \<Rightarrow> err = None \<and> w = 1 \<and>
        map (\<lambda>(k, p). (k, map tok_Payload (pl_Tokens p))) (c_Places c) = [(''b'', [PString ''good'']), (''e'', [])])"
  by code_simp

theorem fireValidate_only_valid_witness:
  "\<exists>out c'. fireValidate quiet_env check_transition [json_token NodeKindLLM ''x''] 0 check_net
       = (out, 1, c') \<and> snd (snd out) = None \<and>
     added check_net c' ''b'' (validated quiet_env check_config)"
proof -
  obtain out w' c' where
    f: "fireValidate quiet_env check_transition [json_token NodeKindLLM ''x''] 0 check_net
      = (out, w', c')" by (metis prod_cases3)
  have w: "w' = 1" "snd (snd out) = None"
    using check_net_run unfolding f by (auto split: prod.splits)
  have "added check_net c' ''b'' (validated quiet_env check_config)"
    by (rule fireValidate_only_valid[OF _ f]) (simp_all add: check_transition_def)
  with f w show ?thesis by blast
qed

section \<open>Shell output\<close>

text \<open>
  splitting captured output by chunks loses nothing and reorders nothing: the fragments
  concatenate to the output, none is empty, and all but the last have the configured size.
\<close>
theorem splitForEmit_roundtrip:
  assumes "bc_EmitMode cfg = EmitPerChunk"
  shows "concat (splitForEmit b cfg) = b \<and> [] \<notin> set (splitForEmit b cfg) \<and>
    (\<forall>x \<in> set (butlast (splitForEmit b cfg)).
      int (length x) = (if bc_EmitChunkBytes cfg > 0 then bc_EmitChunkBytes cfg else DefaultEmitChunkBytes))"
proof -
  let ?n = "nat (if bc_EmitChunkBytes cfg > 0 then bc_EmitChunkBytes cfg else DefaultEmitChunkBytes)"
  have n: "0 < ?n" by (simp add: DefaultEmitChunkBytes_def)
  have s: "splitForEmit b cfg = chunks_of ?n b" using assms by (simp add: splitForEmit_def)
  note sizes = chunks_of_sizes[OF n, of b]
  have "[] \<notin> set (chunks_of ?n b)" using sizes by blast
  moreover have "\<forall>x \<in> set (butlast (chunks_of ?n b)).
      int (length x) = (if bc_EmitChunkBytes cfg > 0 then bc_EmitChunkBytes cfg else DefaultEmitChunkBytes)"
    using sizes by (auto simp: DefaultEmitChunkBytes_def)
  ultimately show ?thesis unfolding s using chunks_of_concat[OF n] by blast
qed

definition ls_config :: "bool \<Rightarrow> bash_config" where
  "ls_config streaming = \<lparr>bc_Command = ''ls'', bc_Args = [], bc_Stdin = [], bc_Env = [], bc_Cwd = [],
     bc_Timeout = 0, bc_SandboxProfile = SandboxNone, bc_Streaming = streaming,
     bc_AllowNonZeroExit = False, bc_SessionID = [], bc_EmitMode = EmitPerChunk, bc_EmitChunkBytes = 2\<rparr>"

theorem splitForEmit_roundtrip_witness:
  "splitForEmit ''abcde'' (ls_config True) = [''ab'', ''cd'', ''e''] \<and>
   concat (splitForEmit ''abcde'' (ls_config True)) = ''abcde''"
  using splitForEmit_roundtrip[of "ls_config True" "''abcde''"]
  by (simp add: ls_config_def splitForEmit_def chunks_of.simps)

lemma depositAll_accepts:
  assumes "depositAll (pid # pids) tok c = (None, c')"
  shows "\<exists>p p'. map_of (c_Places c) pid = Some p \<and> tok_Color tok = pl_Color p \<and>
    map_of (c_Places c') pid = Some p' \<and> pl_Color p' = pl_Color p"
proof -
  have g: "grows c c'" by (rule depositAll_grows[OF assms])
  from assms obtain p where p: "map_of (c_Places c) pid = Some p" "tok_Color tok = pl_Color p"
    by (auto simp: depositAll_def Let_def Deposit_Inr_iff accepts_def
        split: option.splits sum.splits prod.splits)
  with growsD[OF g p(1)] show ?thesis by (auto simp: place_grows_def)
qed

lemma grows_color:
  "grows c c' \<Longrightarrow> map_of (c_Places c) pid = Some p \<Longrightarrow> map_of (c_Places c') pid = Some p' \<Longrightarrow>
   pl_Color p' = pl_Color p"
  by (frule (1) growsD) (auto simp: place_grows_def)

lemma emit_fragments_color:
  assumes "emit_fragments env t (f # frags) snaps w c = (None, s, w', c')"
    and "tr_OutputPlaces t = pid # pids"
  shows "\<exists>p. map_of (c_Places c') pid = Some p \<and> pl_Color p = ColorShellChunk"
proof -
  obtain err c1 where d: "depositAll (tr_OutputPlaces t) (newShellChunkToken c t f) c = (err, c1)"
    by force
  obtain w2 c2 where e: "emitProcessEvent t EventProcessStdout (proc [] f 0) w c1 = (w2, c2)" by force
  have n: "err = None" using assms(1) d by (auto simp: Let_def split: option.splits)
  from depositAll_accepts[OF d[unfolded n assms(2)]] obtain p where
    p: "map_of (c_Places c1) pid = Some p" "pl_Color p = ColorShellChunk"
    by (auto simp: newShellChunkToken_def fresh_token_def)
  have "emit_fragments env t frags (snaps @ [Snapshot (en_render env) (Some (newShellChunkToken c t f))])
      w2 c2 = (None, s, w', c')"
    using assms(1) d e by (simp add: n Let_def)
  from emit_fragments_grows[OF this] emitProcessEvent_grows[OF e] have g: "grows c1 c'"
    using grows_trans by blast
  with growsD[OF g p(1)] p(2) show ?thesis by (auto simp: place_grows_def)
qed

lemma splitForEmit_Nil:
  "splitForEmit b cfg = [] \<longleftrightarrow> b = [] \<or>
     bc_EmitMode cfg \<noteq> EmitPerChunk \<and> maxScanToken \<le> length (takeWhile (\<lambda>x. x \<noteq> CHR 0x0A) b)"
proof (cases "b = []")
  case False
  have "splitLines b = [] \<longleftrightarrow> maxScanToken \<le> length (takeWhile (\<lambda>x. x \<noteq> CHR 0x0A) b)"
  proof -
    obtain line rest found where c: "cut_at (CHR 0x0A) b = (line, rest, found)" by (metis prod_cases3)
    have "fst (cut_at (CHR 0x0A) b) = takeWhile (\<lambda>x. x \<noteq> CHR 0x0A) b"
      using takeWhile_dropWhile_id[of "\<lambda>x. x \<noteq> CHR 0x0A" b]
      by (simp add: cut_at_def split: list.split) (auto simp: takeWhile_eq_all_conv[THEN iffD2])
    then show ?thesis using False c by (simp add: splitLines.simps[of b])
  qed
  moreover have "chunks_of n b \<noteq> []" if "0 < n" for n using False that by (simp add: chunks_of_Cons)
  ultimately show ?thesis using False by (auto simp: splitForEmit_def Let_def DefaultEmitChunkBytes_def)
qed (simp add: splitForEmit_def)

text \<open>
  C23: a streaming one-shot firing with an output place fails as soon as the command has printed a fragment on its
  standard output: the fragments and the result are tokens of different colours, and both go to every output place.
  It can only succeed when standard output gave no fragment, which is when it is empty or, emitted by lines, its
  first line reaches the limit of the scanner. What the command prints on standard error does not matter.
\<close>
theorem streaming_output_fails:
  assumes "fireBashOneShot env t cfg adapter w c = ((snaps, cost, None), w', c')"
    and "bc_Streaming cfg" and "tr_OutputPlaces t = pid # pids"
    and "adapter (snd (en_now env w)) (exec_request_of cfg) = ((result, err), w2)"
  shows "xs_Stdout result = [] \<or>
    bc_EmitMode cfg \<noteq> EmitPerChunk \<and> maxScanToken \<le> length (takeWhile (\<lambda>x. x \<noteq> CHR 0x0A) (xs_Stdout result))"
  unfolding splitForEmit_Nil[symmetric]
proof (rule ccontr)
  assume "splitForEmit (xs_Stdout result) cfg \<noteq> []"
  then obtain f frags where s: "splitForEmit (xs_Stdout result) cfg = f # frags"
    by (cases "splitForEmit (xs_Stdout result) cfg") auto
  obtain r sn w4 c4 where
    e: "emit_fragments env t (f # frags) [] (snd (en_now env w2)) c = (r, sn, w4, c4)"
    by (metis prod_cases4)
  obtain w5 c5 where
    g: "emit_stderr t (splitForEmit (xs_Stderr result) cfg) w4 c4 = (w5, c5)" by force
  obtain start w1 where n: "en_now env w = (start, w1)" by force
  obtain stop w3 where n2: "en_now env w2 = (stop, w3)" by force
  let ?tok = "newShellResultToken c5 t result ((stop - start) div 10 ^ 6)"
  obtain derr c6 where d: "depositAll (tr_OutputPlaces t) ?tok c5 = (derr, c6)" by force
  have "r = None \<and> derr = None"
    using assms(1) e g d assms(2,4)
    by (auto simp: fireBashOneShot_def Let_def n n2 s fail_with_def
        simp del: emit_fragments.simps split: option.splits if_splits prod.splits)
  then have r: "r = None" "derr = None" by simp_all
  from emit_fragments_color[OF e[unfolded r] assms(3)] obtain p where
    p: "map_of (c_Places c4) pid = Some p" "pl_Color p = ColorShellChunk" by blast
  from growsD[OF emit_stderr_grows[OF g] p(1)] p(2) obtain p' where
    p': "map_of (c_Places c5) pid = Some p'" "pl_Color p' = ColorShellChunk"
    by (auto simp: place_grows_def)
  from depositAll_accepts[OF d[unfolded r assms(3)]] p' have "tok_Color ?tok = ColorShellChunk"
    by auto
  then show False by (simp add: newShellResultToken_def fresh_token_def)
qed

definition ls_net :: "nat cpn" where
  "ls_net = NewCPN ''n'' ''r'' 0 ModeMAS ''s''
     [(''b'', NewPlace ''b'' ColorShellResult SpaceComputation)] []"

definition ls_transition :: "bool \<Rightarrow> nat transition" where
  "ls_transition streaming = (NewTransition ''t'' NodeKindBash [''a''] [''b''])
     \<lparr>tr_BashConfig := Some (ls_config streaming)\<rparr>"

definition ls_adapter :: "string \<Rightarrow> nat \<Rightarrow> exec_request \<Rightarrow> (exec_result \<times> gerr option) \<times> nat" where
  "ls_adapter out w req = ((session_result out 0, None), w)"

lemma ls_silent_ok:
  "(case fireBashOneShot quiet_env (ls_transition True) (ls_config True) (ls_adapter []) 0 ls_net of
      ((_, _, err), _) \<Rightarrow> err = None)"
  by code_simp

lemma ls_streaming_fails:
  "(case fireBashOneShot quiet_env (ls_transition True) (ls_config True) (ls_adapter ''x'') 0 ls_net of
      ((_, _, err), _) \<Rightarrow> err \<noteq> None) \<and>
   (case fireBashOneShot quiet_env (ls_transition False) (ls_config False) (ls_adapter ''x'') 0 ls_net of
      ((_, _, err), _) \<Rightarrow> err = None)"
  by code_simp

theorem streaming_output_fails_witness:
  "\<exists>snaps cost w' c'.
     fireBashOneShot quiet_env (ls_transition True) (ls_config True) (ls_adapter []) 0 ls_net =
       ((snaps, cost, None), w', c') \<and> xs_Stdout (session_result [] 0) = []"
proof -
  obtain snaps cost err w' c' where
    f: "fireBashOneShot quiet_env (ls_transition True) (ls_config True) (ls_adapter []) 0 ls_net =
      ((snaps, cost, err), w', c')" by (metis prod_cases3)
  with ls_silent_ok have e: "err = None" by simp
  have "xs_Stdout (session_result [] 0) = [] \<or> bc_EmitMode (ls_config True) \<noteq> EmitPerChunk \<and>
      maxScanToken \<le> length (takeWhile (\<lambda>x. x \<noteq> CHR 0x0A) (xs_Stdout (session_result [] 0)))"
    by (rule streaming_output_fails[OF f[unfolded e], of "''b''" "[]" _ None "Suc 0"])
      (simp_all add: ls_config_def ls_transition_def NewTransition_def ls_adapter_def quiet_env_def)
  then have "xs_Stdout (session_result [] 0) = []" by (simp add: session_result_def maxScanToken_def)
  with f e show ?thesis by blast
qed

end
