(* ===== verification/Matcher.thy ===== *)
theory Matcher
  imports Utf8 Host_Types
begin

text \<open>
  The command matcher, \<open>infra/host/gate/matcher.go\<close>, and the introspection class of
  \<open>cpn/awakens/introspection.go\<close>. What a regular expression matches is the parameter \<open>rx\<close>; the
  normalisation, the unwrapping of a shell wrapper and the order of the pattern sets are the code's.
\<close>

section \<open>Normalisation\<close>

definition is_blank_rune :: "string \<Rightarrow> bool" where
  "is_blank_rune r \<longleftrightarrow> r = '' '' \<or> r = [CHR 0x09] \<or> r = [CHR 0x0A] \<or> r = [CHR 0x0D]"

text \<open>The loop of \<open>collapseWhitespace\<close> and of \<open>awakens.normalise\<close>, with its \<open>lastSpace\<close> flag.\<close>

fun collapse_runes :: "bool \<Rightarrow> string list \<Rightarrow> string" where
  "collapse_runes lastSpace [] = []"
| "collapse_runes lastSpace (r # rs) =
     (if is_blank_rune r
      then (if lastSpace then collapse_runes True rs else CHR '' '' # collapse_runes True rs)
      else r @ collapse_runes False rs)"

definition collapseWhitespace :: "string \<Rightarrow> string" where
  "collapseWhitespace s = collapse_runes False (runes s)"

definition splitFirstToken :: "string \<Rightarrow> string \<times> string \<times> bool" where
  "splitFirstToken s =
     (let (head, rest, found) = cut_at (CHR '' '') s
      in if found then (head, trim_left_spaces rest, True) else (s, [], s \<noteq> []))"

definition unquote :: "string \<Rightarrow> string" where
  "unquote s =
     (if length s < 2 then s
      else if (hd s = CHR 0x22 \<and> last s = CHR 0x22) \<or> (hd s = CHR 0x27 \<and> last s = CHR 0x27)
      then butlast (tl s) else s)"

definition normaliseCommand :: "string \<Rightarrow> string" where
  "normaliseCommand command =
     (let c = collapseWhitespace (trim_space command);
          (head, rest, ok) = splitFirstToken c
      in if \<not> ok then c
         else (let head = unquote head in if rest = [] then head else head @ '' '' @ rest))"

definition CommandKey :: "string \<Rightarrow> string" where
  "CommandKey command = normaliseCommand command"

definition JoinArgs :: "string \<Rightarrow> string list \<Rightarrow> string" where
  "JoinArgs command args = (if args = [] then command else command @ '' '' @ join_str '' '' args)"

section \<open>Shell wrappers\<close>

definition composition_tokens :: "string list" where
  "composition_tokens = [''&&'', ''||'', '';'', ''|'', ''>>'', ''>'', ''<'', ''$('', [CHR 0x60]]"

definition containsShellComposition :: "string \<Rightarrow> bool" where
  "containsShellComposition s = list_ex (contains_str s) composition_tokens"

definition isShellWrapperBinary :: "string \<Rightarrow> bool" where
  "isShellWrapperBinary head =
     (head \<in> set [''sh'', ''bash'', ''/bin/sh'', ''/bin/bash'', ''/usr/bin/sh'', ''/usr/bin/bash''])"

definition unwrapShellWrapper :: "string \<Rightarrow> string option" where
  "unwrapShellWrapper normCmd =
     (let (head, rest, ok) = splitFirstToken normCmd
      in if \<not> ok \<or> rest = [] then None
         else if \<not> isShellWrapperBinary head then None
         else (let (flagTok, inner, ok2) = splitFirstToken rest
               in if \<not> ok2 \<or> inner = [] then None
                  else if flagTok \<noteq> ''-c'' \<and> flagTok \<noteq> ''-lc'' then None
                  else (let inner2 = unquote (trim_space inner)
                        in if inner2 = [] then None
                           else if containsShellComposition inner2 then None
                           else Some inner2)))"

text \<open>What \<open>Classify\<close> matches the patterns against.\<close>

definition match_target :: "string \<Rightarrow> string" where
  "match_target command =
     (let norm = normaliseCommand command
      in case unwrapShellWrapper norm of None \<Rightarrow> norm | Some inner \<Rightarrow> inner)"

section \<open>Pattern sets\<close>

text \<open>
  \<open>rx pattern s\<close> is \<open>regexp.MatchString\<close>. A compiled band is the list of its patterns; \<open>None\<close> is the
  nil band. The result carries the index of the first match, -1 without one.
\<close>

fun first_match :: "(string \<Rightarrow> string \<Rightarrow> bool) \<Rightarrow> int \<Rightarrow> string list \<Rightarrow> string \<Rightarrow> bool \<times> int" where
  "first_match rx i [] s = (False, -1)"
| "first_match rx i (re # res) s = (if rx re s then (True, i) else first_match rx (i + 1) res s)"

definition band_matches ::
  "(string \<Rightarrow> string \<Rightarrow> bool) \<Rightarrow> string list option \<Rightarrow> string \<Rightarrow> bool \<times> int" where
  "band_matches rx b s = (case b of None \<Rightarrow> (False, -1) | Some res \<Rightarrow> first_match rx 0 res s)"

lemma first_match_iff: "fst (first_match rx i res s) \<longleftrightarrow> (\<exists>re \<in> set res. rx re s)"
  by (induction res arbitrary: i) auto

definition band_hit :: "(string \<Rightarrow> string \<Rightarrow> bool) \<Rightarrow> string list option \<Rightarrow> string \<Rightarrow> bool" where
  "band_hit rx b s \<longleftrightarrow> (\<exists>res re. b = Some res \<and> re \<in> set res \<and> rx re s)"

lemma band_matches_iff: "fst (band_matches rx b s) \<longleftrightarrow> band_hit rx b s"
  by (auto simp: band_matches_def band_hit_def first_match_iff split: option.splits)

section \<open>Introspection\<close>

definition introspectionAllowCommands :: "string list" where
  "introspectionAllowCommands =
     [''uname'', ''whoami'', ''id'', ''env'', ''printenv'', ''hostname'', ''arch'']"

definition introspectionAllowPrefixes :: "string list" where
  "introspectionAllowPrefixes =
     [''command -v '', ''which '', ''ls '', ''cat /etc/'', ''cat /proc/'', ''head -n '', ''tail -n '',
      ''busybox --list'', ''getconf '']"

definition introspectionDenyTokens :: "string list" where
  "introspectionDenyTokens =
     [''>'', ''>>'', ''|'', ''&&'', ''||'', '';'', ''$('', [CHR 0x60], ''/data/secrets'', ''/.ssh'',
      ''.env'', ''..'']"

definition normalise :: "string \<Rightarrow> string" where
  "normalise s = collapse_runes False (runes (trim_space s))"

definition IsIntrospection :: "string \<Rightarrow> bool" where
  "IsIntrospection command =
     (let norm = normalise command
      in if norm = [] then False
         else if list_ex (contains_str norm) introspectionDenyTokens then False
         else (let (head, _, _) = cut_at (CHR '' '') norm
               in if head \<in> set introspectionAllowCommands then True
                  else list_ex (has_prefix norm) introspectionAllowPrefixes))"

section \<open>Lemmas\<close>

lemma collapse_no_blank:
  "(\<And>r. r \<in> set rs \<Longrightarrow> \<not> is_blank_rune r \<Longrightarrow> x \<notin> set r) \<Longrightarrow> x \<noteq> CHR '' '' \<Longrightarrow>
   x \<notin> set (collapse_runes b rs)"
  by (induction b rs rule: collapse_runes.induct) (auto split: if_splits)

lemma cut_at_parts:
  "cut_at c s = (h, r, found) \<Longrightarrow>
   c \<notin> set h \<and> (found \<longrightarrow> s = h @ c # r) \<and> (\<not> found \<longrightarrow> h = s \<and> r = [])"
proof -
  assume a: "cut_at c s = (h, r, found)"
  have td: "takeWhile (\<lambda>x. x \<noteq> c) s @ dropWhile (\<lambda>x. x \<noteq> c) s = s" by simp
  have nt: "c \<notin> set (takeWhile (\<lambda>x. x \<noteq> c) s)" by (auto dest: set_takeWhileD)
  show ?thesis
  proof (cases "dropWhile (\<lambda>x. x \<noteq> c) s")
    case Nil
    with td have tw: "takeWhile (\<lambda>x. x \<noteq> c) s = s" by simp
    have "cut_at c s = (s, [], False)" unfolding cut_at_def Nil by simp
    with a nt show ?thesis unfolding tw by simp
  next
    case (Cons x t)
    then have "x = c" using hd_dropWhile[of "\<lambda>x. x \<noteq> c" s] by simp
    have "cut_at c s = (takeWhile (\<lambda>x. x \<noteq> c) s, t, True)" unfolding cut_at_def Cons by simp
    with a have h: "h = takeWhile (\<lambda>x. x \<noteq> c) s" "r = t" "found" by simp_all
    have "s = h @ c # r" using td unfolding Cons \<open>x = c\<close> h by simp
    with h nt show ?thesis by simp
  qed
qed

text \<open>An unwrapped script holds none of the composition tokens the code looks for.\<close>

lemma unwrap_no_composition:
  "unwrapShellWrapper n = Some inner \<Longrightarrow> inner \<noteq> [] \<and> (\<forall>t \<in> set composition_tokens. \<not> sublist t inner)"
  by (auto simp: unwrapShellWrapper_def containsShellComposition_def Let_def list_ex_iff
      contains_str_iff split: prod.splits if_splits)

lemma IsIntrospection_denies:
  "IsIntrospection cmd \<Longrightarrow> t \<in> set introspectionDenyTokens \<Longrightarrow> \<not> sublist t (normalise cmd)"
  by (auto simp: IsIntrospection_def Let_def list_ex_iff contains_str_iff split: if_splits prod.splits)

lemma IsIntrospection_head:
  "IsIntrospection cmd \<Longrightarrow>
   (\<exists>a \<in> set introspectionAllowCommands. normalise cmd = a \<or> (\<exists>r. normalise cmd = a @ '' '' @ r)) \<or>
   (\<exists>p \<in> set introspectionAllowPrefixes. prefix p (normalise cmd))"
proof -
  assume i: "IsIntrospection cmd"
  obtain h r f where c: "cut_at (CHR '' '') (normalise cmd) = (h, r, f)" by (metis prod_cases3)
  from i c have "h \<in> set introspectionAllowCommands \<or>
      (\<exists>p \<in> set introspectionAllowPrefixes. prefix p (normalise cmd))"
    by (auto simp: IsIntrospection_def Let_def list_ex_iff has_prefix_iff split: if_splits)
  moreover have "normalise cmd = h \<or> normalise cmd = h @ '' '' @ r"
    using cut_at_parts[OF c] by (cases f) auto
  ultimately show ?thesis by blast
qed

end
