(* ===== verification/Policy.thy ===== *)
theory Policy
  imports Matcher Go_Errors
begin

text \<open>
  The host policy, \<open>infra/host/gate/policy.go\<close> and \<open>Classify\<close> of \<open>matcher.go\<close>: the document with
  its compiled bands, \<open>finalize\<close>, the holder and its learned patterns. Which strings compile
  (\<open>rx_compile\<close>) and what they match (\<open>rx_match\<close>) is Go's \<open>regexp\<close>.
\<close>

record regex_lib =
  rx_compile :: "string \<Rightarrow> gerr option"
  rx_match :: "string \<Rightarrow> string \<Rightarrow> bool"

record policy_defaults =
  df_Sandbox :: string
  df_CPUSecondsBudget :: int
  df_BytesWrittenBudget :: int
  df_OutboundRequestsBudget :: int

record sandbox_mapping =
  sm_Preferred :: string
  sm_Fallback :: string

record host_policy =
  po_Version :: int
  po_Defaults :: policy_defaults
  po_ForbiddenPat :: "string list"
  po_SafePat :: "string list"
  po_CautionPat :: "string list"
  po_DangerousPat :: "string list"
  po_HITLPat :: "string list"
  po_SandboxMappings :: "sandbox_mapping gomap"
  po_forbidden :: "string list option"
  po_safe :: "string list option"
  po_caution :: "string list option"
  po_dangerous :: "string list option"
  po_hitl :: "string list option"

section \<open>Classification\<close>

definition Classify :: "regex_lib \<Rightarrow> host_policy option \<Rightarrow> string \<Rightarrow> risk_band \<times> int" where
  "Classify rx mp command = (case mp of
     None \<Rightarrow> (RiskUnknown, -1)
   | Some p \<Rightarrow>
       (let norm = match_target command;
            (f, fi) = band_matches (rx_match rx) (po_forbidden p) norm
        in if f then (RiskForbidden, fi)
           else (let (d, di) = band_matches (rx_match rx) (po_dangerous p) norm
                 in if d then (RiskDangerous, di)
                    else (let (ca, ci) = band_matches (rx_match rx) (po_caution p) norm
                          in if ca then (RiskCaution, ci)
                             else (let (h, hi) = band_matches (rx_match rx) (po_hitl p) norm
                                   in if h then (RiskCaution, hi)
                                      else (let (s, si) = band_matches (rx_match rx) (po_safe p) norm
                                            in if s then (RiskSafe, si) else (RiskUnknown, -1)))))))"

definition ClassifyWritePath :: "regex_lib \<Rightarrow> host_policy option \<Rightarrow> string \<Rightarrow> risk_band \<times> int" where
  "ClassifyWritePath rx p path = Classify rx p (''write_file: '' @ path)"

text \<open>The pattern sets that give a band, and the bands whose sets match a command.\<close>

definition matching_bands :: "regex_lib \<Rightarrow> host_policy \<Rightarrow> string \<Rightarrow> risk_band set" where
  "matching_bands rx p command =
     (let n = match_target command; hit = (\<lambda>b. band_hit (rx_match rx) b n)
      in {RiskUnknown} \<union> (if hit (po_forbidden p) then {RiskForbidden} else {}) \<union>
         (if hit (po_dangerous p) then {RiskDangerous} else {}) \<union>
         (if hit (po_caution p) \<or> hit (po_hitl p) then {RiskCaution} else {}) \<union>
         (if hit (po_safe p) then {RiskSafe} else {}))"

lemma band_matches_fst: "band_matches r b s = (x, i) \<Longrightarrow> x = band_hit r b s"
  by (metis band_matches_iff fst_conv)

text \<open>\<open>Classify\<close> picks the most severe of the bands that match.\<close>

lemma Classify_band:
  "fst (Classify rx (Some p) command) =
    (let n = match_target command; hit = (\<lambda>b. band_hit (rx_match rx) b n)
     in if hit (po_forbidden p) then RiskForbidden
        else if hit (po_dangerous p) then RiskDangerous
        else if hit (po_caution p) \<or> hit (po_hitl p) then RiskCaution
        else if hit (po_safe p) then RiskSafe else RiskUnknown)"
  by (auto simp: Classify_def Let_def split: prod.splits dest!: band_matches_fst)

lemma Classify_in_bands: "fst (Classify rx (Some p) command) \<in> matching_bands rx p command"
  by (simp add: Classify_band matching_bands_def Let_def)

lemma Classify_most_severe:
  "b \<in> matching_bands rx p command \<Longrightarrow> band_rank b \<le> band_rank (fst (Classify rx (Some p) command))"
  by (auto simp: Classify_band matching_bands_def Let_def split: if_splits)

section \<open>Finalising a policy\<close>

definition maxPatternsPerBucket :: nat where "maxPatternsPerBucket = 256"

fun compile_all :: "regex_lib \<Rightarrow> string \<Rightarrow> nat \<Rightarrow> string list \<Rightarrow> gerr option" where
  "compile_all rx name i [] = None"
| "compile_all rx name i (s # ss) = (case rx_compile rx s of
     Some e \<Rightarrow> Some (Wrap (''gate: compile '' @ name @ ''['' @ fmt_d (int i) @ ''] '' @ fmt_q s @ '': '') e [])
   | None \<Rightarrow> compile_all rx name (Suc i) ss)"

definition compileBand :: "regex_lib \<Rightarrow> string list \<Rightarrow> string \<Rightarrow> gerr + string list" where
  "compileBand rx src name = (case compile_all rx name 0 src of Some e \<Rightarrow> Inl e | None \<Rightarrow> Inr src)"

definition default_fields :: "host_policy \<Rightarrow> host_policy" where
  "default_fields p =
     (let d = po_Defaults p
      in p\<lparr>po_Version := (if po_Version p = 0 then 1 else po_Version p),
           po_Defaults := \<lparr>df_Sandbox = (if df_Sandbox d = [] then ''readonly'' else df_Sandbox d),
             df_CPUSecondsBudget = (if df_CPUSecondsBudget d = 0 then 120 else df_CPUSecondsBudget d),
             df_BytesWrittenBudget =
               (if df_BytesWrittenBudget d = 0 then 256 * 2 ^ 20 else df_BytesWrittenBudget d),
             df_OutboundRequestsBudget =
               (if df_OutboundRequestsBudget d = 0 then 50 else df_OutboundRequestsBudget d)\<rparr>\<rparr>)"

definition buckets :: "host_policy \<Rightarrow> (string \<times> string list) list" where
  "buckets p = [(''forbidden_patterns'', po_ForbiddenPat p), (''safe_patterns'', po_SafePat p),
     (''caution_patterns'', po_CautionPat p), (''dangerous_patterns'', po_DangerousPat p),
     (''hitl_patterns'', po_HITLPat p)]"

fun over_cap :: "(string \<times> string list) list \<Rightarrow> gerr option" where
  "over_cap [] = None"
| "over_cap ((name, ps) # rest) =
     (if length ps > maxPatternsPerBucket
      then Some (Plain (''gate: '' @ name @ '' exceeds cap of '' @ fmt_d (int maxPatternsPerBucket)))
      else over_cap rest)"

text \<open>
  The bands are assigned one after the other; a band that does not compile is left nil and the rest
  keep their old value. The Go map of the buckets has no order: which of two oversized buckets is
  named depends on it, whether there is an error does not.
\<close>

definition finalize :: "regex_lib \<Rightarrow> host_policy \<Rightarrow> gerr option \<times> host_policy" where
  "finalize rx p0 =
     (let p = default_fields p0
      in case over_cap (buckets p) of
           Some e \<Rightarrow> (Some e, p)
         | None \<Rightarrow> (case compileBand rx (po_ForbiddenPat p) ''forbidden_patterns'' of
              Inl e \<Rightarrow> (Some e, p\<lparr>po_forbidden := None\<rparr>)
            | Inr f \<Rightarrow> (let p1 = p\<lparr>po_forbidden := Some f\<rparr>
                in case compileBand rx (po_SafePat p) ''safe_patterns'' of
                     Inl e \<Rightarrow> (Some e, p1\<lparr>po_safe := None\<rparr>)
                   | Inr s \<Rightarrow> (let p2 = p1\<lparr>po_safe := Some s\<rparr>
                       in case compileBand rx (po_CautionPat p) ''caution_patterns'' of
                            Inl e \<Rightarrow> (Some e, p2\<lparr>po_caution := None\<rparr>)
                          | Inr ca \<Rightarrow> (let p3 = p2\<lparr>po_caution := Some ca\<rparr>
                              in case compileBand rx (po_DangerousPat p) ''dangerous_patterns'' of
                                   Inl e \<Rightarrow> (Some e, p3\<lparr>po_dangerous := None\<rparr>)
                                 | Inr d \<Rightarrow> (let p4 = p3\<lparr>po_dangerous := Some d\<rparr>
                                     in case compileBand rx (po_HITLPat p) ''hitl_patterns'' of
                                          Inl e \<Rightarrow> (Some e, p4\<lparr>po_hitl := None\<rparr>)
                                        | Inr h \<Rightarrow> (None, p4\<lparr>po_hitl := Some h\<rparr>)))))))"

definition empty_policy :: host_policy where
  "empty_policy =
     \<lparr>po_Version = 0, po_Defaults = \<lparr>df_Sandbox = [], df_CPUSecondsBudget = 0,
        df_BytesWrittenBudget = 0, df_OutboundRequestsBudget = 0\<rparr>,
      po_ForbiddenPat = [], po_SafePat = [], po_CautionPat = [], po_DangerousPat = [],
      po_HITLPat = [], po_SandboxMappings = [], po_forbidden = None, po_safe = None,
      po_caution = None, po_dangerous = None, po_hitl = None\<rparr>"

lemma compileBand_Inr: "compileBand rx src name = Inr b \<Longrightarrow> b = src"
  by (auto simp: compileBand_def split: option.splits)

text \<open>After a successful \<open>finalize\<close> the compiled bands are the pattern lists, within the cap.\<close>

definition compiled_ok :: "host_policy \<Rightarrow> bool" where
  "compiled_ok p \<longleftrightarrow> po_forbidden p = Some (po_ForbiddenPat p) \<and> po_safe p = Some (po_SafePat p) \<and>
     po_caution p = Some (po_CautionPat p) \<and> po_dangerous p = Some (po_DangerousPat p) \<and>
     po_hitl p = Some (po_HITLPat p)"

definition within_cap :: "host_policy \<Rightarrow> bool" where
  "within_cap p \<longleftrightarrow> (\<forall>(n, ps) \<in> set (buckets p). length ps \<le> maxPatternsPerBucket)"

lemma over_cap_None: "over_cap bs = None \<longleftrightarrow> (\<forall>(n, ps) \<in> set bs. length ps \<le> maxPatternsPerBucket)"
  by (induction bs rule: over_cap.induct) (auto split: if_splits)

lemma default_fields_frame [simp]:
  "po_ForbiddenPat (default_fields p) = po_ForbiddenPat p" "po_SafePat (default_fields p) = po_SafePat p"
  "po_CautionPat (default_fields p) = po_CautionPat p"
  "po_DangerousPat (default_fields p) = po_DangerousPat p"
  "po_HITLPat (default_fields p) = po_HITLPat p" "buckets (default_fields p) = buckets p"
  "po_forbidden (default_fields p) = po_forbidden p"
  by (simp_all add: default_fields_def Let_def buckets_def)

lemma finalize_ok:
  assumes "finalize rx p = (None, q)"
  shows "compiled_ok q \<and> within_cap q \<and> po_ForbiddenPat q = po_ForbiddenPat p"
proof -
  have "over_cap (buckets p) = None" using assms by (auto simp: finalize_def Let_def split: option.splits)
  moreover have "buckets q = buckets p \<and> compiled_ok q \<and> po_ForbiddenPat q = po_ForbiddenPat p"
    using assms
    by (auto simp: finalize_def Let_def compiled_ok_def buckets_def split: option.splits sum.splits
        dest!: compileBand_Inr)
  ultimately show ?thesis by (simp add: within_cap_def over_cap_None)
qed

lemma finalize_over_cap:
  "\<not> within_cap p \<Longrightarrow> \<exists>e. finalize rx p = (Some e, default_fields p)"
  by (cases "over_cap (buckets p)")
    (auto simp: finalize_def Let_def within_cap_def over_cap_None split: option.splits)

section \<open>The holder\<close>

text \<open>\<open>ho_Learned\<close> is what the overlay file lists, \<open>ho_WriteError\<close> what writing it answers.\<close>

record holder =
  ho_policy :: "host_policy option"
  ho_learnedPath :: string
  ho_Learned :: "string list"
  ho_WriteError :: "gerr option"

definition Put :: "host_policy option \<Rightarrow> holder \<Rightarrow> holder" where
  "Put p h = h\<lparr>ho_policy := p\<rparr>"

definition appendToLearnedFile :: "string \<Rightarrow> holder \<Rightarrow> gerr option \<times> holder" where
  "appendToLearnedFile pattern h =
     (if pattern \<in> set (ho_Learned h) then (None, h)
      else case ho_WriteError h of
        Some e \<Rightarrow> (Some (Wrap (''gate: write learned overlay '' @ ho_learnedPath h @ '': '') e []), h)
      | None \<Rightarrow> (None, h\<lparr>ho_Learned := ho_Learned h @ [pattern]\<rparr>))"

definition AppendLearnedSafePattern :: "regex_lib \<Rightarrow> string \<Rightarrow> holder \<Rightarrow> gerr option \<times> holder" where
  "AppendLearnedSafePattern rx pattern h = (case ho_policy h of
     None \<Rightarrow> (Some (Plain ''gate: no policy loaded''), h)
   | Some p \<Rightarrow> (case rx_compile rx pattern of
        Some e \<Rightarrow> (Some (Wrap (''gate: invalid learned pattern '' @ fmt_q pattern @ '': '') e []), h)
      | None \<Rightarrow>
          (let p1 = p\<lparr>po_SafePat := po_SafePat p @ [pattern],
                     po_safe := Some ((case po_safe p of None \<Rightarrow> [] | Some l \<Rightarrow> l) @ [pattern])\<rparr>;
               h1 = h\<lparr>ho_policy := Some p1\<rparr>
           in if ho_learnedPath h1 = [] then (None, h1) else appendToLearnedFile pattern h1)))"

text \<open>The overlay read at start-up; \<open>None\<close> is a file that is not there.\<close>

definition MergeLearned :: "regex_lib \<Rightarrow> string list option \<Rightarrow> host_policy \<Rightarrow> gerr option \<times> host_policy" where
  "MergeLearned rx learned p = (case learned of
     None \<Rightarrow> (None, p)
   | Some ps \<Rightarrow> (if ps = [] then (None, p) else finalize rx (p\<lparr>po_SafePat := po_SafePat p @ ps\<rparr>)))"

lemma appendToLearnedFile_frame [simp]:
  "ho_policy (snd (appendToLearnedFile pat h)) = ho_policy h"
  by (simp add: appendToLearnedFile_def split: option.splits)

text \<open>A learned pattern is matched from then on, and no other band changes.\<close>

lemma AppendLearned_policy:
  assumes "ho_policy h = Some p" and "rx_compile rx pattern = None"
  shows "ho_policy (snd (AppendLearnedSafePattern rx pattern h)) =
    Some (p\<lparr>po_SafePat := po_SafePat p @ [pattern],
            po_safe := Some ((case po_safe p of None \<Rightarrow> [] | Some l \<Rightarrow> l) @ [pattern])\<rparr>)"
  using assms by (simp add: AppendLearnedSafePattern_def Let_def)

end
