(* ===== verification/Session_State.thy ===== *)
theory Session_State
  imports Host_Types
begin

text \<open>
  The per-session state of the host gate: the awakening-mode registry
  (\<open>infra/host/gate/awakening_mode.go\<close>) and the budget tracker (\<open>infra/host/gate/budget.go\<close>). Both
  are maps keyed by the session ID behind a mutex. Their contracts are the locales
  \<open>session_registry\<close> and \<open>session_meter\<close>: what one session does is invisible to the others.
\<close>

section \<open>The contracts\<close>

locale session_registry =
  fixes start stop :: "string \<Rightarrow> 'r \<Rightarrow> 'r" and active :: "'r \<Rightarrow> string \<Rightarrow> bool"
  assumes active_start: "active (start s r) t \<longleftrightarrow> (t = s \<and> s \<noteq> []) \<or> active r t"
    and active_stop: "active (stop s r) t \<longleftrightarrow> t \<noteq> s \<and> active r t"
begin

definition step :: "bool \<times> string \<Rightarrow> 'r \<Rightarrow> 'r" where
  "step op r = (if fst op then start (snd op) r else stop (snd op) r)"

lemma active_others:
  "\<forall>op \<in> set ops. snd op \<noteq> t \<Longrightarrow> active (fold step ops r) t = active r t"
proof (induction ops arbitrary: r)
  case (Cons op ops)
  have "active (step op r) t = active r t"
    using Cons.prems by (auto simp: step_def active_start active_stop)
  with Cons show ?case by simp
qed simp

lemma active_last:
  assumes "t \<noteq> []" and "\<forall>op \<in> set later. snd op \<noteq> t"
  shows "active (fold step (earlier @ (b, t) # later) r) t = b"
  using assms by (simp add: active_others) (simp add: step_def active_start active_stop)

end

locale session_meter =
  fixes charge :: "string \<Rightarrow> 'u \<Rightarrow> 'm \<Rightarrow> 'm" and clear :: "string \<Rightarrow> 'm \<Rightarrow> 'm"
    and usage :: "'m \<Rightarrow> string \<Rightarrow> 'u" and add :: "'u \<Rightarrow> 'u \<Rightarrow> 'u" and none :: 'u
  assumes usage_charge: "usage (charge s a m) t = (if t = s then add (usage m s) a else usage m t)"
    and usage_clear: "usage (clear s m) t = (if t = s then none else usage m t)"
begin

lemma usage_run:
  "usage (fold (\<lambda>(s, a). charge s a) ops m) t =
     foldl add (usage m t) (map snd (filter (\<lambda>(s, a). s = t) ops))"
  by (induction ops arbitrary: m) (auto simp: usage_charge)

lemma usage_after_clear:
  "usage (fold (\<lambda>(s, a). charge s a) ops (clear t m)) t =
     foldl add none (map snd (filter (\<lambda>(s, a). s = t) ops))"
  by (simp add: usage_run usage_clear)

end

section \<open>The awakening registry\<close>

text \<open>The registry is the set of the sessions it holds, as a list; a nil registry is \<open>None\<close>.\<close>

type_synonym awakening = "string list"

definition NewAwakeningModeRegistry :: awakening where
  "NewAwakeningModeRegistry = []"

definition Begin :: "string \<Rightarrow> awakening \<Rightarrow> awakening" where
  "Begin sessionID r = (if sessionID = [] then r else List.insert sessionID r)"

definition End :: "string \<Rightarrow> awakening \<Rightarrow> awakening" where
  "End sessionID r = (if sessionID = [] then r else removeAll sessionID r)"

definition Active :: "awakening \<Rightarrow> string \<Rightarrow> bool" where
  "Active r sessionID = (if sessionID = [] then False else sessionID \<in> set r)"

definition ActiveOpt :: "awakening option \<Rightarrow> string \<Rightarrow> bool" where
  "ActiveOpt mr sessionID = (case mr of None \<Rightarrow> False | Some r \<Rightarrow> Active r sessionID)"

interpretation aw: session_registry Begin End Active
  by unfold_locales (auto simp: Begin_def End_def Active_def)

section \<open>Budgets\<close>

type_synonym budgets = "budget_estimate gomap"

definition no_usage :: budget_estimate where
  "no_usage = \<lparr>be_CPUSeconds = 0, be_BytesWritten = 0, be_OutboundRequests = 0\<rparr>"

text \<open>Go's \<open>+\<close> and \<open>+=\<close> on the three counters.\<close>

definition add_usage :: "budget_estimate \<Rightarrow> budget_estimate \<Rightarrow> budget_estimate" where
  "add_usage a b = \<lparr>be_CPUSeconds = wrap64 (be_CPUSeconds a + be_CPUSeconds b),
     be_BytesWritten = wrap64 (be_BytesWritten a + be_BytesWritten b),
     be_OutboundRequests = wrap64 (be_OutboundRequests a + be_OutboundRequests b)\<rparr>"

definition Current :: "budgets \<Rightarrow> string \<Rightarrow> budget_estimate" where
  "Current b sessionID = (case map_of b sessionID of None \<Rightarrow> no_usage | Some c \<Rightarrow> c)"

definition RecordActual :: "string \<Rightarrow> budget_estimate \<Rightarrow> budgets \<Rightarrow> budgets" where
  "RecordActual sessionID actual b = AList.update sessionID (add_usage (Current b sessionID) actual) b"

definition ResetBudget :: "string \<Rightarrow> budgets \<Rightarrow> budgets" where
  "ResetBudget sessionID b = AList.delete sessionID b"

definition DefaultEstimate :: budget_estimate where
  "DefaultEstimate = \<lparr>be_CPUSeconds = 1, be_BytesWritten = 0, be_OutboundRequests = 0\<rparr>"

interpretation bm: session_meter RecordActual ResetBudget Current add_usage no_usage
  by unfold_locales (auto simp: RecordActual_def ResetBudget_def Current_def split: option.splits)

text \<open>While nothing overflows, the usage is the sum of what was recorded.\<close>

definition small_usage :: "int \<Rightarrow> budget_estimate \<Rightarrow> bool" where
  "small_usage m u \<longleftrightarrow> 0 \<le> be_CPUSeconds u \<and> be_CPUSeconds u \<le> m \<and>
     0 \<le> be_BytesWritten u \<and> be_BytesWritten u \<le> m \<and>
     0 \<le> be_OutboundRequests u \<and> be_OutboundRequests u \<le> m"

lemma add_usage_exact:
  assumes "small_usage (2 ^ 62) a" and "small_usage (2 ^ 62 - 1) b"
  shows "be_CPUSeconds (add_usage a b) = be_CPUSeconds a + be_CPUSeconds b"
    "be_BytesWritten (add_usage a b) = be_BytesWritten a + be_BytesWritten b"
    "be_OutboundRequests (add_usage a b) = be_OutboundRequests a + be_OutboundRequests b"
  using assms by (simp_all add: add_usage_def small_usage_def wrap64_id int64_def)

end
