(* ===== verification/Gate.thy ===== *)
theory Gate
  imports Policy Session_State
begin

text \<open>
  The policy gate, \<open>infra/host/gate/policy_gate.go\<close>: \<open>Evaluate\<close>, \<open>Check\<close>, the first-run lookup, the
  audit queue and the budget records. The state of the gate is \<open>gate\<close>; what it reads from the
  host (the binary on the path, its hash, the sandbox runtimes) and the first-run ledger, a port
  of \<open>cpn/persist\<close>, are the fields of \<open>gate_env\<close> over a host state \<open>'g\<close>.
\<close>

section \<open>State and environment\<close>

record ledger_entry =
  le_Revoked :: bool
  le_Approved :: bool

record 'g first_run_port =
  fr_Record :: "'g \<Rightarrow> string \<Rightarrow> string \<Rightarrow> string \<Rightarrow> gerr option \<times> 'g"
  fr_GetBySHA :: "'g \<Rightarrow> string \<Rightarrow> string \<Rightarrow> (gerr + ledger_entry option) \<times> 'g"
  fr_Approve :: "'g \<Rightarrow> string \<Rightarrow> string \<Rightarrow> string \<Rightarrow> gerr option \<times> 'g"

record 'g gate_env =
  ge_rx :: regex_lib
  ge_LookPath :: "'g \<Rightarrow> string \<Rightarrow> gerr + string"
  ge_SHA256 :: "'g \<Rightarrow> string \<Rightarrow> gerr + string"
  ge_Available :: "'g \<Rightarrow> string \<Rightarrow> bool"
  ge_FirstRun :: "'g first_run_port option"
  ge_HostID :: string
  ge_SessionIDResolver :: "(string \<Rightarrow> string) option"
  ge_BudgetEstimator :: "(gate_op \<Rightarrow> budget_estimate) option"
  ge_Insert :: "decision \<Rightarrow> gate_op \<Rightarrow> string \<Rightarrow> gerr option"

text \<open>
  The audit trail: the decisions the repository holds, the queue of the worker pool, what was
  dropped, and whether the pool was shut down. \<open>None\<close> is a gate without a decision repository.
\<close>

record audit_pool =
  ap_Stored :: "(decision \<times> gate_op \<times> string) list"
  ap_Queue :: "(decision \<times> gate_op \<times> string) list"
  ap_Dropped :: nat
  ap_Shutdown :: bool

record gate =
  gt_Policies :: "holder option"
  gt_Budgets :: budgets
  gt_AwakeningMode :: "awakening option"
  gt_Audit :: "audit_pool option"

section \<open>The audit queue\<close>

definition auditQueueSize :: nat where "auditQueueSize = 256"

definition Submit :: "decision \<times> gate_op \<times> string \<Rightarrow> audit_pool \<Rightarrow> audit_pool" where
  "Submit job p =
     (if ap_Shutdown p then p\<lparr>ap_Dropped := Suc (ap_Dropped p)\<rparr>
      else if length (ap_Queue p) < auditQueueSize then p\<lparr>ap_Queue := ap_Queue p @ [job]\<rparr>
      else p\<lparr>ap_Dropped := Suc (ap_Dropped p)\<rparr>)"

text \<open>A worker takes the oldest job; a failing insert loses it with a log line.\<close>

definition audit_worker :: "'g gate_env \<Rightarrow> audit_pool \<Rightarrow> audit_pool" where
  "audit_worker env p = (case ap_Queue p of
     [] \<Rightarrow> p
   | (dec, op, rid) # q \<Rightarrow> (case ge_Insert env dec op rid of
        None \<Rightarrow> p\<lparr>ap_Queue := q, ap_Stored := ap_Stored p @ [(dec, op, rid)]\<rparr>
      | Some e \<Rightarrow> p\<lparr>ap_Queue := q, ap_Dropped := Suc (ap_Dropped p)\<rparr>))"

definition ShutdownPool :: "audit_pool \<Rightarrow> audit_pool" where
  "ShutdownPool p = p\<lparr>ap_Shutdown := True\<rparr>"

definition auditAsync :: "decision \<Rightarrow> gate_op \<Rightarrow> string \<Rightarrow> gate \<Rightarrow> gate" where
  "auditAsync dec op rid g = g\<lparr>gt_Audit := map_option (Submit (dec, op, rid)) (gt_Audit g)\<rparr>"

definition AuditDecision ::
  "'g gate_env \<Rightarrow> decision \<Rightarrow> gate_op \<Rightarrow> string \<Rightarrow> gate \<Rightarrow> gerr option \<times> gate" where
  "AuditDecision env dec op rid g = (case gt_Audit g of
     None \<Rightarrow> (None, g)
   | Some p \<Rightarrow> (case ge_Insert env dec op rid of
        Some e \<Rightarrow> (Some e, g)
      | None \<Rightarrow> (None, g\<lparr>gt_Audit := Some (p\<lparr>ap_Stored := ap_Stored p @ [(dec, op, rid)]\<rparr>)\<rparr>)))"

section \<open>Helpers\<close>

definition gate_policy :: "'g gate_env \<Rightarrow> gate \<Rightarrow> host_policy option" where
  "gate_policy env g = (case gt_Policies g of
     None \<Rightarrow> Some (snd (finalize (ge_rx env) empty_policy))
   | Some h \<Rightarrow> ho_policy h)"

text \<open>The session of a context: the resolver applied to the session ID the context carries.\<close>

definition gate_session :: "'g gate_env \<Rightarrow> string \<Rightarrow> string" where
  "gate_session env ctxSession = (case ge_SessionIDResolver env of
     None \<Rightarrow> ''default''
   | Some f \<Rightarrow> (let s = f ctxSession in if s \<noteq> [] then s else ''default''))"

definition resolveSandbox :: "gate_op \<Rightarrow> host_policy \<Rightarrow> sandbox_profile" where
  "resolveSandbox op p =
     (if op_Sandbox op \<noteq> SandboxOther [] then op_Sandbox op
      else sandbox_of (df_Sandbox (po_Defaults p)))"

definition checkSandboxAvailable ::
  "'g gate_env \<Rightarrow> 'g \<Rightarrow> sandbox_profile \<Rightarrow> host_policy \<Rightarrow> bool" where
  "checkSandboxAvailable env s profile p =
     (let m = (case map_of (po_SandboxMappings p) (sandbox_str profile) of
           None \<Rightarrow> \<lparr>sm_Preferred = ''bwrap'', sm_Fallback = ''firejail''\<rparr> | Some m \<Rightarrow> m)
      in ge_Available env s (sm_Preferred m) \<or>
         (sm_Fallback m \<noteq> [] \<and> ge_Available env s (sm_Fallback m)))"

definition resolveBinaryPath :: "'g gate_env \<Rightarrow> 'g \<Rightarrow> string \<Rightarrow> gerr + string" where
  "resolveBinaryPath env s command =
     (let (h, _, _) = splitFirstToken (trim_space command); head = unquote h
      in if head = [] then Inl (Plain ''empty command'')
         else if has_prefix head ''/'' then Inr head
         else ge_LookPath env s head)"

definition firstRunLookup ::
  "'g gate_env \<Rightarrow> 'g first_run_port \<Rightarrow> string \<Rightarrow> 'g \<Rightarrow> (string \<times> (gerr + ledger_entry option)) \<times> 'g"
  where
  "firstRunLookup env port command s = (case resolveBinaryPath env s command of
     Inl e \<Rightarrow> (([], Inl e), s)
   | Inr path \<Rightarrow> (case ge_SHA256 env s path of
        Inl e \<Rightarrow> (([], Inl e), s)
      | Inr sha \<Rightarrow>
          (let (rerr, s1) = fr_Record port s (ge_HostID env) path sha
           in case rerr of
                Some e \<Rightarrow> ((sha, Inl e), s1)
              | None \<Rightarrow> (let (entry, s2) = fr_GetBySHA port s1 (ge_HostID env) sha
                        in ((sha, entry), s2)))))"

definition displayCommand :: "gate_op \<Rightarrow> string" where
  "displayCommand op =
     (if op_Command op \<noteq> [] then op_Command op
      else if op_Path op \<noteq> [] then op_Kind op @ '' '' @ op_Path op else op_Kind op)"

definition truncSHA :: "string \<Rightarrow> string" where
  "truncSHA s = (if length s > 12 then take 12 s else s)"

definition is_exec :: "gate_op \<Rightarrow> bool" where
  "is_exec op \<longleftrightarrow> op_Kind op = ''exec'' \<or> op_Kind op = ''spawn_pty''"

definition HostApprovalSchema :: string where "HostApprovalSchema = ''host.approval''"

definition approval_prompt :: "gate_op \<Rightarrow> risk_band \<Rightarrow> string \<Rightarrow> string list \<Rightarrow> host_approval_prompt" where
  "approval_prompt op band why alts = \<lparr>hp_Schema = HostApprovalSchema, hp_Operation = op_Kind op,
     hp_Command = displayCommand op, hp_RiskBand = band, hp_Rationale = why,
     hp_Alternatives = alts\<rparr>"

definition hitl_choices :: "string list" where
  "hitl_choices = [''approve-once'', ''approve-and-remember'', ''deny'']"

definition CheckEstimate ::
  "budgets \<Rightarrow> string \<Rightarrow> policy_defaults \<Rightarrow> budget_estimate \<Rightarrow> string option" where
  "CheckEstimate b sessionID d est =
     (let u = add_usage (Current b sessionID) est
      in if be_CPUSeconds u > df_CPUSecondsBudget d then Some ''cpu_budget_exceeded''
         else if be_BytesWritten u > df_BytesWrittenBudget d then Some ''bytes_budget_exceeded''
         else if be_OutboundRequests u > df_OutboundRequestsBudget d
         then Some ''outbound_budget_exceeded'' else None)"

definition match_input :: "gate_op \<Rightarrow> string" where
  "match_input op =
     (if op_Kind op = ''write_file'' \<or> op_Kind op = ''read_file''
      then op_Kind op @ '': '' @ op_Path op else op_Command op)"

section \<open>Evaluate\<close>

text \<open>The steps after the first-run ledger: caution, safe, default.\<close>

definition eval_bands ::
  "'g gate_env \<Rightarrow> host_policy \<Rightarrow> gate_op \<Rightarrow> risk_band \<Rightarrow> decision \<Rightarrow> decision" where
  "eval_bands env p op band dec =
     (if band = RiskCaution
      then (if fst (band_matches (rx_match (ge_rx env)) (po_safe p) (normaliseCommand (match_input op)))
            then dec\<lparr>dc_Verdict := VerdictAllow,
                     dc_Reason := ''caution overridden by learned safe pattern''\<rparr>
            else dec\<lparr>dc_Verdict := VerdictRequireHITL,
                     dc_Reason := ''command matches caution_patterns'',
                     dc_Prompt := Some (approval_prompt op RiskCaution
                       ''Caution-band command requires explicit approval.'' hitl_choices)\<rparr>)
      else if band = RiskSafe
      then dec\<lparr>dc_Verdict := VerdictAllow, dc_Reason := ''command matches safe_patterns''\<rparr>
      else dec\<lparr>dc_Verdict := VerdictRequireHITL,
               dc_Reason := ''command not in any pattern (default deny)'',
               dc_RiskBand := RiskUnknown,
               dc_Prompt := Some (approval_prompt op RiskUnknown
                 ''Command not in any policy bucket.'' hitl_choices)\<rparr>)"

text \<open>The first-run ledger in front of them.\<close>

definition eval_first_run ::
  "'g gate_env \<Rightarrow> host_policy \<Rightarrow> gate_op \<Rightarrow> risk_band \<Rightarrow> decision \<Rightarrow> 'g \<Rightarrow> decision \<times> 'g" where
  "eval_first_run env p op band dec s =
     (case (if is_exec op \<and> op_Command op \<noteq> [] then ge_FirstRun env else None) of
        None \<Rightarrow> (eval_bands env p op band dec, s)
      | Some port \<Rightarrow>
          (let ((sha, res), s1) = firstRunLookup env port (op_Command op) s
           in case res of
                Inl e \<Rightarrow> (eval_bands env p op band dec, s1)
              | Inr entry \<Rightarrow>
                  (if (case entry of None \<Rightarrow> True | Some en \<Rightarrow> le_Revoked en \<or> \<not> le_Approved en)
                   then (dec\<lparr>dc_Verdict := VerdictRequireHITL, dc_Reason := ''first_run_unapproved'',
                             dc_FirstRun := True,
                             dc_Prompt := Some (approval_prompt op (dc_RiskBand dec)
                               (''Binary first-seen on this host (sha256='' @ truncSHA sha @ ''...).'')
                               hitl_choices)\<rparr>, s1)
                   else (eval_bands env p op band dec, s1))))"

text \<open>The steps from the classification on: forbidden, budget, sandbox, dangerous.\<close>

definition eval_policy ::
  "'g gate_env \<Rightarrow> gate \<Rightarrow> host_policy \<Rightarrow> string \<Rightarrow> gate_op \<Rightarrow> decision \<Rightarrow> 'g \<Rightarrow> decision \<times> 'g" where
  "eval_policy env g p sessionID op dec0 s =
     (let band = fst (Classify (ge_rx env) (Some p) (match_input op));
          dec1 = dec0\<lparr>dc_RiskBand := band\<rparr>
      in if band = RiskForbidden
         then (dec1\<lparr>dc_Verdict := VerdictDeny, dc_Reason := ''command matches forbidden_patterns''\<rparr>, s)
         else (let estimate = (case ge_BudgetEstimator env of None \<Rightarrow> DefaultEstimate | Some f \<Rightarrow> f op);
                   dec2 = dec1\<lparr>dc_Budget := estimate\<rparr>
               in case CheckEstimate (gt_Budgets g) sessionID (po_Defaults p) estimate of
                    Some reason \<Rightarrow>
                      (dec2\<lparr>dc_Verdict := VerdictRequireHITL, dc_Reason := reason,
                            dc_Prompt := Some (approval_prompt op (dc_RiskBand dec2)
                              (''Session budget exhausted: '' @ reason)
                              [''raise-budget'', ''terminate-task''])\<rparr>, s)
                  | None \<Rightarrow>
                      (if dc_Sandbox dec2 \<noteq> SandboxNone \<and> dc_Sandbox dec2 \<noteq> SandboxOther [] \<and>
                          \<not> checkSandboxAvailable env s (dc_Sandbox dec2) p
                       then (dec2\<lparr>dc_Verdict := VerdictDeny, dc_Reason := ''sandbox_unavailable''\<rparr>, s)
                       else if band = RiskDangerous
                       then (dec2\<lparr>dc_Verdict := VerdictRequireHITL,
                                  dc_Reason := ''command matches dangerous_patterns'',
                                  dc_Prompt := Some (approval_prompt op RiskDangerous
                                    (''Dangerous pattern '' @ [CHR 0xE2, CHR 0x80, CHR 0x94] @
                                     '' approval does not stick.'') [])\<rparr>, s)
                       else eval_first_run env p op band dec2 s)))"

definition base_decision :: "gate_op \<Rightarrow> host_policy \<Rightarrow> string \<Rightarrow> decision" where
  "base_decision op p sessionID =
     \<lparr>dc_Verdict = VerdictDeny, dc_RiskBand = RiskUnknown, dc_Reason = [],
      dc_Sandbox = resolveSandbox op p, dc_Budget = no_usage, dc_Prompt = None,
      dc_FirstRun = False, dc_SessionID = sessionID\<rparr>"

definition Evaluate :: "'g gate_env \<Rightarrow> gate \<Rightarrow> host_policy \<Rightarrow> string \<Rightarrow> gate_op \<Rightarrow> 'g \<Rightarrow> decision \<times> 'g" where
  "Evaluate env g p ctxSession op s =
     (let sessionID = gate_session env ctxSession;
          dec = base_decision op p sessionID
      in if ActiveOpt (gt_AwakeningMode g) sessionID \<and> is_exec op \<and> \<not> IsIntrospection (op_Command op)
         then (dec\<lparr>dc_Verdict := VerdictDeny, dc_RiskBand := RiskForbidden,
                   dc_Reason := ''awakening mode: command outside introspection allow-list''\<rparr>, s)
         else if op_Kind op = ''kill''
         then (dec\<lparr>dc_Verdict := VerdictAllow, dc_RiskBand := RiskSafe, dc_Reason := ''kill allowed''\<rparr>, s)
         else eval_policy env g p sessionID op dec s)"

definition verdict_error :: "gate_op \<Rightarrow> decision \<Rightarrow> gerr option" where
  "verdict_error op dec = (case dc_Verdict dec of
     VerdictAllow \<Rightarrow> None
   | VerdictDeny \<Rightarrow> Some (NewHostError HostErrCodeGateDenied
       (''gate denied '' @ op_Kind op @ '': '' @ dc_Reason dec @ '' (band='' @
        risk_str (dc_RiskBand dec) @ '')'') None)
   | VerdictRequireHITL \<Rightarrow> Some (RequiresHITL dec))"

definition Check ::
  "'g gate_env \<Rightarrow> host_policy \<Rightarrow> string \<Rightarrow> gate_op \<Rightarrow> gate \<Rightarrow> 'g \<Rightarrow> gerr option \<times> gate \<times> 'g" where
  "Check env p ctxSession op g s =
     (let (dec, s1) = Evaluate env g p ctxSession op s
      in (verdict_error op dec, auditAsync dec op [] g, s1))"

definition GateRecordActual :: "gate_op \<Rightarrow> budget_estimate \<Rightarrow> gate \<Rightarrow> gate" where
  "GateRecordActual op actual g =
     (let sid = (if op_SessionID op = [] then ''unknown'' else op_SessionID op)
      in g\<lparr>gt_Budgets := RecordActual sid actual (gt_Budgets g)\<rparr>)"

definition ApproveFirstRun ::
  "'g gate_env \<Rightarrow> string \<Rightarrow> string \<Rightarrow> string \<Rightarrow> 'g \<Rightarrow> gerr option \<times> 'g" where
  "ApproveFirstRun env hostID sha userID s = (case ge_FirstRun env of
     None \<Rightarrow> (None, s)
   | Some port \<Rightarrow> fr_Approve port s (if hostID = [] then ge_HostID env else hostID) sha userID)"

section \<open>Lemmas\<close>

lemma verdict_error_None: "verdict_error op dec = None \<longleftrightarrow> dc_Verdict dec = VerdictAllow"
  by (simp add: verdict_error_def split: verdict.splits)

lemma verdict_error_hitl:
  "(\<exists>d. IsRequiresHITL (verdict_error op dec) = Some d) \<longleftrightarrow> dc_Verdict dec = VerdictRequireHITL"
  by (simp add: verdict_error_def IsRequiresHITL_def NewHostError_def split: verdict.splits)

text \<open>
  The first-run condition as \<open>Evaluate\<close> reads it: the ledger is not consulted, or the lookup
  failed, or the entry is approved and not revoked.
\<close>

definition first_run_passes :: "'g gate_env \<Rightarrow> gate_op \<Rightarrow> 'g \<Rightarrow> bool" where
  "first_run_passes env op s \<longleftrightarrow>
     (case (if is_exec op \<and> op_Command op \<noteq> [] then ge_FirstRun env else None) of
        None \<Rightarrow> True
      | Some port \<Rightarrow> (case snd (fst (firstRunLookup env port (op_Command op) s)) of
           Inl e \<Rightarrow> True
         | Inr entry \<Rightarrow> (case entry of None \<Rightarrow> False | Some en \<Rightarrow> \<not> le_Revoked en \<and> le_Approved en)))"

lemma eval_bands_allow:
  "dc_Verdict (eval_bands env p op band dec) = VerdictAllow \<longleftrightarrow>
     band = RiskSafe \<or> (band = RiskCaution \<and>
       band_hit (rx_match (ge_rx env)) (po_safe p) (normaliseCommand (match_input op)))"
  by (auto simp: eval_bands_def band_matches_iff)

lemma eval_first_run_allow:
  "dc_Verdict (fst (eval_first_run env p op band dec s)) = VerdictAllow \<longleftrightarrow>
     first_run_passes env op s \<and> dc_Verdict (eval_bands env p op band dec) = VerdictAllow"
proof (cases "if is_exec op \<and> op_Command op \<noteq> [] then ge_FirstRun env else None")
  case None
  then show ?thesis unfolding eval_first_run_def first_run_passes_def None by simp
next
  case (Some port)
  obtain sha res s1 where l: "firstRunLookup env port (op_Command op) s = ((sha, res), s1)"
    by (metis prod.exhaust)
  show ?thesis
    unfolding eval_first_run_def first_run_passes_def Some l
    by (auto simp: l split: sum.splits option.splits)
qed

definition estimate_of :: "'g gate_env \<Rightarrow> gate_op \<Rightarrow> budget_estimate" where
  "estimate_of env op = (case ge_BudgetEstimator env of None \<Rightarrow> DefaultEstimate | Some f \<Rightarrow> f op)"

definition sandbox_ok :: "'g gate_env \<Rightarrow> 'g \<Rightarrow> gate_op \<Rightarrow> host_policy \<Rightarrow> bool" where
  "sandbox_ok env s op p \<longleftrightarrow> resolveSandbox op p = SandboxNone \<or> resolveSandbox op p = SandboxOther [] \<or>
     checkSandboxAvailable env s (resolveSandbox op p) p"

lemma eval_policy_allow:
  assumes "dc_Sandbox dec0 = resolveSandbox op p"
  shows "dc_Verdict (fst (eval_policy env g p sid op dec0 s)) = VerdictAllow \<longleftrightarrow>
    (let band = fst (Classify (ge_rx env) (Some p) (match_input op))
     in CheckEstimate (gt_Budgets g) sid (po_Defaults p) (estimate_of env op) = None \<and>
        sandbox_ok env s op p \<and> first_run_passes env op s \<and>
        (band = RiskSafe \<or> (band = RiskCaution \<and>
          band_hit (rx_match (ge_rx env)) (po_safe p) (normaliseCommand (match_input op)))))"
  using assms
  by (cases "CheckEstimate (gt_Budgets g) sid (po_Defaults p) (estimate_of env op)")
    (auto simp: eval_policy_def Let_def estimate_of_def[symmetric] sandbox_ok_def
      eval_first_run_allow eval_bands_allow)

lemma Evaluate_allow:
  "dc_Verdict (fst (Evaluate env g p ctx op s)) = VerdictAllow \<longleftrightarrow>
    (let sid = gate_session env ctx; band = fst (Classify (ge_rx env) (Some p) (match_input op))
     in \<not> (ActiveOpt (gt_AwakeningMode g) sid \<and> is_exec op \<and> \<not> IsIntrospection (op_Command op)) \<and>
        (op_Kind op = ''kill'' \<or>
         (CheckEstimate (gt_Budgets g) sid (po_Defaults p) (estimate_of env op) = None \<and>
          sandbox_ok env s op p \<and> first_run_passes env op s \<and>
          (band = RiskSafe \<or> (band = RiskCaution \<and>
            band_hit (rx_match (ge_rx env)) (po_safe p) (normaliseCommand (match_input op)))))))"
proof -
  have "dc_Sandbox (base_decision op p sid) = resolveSandbox op p" for sid
    by (simp add: base_decision_def)
  note e = eval_policy_allow[OF this]
  show ?thesis
    by (simp add: Evaluate_def Let_def e)
qed

text \<open>A decision that asks for a human carries a prompt about the operation.\<close>

lemma eval_bands_prompt:
  "dc_Verdict (eval_bands env p op band dec) = VerdictRequireHITL \<Longrightarrow>
   \<exists>pr. dc_Prompt (eval_bands env p op band dec) = Some pr \<and> hp_Command pr = displayCommand op \<and>
     hp_Schema pr = HostApprovalSchema"
  by (auto simp: eval_bands_def approval_prompt_def split: if_splits)

lemma eval_first_run_prompt:
  "dc_Verdict (fst (eval_first_run env p op band dec s)) = VerdictRequireHITL \<Longrightarrow>
   \<exists>pr. dc_Prompt (fst (eval_first_run env p op band dec s)) = Some pr \<and>
     hp_Command pr = displayCommand op \<and> hp_Schema pr = HostApprovalSchema"
  using eval_bands_prompt[of env p op band dec]
  by (auto simp: eval_first_run_def Let_def approval_prompt_def
      split: option.splits sum.splits prod.splits if_splits)

lemma Evaluate_prompt:
  "dc_Verdict (fst (Evaluate env g p ctx op s)) = VerdictRequireHITL \<Longrightarrow>
   \<exists>pr. dc_Prompt (fst (Evaluate env g p ctx op s)) = Some pr \<and> hp_Command pr = displayCommand op \<and>
     hp_Schema pr = HostApprovalSchema"
  using eval_first_run_prompt
  by (auto simp: Evaluate_def eval_policy_def Let_def approval_prompt_def split: if_splits option.splits)

section \<open>The audit queue is bounded and keeps the order\<close>

datatype audit_event = AeSubmit "decision \<times> gate_op \<times> string" | AeWork | AeShutdown

fun audit_step :: "'g gate_env \<Rightarrow> audit_event \<Rightarrow> audit_pool \<Rightarrow> audit_pool" where
  "audit_step env (AeSubmit j) p = Submit j p"
| "audit_step env AeWork p = audit_worker env p"
| "audit_step env AeShutdown p = ShutdownPool p"

fun submitted :: "audit_event list \<Rightarrow> (decision \<times> gate_op \<times> string) list" where
  "submitted [] = []"
| "submitted (AeSubmit j # es) = j # submitted es"
| "submitted (AeWork # es) = submitted es"
| "submitted (AeShutdown # es) = submitted es"

definition audit_inv ::
  "(decision \<times> gate_op \<times> string) list \<Rightarrow> audit_pool \<Rightarrow> bool" where
  "audit_inv js p \<longleftrightarrow> length (ap_Queue p) \<le> auditQueueSize \<and>
     length (ap_Stored p) + length (ap_Queue p) + ap_Dropped p = length js \<and>
     subseq (ap_Stored p @ ap_Queue p) js"

lemma audit_inv_step:
  assumes "audit_inv js p"
  shows "audit_inv (js @ submitted [e]) (audit_step env e p)"
proof (cases e)
  case (AeSubmit j)
  have "subseq (ap_Stored p @ ap_Queue p @ [j]) (js @ [j])"
    using assms list_emb_append_mono[of "(=)" "ap_Stored p @ ap_Queue p" js "[j]" "[j]"]
    by (simp add: audit_inv_def)
  moreover have "subseq (ap_Stored p @ ap_Queue p) (js @ [j])"
    using assms by (simp add: audit_inv_def list_emb_prefix)
  ultimately show ?thesis
    using assms AeSubmit by (auto simp: audit_inv_def Submit_def)
next
  case AeWork
  show ?thesis
  proof (cases "ap_Queue p")
    case Nil
    with assms AeWork show ?thesis by (simp add: audit_inv_def audit_worker_def)
  next
    case (Cons j q)
    obtain dec op rid where j: "j = (dec, op, rid)" by (metis prod_cases3)
    have "subseq (ap_Stored p @ q) (ap_Stored p @ j # q)"
      by (rule list_emb_append_mono) (auto intro: list_emb_refl)
    then have "subseq (ap_Stored p @ q) js"
      using assms Cons unfolding audit_inv_def by (metis subseq_order.order_trans)
    with assms AeWork Cons j show ?thesis
      by (auto simp: audit_inv_def audit_worker_def split: option.splits)
  qed
next
  case AeShutdown
  with assms show ?thesis by (simp add: audit_inv_def ShutdownPool_def)
qed

lemma submitted_Cons: "submitted (e # es) = submitted [e] @ submitted es"
  by (cases e) simp_all

lemma audit_inv_run:
  "audit_inv js p \<Longrightarrow> audit_inv (js @ submitted es) (fold (audit_step env) es p)"
proof (induction es arbitrary: js p)
  case (Cons e es)
  from Cons.IH[OF audit_inv_step[OF Cons.prems, of e env]] show ?case
    by (simp add: submitted_Cons[of e es])
qed simp

end
