(* ===== verification/Float64.thy ===== *)
theory Float64
  imports Prelude
begin

text \<open>
  Go's \<open>float64\<close> as far as sums and products of moderate size need it: a value is the rational it denotes, and the
  result of an operation is the exact result rounded to 53 significant bits, to nearest with ties to even, below
  \<open>2 ^ -1022\<close> to a multiple of \<open>2 ^ -1074\<close>. Overflow, infinities and NaN are left out: the callers say why they do
  not occur.
\<close>

fun bit_len :: "nat \<Rightarrow> nat" where
  "bit_len n = (if n = 0 then 0 else Suc (bit_len (n div 2)))"

declare bit_len.simps [simp del]

lemma bit_len_bounds: "0 < n \<Longrightarrow> 2 ^ (bit_len n - 1) \<le> n \<and> n < 2 ^ bit_len n \<and> 0 < bit_len n"
proof (induction n rule: bit_len.induct)
  case (1 n)
  show ?case
  proof (cases "n div 2 = 0")
    case True
    then show ?thesis using 1 by (simp add: bit_len.simps[of n] bit_len.simps[of 0])
  next
    case False
    then have "2 ^ (bit_len (n div 2) - 1) \<le> n div 2 \<and> n div 2 < 2 ^ bit_len (n div 2) \<and> 0 < bit_len (n div 2)" using 1 by simp
    moreover have "(2::nat) ^ bit_len (n div 2) = 2 * 2 ^ (bit_len (n div 2) - 1)"
      using calculation by (simp flip: power_Suc)
    ultimately show ?thesis using 1(2) by (simp add: bit_len.simps[of n]) linarith
  qed
qed

text \<open>The exponent of the leading bit.\<close>

definition ilog2 :: "rat \<Rightarrow> int" where
  "ilog2 x = (case quotient_of x of (p, q) \<Rightarrow>
     let e = int (bit_len (nat p)) - int (bit_len (nat q)) in if 2 powi e \<le> x then e else e - 1)"

definition round_even :: "rat \<Rightarrow> int" where
  "round_even y = (let n = \<lfloor>y\<rfloor>; d = y - of_int n
     in if d < 1 / 2 \<or> (d = 1 / 2 \<and> even n) then n else n + 1)"

text \<open>The unit of the last place.\<close>

definition ulp_of :: "rat \<Rightarrow> rat" where
  "ulp_of x = 2 powi (max (ilog2 \<bar>x\<bar>) (- 1022) - 52)"

definition fl :: "rat \<Rightarrow> rat" where
  "fl x = (if x = 0 then 0 else of_int (round_even (x / ulp_of x)) * ulp_of x)"

section \<open>The rounding error\<close>

lemma ilog2_bounds:
  assumes "0 < x"
  shows "2 powi (ilog2 x) \<le> x" "x < 2 powi (ilog2 x + 1)"
proof -
  obtain p q where pq: "quotient_of x = (p, q)" by force
  have q: "0 < q" using quotient_of_denom_pos[OF pq] .
  have x: "x = of_int p / of_int q" using quotient_of_div[OF pq] .
  have p: "0 < p" using assms q by (simp add: x zero_less_divide_iff)
  define bp bq where "bp = bit_len (nat p)" and "bq = bit_len (nat q)"
  have b: "0 < bp" "0 < bq" using bit_len_bounds p q by (auto simp: bp_def bq_def)
  have np: "2 ^ (bp - 1) \<le> nat p \<and> nat p < 2 ^ bp" and nq: "2 ^ (bq - 1) \<le> nat q \<and> nat q < 2 ^ bq"
    using bit_len_bounds[of "nat p"] bit_len_bounds[of "nat q"] p q by (auto simp: bp_def bq_def)
  have ip: "2 ^ (bp - 1) \<le> p" "p < 2 ^ bp" "2 ^ (bq - 1) \<le> q" "q < 2 ^ bq"
    using np nq by (simp_all add: nat_less_iff le_nat_iff)
  have rp: "(2::rat) ^ (bp - 1) \<le> of_int p" "of_int p < (2::rat) ^ bp" "(2::rat) ^ (bq - 1) \<le> of_int q" "of_int q < (2::rat) ^ bq"
    using ip by (metis of_int_le_iff of_int_less_iff of_int_numeral of_int_power)+
  have pw: "(2::rat) powi (int a - int c) = 2 ^ a / 2 ^ c" for a c by (simp add: power_int_diff)
  have up: "x < 2 powi (int bp - int bq + 1)"
  proof -
    have "x < 2 ^ bp / 2 ^ (bq - 1)" unfolding x
      using rp p q by (intro frac_less) auto
    also have "\<dots> = 2 powi (int bp - int bq + 1)" using b(2) pw[of bp "bq - 1"] by (simp add: of_nat_diff algebra_simps)
    finally show ?thesis .
  qed
  have low: "2 powi (int bp - int bq - 1) \<le> x"
  proof -
    have "2 powi (int bp - int bq - 1) = (2::rat) ^ (bp - 1) / 2 ^ bq" using b(1) pw[of "bp - 1" bq] by (simp add: of_nat_diff algebra_simps)
    also have "\<dots> \<le> x" unfolding x using rp p q by (intro frac_le) auto
    finally show ?thesis .
  qed
  have l: "ilog2 x = (if 2 powi (int bp - int bq) \<le> x then int bp - int bq else int bp - int bq - 1)"
    by (simp add: ilog2_def pq bp_def bq_def Let_def)
  show "2 powi (ilog2 x) \<le> x" "x < 2 powi (ilog2 x + 1)" using l up low by (auto split: if_splits)
qed

lemma round_even_error: "\<bar>of_int (round_even y) - y\<bar> \<le> 1 / 2"
proof -
  have "of_int \<lfloor>y\<rfloor> \<le> y" "y < of_int \<lfloor>y\<rfloor> + 1" by linarith+
  then show ?thesis unfolding round_even_def Let_def by (auto split: if_splits)
qed

lemma ulp_pos: "0 < ulp_of x" by (simp add: ulp_of_def)

lemma fl_error: "\<bar>fl x - x\<bar> \<le> ulp_of x / 2"
proof (cases "x = 0")
  case False
  have "fl x - x = (of_int (round_even (x / ulp_of x)) - x / ulp_of x) * ulp_of x"
    using ulp_pos[of x] False by (simp add: fl_def left_diff_distrib)
  then have "\<bar>fl x - x\<bar> = \<bar>of_int (round_even (x / ulp_of x)) - x / ulp_of x\<bar> * ulp_of x"
    using ulp_pos[of x] by (simp add: abs_mult)
  also have "\<dots> \<le> 1 / 2 * ulp_of x" using ulp_pos[of x] by (intro mult_right_mono round_even_error) simp
  finally show ?thesis by simp
qed (simp add: fl_def ulp_pos less_imp_le)

lemma fl_nonneg: "0 \<le> x \<Longrightarrow> 0 \<le> fl x"
proof -
  assume x: "0 \<le> x"
  then have "0 \<le> x / ulp_of x" using ulp_pos[of x] by simp
  then have "0 \<le> round_even (x / ulp_of x)" by (auto simp: round_even_def Let_def)
  then show ?thesis using ulp_pos[of x] by (simp add: fl_def)
qed

text \<open>The relative error of a result that is zero or not too small, and the error in general.\<close>

lemma fl_relative:
  assumes "0 \<le> x" and "x = 0 \<or> 2 powi (- 1022) \<le> x"
  shows "\<bar>fl x - x\<bar> \<le> x / 2 ^ 53"
proof (cases "x = 0")
  case False
  then have pos: "0 < x" using assms(1) by simp
  have "2 powi (- 1022) < (2::rat) powi (ilog2 x + 1)" using ilog2_bounds(2)[OF pos] assms(2) False by linarith
  then have "- 1022 \<le> ilog2 x" using power_int_increasing[of "ilog2 x + 1" "- 1022" "2::rat"] by linarith
  then have u: "ulp_of x = 2 powi (ilog2 x) / 2 ^ 52" using pos by (simp add: ulp_of_def power_int_diff)
  then have "ulp_of x / 2 \<le> x / 2 ^ 53" using ilog2_bounds(1)[OF pos] by simp
  then show ?thesis using fl_error[of x] by linarith
qed (simp add: fl_def)

lemma fl_upper:
  assumes "0 \<le> x" and "x = 0 \<or> 2 powi (- 1022) \<le> x"
  shows "fl x \<le> x * (1 + 1 / 2 ^ 53)" "x * (1 - 1 / 2 ^ 53) \<le> fl x"
  using fl_relative[OF assms] unfolding abs_le_iff by (simp_all add: algebra_simps)

lemma power_int_1074: "(2::rat) powi (- 1074) \<le> 2 powi (- 53)"
  by (intro power_int_increasing) simp_all

lemma power_int_53: "(2::rat) powi (- 53) = 1 / 2 ^ 53"
  by (simp only: power_int_minus power_int_numeral inverse_eq_divide)

lemma fl_small:
  assumes "0 \<le> x"
  shows "fl x \<le> x + (x + 1) / 2 ^ 53"
proof (cases "x = 0 \<or> 2 powi (- 1022) \<le> x")
  case False
  then have pos: "0 < x" "x < 2 powi (- 1022)" using False assms by auto
  have "(2::rat) powi (ilog2 x) < 2 powi (- 1022)" using ilog2_bounds(1)[OF pos(1)] pos(2) by linarith
  then have "ilog2 x < - 1022" using power_int_increasing[of "- 1022" "ilog2 x" "2::rat"] by linarith
  then have u: "ulp_of x = 2 powi (- 1074)" using pos by (simp add: ulp_of_def)
  have "ulp_of x \<le> 2 powi (- 53)" unfolding u by (rule power_int_1074)
  also have "\<dots> = 1 / 2 ^ 53" by (simp only: power_int_53)
  finally have "ulp_of x \<le> 1 / 2 ^ 53" .
  then have "fl x - x \<le> 1 / 2 ^ 53" using fl_error[of x] ulp_pos[of x] by (simp only: abs_le_iff) linarith
  moreover have "1 / 2 ^ 53 \<le> (x + 1) / (2 ^ 53 :: rat)" using pos(1) by (intro divide_right_mono) simp_all
  ultimately show ?thesis by linarith
next
  case True
  have "fl x \<le> x + x / 2 ^ 53" using fl_upper(1)[OF assms True] by (simp only: distrib_left mult_1_right times_divide_eq_right)
  moreover have "x / 2 ^ 53 \<le> (x + 1) / (2 ^ 53 :: rat)" by (intro divide_right_mono) simp_all
  ultimately show ?thesis by linarith
qed

lemma fl_nonpos: "x \<le> 0 \<Longrightarrow> fl x \<le> 0"
proof -
  assume x: "x \<le> 0"
  show ?thesis
  proof (cases "x = 0")
    case False
    then have "x / ulp_of x < 0" using x ulp_pos[of x] by (simp add: divide_neg_pos)
    then have "\<lfloor>x / ulp_of x\<rfloor> < 0" by (simp only: floor_less_zero)
    then have "\<lfloor>x / ulp_of x\<rfloor> \<le> 0" "\<lfloor>x / ulp_of x\<rfloor> + 1 \<le> 0" by linarith+
    then have "round_even (x / ulp_of x) \<le> 0" by (simp only: round_even_def Let_def split: if_split) blast
    then show ?thesis using ulp_pos[of x] by (simp add: fl_def mult_le_0_iff)
  qed (simp add: fl_def)
qed

text \<open>An integer of at most 53 bits is a value.\<close>

lemma fl_of_int:
  assumes "0 < n" "n < 2 ^ 53"
  shows "fl (of_int n) = of_int n"
proof -
  define e where "e = ilog2 (of_int n)"
  have "(2::rat) powi e \<le> of_int n" "of_int n < (2::rat) powi (e + 1)" using ilog2_bounds[of "of_int n"] assms by (auto simp: e_def)
  moreover have "(of_int n :: rat) < of_int (2 ^ 53)" using assms(2) by (simp only: of_int_less_iff)
  then have "(of_int n :: rat) < 2 powi 53" by simp
  moreover have "(2::rat) powi 0 \<le> of_int n" using assms(1) by simp
  ultimately have "e < 53" "0 \<le> e"
    using power_int_increasing[of 53 e "2::rat"] power_int_increasing[of "e + 1" 0 "2::rat"] by linarith+
  then obtain k where k: "52 - e = int k" using nonneg_int_cases[of "52 - e"] by auto
  have u: "ulp_of (of_int n) = 2 powi (e - 52)" using assms(1) \<open>0 \<le> e\<close> by (simp add: ulp_of_def e_def)
  have "e - 52 = - int k" using k by simp
  then have ui: "ulp_of (of_int n) = 1 / 2 ^ k" by (simp add: u power_int_minus inverse_eq_divide)
  then have "of_int n / ulp_of (of_int n) = of_int (n * 2 ^ k)" by simp
  moreover have "round_even (of_int m) = m" for m by (simp add: round_even_def Let_def)
  ultimately have "fl (of_int n) = of_int (n * 2 ^ k) * ulp_of (of_int n)" using assms(1) by (simp only: fl_def) simp
  then show ?thesis by (simp add: ui)
qed

lemma fl_zero [simp]: "fl 0 = 0"
  by (simp add: fl_def)

lemma fl_tenth: "fl (1 / 10) = 3602879701896397 / 36028797018963968"
  by code_simp

end
