(* ===== verification/Rate_Limiter.thy ===== *)
theory Rate_Limiter
  imports Float64
begin

text \<open>
  The token-bucket rate limiter, \<open>infra/host/rate_limiter.go\<close>. The clock reading, in nanoseconds, is an argument of
  \<open>Allow\<close>; the tokens are \<open>float64\<close> values (\<open>Float64\<close>), rounded after each operation. Go may fuse a product and a
  sum into one rounding; \<open>fused\<close> says whether it does. Nothing overflows: a product is below \<open>2 ^ 100\<close>.
\<close>

record token_bucket =
  tb_tokens :: rat
  tb_last :: int

record rate_limiter =
  rl_rate :: rat
  rl_burst :: rat
  rl_buckets :: "token_bucket gomap"

definition DefaultRateLimit :: int where "DefaultRateLimit = 1000"

definition NewTokenBucketRateLimiter :: "int \<Rightarrow> rate_limiter" where
  "NewTokenBucketRateLimiter rate =
     (let r = (if rate \<le> 0 then DefaultRateLimit else rate)
      in \<lparr>rl_rate = fl (of_int r), rl_burst = fl (of_int r), rl_buckets = []\<rparr>)"

text \<open>\<open>Time.Sub\<close> saturates; \<open>Duration.Seconds\<close> adds the whole seconds and the rest, both cut towards zero.\<close>

definition time_sub :: "int \<Rightarrow> int \<Rightarrow> int" where
  "time_sub t u = max (- (2 ^ 63)) (min (2 ^ 63 - 1) (t - u))"

definition duration_seconds :: "int \<Rightarrow> rat" where
  "duration_seconds d =
     (let sec = sgn d * (\<bar>d\<bar> div 10 ^ 9); nsec = sgn d * (\<bar>d\<bar> mod 10 ^ 9)
      in fl (fl (of_int sec) + fl (fl (of_int nsec) / 10 ^ 9)))"

definition refill :: "bool \<Rightarrow> rat \<Rightarrow> rat \<Rightarrow> int \<Rightarrow> token_bucket option \<Rightarrow> token_bucket" where
  "refill fused rate burst now mb = (case mb of
     None \<Rightarrow> \<lparr>tb_tokens = burst, tb_last = now\<rparr>
   | Some b \<Rightarrow>
       (let elapsed = duration_seconds (time_sub now (tb_last b))
        in if elapsed > 0
           then (let tokens = fl (tb_tokens b + (if fused then elapsed * rate else fl (elapsed * rate)))
                 in \<lparr>tb_tokens = (if tokens > burst then burst else tokens), tb_last = now\<rparr>)
           else b))"

definition AllowEvent :: "bool \<Rightarrow> string \<Rightarrow> int \<Rightarrow> rate_limiter \<Rightarrow> bool \<times> rate_limiter" where
  "AllowEvent fused sessionID now l =
     (let b = refill fused (rl_rate l) (rl_burst l) now (map_of (rl_buckets l) sessionID);
          ok = (tb_tokens b \<ge> 1);
          b' = (if ok then b\<lparr>tb_tokens := fl (tb_tokens b - 1)\<rparr> else b)
      in (ok, l\<lparr>rl_buckets := AList.update sessionID b' (rl_buckets l)\<rparr>))"

definition ResetLimiter :: "rate_limiter \<Rightarrow> rate_limiter" where
  "ResetLimiter l = l\<lparr>rl_buckets := []\<rparr>"

section \<open>The bound\<close>

lemma update_same_key: "AList.update k v (AList.update k w m) = AList.update k v m"
  by (induction m) auto

text \<open>A history of calls, and how many of a session's calls were made and allowed.\<close>

fun limiter_run :: "bool \<Rightarrow> (string \<times> int) list \<Rightarrow> rate_limiter \<Rightarrow> (string \<times> bool) list \<times> rate_limiter" where
  "limiter_run fused [] l = ([], l)"
| "limiter_run fused ((s, now) # calls) l =
     (let (ok, l1) = AllowEvent fused s now l; (rs, l2) = limiter_run fused calls l1 in ((s, ok) # rs, l2))"

definition allowed_count :: "string \<Rightarrow> (string \<times> bool) list \<Rightarrow> nat" where
  "allowed_count s rs = length (filter (\<lambda>(t, ok). t = s \<and> ok) rs)"

definition call_count :: "string \<Rightarrow> (string \<times> 'a) list \<Rightarrow> nat" where
  "call_count s calls = length (filter (\<lambda>(t, _). t = s) calls)"

definition latest :: "string \<Rightarrow> int \<Rightarrow> (string \<times> int) list \<Rightarrow> int" where
  "latest s t0 calls = fold (\<lambda>(t, now) m. if t = s then max m now else m) calls t0"

text \<open>Half a unit of the last place of 1, and what four roundings add to a positive product.\<close>

definition eps :: rat where "eps = 1 / 2 ^ 53"

definition grown :: rat where "grown = (1 + eps) ^ 4"

lemma eps_pos [simp]: "0 < eps" "0 \<le> eps" "0 < 1 + eps" "0 \<le> 1 + eps"
  by (simp_all add: eps_def)

lemma fl_up: "0 \<le> x \<Longrightarrow> x = 0 \<or> 1 / 10 ^ 20 \<le> x \<Longrightarrow> fl x \<le> x * (1 + eps)"
proof -
  assume x: "0 \<le> x" "x = 0 \<or> 1 / 10 ^ 20 \<le> x"
  have "(2::rat) powi (- 1022) \<le> 2 powi (- 100)" by (intro power_int_increasing) simp_all
  also have "\<dots> \<le> 1 / 10 ^ 20" by (simp add: power_int_def power_one_over)
  finally show ?thesis using fl_upper(1)[of x] x unfolding eps_def by force
qed

lemma fl_down: "0 \<le> x \<Longrightarrow> x = 0 \<or> 1 / 10 ^ 20 \<le> x \<Longrightarrow> x / 2 \<le> fl x"
proof -
  assume x: "0 \<le> x" "x = 0 \<or> 1 / 10 ^ 20 \<le> x"
  have "(2::rat) powi (- 1022) \<le> 2 powi (- 100)" by (intro power_int_increasing) simp_all
  also have "\<dots> \<le> 1 / 10 ^ 20" by (simp add: power_int_def power_one_over)
  finally have "x * (1 - 1 / 2 ^ 53) \<le> fl x" using fl_upper(2)[of x] x by force
  moreover have "x * (1 / 2) \<le> x * (1 - 1 / 2 ^ 53)" using x(1) by (intro mult_left_mono) simp_all
  ultimately show ?thesis by simp
qed

lemma duration_seconds_sign: "d \<le> 0 \<Longrightarrow> duration_seconds d \<le> 0"
proof -
  assume "d \<le> 0"
  then have "sgn d * (\<bar>d\<bar> div 10 ^ 9) \<le> 0" "sgn d * (\<bar>d\<bar> mod 10 ^ 9) \<le> 0"
    by (auto simp: sgn_if pos_imp_zdiv_nonneg_iff)
  then have s: "fl (of_int (sgn d * (\<bar>d\<bar> div 10 ^ 9))) \<le> 0" and n: "fl (of_int (sgn d * (\<bar>d\<bar> mod 10 ^ 9))) \<le> 0"
    by (intro fl_nonpos; simp only: of_int_le_0_iff)+
  have "fl (fl (of_int (sgn d * (\<bar>d\<bar> mod 10 ^ 9))) / 10 ^ 9) \<le> 0"
    by (intro fl_nonpos divide_nonpos_nonneg n) simp
  with s show ?thesis unfolding duration_seconds_def Let_def by (intro fl_nonpos) linarith
qed

lemma duration_seconds_pos:
  assumes "0 < d"
  shows "duration_seconds d \<le> of_int d / 10 ^ 9 * (1 + eps) ^ 3" "1 / 10 ^ 10 \<le> duration_seconds d"
proof -
  define s n where "s = (of_int (d div 10 ^ 9) :: rat)" and "n = (of_int (d mod 10 ^ 9) :: rat)"
  have "(of_int d :: rat) = of_int (d div 10 ^ 9 * 10 ^ 9 + d mod 10 ^ 9)" by (simp only: div_mult_mod_eq)
  also have "\<dots> = s * 10 ^ 9 + n" unfolding s_def n_def by (simp only: of_int_add of_int_mult of_int_power of_int_numeral)
  finally have d: "of_int d / 10 ^ 9 = s + n / 10 ^ 9" by (simp add: add_divide_distrib)
  have dm: "0 \<le> d div 10 ^ 9" "0 \<le> d mod 10 ^ 9" using assms by (simp_all add: pos_imp_zdiv_nonneg_iff)
  then have sn: "s = 0 \<or> 1 \<le> s" "n = 0 \<or> 1 \<le> n" unfolding s_def n_def by auto
  have some: "1 \<le> s \<or> 1 \<le> n"
  proof (rule ccontr)
    assume "\<not> ?thesis"
    then have "of_int d / 10 ^ 9 = (0 :: rat)" using sn d by simp
    then show False using assms by simp
  qed
  define fs fn fm where "fs = fl s" and "fn = fl n" and "fm = fl (fn / 10 ^ 9)"
  have eq: "duration_seconds d = fl (fs + fm)" using assms by (simp add: duration_seconds_def s_def n_def fs_def fn_def fm_def)
  have s: "fs \<le> s * (1 + eps)" "s / 2 \<le> fs" using sn(1) unfolding fs_def by (intro fl_up fl_down; auto)+
  have n: "fn \<le> n * (1 + eps)" "n / 2 \<le> fn" using sn(2) unfolding fn_def by (intro fl_up fl_down; auto)+
  have n0: "fn = 0 \<or> 1 / 2 \<le> fn" using n(2) sn(2) by (auto simp: fn_def)
  have m: "fm \<le> fn / 10 ^ 9 * (1 + eps)" "fn / 10 ^ 9 / 2 \<le> fm" using n0 unfolding fm_def by (intro fl_up fl_down; auto)+
  have low: "1 / 10 ^ 9 / 4 \<le> fs + fm"
    using some
  proof
    assume "1 \<le> s"
    moreover have "0 \<le> fm" using m(2) n0 by auto
    ultimately show ?thesis using s(2) by simp
  next
    assume "1 \<le> n"
    moreover have "0 \<le> fs" using s(2) sn(1) by auto
    ultimately show ?thesis using m(2) n(2) by simp
  qed
  have "(fs + fm) / 2 \<le> fl (fs + fm)" by (rule fl_down) (use low in simp_all)
  then show "1 / 10 ^ 10 \<le> duration_seconds d" using low by (simp add: eq)
  have "fl (fs + fm) \<le> (fs + fm) * (1 + eps)" by (rule fl_up) (use low in simp_all)
  also have "fs + fm \<le> (s + n / 10 ^ 9) * (1 + eps) ^ 2"
  proof -
    have "fm \<le> n * (1 + eps) / 10 ^ 9 * (1 + eps)" 
    proof -
      have "fn / 10 ^ 9 \<le> n * (1 + eps) / 10 ^ 9" using n(1) by (intro divide_right_mono) simp_all
      then have "fn / 10 ^ 9 * (1 + eps) \<le> n * (1 + eps) / 10 ^ 9 * (1 + eps)" by (intro mult_right_mono) simp_all
      then show ?thesis using m(1) by linarith
    qed
    moreover have "s * (1 + eps) * 1 \<le> s * (1 + eps) * (1 + eps)" using sn(1) by (intro mult_left_mono) auto
    ultimately have "fs + fm \<le> s * (1 + eps) * (1 + eps) + n * (1 + eps) / 10 ^ 9 * (1 + eps)" using s(1) by linarith
    then show ?thesis by (simp add: power2_eq_square algebra_simps)
  qed
  finally show "duration_seconds d \<le> of_int d / 10 ^ 9 * (1 + eps) ^ 3"
    unfolding eq d by (simp add: mult_right_mono power3_eq_cube power2_eq_square mult.assoc)
qed

text \<open>One refill: the bucket never exceeds the burst, and gains at most the rate times the time, up to rounding.\<close>

lemma refill_bounds:
  assumes t: "0 \<le> tb_tokens b" "tb_tokens b \<le> burst" and rate: "1 \<le> rate"
    and r: "r = refill fused rate burst now (Some b)"
  shows "tb_last r = max (tb_last b) now" "0 \<le> tb_tokens r" "tb_tokens r \<le> burst"
    "tb_tokens r \<le> tb_tokens b + rate * (of_int (tb_last r - tb_last b) / 10 ^ 9) * grown + burst * eps"
proof -
  let ?d = "time_sub now (tb_last b)"
  have burst: "0 \<le> burst" using t by linarith
  have "tb_last r = max (tb_last b) now \<and> 0 \<le> tb_tokens r \<and> tb_tokens r \<le> burst \<and>
    tb_tokens r \<le> tb_tokens b + rate * (of_int (tb_last r - tb_last b) / 10 ^ 9) * grown + burst * eps"
  proof (cases "0 < duration_seconds ?d")
    case False
    have "now \<le> tb_last b"
    proof (rule ccontr)
      assume "\<not> ?thesis"
      then have "0 < ?d" by (simp add: time_sub_def)
      then have "1 / 10 ^ 10 \<le> duration_seconds ?d" by (rule duration_seconds_pos(2))
      moreover have "(0::rat) < 1 / 10 ^ 10" by simp
      ultimately show False using False by linarith
    qed
    then show ?thesis using False t burst by (simp add: r refill_def Let_def)
  next
    case True
    then have d: "0 < ?d" using duration_seconds_sign[of ?d] by linarith
    then have later: "tb_last b < now" by (simp add: time_sub_def)
    then have le: "?d \<le> now - tb_last b" by (simp add: time_sub_def)
    define el where "el = duration_seconds ?d"
    have el: "el \<le> of_int (now - tb_last b) / 10 ^ 9 * (1 + eps) ^ 3" "1 / 10 ^ 10 \<le> el"
    proof -
      have "(of_int ?d :: rat) / 10 ^ 9 * (1 + eps) ^ 3 \<le> of_int (now - tb_last b) / 10 ^ 9 * (1 + eps) ^ 3"
        using le by (intro mult_right_mono divide_right_mono) (simp_all only: of_int_le_iff, simp_all)
      then show "el \<le> of_int (now - tb_last b) / 10 ^ 9 * (1 + eps) ^ 3" "1 / 10 ^ 10 \<le> el"
        using duration_seconds_pos[OF d] unfolding el_def by linarith+
    qed
    have prod: "1 / 10 ^ 10 \<le> el * rate" using mult_mono[OF el(2) rate] el(2) by simp
    define x where "x = (if fused then el * rate else fl (el * rate))"
    have "fl (el * rate) \<le> el * rate * (1 + eps)" "el * rate / 2 \<le> fl (el * rate)"
      using prod by (intro fl_up fl_down; auto)+
    moreover have "el * rate * 1 \<le> el * rate * (1 + eps)" using prod by (intro mult_left_mono) auto
    ultimately have x: "x \<le> el * rate * (1 + eps)" "1 / 10 ^ 11 \<le> x" using prod by (auto simp: x_def)
    have "el * (rate * (1 + eps)) \<le> of_int (now - tb_last b) / 10 ^ 9 * (1 + eps) ^ 3 * (rate * (1 + eps))"
      using rate by (intro mult_right_mono el(1)) simp
    then have x': "x \<le> rate * (of_int (now - tb_last b) / 10 ^ 9) * grown"
      using x(1) unfolding grown_def power4_eq_xxxx power3_eq_cube by (simp only: mult_ac)
    define y where "y = tb_tokens b + x"
    have y: "1 / 10 ^ 11 \<le> y" using x(2) t(1) by (simp add: y_def)
    then have up: "fl y \<le> y * (1 + eps)" and pos: "0 \<le> fl y" by (auto intro: fl_up fl_nonneg)
    have r': "r = \<lparr>tb_tokens = (if fl y > burst then burst else fl y), tb_last = now\<rparr>"
      using True by (simp add: r refill_def Let_def el_def x_def y_def)
    have be: "0 \<le> burst * eps" using burst by simp
    have "(if fl y > burst then burst else fl y) \<le> y + burst * eps"
    proof (cases "y \<le> burst")
      case True
      then have "y * eps \<le> burst * eps" by (intro mult_right_mono) simp_all
      moreover have "fl y \<le> y + y * eps" using up by (simp add: distrib_left)
      ultimately have "fl y \<le> y + burst * eps" by linarith
      then show ?thesis by (simp split: if_split)
    next
      case False
      then show ?thesis using be by auto
    qed
    then show ?thesis using x' later pos burst by (simp add: r' y_def)
  qed
  then show "tb_last r = max (tb_last b) now" "0 \<le> tb_tokens r" "tb_tokens r \<le> burst"
    "tb_tokens r \<le> tb_tokens b + rate * (of_int (tb_last r - tb_last b) / 10 ^ 9) * grown + burst * eps" by blast+
qed

text \<open>One call: what it pays out is what the bucket held plus its gain, up to rounding.\<close>

definition bucket_ok :: "rat \<Rightarrow> token_bucket \<Rightarrow> bool" where
  "bucket_ok burst b \<longleftrightarrow> 0 \<le> tb_tokens b \<and> tb_tokens b \<le> burst"

lemma AllowEvent_frame [simp]:
  "rl_rate (snd (AllowEvent fused s now l)) = rl_rate l" "rl_burst (snd (AllowEvent fused s now l)) = rl_burst l"
  by (simp_all add: AllowEvent_def Let_def)

lemma AllowEvent_other:
  "t \<noteq> s \<Longrightarrow> map_of (rl_buckets (snd (AllowEvent fused s now l))) t = map_of (rl_buckets l) t"
  by (simp add: AllowEvent_def Let_def)

lemma AllowEvent_payout:
  assumes b: "map_of (rl_buckets l) s = Some b" "bucket_ok (rl_burst l) b"
    and rate: "1 \<le> rl_rate l" and burst: "rl_burst l \<le> 2 ^ 52" and call: "AllowEvent fused s now l = (ok, l')"
  shows "\<exists>b'. map_of (rl_buckets l') s = Some b' \<and> bucket_ok (rl_burst l) b' \<and> tb_last b' = max (tb_last b) now \<and>
    (if ok then 1 else 0) + tb_tokens b' \<le> tb_tokens b +
      rl_rate l * (of_int (tb_last b' - tb_last b) / 10 ^ 9) * grown + 2 * rl_burst l * eps"
proof -
  define r where "r = refill fused (rl_rate l) (rl_burst l) now (Some b)"
  note rb = refill_bounds[OF b(2)[unfolded bucket_ok_def, THEN conjunct1] b(2)[unfolded bucket_ok_def, THEN conjunct2] rate r_def]
  let ?b' = "if tb_tokens r \<ge> 1 then r\<lparr>tb_tokens := fl (tb_tokens r - 1)\<rparr> else r"
  have ok: "ok = (tb_tokens r \<ge> 1)" and l': "map_of (rl_buckets l') s = Some ?b'"
    using b(1) call by (auto simp: AllowEvent_def Let_def r_def)
  have be: "0 \<le> rl_burst l * eps" using rb(2,3) by (intro mult_nonneg_nonneg) simp_all
  have pay: "(if ok then 1 else 0) + tb_tokens ?b' \<le> tb_tokens r + rl_burst l * eps \<and> bucket_ok (rl_burst l) ?b'"
  proof (cases ok)
    case True
    then have one: "1 \<le> tb_tokens r" using ok by simp
    have "tb_tokens r * eps \<le> rl_burst l * eps" using rb(3) by (intro mult_right_mono) simp_all
    moreover have "fl (tb_tokens r - 1) \<le> tb_tokens r - 1 + tb_tokens r * eps"
      using fl_small[of "tb_tokens r - 1"] one by (simp add: eps_def)
    moreover have "tb_tokens r * eps \<le> 1"
    proof -
      have "tb_tokens r * eps \<le> 2 ^ 52 * eps" using rb(3) burst by (intro mult_right_mono) simp_all
      then show ?thesis by (simp add: eps_def)
    qed
    moreover have "0 \<le> fl (tb_tokens r - 1)" using one by (intro fl_nonneg) simp
    ultimately have "1 + fl (tb_tokens r - 1) \<le> tb_tokens r + rl_burst l * eps \<and> 0 \<le> fl (tb_tokens r - 1) \<and>
        fl (tb_tokens r - 1) \<le> rl_burst l" using rb(3) by (intro conjI) linarith+
    then show ?thesis using True ok by (simp add: bucket_ok_def)
  next
    case False
    then show ?thesis using ok rb(2,3) be by (simp add: bucket_ok_def)
  qed
  have lb: "tb_last ?b' = tb_last r" by simp
  show ?thesis
    by (intro exI[of _ ?b'] conjI l') (use pay rb(1,4) lb in \<open>auto simp: algebra_simps\<close>)
qed

lemma limiter_run_payout:
  assumes "map_of (rl_buckets l) s = Some b" and "bucket_ok (rl_burst l) b" and "1 \<le> rl_rate l" and "rl_burst l \<le> 2 ^ 52"
    and "limiter_run fused calls l = (rs, l')"
  shows "of_nat (allowed_count s rs) \<le> tb_tokens b +
    rl_rate l * (of_int (latest s (tb_last b) calls - tb_last b) / 10 ^ 9) * grown +
    2 * rl_burst l * eps * of_nat (call_count s calls)"
  using assms
proof (induction calls arbitrary: l b rs l')
  case Nil
  then show ?case by (simp add: allowed_count_def latest_def call_count_def bucket_ok_def)
next
  case (Cons call calls)
  obtain t now where c: "call = (t, now)" by force
  obtain ok l1 where a: "AllowEvent fused t now l = (ok, l1)" by force
  obtain rs1 l2 where r: "limiter_run fused calls l1 = (rs1, l2)" by force
  have rs: "rs = (t, ok) # rs1" using Cons.prems(5) a r c by simp
  have f: "rl_rate l1 = rl_rate l" "rl_burst l1 = rl_burst l"
    using AllowEvent_frame[of fused t now l] a by simp_all
  show ?case
  proof (cases "t = s")
    case False
    then have "map_of (rl_buckets l1) s = Some b"
      using AllowEvent_other[of s t fused now l] a Cons.prems(1) by simp
    from Cons.IH[OF this _ _ _ r] Cons.prems(2-4) f False show ?thesis
      by (simp add: rs c allowed_count_def latest_def call_count_def)
  next
    case True
    from AllowEvent_payout[OF Cons.prems(1-4)] a True obtain b' where b':
      "map_of (rl_buckets l1) s = Some b'" "bucket_ok (rl_burst l) b'" "tb_last b' = max (tb_last b) now"
      "(if ok then 1 else 0) + tb_tokens b' \<le> tb_tokens b +
        rl_rate l * (of_int (tb_last b' - tb_last b) / 10 ^ 9) * grown + 2 * rl_burst l * eps"
      by blast
    have "of_nat (allowed_count s rs1) \<le> tb_tokens b' +
        rl_rate l * (of_int (latest s (tb_last b') calls - tb_last b') / 10 ^ 9) * grown +
        2 * rl_burst l * eps * of_nat (call_count s calls)"
      using Cons.IH[OF b'(1) _ _ _ r] b'(2) Cons.prems(3,4) f by simp
    moreover have "latest s (tb_last b) (call # calls) = latest s (tb_last b') calls"
      using True b'(3) by (simp add: c latest_def)
    moreover have "of_nat (allowed_count s rs) = (if ok then 1 else 0) + (of_nat (allowed_count s rs1) :: rat)"
      using True by (simp add: rs allowed_count_def)
    moreover have "of_nat (call_count s (call # calls)) = 1 + (of_nat (call_count s calls) :: rat)"
      using True by (simp add: c call_count_def)
    ultimately show ?thesis using b'(4) by (simp add: algebra_simps add_divide_distrib diff_divide_distrib)
  qed
qed

text \<open>A session that was not seen before: the burst, and the rate since its first call.\<close>

lemma limiter_run_fresh:
  assumes "map_of (rl_buckets l) s = None" and "1 \<le> rl_rate l" and "0 \<le> rl_burst l" and "rl_burst l \<le> 2 ^ 52"
    and "limiter_run fused ((s, t0) # calls) l = (rs, l')"
  shows "of_nat (allowed_count s rs) \<le> rl_burst l +
    rl_rate l * (of_int (latest s t0 calls - t0) / 10 ^ 9) * grown +
    2 * rl_burst l * eps * of_nat (call_count s ((s, t0) # calls))"
proof -
  let ?b0 = "\<lparr>tb_tokens = rl_burst l, tb_last = t0\<rparr>"
  let ?l0 = "l\<lparr>rl_buckets := AList.update s ?b0 (rl_buckets l)\<rparr>"
  have "AllowEvent fused s t0 l = AllowEvent fused s t0 ?l0"
    using assms(1) by (simp add: AllowEvent_def refill_def Let_def update_same_key time_sub_def duration_seconds_def)
  then have run: "limiter_run fused ((s, t0) # calls) ?l0 = (rs, l')" using assms(5) by simp
  have b0: "map_of (rl_buckets ?l0) s = Some ?b0" "bucket_ok (rl_burst ?l0) ?b0" using assms(3) by (simp_all add: bucket_ok_def)
  from limiter_run_payout[OF b0 _ _ run] assms(2,4) show ?thesis by (simp add: latest_def)
qed

end
