(* ===== verification/Host_Properties.thy ===== *)
theory Host_Properties
  imports Gate Rate_Limiter
begin

text \<open>
  The properties of the host side: the classifier, the gate's verdict, the awakening mode, the audit
  trail, the learned overlay, the budgets and the rate limiter. The first section is a sample policy
  with a regular expression library that matches prefixes; the witnesses evaluate on it.
\<close>

section \<open>A sample policy\<close>

definition prefix_rx :: regex_lib where
  "prefix_rx = \<lparr>rx_compile = (\<lambda>p. None), rx_match = (\<lambda>p s. has_prefix s p)\<rparr>"

definition sample_policy :: host_policy where
  "sample_policy = snd (finalize prefix_rx (empty_policy
     \<lparr>po_Defaults := \<lparr>df_Sandbox = ''none'', df_CPUSecondsBudget = 10, df_BytesWrittenBudget = 10,
        df_OutboundRequestsBudget = 10\<rparr>,
      po_ForbiddenPat := [''rm -rf /''], po_DangerousPat := [''rm''], po_CautionPat := [''git push''],
      po_SafePat := [''ls'']\<rparr>))"

definition sample_env :: "unit gate_env" where
  "sample_env = \<lparr>ge_rx = prefix_rx, ge_LookPath = (\<lambda>s c. Inr c), ge_SHA256 = (\<lambda>s p. Inr p),
     ge_Available = (\<lambda>s r. True), ge_FirstRun = None, ge_HostID = ''h'', ge_SessionIDResolver = Some id,
     ge_BudgetEstimator = None, ge_Insert = (\<lambda>d q r. None)\<rparr>"

definition fresh_pool :: audit_pool where
  "fresh_pool = \<lparr>ap_Stored = [], ap_Queue = [], ap_Dropped = 0, ap_Shutdown = False\<rparr>"

definition sample_gate :: gate where
  "sample_gate = \<lparr>gt_Policies = None, gt_Budgets = [], gt_AwakeningMode = None, gt_Audit = Some fresh_pool\<rparr>"

definition exec_op :: "string \<Rightarrow> gate_op" where
  "exec_op command = \<lparr>op_Kind = ''exec'', op_Command = command, op_Path = [], op_Sandbox = SandboxNone,
     op_SessionID = ''s''\<rparr>"

section \<open>Classification\<close>

text \<open>
  C24: the classifier gives the most severe band any of whose patterns matches the command, and unknown
  when none does. The command is the normalised one, or the script of a plain shell wrapper, which holds
  no composition token the code looks for.
\<close>
theorem Classify_severity:
  "fst (Classify rx (Some p) command) \<in> matching_bands rx p command \<and>
   (\<forall>b \<in> matching_bands rx p command. band_rank b \<le> band_rank (fst (Classify rx (Some p) command))) \<and>
   (\<forall>inner. unwrapShellWrapper (normaliseCommand command) = Some inner \<longrightarrow>
      match_target command = inner \<and> (\<forall>t \<in> set composition_tokens. \<not> sublist t inner))"
proof (intro conjI ballI allI impI)
  show "fst (Classify rx (Some p) command) \<in> matching_bands rx p command" by (rule Classify_in_bands)
  show "band_rank b \<le> band_rank (fst (Classify rx (Some p) command))"
    if "b \<in> matching_bands rx p command" for b using that by (rule Classify_most_severe)
  fix inner assume u: "unwrapShellWrapper (normaliseCommand command) = Some inner"
  then show "match_target command = inner" by (simp add: match_target_def)
  show "\<not> sublist t inner" if "t \<in> set composition_tokens" for t
    using unwrap_no_composition[OF u] that by blast
qed

theorem Classify_severity_witness:
  "fst (Classify prefix_rx (Some sample_policy) ''sh -c \"rm x\"'') = RiskDangerous \<and>
   RiskDangerous \<in> matching_bands prefix_rx sample_policy ''sh -c \"rm x\"''"
proof -
  have "fst (Classify prefix_rx (Some sample_policy) ''sh -c \"rm x\"'') = RiskDangerous"
    by code_simp
  with Classify_severity[of prefix_rx sample_policy "''sh -c \"rm x\"''"] show ?thesis by simp
qed

section \<open>The gate\<close>

text \<open>
  C25: what the gate lets through. Outside a kill, an operation passes only within the budget, in an
  available sandbox, past the first-run ledger, and with a command that is safe, or cautious and
  matched by a safe pattern too; during an awakening an execution has to be an introspection command.
\<close>
theorem Check_allows:
  "fst (Check env p ctx op g s) = None \<longleftrightarrow>
     (let sid = gate_session env ctx; band = fst (Classify (ge_rx env) (Some p) (match_input op))
      in \<not> (ActiveOpt (gt_AwakeningMode g) sid \<and> is_exec op \<and> \<not> IsIntrospection (op_Command op)) \<and>
         (op_Kind op = ''kill'' \<or>
          (CheckEstimate (gt_Budgets g) sid (po_Defaults p) (estimate_of env op) = None \<and>
           sandbox_ok env s op p \<and> first_run_passes env op s \<and>
           (band = RiskSafe \<or> (band = RiskCaution \<and>
             band_hit (rx_match (ge_rx env)) (po_safe p) (normaliseCommand (match_input op)))))))"
proof -
  have "fst (Check env p ctx op g s) = None \<longleftrightarrow>
      dc_Verdict (fst (Evaluate env g p ctx op s)) = VerdictAllow"
    by (simp add: Check_def verdict_error_None split: prod.splits)
  then show ?thesis by (simp only: Evaluate_allow)
qed

lemma Check_error:
  "fst (Check env p ctx op g s) = verdict_error op (fst (Evaluate env g p ctx op s))"
  by (simp add: Check_def split: prod.splits)

text \<open>
  C26: a dangerous, forbidden or unknown command never runs unasked, and a forbidden one is refused
  without asking anybody.
\<close>
theorem severe_never_allowed:
  assumes "band_rank (fst (Classify (ge_rx env) (Some p) (match_input op))) \<notin> {1, 2}"
    and "op_Kind op \<noteq> ''kill''"
  shows "\<exists>e. fst (Check env p ctx op g s) = Some e \<and>
    (fst (Classify (ge_rx env) (Some p) (match_input op)) = RiskForbidden \<longrightarrow>
       IsRequiresHITL (Some e) = None)"
proof -
  let ?band = "fst (Classify (ge_rx env) (Some p) (match_input op))"
  have "?band \<noteq> RiskSafe" "?band \<noteq> RiskCaution" using assms(1) by auto
  then have "dc_Verdict (fst (Evaluate env g p ctx op s)) \<noteq> VerdictAllow"
    using assms(2) by (simp add: Evaluate_allow Let_def)
  then obtain e where e: "fst (Check env p ctx op g s) = Some e"
    unfolding Check_error by (metis verdict_error_None not_Some_eq)
  have "?band = RiskForbidden \<Longrightarrow> dc_Verdict (fst (Evaluate env g p ctx op s)) \<noteq> VerdictRequireHITL"
    using assms(2) by (simp add: Evaluate_def eval_policy_def Let_def)
  then have "?band = RiskForbidden \<Longrightarrow> IsRequiresHITL (Some e) = None"
    using e verdict_error_hitl[of op "fst (Evaluate env g p ctx op s)"] unfolding Check_error
    by (metis not_Some_eq)
  with e show ?thesis by blast
qed

theorem severe_never_allowed_witness:
  "\<exists>e. fst (Check sample_env sample_policy ''s'' (exec_op ''rm -rf /'') sample_gate ()) = Some e \<and>
     IsRequiresHITL (Some e) = None"
proof -
  have f: "fst (Classify (ge_rx sample_env) (Some sample_policy) (match_input (exec_op ''rm -rf /''))) =
      RiskForbidden" by code_simp
  have "op_Kind (exec_op ''rm -rf /'') \<noteq> ''kill''" by (simp add: exec_op_def)
  with severe_never_allowed[of sample_env sample_policy "exec_op ''rm -rf /''" "''s''" sample_gate "()"] f
  show ?thesis by auto
qed

text \<open>
  a decision that needs a human says what for: it carries an approval prompt with the command or
  path of the operation. Whatever the verdict, the decision goes to the audit trail, with its
  operation, while the trail is open and has room.
\<close>
theorem Check_asks_and_records:
  assumes "Check env p ctx op g s = (r, g', s')"
  shows "(\<forall>d. IsRequiresHITL r = Some d \<longrightarrow>
      (\<exists>pr. dc_Prompt d = Some pr \<and> hp_Command pr = displayCommand op \<and> hp_Schema pr = HostApprovalSchema)) \<and>
    gt_Budgets g' = gt_Budgets g \<and>
    (\<forall>a. gt_Audit g = Some a \<longrightarrow> \<not> ap_Shutdown a \<longrightarrow> length (ap_Queue a) < auditQueueSize \<longrightarrow>
      (\<exists>a' d. gt_Audit g' = Some a' \<and> ap_Queue a' = ap_Queue a @ [(d, op, [])] \<and> r = verdict_error op d))"
proof -
  let ?d = "fst (Evaluate env g p ctx op s)"
  have r: "r = verdict_error op ?d" and g: "g' = auditAsync ?d op [] g"
    using assms by (auto simp: Check_def split: prod.splits)
  have "\<exists>pr. dc_Prompt d = Some pr \<and> hp_Command pr = displayCommand op \<and> hp_Schema pr = HostApprovalSchema"
    if "IsRequiresHITL r = Some d" for d
  proof -
    have "dc_Verdict ?d = VerdictRequireHITL" using that r verdict_error_hitl[of op ?d] by simp
    moreover have "d = ?d"
      using that r calculation by (simp add: verdict_error_def IsRequiresHITL_def)
    ultimately show ?thesis using Evaluate_prompt[of env g p ctx op s] by simp
  qed
  then show ?thesis using r g by (auto simp: auditAsync_def Submit_def)
qed

theorem Check_asks_and_records_witness:
  "\<exists>d pr. IsRequiresHITL (fst (Check sample_env sample_policy ''s'' (exec_op ''rm x'') sample_gate ())) = Some d \<and>
     dc_Prompt d = Some pr \<and> hp_Command pr = ''rm x''"
proof -
  obtain r g' s' where
    c: "Check sample_env sample_policy ''s'' (exec_op ''rm x'') sample_gate () = (r, g', s')"
    by (metis prod_cases3)
  have "case IsRequiresHITL (fst (Check sample_env sample_policy ''s'' (exec_op ''rm x'') sample_gate ())) of
      None \<Rightarrow> False | Some d \<Rightarrow> True" by code_simp
  then obtain d where d: "IsRequiresHITL r = Some d" by (auto simp: c split: option.splits)
  with Check_asks_and_records[OF c] have "\<exists>pr. dc_Prompt d = Some pr \<and>
      hp_Command pr = displayCommand (exec_op ''rm x'')" by blast
  then obtain pr where "dc_Prompt d = Some pr" "hp_Command pr = ''rm x''"
    by (auto simp: exec_op_def displayCommand_def)
  with d show ?thesis unfolding c fst_conv by blast
qed

section \<open>Awakening and introspection\<close>

text \<open>
  C27: awakening sessions only look around. After any history of \<open>Begin\<close> and \<open>End\<close> in which the last word
  on a session is \<open>Begin\<close>, an execution for it is let through only when its normalised command starts
  with an allow-listed word or prefix and holds none of the denied tokens, and the refusal asks nobody.
\<close>
theorem awakening_only_introspection:
  assumes "gt_AwakeningMode g = Some (fold (\<lambda>(b, s) r. if b then Begin s r else End s r)
      (earlier @ (True, sid) # later) r0)"
    and "gate_session env ctx = sid" and "sid \<noteq> []" and "\<forall>(b, s) \<in> set later. s \<noteq> sid" and "is_exec op"
  shows "case fst (Check env p ctx op g s) of
      None \<Rightarrow> (\<forall>t \<in> set introspectionDenyTokens. \<not> sublist t (normalise (op_Command op))) \<and>
        ((\<exists>a \<in> set introspectionAllowCommands.
            normalise (op_Command op) = a \<or> (\<exists>rest. normalise (op_Command op) = a @ '' '' @ rest)) \<or>
         (\<exists>pre \<in> set introspectionAllowPrefixes. prefix pre (normalise (op_Command op))))
    | Some e \<Rightarrow> \<not> IsIntrospection (op_Command op) \<longrightarrow> IsRequiresHITL (Some e) = None"
proof -
  have f: "(\<lambda>(b, s) r. if b then Begin s r else End s r) = aw.step"
    by (intro ext) (auto simp: aw.step_def)
  have "Active (fold aw.step (earlier @ (True, sid) # later) r0) sid"
    using aw.active_last[of sid later earlier True r0] assms(3,4) by (auto simp: case_prod_beta)
  then have act: "ActiveOpt (gt_AwakeningMode g) sid" by (simp add: ActiveOpt_def assms(1) f)
  show ?thesis
  proof (cases "fst (Check env p ctx op g s)")
    case None
    then have i: "IsIntrospection (op_Command op)"
      using act assms(2,5) unfolding Check_error verdict_error_None Evaluate_allow by (auto simp: Let_def)
    show ?thesis unfolding None option.case
      using IsIntrospection_denies[OF i] IsIntrospection_head[OF i] by blast
  next
    case (Some e)
    have "IsRequiresHITL (Some e) = None" if "\<not> IsIntrospection (op_Command op)"
    proof -
      have "dc_Verdict (fst (Evaluate env g p ctx op s)) = VerdictDeny"
        using that act assms(2,5) by (simp add: Evaluate_def Let_def)
      then have "\<not> (\<exists>d. IsRequiresHITL (fst (Check env p ctx op g s)) = Some d)"
        unfolding Check_error by (simp add: verdict_error_hitl)
      then show ?thesis unfolding Some by simp
    qed
    then show ?thesis unfolding Some by simp
  qed
qed

theorem awakening_only_introspection_witness:
  "\<exists>e. fst (Check sample_env sample_policy ''s'' (exec_op ''ls'')
      (sample_gate\<lparr>gt_AwakeningMode := Some (Begin ''s'' [])\<rparr>) ()) = Some e \<and> IsRequiresHITL (Some e) = None"
proof -
  let ?g = "sample_gate\<lparr>gt_AwakeningMode := Some (Begin ''s'' [])\<rparr>"
  have n: "\<not> IsIntrospection (op_Command (exec_op ''ls''))" by code_simp
  have c: "case fst (Check sample_env sample_policy ''s'' (exec_op ''ls'') ?g ()) of None \<Rightarrow> False | Some e \<Rightarrow> True"
    by code_simp
  have "gt_AwakeningMode ?g = Some (fold (\<lambda>(b, s) r. if b then Begin s r else End s r)
      ([] @ (True, ''s'') # []) [])" by simp
  moreover have "gate_session sample_env ''s'' = ''s''" "is_exec (exec_op ''ls'')"
    by (simp_all add: gate_session_def sample_env_def is_exec_def exec_op_def)
  ultimately show ?thesis
    using awakening_only_introspection[of ?g "[]" "''s''" "[]" "[]" sample_env "''s''" "exec_op ''ls''"
        sample_policy "()"] n c by (auto split: option.splits)
qed

text \<open>
  neither test of a command reads a single ampersand or a line break as composition: a command
  that backgrounds an allow-listed word and then removes files counts as introspection, and the
  removal behind a line break of a wrapped script is matched as arguments of its first word.
\<close>
theorem composition_gaps:
  "IsIntrospection ''id & rm -rf x'' \<and>
   match_target (''sh -c \"ls'' @ [CHR 0x0A] @ ''rm x\"'') = ''ls rm x''"
  by code_simp

section \<open>Learned patterns and policies\<close>

lemma learned_band:
  "band_hit m (Some ((case b of None \<Rightarrow> [] | Some l \<Rightarrow> l) @ [pat])) x \<longleftrightarrow> band_hit m b x \<or> m pat x"
  by (auto simp: band_hit_def split: option.splits)

text \<open>
  learning a safe pattern only moves commands from unknown to safe, and only those it matches: no
  command of a more severe band is let off. The append looks at no cap, so a policy that was loaded
  with a full safe bucket does not load again with the learned pattern.
\<close>
theorem learned_pattern_effect:
  assumes "ho_policy h = Some p" and "rx_compile rx pattern = None"
  shows "\<exists>q. ho_policy (snd (AppendLearnedSafePattern rx pattern h)) = Some q \<and>
    fst (Classify rx (Some q) command) =
      (if fst (Classify rx (Some p) command) = RiskUnknown \<and> rx_match rx pattern (match_target command)
       then RiskSafe else fst (Classify rx (Some p) command)) \<and>
    (length (po_SafePat p) = maxPatternsPerBucket \<longrightarrow> (\<exists>e. fst (finalize rx q) = Some e))"
proof -
  let ?q = "p\<lparr>po_SafePat := po_SafePat p @ [pattern],
    po_safe := Some ((case po_safe p of None \<Rightarrow> [] | Some l \<Rightarrow> l) @ [pattern])\<rparr>"
  have "fst (Classify rx (Some ?q) command) =
      (if fst (Classify rx (Some p) command) = RiskUnknown \<and> rx_match rx pattern (match_target command)
       then RiskSafe else fst (Classify rx (Some p) command))"
    by (simp add: Classify_band Let_def learned_band)
  moreover have "\<exists>e. fst (finalize rx ?q) = Some e" if "length (po_SafePat p) = maxPatternsPerBucket"
  proof -
    have "\<not> within_cap ?q" using that by (simp add: within_cap_def buckets_def)
    then show ?thesis using finalize_over_cap by (metis fst_conv)
  qed
  ultimately show ?thesis using AppendLearned_policy[OF assms] by blast
qed

definition full_policy :: host_policy where
  "full_policy = empty_policy\<lparr>po_SafePat := replicate 256 ''ls''\<rparr>"

theorem learned_pattern_effect_witness:
  "\<exists>q e. ho_policy (snd (AppendLearnedSafePattern prefix_rx ''du''
       \<lparr>ho_policy = Some full_policy, ho_learnedPath = [], ho_Learned = [], ho_WriteError = None\<rparr>)) = Some q \<and>
     fst (finalize prefix_rx q) = Some e \<and> fst (finalize prefix_rx full_policy) = None"
proof -
  let ?h = "\<lparr>ho_policy = Some full_policy, ho_learnedPath = [], ho_Learned = [], ho_WriteError = None\<rparr>"
  have "length (po_SafePat full_policy) = maxPatternsPerBucket"
    by (simp add: full_policy_def maxPatternsPerBucket_def)
  moreover have c: "rx_compile prefix_rx pat = None" for pat by (simp add: prefix_rx_def)
  then have ca: "compile_all prefix_rx name i ps = None" for name i ps
    by (induction ps arbitrary: i) simp_all
  have "over_cap (buckets full_policy) = None"
    by (simp add: full_policy_def empty_policy_def buckets_def maxPatternsPerBucket_def)
  then have "fst (finalize prefix_rx full_policy) = None"
    by (simp add: finalize_def compileBand_def ca Let_def)
  ultimately show ?thesis
    using learned_pattern_effect[of ?h full_policy prefix_rx "''du''" "[]"] c by auto
qed

text \<open>
  a policy that loads is compiled completely and within its caps: its matcher looks at exactly the
  patterns the file lists, band by band.
\<close>
theorem finalize_compiles:
  assumes "finalize rx p = (None, q)"
  shows "compiled_ok q \<and> within_cap q \<and>
    (\<forall>command. fst (Classify rx (Some q) command) = RiskForbidden \<longleftrightarrow>
       (\<exists>re \<in> set (po_ForbiddenPat p). rx_match rx re (match_target command)))"
proof -
  from finalize_ok[OF assms] have c: "compiled_ok q" "within_cap q" "po_ForbiddenPat q = po_ForbiddenPat p"
    by simp_all
  then show ?thesis by (auto simp: Classify_band Let_def compiled_ok_def band_hit_def)
qed

theorem finalize_compiles_witness:
  "\<exists>q. finalize prefix_rx (empty_policy\<lparr>po_ForbiddenPat := [''rm'']\<rparr>) = (None, q) \<and>
     fst (Classify prefix_rx (Some q) ''rm'') = RiskForbidden"
proof -
  let ?p = "empty_policy\<lparr>po_ForbiddenPat := [''rm'']\<rparr>"
  obtain e q where f: "finalize prefix_rx ?p = (e, q)" by force
  have "(case fst (finalize prefix_rx ?p) of None \<Rightarrow> True | Some e \<Rightarrow> False)" by code_simp
  then have e: "e = None" using f by (simp split: option.splits)
  have "match_target ''rm'' = ''rm''" by code_simp
  then have "\<exists>re \<in> set (po_ForbiddenPat ?p). rx_match prefix_rx re (match_target ''rm'')"
    by (simp add: prefix_rx_def has_prefix_def)
  with finalize_compiles[OF f[unfolded e]] f e show ?thesis by blast
qed

section \<open>Audit trail, budgets, rates\<close>

text \<open>
  the audit trail of a gate after any interleaving of submissions, workers and a shutdown. What is
  stored or queued is a subsequence of what was submitted, in that order; the queue stays within its
  size; every submission is stored, queued or counted as dropped.
\<close>
theorem audit_trail:
  "let p = fold (audit_step env) es fresh_pool
   in subseq (ap_Stored p @ ap_Queue p) (submitted es) \<and> length (ap_Queue p) \<le> auditQueueSize \<and>
      length (ap_Stored p) + length (ap_Queue p) + ap_Dropped p = length (submitted es)"
proof -
  have "audit_inv [] fresh_pool" by (simp add: audit_inv_def fresh_pool_def)
  from audit_inv_run[OF this, of es env] show ?thesis by (simp add: audit_inv_def Let_def)
qed

text \<open>
  the budget meter. After a reset, a session's usage is the sum of what was recorded for it since,
  in 64-bit arithmetic, whatever was recorded for the other sessions in between.
\<close>
theorem budget_meter:
  "let u = Current (fold (\<lambda>(s, a). RecordActual s a) ops (ResetBudget t b)) t;
       mine = map snd (filter (\<lambda>(s, a). s = t) ops)
   in u = \<lparr>be_CPUSeconds = wrap64 (sum_list (map be_CPUSeconds mine)),
           be_BytesWritten = wrap64 (sum_list (map be_BytesWritten mine)),
           be_OutboundRequests = wrap64 (sum_list (map be_OutboundRequests mine))\<rparr>"
proof -
  have w: "wrap64 (wrap64 a + b) = wrap64 (a + b)" for a b
    by (simp add: wrap64_def mod_simps ac_simps)
  have "foldl add_usage \<lparr>be_CPUSeconds = wrap64 x, be_BytesWritten = wrap64 y, be_OutboundRequests = wrap64 z\<rparr> us =
     \<lparr>be_CPUSeconds = wrap64 (x + sum_list (map be_CPUSeconds us)),
      be_BytesWritten = wrap64 (y + sum_list (map be_BytesWritten us)),
      be_OutboundRequests = wrap64 (z + sum_list (map be_OutboundRequests us))\<rparr>" for us x y z
    by (induction us arbitrary: x y z) (simp_all add: add_usage_def w add.assoc)
  from this[of 0 0 0] show ?thesis
    by (simp add: bm.usage_after_clear no_usage_def wrap64_def Let_def)
qed

text \<open>
  C28: the rate limiter, with its float64 arithmetic. Of the calls of a session that starts with a fresh bucket,
  whatever the other sessions do in between, however the clock runs and whether or not a product is fused with the
  sum, at most the burst plus the rate times the elapsed time are let through, up to four roundings of that product
  and two roundings of the burst for each call.
\<close>
theorem rate_bounded:
  assumes "limiter_run fused ((s, t0) # calls) (NewTokenBucketRateLimiter rate) = (rs, l')"
    and "rate \<le> 2 ^ 52" and "r = (if rate \<le> 0 then 1000 else rate)"
  shows "of_nat (allowed_count s rs) \<le> of_int r +
    of_int r * (of_int (latest s t0 calls - t0) / 10 ^ 9) * (1 + 1 / 2 ^ 53) ^ 4 +
    of_int r * of_nat (call_count s ((s, t0) # calls)) / (2 ^ 52 :: rat)"
proof -
  have r: "0 < r" "r \<le> 2 ^ 52" using assms(2,3) by simp_all
  have l: "rl_rate (NewTokenBucketRateLimiter rate) = of_int r" "rl_burst (NewTokenBucketRateLimiter rate) = of_int r"
    "rl_buckets (NewTokenBucketRateLimiter rate) = []"
    using fl_of_int[of r] r by (auto simp: NewTokenBucketRateLimiter_def DefaultRateLimit_def assms(3) Let_def)
  have "(of_int r :: rat) \<le> of_int (2 ^ 52)" "(1 :: rat) \<le> of_int r" using r by (simp_all only: of_int_le_iff)
  then show ?thesis using limiter_run_fresh[OF _ _ _ _ assms(1)] l by (simp add: grown_def eps_def)
qed

theorem rate_bounded_witness:
  "allowed_count ''s'' (fst (limiter_run False [(''s'', 0), (''s'', 0), (''s'', 0)] (NewTokenBucketRateLimiter 2))) \<le> 2"
proof -
  obtain rs l' where r: "limiter_run False [(''s'', 0), (''s'', 0), (''s'', 0)] (NewTokenBucketRateLimiter 2) = (rs, l')"
    by force
  from rate_bounded[OF this, of 2] have "(of_nat (allowed_count ''s'' rs) :: rat) \<le> 2 + 6 / 2 ^ 52"
    by (simp add: latest_def call_count_def)
  then have "(of_nat (allowed_count ''s'' rs) :: rat) < of_nat 3" by simp
  then show ?thesis unfolding r fst_conv by (simp only: of_nat_less_iff)
qed

end
