(* ===== verification/Gate_Hitl.thy ===== *)
theory Gate_Hitl
  imports Gate Bash Hitl
begin

text \<open>
  The human side of the gate: \<open>infra/host/gate/hitl.go\<close> (routing a prompt, remembering an approval,
  blacklisting) and \<open>session_router.go\<close> (the router over the HITL channel of the firing transition).
  The world of these operations is the gate with its host, since others may change both while the
  gate waits for the user. Log lines are left out, and so is the time stamp of a response.
\<close>

type_synonym 'g gate_world = "gate \<times> 'g"

section \<open>Routers and responses\<close>

record host_approval_response =
  ha_Action :: string
  ha_AllowPattern :: string
  ha_DenyPattern :: string
  ha_HITLResponseID :: string

definition ActionApproveOnce :: string where "ActionApproveOnce = ''approve-once''"
definition ActionApproveAndRemember :: string where "ActionApproveAndRemember = ''approve-and-remember''"
definition ActionDeny :: string where "ActionDeny = ''deny''"
definition ActionDenyAndBlacklist :: string where "ActionDenyAndBlacklist = ''deny-and-blacklist''"

text \<open>Publishing answers with an error or with the surface it put on the event bus.\<close>

record 'g hitl_router =
  ro_Publish :: "host_approval_prompt \<Rightarrow> gerr + string"
  ro_AwaitResponse :: "'g gate_world \<Rightarrow> (gerr + host_approval_response) \<times> 'g gate_world"

section \<open>Remembering and blacklisting\<close>

definition regexp_meta :: string where
  "regexp_meta = [CHR 0x5C, CHR 0x2E, CHR 0x2B, CHR 0x2A, CHR 0x3F, CHR 0x28, CHR 0x29, CHR 0x7C,
     CHR 0x5B, CHR 0x5D, CHR 0x7B, CHR 0x7D, CHR 0x5E, CHR 0x24]"

fun regexpQuote :: "string \<Rightarrow> string" where
  "regexpQuote [] = []"
| "regexpQuote (c # s) =
     (if c \<in> set regexp_meta then CHR 0x5C # c # regexpQuote s else c # regexpQuote s)"

definition learned_pattern :: "string \<Rightarrow> string" where
  "learned_pattern command = ''^'' @ regexpQuote (CommandKey command) @ ''($|'' @ [CHR 0x5C] @ ''s)''"

definition rememberApproval :: "'g gate_env \<Rightarrow> gate_op \<Rightarrow> gate \<Rightarrow> gerr option \<times> gate" where
  "rememberApproval env op g = (case gt_Policies g of
     None \<Rightarrow> (Some (Plain ''no policy holder''), g)
   | Some h \<Rightarrow>
       (let (e, h') = AppendLearnedSafePattern (ge_rx env) (learned_pattern (op_Command op)) h
        in (e, g\<lparr>gt_Policies := Some h'\<rparr>)))"

definition blacklist :: "'g gate_env \<Rightarrow> gate_op \<Rightarrow> gate \<Rightarrow> gerr option \<times> gate" where
  "blacklist env op g = (case gt_Policies g of
     None \<Rightarrow> (Some (Plain ''no policy holder''), g)
   | Some h \<Rightarrow> (case ho_policy h of
        None \<Rightarrow> (Some (Plain ''no policy''), g)
      | Some p \<Rightarrow>
          (let (e, p') = finalize (ge_rx env)
                 (p\<lparr>po_ForbiddenPat := po_ForbiddenPat p @ [learned_pattern (op_Command op)]\<rparr>)
           in (e, g\<lparr>gt_Policies := Some (h\<lparr>ho_policy := Some p'\<rparr>)\<rparr>))))"

section \<open>The outcome\<close>

definition recordHITLOutcome ::
  "'g gate_env \<Rightarrow> decision \<Rightarrow> gate_op \<Rightarrow> verdict \<Rightarrow> string \<Rightarrow> host_approval_response \<Rightarrow>
   'g gate_world \<Rightarrow> gerr option \<times> 'g gate_world" where
  "recordHITLOutcome env dec op v reason resp = (\<lambda>(g, s).
     (let final = dec\<lparr>dc_Verdict := v, dc_Reason := reason\<rparr>;
          (_, g1) = AuditDecision env final op (ha_HITLResponseID resp) g
      in if v = VerdictAllow
         then (case (if dc_FirstRun dec then ge_FirstRun env else None) of
                 None \<Rightarrow> (None, (g1, s))
               | Some port \<Rightarrow>
                   (let ((sum, res), s1) = firstRunLookup env port (op_Command op) s
                    in case res of
                         Inl _ \<Rightarrow> (None, (g1, s1))
                       | Inr _ \<Rightarrow>
                           (let (_, s2) = fr_Approve port s1 (ge_HostID env) sum (ha_HITLResponseID resp)
                            in (None, (g1, s2)))))
         else (Some (NewHostError HostErrCodeGateDenied ''HITL denied operation'' None), (g1, s))))"

definition empty_prompt :: host_approval_prompt where
  "empty_prompt = \<lparr>hp_Schema = [], hp_Operation = [], hp_Command = [], hp_RiskBand = RiskUnknown,
     hp_Rationale = [], hp_Alternatives = []\<rparr>"

text \<open>What a response does: the policy update, then the outcome.\<close>

definition settle ::
  "'g gate_env \<Rightarrow> decision \<Rightarrow> gate_op \<Rightarrow> host_approval_response \<Rightarrow> 'g gate_world \<Rightarrow>
   gerr option \<times> 'g gate_world" where
  "settle env dec op resp = (\<lambda>(g, s).
     (if ha_Action resp = ActionApproveOnce
      then recordHITLOutcome env dec op VerdictAllow ''hitl_approve_once'' resp (g, s)
      else if ha_Action resp = ActionApproveAndRemember
      then recordHITLOutcome env dec op VerdictAllow ''hitl_approve_and_remember'' resp
             (snd (rememberApproval env op g), s)
      else if ha_Action resp = ActionDeny \<or> ha_Action resp = []
      then recordHITLOutcome env dec op VerdictDeny ''hitl_deny'' resp (g, s)
      else if ha_Action resp = ActionDenyAndBlacklist
      then recordHITLOutcome env dec op VerdictDeny ''hitl_deny_and_blacklist'' resp
             (snd (blacklist env op g), s)
      else recordHITLOutcome env dec op VerdictDeny ''hitl_unknown_action'' resp (g, s)))"

text \<open>The error, and the surface that was published on the way.\<close>

definition HandleRequiresHITL ::
  "'g gate_env \<Rightarrow> decision \<Rightarrow> gate_op \<Rightarrow> 'g hitl_router option \<Rightarrow> 'g gate_world \<Rightarrow>
   (gerr option \<times> string option) \<times> 'g gate_world" where
  "HandleRequiresHITL env dec op router = (\<lambda>(g, s). (case router of
     None \<Rightarrow>
       (let (_, g1) = AuditDecision env
              \<lparr>dc_Verdict = VerdictDeny, dc_RiskBand = dc_RiskBand dec,
               dc_Reason = ''hitl_router_missing'', dc_Sandbox = dc_Sandbox dec, dc_Budget = no_usage,
               dc_Prompt = None, dc_FirstRun = False, dc_SessionID = dc_SessionID dec\<rparr> op [] g
        in ((Some (NewHostError HostErrCodeGateDenied ''HITL router not wired'' None), None), (g1, s)))
   | Some r \<Rightarrow>
       (case ro_Publish r (case dc_Prompt dec of None \<Rightarrow> empty_prompt | Some p \<Rightarrow> p) of
          Inl e \<Rightarrow> ((Some (Wrap ''gate: publish HITL: '' e []), None), (g, s))
        | Inr surface \<Rightarrow>
            (let (resp, w1) = ro_AwaitResponse r (g, s)
             in case resp of
                  Inl e \<Rightarrow> ((Some (Wrap ''gate: await HITL: '' e []), Some surface), w1)
                | Inr a \<Rightarrow> (let (e, w2) = settle env dec op a w1 in ((e, Some surface), w2))))))"

section \<open>The session router\<close>

text \<open>
  What the router takes from outside: \<open>json.Marshal\<close> of the approval envelope, \<open>json.Unmarshal\<close> of the
  \<open>action\<close> field of a response, the error of an ended context and the wait for its end.
\<close>

record approval_payload =
  yp_Command :: string
  yp_Tool :: string
  yp_Risk :: string
  yp_Title :: string
  yp_Context :: string
  yp_RememberAvailable :: bool

record 'g session_codec =
  sd_marshal :: "string \<Rightarrow> approval_payload \<Rightarrow> gerr + string"
  sd_action :: "string \<Rightarrow> gerr + string"
  sd_ctx :: "'g gate_world \<Rightarrow> ctx_err"
  sd_wait :: "'g gate_world \<Rightarrow> ctx_err \<times> 'g gate_world"

definition PublishApproval ::
  "'g session_codec \<Rightarrow> string \<Rightarrow> host_approval_prompt \<Rightarrow> gerr + string" where
  "PublishApproval codec tid prompt =
     (if tid = [] then Inl (Plain ''gate: session router missing TransitionID'')
      else (case sd_marshal codec HostApprovalSchema
              \<lparr>yp_Command = hp_Command prompt, yp_Tool = hp_Operation prompt,
               yp_Risk = risk_str (hp_RiskBand prompt), yp_Title = approval_title,
               yp_Context = hp_Rationale prompt, yp_RememberAvailable = True\<rparr> of
           Inl e \<Rightarrow> Inl (Wrap ''gate: marshal host.approval envelope: '' e [])
         | Inr raw \<Rightarrow> Inr (A2UIMarker @ raw)))"

definition response_of :: "string \<Rightarrow> host_approval_response" where
  "response_of action = \<lparr>ha_Action = action, ha_AllowPattern = [], ha_DenyPattern = [], ha_HITLResponseID = []\<rparr>"

text \<open>The narrow actions of an older frontend.\<close>

definition narrow_action :: "hitl_action \<Rightarrow> string" where
  "narrow_action a = (case a of HITLApprove \<Rightarrow> ActionApproveOnce | HITLReject \<Rightarrow> ActionDeny | _ \<Rightarrow> [])"

definition decode_response :: "'g session_codec \<Rightarrow> token \<Rightarrow> host_approval_response" where
  "decode_response codec tok = (case tok_Payload tok of
     PResponse resp \<Rightarrow>
       (if hr_Content resp = [] then response_of (narrow_action (hr_Action resp))
        else (case sd_action codec (hr_Content resp) of
                Inl _ \<Rightarrow> response_of (narrow_action (hr_Action resp))
              | Inr action \<Rightarrow> response_of action))
   | _ \<Rightarrow> response_of [])"

definition AwaitResponse ::
  "'g session_codec \<Rightarrow> ('g gate_world \<Rightarrow> hitl_recv \<times> 'g gate_world) option \<Rightarrow> 'g gate_world \<Rightarrow>
   (gerr + host_approval_response) \<times> 'g gate_world" where
  "AwaitResponse codec inject w = (case inject of
     None \<Rightarrow> (let (e, w1) = sd_wait codec w in (Inl (CtxErr e), w1))
   | Some recv \<Rightarrow>
       (let (r, w1) = recv w
        in case r of
             RecvDone \<Rightarrow> (Inl (CtxErr (sd_ctx codec w1)), w1)
           | RecvClosed \<Rightarrow> (Inl (Plain ''gate: HITL channel closed''), w1)
           | RecvToken tok \<Rightarrow> (Inr (decode_response codec tok), w1)))"

definition session_router ::
  "'g session_codec \<Rightarrow> string \<Rightarrow> ('g gate_world \<Rightarrow> hitl_recv \<times> 'g gate_world) option \<Rightarrow> 'g hitl_router" where
  "session_router codec tid inject =
     \<lparr>ro_Publish = PublishApproval codec tid, ro_AwaitResponse = AwaitResponse codec inject\<rparr>"

definition HandleHITL ::
  "'g gate_env \<Rightarrow> 'g session_codec \<Rightarrow> 'g gate_world \<Rightarrow>
   ('g gate_world \<Rightarrow> hitl_recv \<times> 'g gate_world) option \<Rightarrow> string \<Rightarrow> gate_op \<Rightarrow> gerr \<Rightarrow>
   (gerr option \<times> string option) \<times> 'g gate_world" where
  "HandleHITL env codec w inject tid op err = (case IsRequiresHITL (Some err) of
     None \<Rightarrow> ((Some err, None), w)
   | Some dec \<Rightarrow> HandleRequiresHITL env dec op (Some (session_router codec tid inject)) w)"

text \<open>The gate as the net's \<open>HostGate\<close>. A gate without a policy dereferences nil.\<close>

definition gate_check ::
  "'g gate_env \<Rightarrow> 'g gate_world \<Rightarrow> string \<Rightarrow> gate_op \<Rightarrow> gerr option \<times> 'g gate_world" where
  "gate_check env = (\<lambda>(g, s) sid op. (case gate_policy env g of
     None \<Rightarrow> (Some (Plain ''nil pointer dereference''), (g, s))
   | Some p \<Rightarrow> (let (e, g1, s1) = Check env p sid op g s in (e, (g1, s1)))))"

section \<open>Lemmas\<close>

text \<open>The two actions that let an operation through.\<close>

definition approves :: "host_approval_response \<Rightarrow> bool" where
  "approves r \<longleftrightarrow> ha_Action r = ActionApproveOnce \<or> ha_Action r = ActionApproveAndRemember"

lemma action_names:
  "ActionApproveOnce \<noteq> ActionApproveAndRemember" "ActionApproveOnce \<noteq> ActionDeny" "ActionApproveOnce \<noteq> []"
  "ActionApproveAndRemember \<noteq> ActionDeny" "ActionApproveAndRemember \<noteq> []"
  "ActionDenyAndBlacklist \<noteq> ActionApproveOnce" "ActionDenyAndBlacklist \<noteq> ActionApproveAndRemember"
  "ActionDenyAndBlacklist \<noteq> ActionDeny" "ActionDenyAndBlacklist \<noteq> []"
  by (simp_all add: ActionApproveOnce_def ActionApproveAndRemember_def ActionDeny_def ActionDenyAndBlacklist_def)

lemma recordHITLOutcome_error:
  "fst (recordHITLOutcome env dec op v reason resp w) =
     (if v = VerdictAllow then None
      else Some (NewHostError HostErrCodeGateDenied ''HITL denied operation'' None))"
  by (auto simp: recordHITLOutcome_def Let_def split: prod.splits option.splits sum.splits)

lemma settle_error: "fst (settle env dec op resp w) = None \<longleftrightarrow> approves resp"
  by (cases w) (simp add: settle_def approves_def recordHITLOutcome_error)

lemma settle_denied:
  "\<not> approves resp \<Longrightarrow>
   fst (settle env dec op resp w) = Some (NewHostError HostErrCodeGateDenied ''HITL denied operation'' None)"
  by (cases w) (simp add: settle_def approves_def recordHITLOutcome_error)

lemma HandleRequiresHITL_allows:
  assumes "HandleRequiresHITL env dec op router w = ((None, surface), w')"
  shows "\<exists>r sf resp w1. router = Some r \<and> surface = Some sf \<and>
    ro_Publish r (case dc_Prompt dec of None \<Rightarrow> empty_prompt | Some p \<Rightarrow> p) = Inr sf \<and>
    ro_AwaitResponse r w = (Inr resp, w1) \<and> approves resp \<and> settle env dec op resp w1 = (None, w')"
proof -
  obtain g s where w: "w = (g, s)" by force
  from assms obtain r sf resp w1 where
    r: "router = Some r" "surface = Some sf" "ro_AwaitResponse r w = (Inr resp, w1)"
      "ro_Publish r (case dc_Prompt dec of None \<Rightarrow> empty_prompt | Some p \<Rightarrow> p) = Inr sf"
      "settle env dec op resp w1 = (None, w')"
    by (auto simp: w HandleRequiresHITL_def Let_def split: option.splits sum.splits prod.splits)
  with settle_error[of env dec op resp w1] show ?thesis
    by (intro exI[of _ r] exI[of _ sf] exI[of _ resp] exI[of _ w1]) simp
qed

text \<open>What approves on the wire: the extended actions, or the narrow approval without readable content.\<close>

definition approving_token :: "'g session_codec \<Rightarrow> token \<Rightarrow> bool" where
  "approving_token codec tok \<longleftrightarrow> (\<exists>resp. tok_Payload tok = PResponse resp \<and>
     (case (if hr_Content resp = [] then Inl (Plain []) else sd_action codec (hr_Content resp)) of
        Inl _ \<Rightarrow> hr_Action resp = HITLApprove
      | Inr a \<Rightarrow> a = ActionApproveOnce \<or> a = ActionApproveAndRemember))"

lemma approves_response_of:
  "approves (response_of a) \<longleftrightarrow> a = ActionApproveOnce \<or> a = ActionApproveAndRemember"
  by (simp add: approves_def response_of_def)

lemma approves_narrow: "approves (response_of (narrow_action a)) \<longleftrightarrow> a = HITLApprove"
  using action_names by (auto simp: approves_response_of narrow_action_def split: hitl_action.splits)

lemma approves_decode: "approves (decode_response codec tok) \<longleftrightarrow> approving_token codec tok"
proof (cases "tok_Payload tok")
  case (PResponse resp)
  show ?thesis
    by (cases "sd_action codec (hr_Content resp)")
      (simp_all add: PResponse decode_response_def approving_token_def approves_response_of
        approves_narrow[unfolded approves_response_of])
qed (use action_names in \<open>simp_all add: decode_response_def approving_token_def approves_response_of
      ActionApproveOnce_def ActionApproveAndRemember_def\<close>)

end
