(* ===== verification/Approval_Properties.thy ===== *)
theory Approval_Properties
  imports Gate_Hitl Host_Properties Firing_Properties
begin

text \<open>
  The properties of the approval flow, from the shell transition through the gate to the user's answer
  and back: consent, the audit of the answer, quoting, blacklisting.
\<close>

section \<open>Answers\<close>

text \<open>
  C29: the handler approves in exactly one way: the gate's error asked for a human, the prompt could be
  published, and the transition's channel delivered a token that says approve. No channel, a closed
  channel, an ended context, an unreadable or unknown answer: all of them refuse.
\<close>
theorem HandleHITL_approves_iff:
  "fst (fst (HandleHITL env codec w inject tid op err)) = None \<longleftrightarrow>
     (\<exists>dec recv tok w1 surface. IsRequiresHITL (Some err) = Some dec \<and>
        PublishApproval codec tid (case dc_Prompt dec of None \<Rightarrow> empty_prompt | Some p \<Rightarrow> p) = Inr surface \<and>
        inject = Some recv \<and> recv w = (RecvToken tok, w1) \<and> approving_token codec tok)"
proof
  assume a: "fst (fst (HandleHITL env codec w inject tid op err)) = None"
  then obtain dec where d: "IsRequiresHITL (Some err) = Some dec"
    by (auto simp: HandleHITL_def split: option.splits)
  obtain sf w' where "HandleRequiresHITL env dec op (Some (session_router codec tid inject)) w = ((None, sf), w')"
    using a d by (metis HandleHITL_def option.case(2) prod.collapse)
  from HandleRequiresHITL_allows[OF this] obtain surface resp w1 where
    r: "PublishApproval codec tid (case dc_Prompt dec of None \<Rightarrow> empty_prompt | Some p \<Rightarrow> p) = Inr surface"
      "AwaitResponse codec inject w = (Inr resp, w1)" "approves resp"
    by (auto simp: session_router_def)
  from r(2) obtain recv tok where i: "inject = Some recv" "recv w = (RecvToken tok, w1)"
    "resp = decode_response codec tok"
    by (auto simp: AwaitResponse_def Let_def split: option.splits prod.splits hitl_recv.splits)
  with r(3) have "approving_token codec tok" by (simp add: approves_decode)
  with d r(1) i show "\<exists>dec recv tok w1 surface. IsRequiresHITL (Some err) = Some dec \<and>
        PublishApproval codec tid (case dc_Prompt dec of None \<Rightarrow> empty_prompt | Some p \<Rightarrow> p) = Inr surface \<and>
        inject = Some recv \<and> recv w = (RecvToken tok, w1) \<and> approving_token codec tok" by blast
next
  assume "\<exists>dec recv tok w1 surface. IsRequiresHITL (Some err) = Some dec \<and>
        PublishApproval codec tid (case dc_Prompt dec of None \<Rightarrow> empty_prompt | Some p \<Rightarrow> p) = Inr surface \<and>
        inject = Some recv \<and> recv w = (RecvToken tok, w1) \<and> approving_token codec tok"
  then obtain dec recv tok w1 surface where d: "IsRequiresHITL (Some err) = Some dec"
    and p: "PublishApproval codec tid (case dc_Prompt dec of None \<Rightarrow> empty_prompt | Some p \<Rightarrow> p) = Inr surface"
    and i: "inject = Some recv" "recv w = (RecvToken tok, w1)" and t: "approving_token codec tok" by blast
  have "fst (settle env dec op (decode_response codec tok) w1) = None"
    using t by (simp add: settle_error approves_decode)
  then show "fst (fst (HandleHITL env codec w inject tid op err)) = None"
    by (cases w) (use d p i in \<open>auto simp: HandleHITL_def HandleRequiresHITL_def session_router_def
          AwaitResponse_def Let_def split: prod.splits\<close>)
qed

text \<open>
  C30: whatever the user answers, the answer is written to the audit trail, and its verdict is the one the
  operation gets.
\<close>
theorem answer_audited:
  assumes "gt_Audit g = Some a" and "\<And>d q r. ge_Insert env d q r = None"
    and "settle env dec op resp (g, s) = (e, (g', s'))"
  shows "\<exists>a' d. gt_Audit g' = Some a' \<and>
    ap_Stored a' = ap_Stored a @ [(d, op, ha_HITLResponseID resp)] \<and> (dc_Verdict d = VerdictAllow \<longleftrightarrow> e = None)"
proof -
  have rec: "\<exists>a' d. gt_Audit g1 = Some a' \<and> ap_Stored a' = ap_Stored a @ [(d, op, ha_HITLResponseID resp)] \<and>
      (dc_Verdict d = VerdictAllow \<longleftrightarrow> e = None)"
    if "recordHITLOutcome env dec op v reason resp (g0, s) = (e, (g1, s'))" and "gt_Audit g0 = Some a"
    for v reason g0 g1
    using that assms(2)
    by (auto simp: recordHITLOutcome_def AuditDecision_def Let_def
        split: if_splits option.splits prod.splits sum.splits)
  have aud: "gt_Audit (snd (rememberApproval env op g)) = gt_Audit g"
    "gt_Audit (snd (blacklist env op g)) = gt_Audit g"
    by (auto simp: rememberApproval_def blacklist_def Let_def split: option.splits prod.splits)
  have "\<exists>v reason g0. settle env dec op resp (g, s) = recordHITLOutcome env dec op v reason resp (g0, s) \<and>
      gt_Audit g0 = gt_Audit g"
    unfolding settle_def case_prod_conv using aud by metis
  with assms(3,1) rec show ?thesis by metis
qed

definition approve_token :: "string \<Rightarrow> token" where
  "approve_token content = (json_token NodeKindHITL [])\<lparr>tok_Color := ColorHuman,
     tok_Payload := PResponse \<lparr>hr_Action = HITLApprove, hr_Content = content\<rparr>\<rparr>"

theorem answer_audited_witness:
  "\<exists>a' d w'. snd (settle sample_env (base_decision (exec_op ''rm x'') sample_policy ''s'') (exec_op ''rm x'')
       (response_of ''maybe'') (sample_gate, ())) = w' \<and> gt_Audit (fst w') = Some a' \<and>
     ap_Stored a' = [(d, exec_op ''rm x'', [])] \<and> dc_Verdict d \<noteq> VerdictAllow"
proof -
  let ?dec = "base_decision (exec_op ''rm x'') sample_policy ''s''"
  obtain e g' s' where st: "settle sample_env ?dec (exec_op ''rm x'') (response_of ''maybe'') (sample_gate, ()) =
      (e, (g', s'))" by (metis prod_cases3)
  have "\<not> approves (response_of ''maybe'')"
    by (simp add: approves_response_of ActionApproveOnce_def ActionApproveAndRemember_def)
  then have "e \<noteq> None" using settle_error st by (metis fst_conv)
  with answer_audited[OF _ _ st, of fresh_pool] st show ?thesis
    by (auto simp: sample_gate_def sample_env_def fresh_pool_def response_of_def)
qed

section \<open>Patterns\<close>

text \<open>The string a pattern of quoted characters denotes; a bare special character denotes none.\<close>

fun literal_of :: "string \<Rightarrow> string option" where
  "literal_of [] = Some []"
| "literal_of (c # s) =
     (if c = CHR 0x5C then (case s of [] \<Rightarrow> None | d # s' \<Rightarrow> map_option ((#) d) (literal_of s'))
      else if c \<in> set regexp_meta then None else map_option ((#) c) (literal_of s))"

text \<open>
  quoting a command for the pattern file loses nothing: the quoted text denotes exactly the command,
  so two commands never share a quoted pattern.
\<close>
theorem regexpQuote_roundtrip:
  "literal_of (regexpQuote s) = Some s \<and> (regexpQuote s = regexpQuote t) = (s = t)"
proof -
  have l: "literal_of (regexpQuote u) = Some u" for u
    by (induction u) (auto simp: regexp_meta_def)
  then show ?thesis by (metis option.inject)
qed

text \<open>
  How a regular expression engine reads a learned pattern: the literal at the start of the text, then
  the end of it or white space.
\<close>

definition reads_learned :: "regex_lib \<Rightarrow> bool" where
  "reads_learned rx \<longleftrightarrow> (\<forall>command s. rx_match rx (learned_pattern command) s \<longleftrightarrow>
     s = CommandKey command \<or>
     (\<exists>b rest. b \<in> set [CHR 0x09, CHR 0x0A, CHR 0x0C, CHR 0x0D, CHR '' ''] \<and> s = CommandKey command @ b # rest))"

lemma trim_left_length: "length (trim_left_spaces s) \<le> length s"
  by (simp add: trim_left_spaces_def length_dropWhile_le)

lemma strip_lead_length: "length (strip_lead encs s) \<le> length s"
proof (induction encs s rule: strip_lead.induct)
  case (1 encs s)
  then show ?case by (subst strip_lead.simps) (auto intro: le_trans)
qed

lemma trim_space_length: "length (trim_space s) \<le> length s"
  using strip_lead_length[of "map rev space_encodings" "rev (strip_lead space_encodings s)"]
    strip_lead_length[of space_encodings s]
  by (simp add: trim_space_def)

lemma unquote_length: "length (unquote s) \<le> length s"
  by (simp add: unquote_def)

lemma splitFirstToken_rest:
  assumes "splitFirstToken s = (h, r, ok)" and "r \<noteq> []"
  shows "length r < length s"
proof -
  obtain a b found where c: "cut_at (CHR '' '') s = (a, b, found)" by (metis prod_cases3)
  with assms have f: "found" "r = trim_left_spaces b"
    by (auto simp: splitFirstToken_def split: if_splits)
  have "length r \<le> length b" unfolding f(2) by (rule trim_left_length)
  also have "length b < length s" using cut_at_parts[OF c] f(1) by simp
  finally show ?thesis .
qed

lemma unwrap_shorter: "unwrapShellWrapper n = Some inner \<Longrightarrow> length inner < length n"
proof -
  assume u: "unwrapShellWrapper n = Some inner"
  obtain h r ok where s: "splitFirstToken n = (h, r, ok)" by (metis prod_cases3)
  obtain f i ok2 where s2: "splitFirstToken r = (f, i, ok2)" by (metis prod_cases3)
  from u s s2 have o: "ok" "ok2" "r \<noteq> []" "i \<noteq> []" "inner = unquote (trim_space i)"
    by (auto simp: unwrapShellWrapper_def Let_def split: if_splits)
  have "length inner \<le> length i"
    unfolding o(5) by (rule le_trans[OF unquote_length trim_space_length])
  also have "\<dots> < length r" by (rule splitFirstToken_rest[OF s2 o(4)])
  also have "\<dots> < length n" by (rule splitFirstToken_rest[OF s o(3)])
  finally show ?thesis .
qed

lemma forbidden_iff:
  "fst (Classify rx (Some p) command) = RiskForbidden \<longleftrightarrow>
     band_hit (rx_match rx) (po_forbidden p) (match_target command)"
  by (simp add: Classify_band Let_def)

text \<open>
  C31: what \<open>deny-and-blacklist\<close> achieves. Once the policy compiled again, the denied command itself is
  forbidden, unless it is a shell wrapper that the classifier unwraps: the pattern is made from the
  wrapper and the classifier matches the script inside, so the command is as forbidden as it was.
\<close>
theorem blacklist_effect:
  assumes "gt_Policies g = Some h" and "ho_policy h = Some p" and "compiled_ok p"
    and "reads_learned (ge_rx env)" and "blacklist env op g = (None, g')"
  shows "\<exists>h' p'. gt_Policies g' = Some h' \<and> ho_policy h' = Some p' \<and>
    (fst (Classify (ge_rx env) (Some p') (op_Command op)) = RiskForbidden \<longleftrightarrow>
       fst (Classify (ge_rx env) (Some p) (op_Command op)) = RiskForbidden \<or>
       unwrapShellWrapper (normaliseCommand (op_Command op)) = None)"
proof -
  let ?pat = "learned_pattern (op_Command op)"
  obtain p' where f: "finalize (ge_rx env) (p\<lparr>po_ForbiddenPat := po_ForbiddenPat p @ [?pat]\<rparr>) = (None, p')"
    and g': "g' = g\<lparr>gt_Policies := Some (h\<lparr>ho_policy := Some p'\<rparr>)\<rparr>"
    using assms by (auto simp: blacklist_def Let_def split: prod.splits)
  have c: "po_forbidden p' = Some (po_ForbiddenPat p @ [?pat])"
    using finalize_ok[OF f] by (simp add: compiled_ok_def)
  have m: "rx_match (ge_rx env) ?pat (match_target (op_Command op)) \<longleftrightarrow>
      unwrapShellWrapper (normaliseCommand (op_Command op)) = None"
  proof (cases "unwrapShellWrapper (normaliseCommand (op_Command op))")
    case None
    then have "match_target (op_Command op) = CommandKey (op_Command op)"
      by (simp add: match_target_def CommandKey_def)
    with None assms(4) show ?thesis by (simp add: reads_learned_def)
  next
    case (Some inner)
    then have "match_target (op_Command op) = inner" by (simp add: match_target_def)
    moreover have "length inner < length (CommandKey (op_Command op))"
      using unwrap_shorter[OF Some] by (simp add: CommandKey_def)
    moreover from this have "inner \<noteq> CommandKey (op_Command op)"
      "inner \<noteq> CommandKey (op_Command op) @ b # rest" for b rest by auto
    ultimately have "\<not> rx_match (ge_rx env) ?pat (match_target (op_Command op))"
      using assms(4) unfolding reads_learned_def by metis
    then show ?thesis using Some by simp
  qed
  have "fst (Classify (ge_rx env) (Some p') (op_Command op)) = RiskForbidden \<longleftrightarrow>
      fst (Classify (ge_rx env) (Some p) (op_Command op)) = RiskForbidden \<or>
      rx_match (ge_rx env) ?pat (match_target (op_Command op))"
    unfolding forbidden_iff c using assms(3) by (auto simp: compiled_ok_def band_hit_def)
  with m g' show ?thesis by simp
qed

definition blanks :: string where
  "blanks = [CHR 0x09, CHR 0x0A, CHR 0x0C, CHR 0x0D, CHR '' '']"

definition learned_rx :: regex_lib where
  "learned_rx = \<lparr>rx_compile = (\<lambda>p. None),
     rx_match = (\<lambda>p s. case literal_of (take (length p - 7) (drop 1 p)) of None \<Rightarrow> False
       | Some k \<Rightarrow> s = k \<or> (has_prefix s k \<and> length k < length s \<and> s ! length k \<in> set blanks))\<rparr>"

lemma prefix_then:
  "has_prefix s k \<and> length k < length s \<and> s ! length k \<in> B \<longleftrightarrow> (\<exists>b rest. b \<in> B \<and> s = k @ b # rest)"
proof
  assume a: "has_prefix s k \<and> length k < length s \<and> s ! length k \<in> B"
  then have "s = k @ drop (length k) s" unfolding has_prefix_def by (metis append_take_drop_id)
  then have "s = k @ s ! length k # drop (Suc (length k)) s" using a by (metis Cons_nth_drop_Suc)
  with a show "\<exists>b rest. b \<in> B \<and> s = k @ b # rest" by blast
qed (auto simp: has_prefix_def)

lemma learned_rx_reads: "reads_learned learned_rx"
proof -
  have "rx_match learned_rx (learned_pattern command) s \<longleftrightarrow> s = CommandKey command \<or>
      (\<exists>b rest. b \<in> set blanks \<and> s = CommandKey command @ b # rest)" for command s
  proof -
    let ?p = "learned_pattern command"
    have "take (length ?p - 7) (drop 1 ?p) = regexpQuote (CommandKey command)"
      by (simp add: learned_pattern_def)
    moreover have "literal_of (regexpQuote u) = Some u" for u
      by (induction u) (auto simp: regexp_meta_def)
    ultimately show ?thesis by (simp add: learned_rx_def prefix_then)
  qed
  then show ?thesis unfolding reads_learned_def blanks_def by blast
qed

definition learned_env :: "unit gate_env" where
  "learned_env = sample_env\<lparr>ge_rx := learned_rx\<rparr>"

definition open_policy :: host_policy where
  "open_policy = snd (finalize learned_rx empty_policy)"

definition open_gate :: gate where
  "open_gate = sample_gate\<lparr>gt_Policies := Some \<lparr>ho_policy = Some open_policy, ho_learnedPath = [],
     ho_Learned = [], ho_WriteError = None\<rparr>\<rparr>"

definition classified :: "gate \<Rightarrow> string \<Rightarrow> risk_band" where
  "classified g command = (case gt_Policies g of None \<Rightarrow> RiskUnknown
     | Some h \<Rightarrow> fst (Classify learned_rx (ho_policy h) command))"

theorem blacklist_effect_witness:
  "classified (snd (blacklist learned_env (exec_op ''rm x'') open_gate)) ''rm x'' = RiskForbidden \<and>
   classified (snd (blacklist learned_env (exec_op ''sh -c rm'') open_gate)) ''sh -c rm'' \<noteq> RiskForbidden"
proof -
  let ?h = "\<lparr>ho_policy = Some open_policy, ho_learnedPath = [], ho_Learned = [], ho_WriteError = None\<rparr>"
  have h: "gt_Policies open_gate = Some ?h" by (simp add: open_gate_def)
  have c: "compiled_ok open_policy" by code_simp
  have r: "reads_learned (ge_rx learned_env)" by (simp add: learned_env_def learned_rx_reads)
  have e: "fst (blacklist learned_env (exec_op ''rm x'') open_gate) = None"
    "fst (blacklist learned_env (exec_op ''sh -c rm'') open_gate) = None" by code_simp+
  have n: "fst (Classify (ge_rx learned_env) (Some open_policy) ''sh -c rm'') \<noteq> RiskForbidden" by code_simp
  have u: "unwrapShellWrapper (normaliseCommand ''rm x'') = None"
    "unwrapShellWrapper (normaliseCommand ''sh -c rm'') \<noteq> None" by code_simp+
  have x: "op_Command (exec_op k) = k" for k by (simp add: exec_op_def)
  have l: "ge_rx learned_env = learned_rx" by (simp add: learned_env_def)
  note t = blacklist_effect[OF h _ c r, unfolded l]
  have 1: "classified (snd (blacklist learned_env (exec_op ''rm x'') open_gate)) ''rm x'' = RiskForbidden"
    using t[of "exec_op ''rm x''" "snd (blacklist learned_env (exec_op ''rm x'') open_gate)"] e(1) u(1)
    by (auto simp: classified_def x prod_eq_iff)
  have 2: "classified (snd (blacklist learned_env (exec_op ''sh -c rm'') open_gate)) ''sh -c rm'' \<noteq> RiskForbidden"
    using t[of "exec_op ''sh -c rm''" "snd (blacklist learned_env (exec_op ''sh -c rm'') open_gate)"] e(2) u(2) n
    by (auto simp: classified_def x prod_eq_iff l)
  show ?thesis using 1 2 by blast
qed

section \<open>Consent to a shell command\<close>

definition bash_op :: "bash_config \<Rightarrow> string \<Rightarrow> gate_op" where
  "bash_op cfg session = \<lparr>op_Kind = (if bc_SessionID cfg \<noteq> [] then ''spawn_pty'' else ''exec''),
     op_Command = bc_Command cfg, op_Path = [], op_Sandbox = bc_SandboxProfile cfg, op_SessionID = session\<rparr>"

text \<open>
  The policy lets the operation through, or it asks for a human and the token that arrives on the
  channel of the transition approves.
\<close>

definition consent ::
  "'g gate_env \<Rightarrow> 'g session_codec \<Rightarrow> ('g gate_world) transition \<Rightarrow> bash_config \<Rightarrow> string \<Rightarrow> 'g gate_world \<Rightarrow> bool" where
  "consent env codec t cfg session w \<longleftrightarrow>
     (let (err, w1) = gate_check env w session (bash_op cfg session)
      in case err of
           None \<Rightarrow> True
         | Some e \<Rightarrow> IsRequiresHITL (Some e) \<noteq> None \<and>
             (\<exists>h recv tok w2. tr_HITLConfig t = Some h \<and> hc_Channel h = Some recv \<and>
                recv w1 = (RecvToken tok, w2) \<and> approving_token codec tok))"

text \<open>
  C32: no shell command without consent. Behind the policy gate and its handler, a firing without
  consent ends with an error whatever the adapter would do: the command is not executed, and the
  places of the net are as they were.
\<close>
theorem shell_needs_consent:
  assumes "tr_BashConfig t = Some cfg" and "c_HostRuntime c = Some rt"
    and "hr_Gate rt = Some (gate_check genv)" and "hr_HITLHandler rt = Some (HandleHITL genv codec)"
    and "\<not> consent genv codec t cfg (c_SessionID c) w"
  shows "\<exists>e w'. \<forall>adapter.
    (case fireBash env t toks w (c\<lparr>c_HostRuntime := Some (rt\<lparr>hr_Adapter := Some adapter\<rparr>)\<rparr>) of
       (out, w1, c1) \<Rightarrow> out = ([], 0, Some e) \<and> w1 = w' \<and> c_Places c1 = c_Places c)"
proof -
  let ?op = "bash_op cfg (c_SessionID c)"
  let ?rt = "\<lambda>ad. rt\<lparr>hr_Adapter := Some ad\<rparr>"
  let ?inject = "case tr_HITLConfig t of None \<Rightarrow> None | Some h \<Rightarrow> hc_Channel h"
  obtain err w1 where g: "gate_check genv w (c_SessionID c) ?op = (err, w1)"
    by (metis prod.collapse)
  with assms(5) obtain e where e: "err = Some e" by (cases err) (auto simp: consent_def)
  obtain handled sf w2 where h: "HandleHITL genv codec w1 ?inject (tr_ID t) ?op e = ((handled, sf), w2)"
    by (metis prod.collapse)
  have "handled \<noteq> None"
  proof
    assume "handled = None"
    with h have "fst (fst (HandleHITL genv codec w1 ?inject (tr_ID t) ?op e)) = None" by simp
    then obtain recv tok w3 where "IsRequiresHITL (Some e) \<noteq> None" "?inject = Some recv"
      "recv w1 = (RecvToken tok, w3)" "approving_token codec tok"
      unfolding HandleHITL_approves_iff by blast
    then have "consent genv codec t cfg (c_SessionID c) w"
      by (auto simp: consent_def g e split: option.splits)
    with assms(5) show False by simp
  qed
  then obtain e2 where e2: "handled = Some e2" by blast
  have b: "bash_gate t (?rt ad) cfg w d = (Some e2, w2, publish_approval (tr_ID t) sf d)"
    if "c_SessionID d = c_SessionID c" for ad d
    using g h that assms(3,4) e e2 by (simp add: bash_gate_def bash_op_def Let_def)
  have "fireBash env t toks w (c\<lparr>c_HostRuntime := Some (?rt ad)\<rparr>) =
      fail_with e2 w2 (publish_approval (tr_ID t) sf (c\<lparr>c_HostRuntime := Some (?rt ad)\<rparr>))" for ad
    by (simp add: fireBash_def assms(1) b)
  then show ?thesis by (intro exI[of _ e2] exI[of _ w2]) (simp add: fail_with_def)
qed

definition plain_codec :: "unit session_codec" where
  "plain_codec = \<lparr>sd_marshal = (\<lambda>s p. Inr s), sd_action = (\<lambda>s. Inr s), sd_ctx = (\<lambda>w. Canceled),
     sd_wait = (\<lambda>w. (Canceled, w))\<rparr>"

definition asking_transition :: "string \<Rightarrow> unit gate_world transition" where
  "asking_transition answer = (NewTransition ''t'' NodeKindBash [''a''] [''b''])
     \<lparr>tr_BashConfig := Some ((ls_config False)\<lparr>bc_Command := ''rm x''\<rparr>),
      tr_HITLConfig := Some \<lparr>hc_Channel = Some (\<lambda>w. (RecvToken (approve_token answer), w)), hc_Prompt = [],
        hc_RevisionLoop = False, hc_CorrectionLLMID = [], hc_MaxRevisions = 0, hc_A2UIPayloadBuilder = None,
        hc_OutputBuilder = None\<rparr>\<rparr>"

definition gated_net :: "unit gate_world cpn" where
  "gated_net = (NewCPN ''n'' ''r'' 0 ModeMAS ''s''
     [(''b'', NewPlace ''b'' ColorShellResult SpaceComputation)] [])
     \<lparr>c_HostRuntime := Some \<lparr>hr_Adapter = None, hr_Gate = Some (gate_check sample_env), hr_Sessions = None,
        hr_RateLimiter = None, hr_Metrics = None, hr_HITLHandler = Some (HandleHITL sample_env plain_codec)\<rparr>\<rparr>"

definition guarded_gate :: gate where
  "guarded_gate = sample_gate\<lparr>gt_Policies := Some \<lparr>ho_policy = Some sample_policy, ho_learnedPath = [],
     ho_Learned = [], ho_WriteError = None\<rparr>\<rparr>"

lemma approving_answer:
  "approving_token plain_codec (approve_token answer) \<longleftrightarrow>
     answer = [] \<or> answer = ActionApproveOnce \<or> answer = ActionApproveAndRemember"
  by (auto simp: approving_token_def approve_token_def plain_codec_def)

lemma rm_asks:
  "IsRequiresHITL (fst (gate_check sample_env (guarded_gate, ()) ''s''
     (bash_op ((ls_config False)\<lparr>bc_Command := ''rm x''\<rparr>) ''s''))) \<noteq> None"
proof -
  have "case IsRequiresHITL (fst (gate_check sample_env (guarded_gate, ()) ''s''
     (bash_op ((ls_config False)\<lparr>bc_Command := ''rm x''\<rparr>) ''s''))) of None \<Rightarrow> False | Some d \<Rightarrow> True"
    by code_simp
  then show ?thesis by (auto split: option.splits)
qed

lemma rm_consent:
  "consent sample_env plain_codec (asking_transition answer) ((ls_config False)\<lparr>bc_Command := ''rm x''\<rparr>)
     ''s'' (guarded_gate, ()) \<longleftrightarrow> approving_token plain_codec (approve_token answer)"
proof -
  let ?op = "bash_op ((ls_config False)\<lparr>bc_Command := ''rm x''\<rparr>) ''s''"
  obtain err w1 where g: "gate_check sample_env (guarded_gate, ()) ''s'' ?op = (err, w1)"
    by (metis prod.collapse)
  with rm_asks have "IsRequiresHITL err \<noteq> None" by simp
  then obtain e where e: "err = Some e" "IsRequiresHITL (Some e) \<noteq> None"
    by (cases err) (auto simp: IsRequiresHITL_def)
  show ?thesis unfolding consent_def g using e by (cases w1) (simp add: asking_transition_def)
qed

theorem shell_needs_consent_witness:
  "consent sample_env plain_codec (asking_transition ''approve-once'')
     ((ls_config False)\<lparr>bc_Command := ''rm x''\<rparr>) ''s'' (guarded_gate, ()) \<and>
   (\<forall>env. \<exists>e w'. \<forall>adapter. (case fireBash env (asking_transition ''deny'') [] (guarded_gate, ())
        (gated_net\<lparr>c_HostRuntime := Some ((the (c_HostRuntime gated_net))\<lparr>hr_Adapter := Some adapter\<rparr>)\<rparr>) of
      (out, w1, c1) \<Rightarrow> out = ([], 0, Some e) \<and> w1 = w' \<and> c_Places c1 = c_Places gated_net))"
proof (intro conjI allI)
  show "consent sample_env plain_codec (asking_transition ''approve-once'')
     ((ls_config False)\<lparr>bc_Command := ''rm x''\<rparr>) ''s'' (guarded_gate, ())"
    by (simp add: rm_consent approving_answer ActionApproveOnce_def)
  fix env :: "unit gate_world env"
  have s: "c_SessionID gated_net = ''s''" by (simp add: gated_net_def NewCPN_def)
  have n: "\<not> consent sample_env plain_codec (asking_transition ''deny'')
     ((ls_config False)\<lparr>bc_Command := ''rm x''\<rparr>) (c_SessionID gated_net) (guarded_gate, ())"
    by (simp add: s rm_consent approving_answer ActionApproveOnce_def ActionApproveAndRemember_def)
  show "\<exists>e w'. \<forall>adapter. (case fireBash env (asking_transition ''deny'') [] (guarded_gate, ())
        (gated_net\<lparr>c_HostRuntime := Some ((the (c_HostRuntime gated_net))\<lparr>hr_Adapter := Some adapter\<rparr>)\<rparr>) of
      (out, w1, c1) \<Rightarrow> out = ([], 0, Some e) \<and> w1 = w' \<and> c_Places c1 = c_Places gated_net)"
    by (rule shell_needs_consent[OF _ _ _ _ n])
      (simp_all add: asking_transition_def gated_net_def)
qed

end
