(* ===== verification/Llm_Protocol.thy ===== *)
theory Llm_Protocol
  imports Fire_Llm
begin

text \<open>
  The abstract specification of an LLM firing. \<open>act_run\<close> are the ways in which the world can change
  while the model converses: one step per call of the client, the host gate, its handler, the channel
  of the user and an executor, with the clock and the context silent. \<open>llm_protocol\<close> is the discipline:
  a budget of calls, and no tool outside the allow-list or without the consent it needs.
  The lemmas below show that the functions of \<open>Fire_Llm\<close> implement it, one per function.
\<close>

section \<open>The specification\<close>

datatype llm_act =
    Asked
  | Gated tool_call bool
  | Settled tool_call bool
  | Answered tool_call bool
  | Ran tool_call

inductive act_run ::
  "'w env \<Rightarrow> 'w llm_client \<Rightarrow> 'w transition \<Rightarrow> 'w cpn \<Rightarrow> 'w \<Rightarrow> llm_act list \<Rightarrow> 'w \<Rightarrow> bool"
  for env llm t c where
  run_nil: "act_run env llm t c w [] w"
| run_clock: "en_now env w = (n, w1) \<Longrightarrow> act_run env llm t c w1 acts w' \<Longrightarrow> act_run env llm t c w acts w'"
| run_ctx: "en_done env w = (d, w1) \<Longrightarrow> act_run env llm t c w1 acts w' \<Longrightarrow> act_run env llm t c w acts w'"
| run_ask: "lk_Complete llm w q = (r, w1) \<Longrightarrow> act_run env llm t c w1 acts w' \<Longrightarrow>
    act_run env llm t c w (Asked # acts) w'"
| run_stream: "lk_CompleteStream llm w q = (s, w1) \<Longrightarrow> act_run env llm t c w1 acts w' \<Longrightarrow>
    act_run env llm t c w (Asked # acts) w'"
| run_gate: "host_gates c = Some (check, handler) \<Longrightarrow>
    DeriveHostGateOp env (tl_ToolName tc) (tl_Arguments tc) = Some op \<Longrightarrow>
    check w (c_SessionID c) op = (err, w1) \<Longrightarrow> act_run env llm t c w1 acts w' \<Longrightarrow>
    act_run env llm t c w (Gated tc (err = None) # acts) w'"
| run_settle: "host_gates c = Some (check, handler) \<Longrightarrow>
    DeriveHostGateOp env (tl_ToolName tc) (tl_Arguments tc) = Some op \<Longrightarrow>
    handler w (tool_channel t) (tr_ID t) op e = ((err, surface), w1) \<Longrightarrow> act_run env llm t c w1 acts w' \<Longrightarrow>
    act_run env llm t c w (Settled tc (err = None) # acts) w'"
| run_answer: "tool_channel t = Some recv \<Longrightarrow> recv w = (x, w1) \<Longrightarrow> act_run env llm t c w1 acts w' \<Longrightarrow>
    act_run env llm t c w (Answered tc (\<exists>tok. x = RecvToken tok \<and> \<not> tool_rejected env tok) # acts) w'"
| run_tool: "map_of (c_Transitions c) (tl_ToolName tc) = Some tool \<Longrightarrow> tr_Executor tool = Some exec \<Longrightarrow>
    tok_Payload tok = PString (tl_Arguments tc) \<Longrightarrow> exec w tok = (r, w1) \<Longrightarrow>
    act_run env llm t c w1 acts w' \<Longrightarrow> act_run env llm t c w (Ran tc # acts) w'"

text \<open>Who has to consent to a call: the host gate, or the user of a tool with \<open>RequiresHITL\<close>.\<close>

definition gate_responsible :: "'w env \<Rightarrow> 'w cpn \<Rightarrow> tool_call \<Rightarrow> bool" where
  "gate_responsible env c tc \<longleftrightarrow> host_gates c \<noteq> None \<and>
     DeriveHostGateOp env (tl_ToolName tc) (tl_Arguments tc) \<noteq> None"

definition requires_hitl :: "'w cpn \<Rightarrow> tool_call \<Rightarrow> bool" where
  "requires_hitl c tc = (case map_of (c_Transitions c) (tl_ToolName tc) of
     None \<Rightarrow> False
   | Some tool \<Rightarrow> (case tr_ToolMeta tool of None \<Rightarrow> False | Some m \<Rightarrow> tm_RequiresHITL m))"

definition needs_consent :: "'w env \<Rightarrow> 'w transition \<Rightarrow> 'w cpn \<Rightarrow> tool_call \<Rightarrow> bool" where
  "needs_consent env t c tc \<longleftrightarrow> gate_responsible env c tc \<or> (requires_hitl c tc \<and> tool_channel t \<noteq> None)"

text \<open>
  The discipline, over the calls left and the tool call that has been consented to last. A consent is
  used up by the execution and by the next call of the model; a refusal withdraws it.
\<close>

fun llm_protocol :: "string set \<Rightarrow> (tool_call \<Rightarrow> bool) \<Rightarrow> nat \<Rightarrow> tool_call option \<Rightarrow> llm_act list \<Rightarrow> bool" where
  "llm_protocol allowed needs n ok [] = True"
| "llm_protocol allowed needs n ok (Asked # acts) = (n > 0 \<and> llm_protocol allowed needs (n - 1) None acts)"
| "llm_protocol allowed needs n ok (Gated tc b # acts) =
     llm_protocol allowed needs n (if b then Some tc else None) acts"
| "llm_protocol allowed needs n ok (Settled tc b # acts) =
     llm_protocol allowed needs n (if b then Some tc else None) acts"
| "llm_protocol allowed needs n ok (Answered tc b # acts) =
     llm_protocol allowed needs n (if b then Some tc else None) acts"
| "llm_protocol allowed needs n ok (Ran tc # acts) =
     (tl_ToolName tc \<in> allowed \<and> (needs tc \<longrightarrow> ok = Some tc) \<and> llm_protocol allowed needs n None acts)"

definition follows :: "'w env \<Rightarrow> 'w transition \<Rightarrow> 'w cpn \<Rightarrow> nat \<Rightarrow> llm_act list \<Rightarrow> bool" where
  "follows env t c n acts \<longleftrightarrow> llm_protocol (set (tr_LLMTools t)) (needs_consent env t c) n None acts"

section \<open>Composition\<close>

lemma protocol_ok: "llm_protocol A N n None acts \<Longrightarrow> llm_protocol A N n ok acts"
  by (cases acts rule: list.exhaust; cases "hd acts") auto

lemma protocol_more: "llm_protocol A N n ok acts \<Longrightarrow> n \<le> m \<Longrightarrow> llm_protocol A N m ok acts"
  by (induction A N n ok acts arbitrary: m rule: llm_protocol.induct) auto

lemma protocol_append:
  "llm_protocol A N n ok acts \<Longrightarrow> llm_protocol A N m None acts2 \<Longrightarrow> llm_protocol A N (n + m) ok (acts @ acts2)"
proof (induction A N n ok acts rule: llm_protocol.induct)
  case (1 A N n ok)
  then show ?case using protocol_ok protocol_more by (metis append_Nil le_add2)
qed auto

lemma follows_append: "follows env t c n acts \<Longrightarrow> follows env t c m acts2 \<Longrightarrow> follows env t c (n + m) (acts @ acts2)"
  unfolding follows_def by (rule protocol_append)

lemma follows_more: "follows env t c n acts \<Longrightarrow> n \<le> m \<Longrightarrow> follows env t c m acts"
  unfolding follows_def by (rule protocol_more)

lemma act_run_append: "act_run env llm t c w a w1 \<Longrightarrow> act_run env llm t c w1 b w2 \<Longrightarrow> act_run env llm t c w (a @ b) w2"
  by (induction rule: act_run.induct) (auto intro: act_run.intros)

text \<open>Both only look at what a conversation keeps.\<close>

lemma act_run_talks:
  assumes "act_run env llm t d w acts w'" and "talks c d"
  shows "act_run env llm t c w acts w'"
proof -
  from assms(2) have e: "host_gates d = host_gates c" "c_SessionID d = c_SessionID c"
    "c_Transitions d = c_Transitions c" by (simp_all add: talks_def)
  from assms(1) show ?thesis
    by (induction rule: act_run.induct) (auto simp: e intro: act_run.intros)
qed

lemma follows_talks: "talks c d \<Longrightarrow> follows env t d n acts = follows env t c n acts"
  unfolding talks_def follows_def needs_consent_def gate_responsible_def requires_hitl_def by simp

definition conforms ::
  "'w env \<Rightarrow> 'w llm_client \<Rightarrow> 'w transition \<Rightarrow> 'w cpn \<Rightarrow> nat \<Rightarrow> 'w \<Rightarrow> 'w \<Rightarrow> bool" where
  "conforms env llm t c n w w' \<longleftrightarrow> (\<exists>acts. act_run env llm t c w acts w' \<and> follows env t c n acts)"

lemma conforms_refl: "conforms env llm t c n w w"
  unfolding conforms_def follows_def using run_nil by (metis llm_protocol.simps(1))

lemma conforms_trans:
  assumes "conforms env llm t c n w w1" and "conforms env llm t d m w1 w2" and "talks c d"
  shows "conforms env llm t c (n + m) w w2"
  using assms unfolding conforms_def
  by (meson act_run_append act_run_talks follows_append follows_talks)

lemma conforms_more: "conforms env llm t c n w w' \<Longrightarrow> n \<le> m \<Longrightarrow> conforms env llm t c m w w'"
  unfolding conforms_def using follows_more by blast

lemma conforms_now: "en_now env w = (x, w1) \<Longrightarrow> conforms env llm t c n w w1"
  unfolding conforms_def follows_def using run_clock[OF _ run_nil] by (metis llm_protocol.simps(1))

lemma conforms_ctx: "en_done env w = (x, w1) \<Longrightarrow> conforms env llm t c n w w1"
  unfolding conforms_def follows_def using run_ctx[OF _ run_nil] by (metis llm_protocol.simps(1))

section \<open>The functions conform\<close>

lemma complete_conforms: "complete llm t q w c = (r, w', d) \<Longrightarrow> conforms env llm t c0 1 w w'"
proof -
  assume a: "complete llm t q w c = (r, w', d)"
  have f: "follows env t c0 1 [Asked]" by (simp add: follows_def)
  show ?thesis
  proof (cases "lr_Stream q")
    case True
    obtain s w1 where s: "lk_CompleteStream llm w q = (s, w1)" by (metis prod.exhaust)
    with a True have "w' = w1" by (cases s) (simp add: complete_def)
    with run_stream[OF s run_nil] f show ?thesis unfolding conforms_def by blast
  next
    case False
    obtain x w1 where s: "lk_Complete llm w q = (x, w1)" by force
    with a False have "w' = w1" by (simp add: complete_def)
    with run_ask[OF s run_nil] f show ?thesis unfolding conforms_def by blast
  qed
qed

lemma verify_json_conforms: "verify_json llm cfg q resp w = (r, w') \<Longrightarrow> conforms env llm t c 1 w w'"
proof -
  assume a: "verify_json llm cfg q resp w = (r, w')"
  obtain x w1 where s: "lk_Complete llm w (q\<lparr>lr_Messages := retry_messages (lr_Messages q)\<rparr>) = (x, w1)"
    by force
  have "conforms env llm t c 1 w w1"
    unfolding conforms_def follows_def using run_ask[OF s run_nil] by (intro exI[of _ "[Asked]"]) simp
  then show ?thesis
    using a s conforms_refl by (auto simp: verify_json_def split: if_splits sum.splits)
qed

text \<open>What the gate did, and whether the call is consented to when it did not refuse.\<close>

lemma tool_gate_run:
  assumes "tool_gate env t tc w c = ((gated, refused), w', d)"
  shows "(\<not> gated \<and> \<not> refused \<and> \<not> gate_responsible env c tc \<and> w' = w) \<or>
    (gated \<and> (\<exists>acts. act_run env llm t c w acts w' \<and>
       (\<forall>A N n ok rest. llm_protocol A N n ok (acts @ rest) =
          llm_protocol A N n (if refused then None else Some tc) rest)))"
proof (cases "gate_responsible env c tc")
  case False
  then have "host_gates c = None \<or> DeriveHostGateOp env (tl_ToolName tc) (tl_Arguments tc) = None"
    unfolding gate_responsible_def by blast
  with assms False show ?thesis by (auto simp: tool_gate_def split: option.splits)
next
  case True
  then obtain check handler op where
    g: "host_gates c = Some (check, handler)" "DeriveHostGateOp env (tl_ToolName tc) (tl_Arguments tc) = Some op"
    by (auto simp: gate_responsible_def)
  obtain err w1 where k: "check w (c_SessionID c) op = (err, w1)" by force
  note rg = run_gate[OF g k]
  show ?thesis
  proof (cases err)
    case None
    with assms g k have "gated" "\<not> refused" "w' = w1" by (simp_all add: tool_gate_def Let_def)
    with rg[OF run_nil] None show ?thesis by (intro disjI2 conjI exI[of _ "[Gated tc True]"]) auto
  next
    case (Some e)
    obtain handled sf w2 where h: "handler w1 (tool_channel t) (tr_ID t) op e = ((handled, sf), w2)"
      by (metis prod.collapse)
    with assms g k Some have "gated" "refused = (handled \<noteq> None)" "w' = w2"
      by (auto simp: tool_gate_def Let_def split: if_splits)
    with rg[OF run_settle[OF g h run_nil]] Some show ?thesis
      by (intro disjI2 conjI exI[of _ "[Gated tc False, Settled tc (handled = None)]"]) auto
  qed
qed

lemma tool_approval_run:
  assumes "tool_approval env t tc w c = (r, w', d)"
  shows "(tool_channel t = None \<and> w' = w) \<or>
    (tool_channel t \<noteq> None \<and> (\<exists>acts. act_run env llm t c0 w acts w' \<and>
       (\<forall>A N n ok rest. r = Inr False \<longrightarrow> llm_protocol A N n ok (acts @ rest) = llm_protocol A N n (Some tc) rest) \<and>
       (\<forall>A N n ok. llm_protocol A N n ok acts)))"
proof (cases "tool_channel t")
  case None
  with assms show ?thesis by (simp add: tool_approval_def Let_def)
next
  case (Some recv)
  obtain x w1 where x: "recv w = (x, w1)" by force
  let ?act = "Answered tc (\<exists>tok. x = RecvToken tok \<and> \<not> tool_rejected env tok)"
  show ?thesis
  proof (cases x)
    case (RecvToken tok)
    with assms Some x have "w' = w1" "r = Inr (tool_rejected env tok)"
      by (auto simp: tool_approval_def Let_def split: if_splits)
    with run_answer[OF Some x run_nil] Some RecvToken show ?thesis
      by (intro disjI2 conjI exI[of _ "[?act]"]) auto
  next
    case RecvClosed
    with assms Some x have "w' = w1" "\<exists>e. r = Inl e" by (auto simp: tool_approval_def Let_def)
    with run_answer[OF Some x run_nil] Some RecvClosed show ?thesis
      by (intro disjI2 conjI exI[of _ "[?act]"]) auto
  next
    case RecvDone
    obtain y w2 where y: "en_done env w1 = (y, w2)" by force
    with assms Some x RecvDone have "w' = w2" "\<exists>e. r = Inl e"
      by (auto simp: tool_approval_def ctx_error_def Let_def)
    with run_answer[OF Some x run_ctx[OF y run_nil]] Some RecvDone show ?thesis
      by (intro disjI2 conjI exI[of _ "[?act]"]) auto
  qed
qed

lemma follows_ran:
  assumes "tl_ToolName tc \<in> set (tr_LLMTools t)" and "needs_consent env t c tc \<longrightarrow> ok = Some tc"
  shows "llm_protocol (set (tr_LLMTools t)) (needs_consent env t c) n ok [Ran tc]"
  using assms by simp

text \<open>The execution, after acts that leave the consent it needs.\<close>

lemma tool_execute_run:
  assumes x: "tool_execute env tc tool w = (out, w')"
    and tool: "tl_ToolName tc \<in> set (tr_LLMTools t)" "map_of (c_Transitions c) (tl_ToolName tc) = Some tool"
  shows "act_run env llm t c w [] w' \<or> act_run env llm t c w [Ran tc] w'"
proof (cases "tr_Executor tool")
  case None
  with x show ?thesis by (auto simp: tool_execute_def intro: run_nil)
next
  case (Some exec)
  define arg where "arg = \<lparr>tok_Color = ColorJSON, tok_Payload = PString (tl_Arguments tc),
    tok_OriginID = [], tok_OriginDepth = 0, tok_OriginKind = no_kind, tok_Space = space_empty,
    tok_SessionID = [], tok_TraceID = []\<rparr>"
  obtain r w1 where r: "exec w arg = (r, w1)" by force
  with x Some have "w' = w1"
    by (auto simp: tool_execute_def arg_def[symmetric] Let_def split: sum.splits)
  with run_tool[OF tool(2) Some _ r run_nil] show ?thesis by (simp add: arg_def)
qed

text \<open>The acts before the execution of a tool that is allowed, and what they leave.\<close>

lemma consent_run:
  assumes g: "tool_gate env t tc w d = ((gated, refused), w1, d1)" and d: "talks c d"
    and k: "(if \<not> gated \<and> requires_hitl c tc then tool_approval env t tc w1 d1 else (Inr False, w1, d1)) = (asked, w2, d2)"
    and nr: "\<not> refused"
  shows "\<exists>acts. act_run env llm t c w acts w2 \<and> follows env t c 0 acts \<and>
    (asked = Inr False \<longrightarrow> tl_ToolName tc \<in> set (tr_LLMTools t) \<longrightarrow> follows env t c 0 (acts @ [Ran tc]))"
proof -
  have resp: "gate_responsible env d tc = gate_responsible env c tc"
    using d by (simp add: talks_def gate_responsible_def)
  from tool_gate_run[OF g, of llm] nr consider
      (ungated) "\<not> gated" "\<not> gate_responsible env d tc" "w1 = w"
    | (gated) acts where "gated" "act_run env llm t d w acts w1"
        "\<And>A N n ok rest. llm_protocol A N n ok (acts @ rest) = llm_protocol A N n (Some tc) rest"
    by auto
  then show ?thesis
  proof cases
    case ungated
    show ?thesis
    proof (cases "requires_hitl c tc \<and> tool_channel t \<noteq> None")
      case True
      with ungated k have "tool_approval env t tc w d1 = (asked, w2, d2)" by simp
      from tool_approval_run[OF this, where llm = llm and ?c0.0 = c] True obtain acts where
        a: "act_run env llm t c w acts w2" "\<And>A N n ok. llm_protocol A N n ok acts"
          "asked = Inr False \<longrightarrow> (\<forall>A N n ok rest. llm_protocol A N n ok (acts @ rest) = llm_protocol A N n (Some tc) rest)"
        by blast
      then show ?thesis by (auto simp: follows_def)
    next
      case False
      have "w2 = w" using k False ungated tool_approval_run[of env t tc w d1 asked w2 d2]
        by (auto split: if_splits)
      moreover have "\<not> needs_consent env t c tc" using False ungated(2) resp by (simp add: needs_consent_def)
      ultimately show ?thesis using run_nil by (intro exI[of _ "[]"]) (auto simp: follows_def)
    qed
  next
    case gated
    with k have "w2 = w1" by simp
    moreover have "follows env t c 0 acts"
      using gated(3)[of _ _ _ _ "[]"] by (simp add: follows_def)
    ultimately show ?thesis
      using act_run_talks[OF gated(2) d] gated(3)[of _ _ _ _ "[Ran tc]"]
      by (intro exI[of _ acts]) (simp add: follows_def)
  qed
qed

lemma tool_step_conforms:
  assumes a: "tool_step env t tc w c = (r, w', d)"
  shows "conforms env llm t c 0 w w'"
proof (cases "tl_ToolName tc \<in> set (tr_LLMTools t) \<and> map_of (c_Transitions c) (tl_ToolName tc) \<noteq> None")
  case False
  with a have "w' = w" by (auto simp: tool_step_def split: if_splits option.splits)
  then show ?thesis by (simp add: conforms_refl)
next
  case True
  then obtain tool where tool: "tl_ToolName tc \<in> set (tr_LLMTools t)"
    "map_of (c_Transitions c) (tl_ToolName tc) = Some tool" by blast
  obtain start w1 where n: "en_now env w = (start, w1)" by force
  obtain gated refused w2 c2 where
    g: "tool_gate env t tc w1 (tool_started env t tc tool c) = ((gated, refused), w2, c2)"
    by (metis prod.collapse)
  have st: "talks c (tool_started env t tc tool c)" by (rule talks_steps(4))
  show ?thesis
  proof (cases refused)
    case True
    with a tool n g have "w' = w2" by (simp add: tool_step_def Let_def)
    moreover have "\<exists>acts. act_run env llm t c w1 acts w2 \<and> follows env t c 0 acts"
    proof -
      from tool_gate_run[OF g, of llm] True obtain acts where
        "act_run env llm t (tool_started env t tc tool c) w1 acts w2"
        "\<And>A N n ok rest. llm_protocol A N n ok (acts @ rest) = llm_protocol A N n None rest" by auto
      note b = this(2)[of _ _ _ _ "[]"] and act_run_talks[OF this(1) st]
      then show ?thesis by (auto simp: follows_def)
    qed
    ultimately show ?thesis using run_clock[OF n] unfolding conforms_def by blast
  next
    case False
    have rq: "requires_hitl c tc = (case tr_ToolMeta tool of None \<Rightarrow> False | Some m \<Rightarrow> tm_RequiresHITL m)"
      using tool by (simp add: requires_hitl_def)
    obtain asked w3 c3 where
      k: "(if \<not> gated \<and> requires_hitl c tc then tool_approval env t tc w2 c2 else (Inr False, w2, c2)) = (asked, w3, c3)"
      by (metis prod_cases3)
    from consent_run[OF g st k False] tool(1) obtain acts where
      acts: "act_run env llm t c w1 acts w3" "follows env t c 0 acts"
        "asked = Inr False \<longrightarrow> follows env t c 0 (acts @ [Ran tc])" by blast
    obtain content err w4 where x: "tool_execute env tc tool w3 = ((content, err), w4)"
      by (metis prod.collapse)
    obtain stop w5 where m: "en_now env w4 = (stop, w5)" by force
    show ?thesis
    proof (cases "asked = Inr False")
      case True
      have "w' = w5" using a tool n g False k x m True by (simp add: tool_step_def Let_def rq)
      moreover have "act_run env llm t c w1 acts w4 \<or> act_run env llm t c w1 (acts @ [Ran tc]) w4"
        using tool_execute_run[OF x tool, of llm] act_run_append[OF acts(1)] by fastforce
      ultimately have "act_run env llm t c w acts w' \<or> act_run env llm t c w (acts @ [Ran tc]) w'"
        using run_clock[OF n] act_run_append[OF _ run_clock[OF m run_nil]] by fastforce
      then show ?thesis using acts(2,3) True unfolding conforms_def by blast
    next
      case nf: False
      have "w' = w3" using a tool n g False k nf
        by (auto simp: tool_step_def Let_def rq split: sum.splits bool.splits)
      then show ?thesis using run_clock[OF n acts(1)] acts(2) unfolding conforms_def by blast
    qed
  qed
qed

lemma run_calls_conforms: "run_calls env t tcs ms w c = (r, w', d) \<Longrightarrow> conforms env llm t c 0 w w'"
proof (induction tcs arbitrary: ms w c)
  case (Cons tc tcs)
  obtain r1 w1 c1 where st: "tool_step env t tc w c = (r1, w1, c1)" by (metis prod_cases3)
  note 1 = tool_step_conforms[OF st, of llm]
  show ?case
  proof (cases r1)
    case (Inr m)
    with Cons.prems st have "run_calls env t tcs (ms @ [m]) w1 c1 = (r, w', d)" by simp
    from conforms_trans[OF 1 Cons.IH[OF this] tool_step_talks[OF st]] show ?thesis by simp
  qed (use Cons.prems st 1 in simp)
qed (simp add: conforms_refl)

lemma tool_loop_conforms:
  "tool_loop env llm t cfg tools n i resp ms cost w c = (r, w', d) \<Longrightarrow> conforms env llm t c n w w'"
proof (induction n arbitrary: i resp ms cost w c)
  case (Suc n)
  obtain x w0 where x: "en_done env w = (x, w0)" by force
  have 0: "conforms env llm t c 0 w w0" by (rule conforms_ctx[OF x])
  show ?case
  proof (cases x)
    case None
    obtain r1 w1 c1 where rc: "run_calls env t (lp_ToolCalls resp) (ms @ assistant_messages resp) w0 c = (r1, w1, c1)"
      by (metis prod_cases3)
    have 1: "conforms env llm t c 0 w w1"
      using conforms_trans[OF 0 run_calls_conforms[OF rc] talks_refl] by simp
    show ?thesis
    proof (cases r1)
      case (Inr ms1)
      obtain ans w2 c2 where
        cm: "complete llm t (llm_req t cfg c1 tools ms1 (lc_StreamOutput cfg)) w1 c1 = (ans, w2, c2)"
        by (metis prod_cases3)
      have 2: "conforms env llm t c 1 w w2"
        using conforms_trans[OF 1 complete_conforms[OF cm] run_calls_talks[OF rc]] by simp
      have t2: "talks c c2" by (rule talks_trans[OF run_calls_talks[OF rc] complete_talks[OF cm]])
      show ?thesis
      proof (cases "\<exists>resp2. ans = Inr resp2 \<and> lp_ToolCalls resp2 \<noteq> []")
        case True
        then obtain resp2 where "ans = Inr resp2" "lp_ToolCalls resp2 \<noteq> []" by blast
        with Suc.prems x None rc Inr cm have
          "tool_loop env llm t cfg tools n (Suc i) resp2 ms1 (cost + lp_CostUSD resp2) w2 c2 = (r, w', d)"
          by simp
        from conforms_trans[OF 2 Suc.IH[OF this] t2] show ?thesis by simp
      next
        case False
        with Suc.prems x None rc Inr cm have "w' = w2" by (auto split: sum.splits if_splits)
        then show ?thesis using conforms_more[OF 2, of "Suc n"] by simp
      qed
    qed (use Suc.prems x None rc conforms_more[OF 1] in simp)
  qed (use Suc.prems x conforms_more[OF 0] in simp)
qed (simp add: conforms_refl)

lemma llm_finish_world: "llm_finish env t cfg toks resp content cost w c = (out, w', c') \<Longrightarrow> w' = w"
  by (auto simp: llm_finish_def Let_def split: prod.splits option.splits)

lemma fireLLM_conforms:
  assumes f: "fireLLM env t toks w c = (out, w', c')" and llm: "c_LLMClient c = Some llm"
  shows "conforms env llm t c (MaxToolCallIterations + 2) w w'"
proof (cases "tr_LLMConfig t")
  case None
  with f have "w' = w" by (simp add: fireLLM_def fail_with_def)
  then show ?thesis by (simp add: conforms_refl)
next
  case (Some cfg)
  show ?thesis
  proof (cases "llm_messages env t cfg toks c")
  case None
  with f llm Some have "w' = w" by (simp add: fireLLM_def fail_with_def)
  then show ?thesis by (simp add: conforms_refl)
  next
  case ms: (Some ms)
  let ?req = "llm_req t cfg c (resolve_tools t c) ms False"
  let ?req1 = "?req\<lparr>lr_Stream := lc_StreamOutput cfg\<rparr>"
  show ?thesis
  proof (cases "budget_error env llm t cfg ?req")
    case (Some e)
    with f llm ms \<open>tr_LLMConfig t = Some cfg\<close> have "w' = w" by (simp add: fireLLM_def Let_def fail_with_def)
    then show ?thesis by (simp add: conforms_refl)
  next
    case None
    obtain ans w1 c1 where cm: "complete llm t ?req1 w c = (ans, w1, c1)" by (metis prod_cases3)
    have 1: "conforms env llm t c 1 w w1" by (rule complete_conforms[OF cm])
    note unf = fireLLM_def Let_def llm \<open>tr_LLMConfig t = Some cfg\<close> ms None cm
    show ?thesis
    proof (cases ans)
      case (Inl e)
      with f have "w' = w1" by (simp add: unf fail_with_def)
      then show ?thesis using conforms_more[OF 1] by simp
    next
      case (Inr resp0)
      obtain resp extra w2 where v: "verify_json llm cfg ?req1 resp0 w1 = ((resp, extra), w2)"
        by (metis prod.collapse)
      have 2: "conforms env llm t c 2 w w2"
        using conforms_trans[OF 1 verify_json_conforms[OF v] talks_refl] by (simp add: numeral_2_eq_2)
      obtain r w3 c3 where tl: "tool_loop env llm t cfg (resolve_tools t c) MaxToolCallIterations 0 resp
          ms 0 w2 c1 = (r, w3, c3)" by (metis prod_cases3)
      have 3: "conforms env llm t c (MaxToolCallIterations + 2) w w3"
        using conforms_trans[OF 2 _ complete_talks[OF cm], OF tool_loop_conforms[OF tl]]
        by (simp add: add.commute)
      show ?thesis
      proof (cases "lp_ToolCalls resp = []")
        case True
        with f have "llm_finish env t cfg toks resp (lp_Content resp) (lp_CostUSD resp0 + extra) w2 c1 = (out, w', c')"
          by (simp add: unf Inr v)
        from llm_finish_world[OF this] show ?thesis using conforms_more[OF 2] by simp
      next
        case False
        with f Inr v tl have "w' = w3"
          by (auto simp: unf dest: llm_finish_world split: sum.splits)
        with 3 show ?thesis by simp
      qed
    qed
  qed
  qed
qed

end
