(* ===== verification/Llm_Properties.thy ===== *)
theory Llm_Properties
  imports Llm_Protocol Sample_Nets
begin

text \<open>
  What the LLM firings guarantee: they refine the protocol of \<open>Llm_Protocol\<close>, their answer is one
  token per output place, and the context they send is bounded.
\<close>

section \<open>The protocol\<close>

text \<open>
  C33: an LLM firing refines the protocol. Whatever the model answers, the firing changes the world only
  by calls of the client, at most twelve of them (the first, one retry for a missing JSON object, ten
  after tool calls), by asking the host gate and the user, and by running tools that its allow-list
  names; a tool runs only right after the host gate, its handler or the user consented to that very
  call, unless neither is responsible for it.
\<close>
theorem fireLLM_refines_protocol:
  assumes "fireLLM env t toks w c = (out, w', c')" and "c_LLMClient c = Some llm"
  shows "\<exists>acts. act_run env llm t c w acts w' \<and>
    llm_protocol (set (tr_LLMTools t)) (needs_consent env t c) 12 None acts"
  using fireLLM_conforms[OF assms] by (simp add: conforms_def follows_def MaxToolCallIterations_def)

text \<open>A model that always asks for the tool \<open>rm\<close>, which requires the consent of a user who rejects it.\<close>

definition plain_llm_config :: llm_config where
  "plain_llm_config = \<lparr>lc_Model = ''m'', lc_Role = [], lc_FallbackModels = [], lc_Endpoint = [], lc_MaxTokens = 0,
     lc_Temperature = 0, lc_StreamOutput = False, lc_RequireJSON = False, lc_ResponseFmtRequired = False,
     lc_JSONSchema = None, lc_Budget = 0, lc_Provider = None, lc_Trace = None, lc_Plugins = [],
     lc_Reasoning = None, lc_CacheControl = None,
     lc_SkipHistory = False, lc_SkipOutputHistory = False, lc_SkipRegionalPreamble = False\<rparr>"

definition insisting_client :: "nat llm_client" where
  "insisting_client = (let r = (text_response ''go'')\<lparr>lp_ToolCalls :=
       [\<lparr>tl_ID = ''1'', tl_ToolName = ''rm'', tl_Arguments = ''{}''\<rparr>]\<rparr>
     in \<lparr>lk_Complete = (\<lambda>w q. (Inr r, Suc w)), lk_CompleteStream = (\<lambda>w q. (([], Inr r), Suc w)),
         lk_EstimateCost = (\<lambda>q. Inr 1)\<rparr>)"

definition insisting_transition :: "nat transition" where
  "insisting_transition = (NewTransition ''l'' NodeKindLLM [] [''a''])
     \<lparr>tr_LLMConfig := Some plain_llm_config, tr_LLMTools := [''rm''],
      tr_HITLConfig := Some 
        \<lparr>hc_Channel = Some (\<lambda>w. (RecvToken ((json_token NodeKindHITL ''no'')\<lparr>tok_Color := ColorError\<rparr>), Suc w)),
          hc_Prompt = ''ok?'', hc_RevisionLoop = False, hc_CorrectionLLMID = [], hc_MaxRevisions = 0,
          hc_A2UIPayloadBuilder = None, hc_OutputBuilder = None\<rparr>\<rparr>"

definition insisting_net :: "nat cpn" where
  "insisting_net = (NewCPN ''n'' ''r'' 0 ModeMAS ''s'' [(''a'', NewPlace ''a'' ColorArtifact SpaceComputation)]
     [(''l'', insisting_transition),
      (''rm'', (NewTransition ''rm'' NodeKindTool [] [])
         \<lparr>tr_Executor := Some (\<lambda>w tok. (Inr tok, w + 100)),
          tr_ToolMeta := Some \<lparr>tm_Namespace = [], tm_Description = [], tm_Parameters = [],
            tm_RequiresHITL = True\<rparr>\<rparr>)])
     \<lparr>c_LLMClient := Some insisting_client\<rparr>"


text \<open>Every call of \<open>rm\<close> needs the consent of that user.\<close>

theorem fireLLM_refines_protocol_witness:
  "(\<forall>i args. needs_consent quiet_env insisting_transition insisting_net
      \<lparr>tl_ID = i, tl_ToolName = ''rm'', tl_Arguments = args\<rparr>) \<and>
   (\<exists>out w' c' acts. fireLLM quiet_env insisting_transition [] 0 insisting_net = (out, w', c') \<and>
     act_run quiet_env insisting_client insisting_transition insisting_net 0 acts w' \<and>
     llm_protocol {''rm''} (needs_consent quiet_env insisting_transition insisting_net) 12 None acts)"
proof -
  obtain out w' c' where f: "fireLLM quiet_env insisting_transition [] 0 insisting_net = (out, w', c')"
    by (metis prod_cases3)
  moreover have "c_LLMClient insisting_net = Some insisting_client" by (simp add: insisting_net_def)
  moreover have "set (tr_LLMTools insisting_transition) = {''rm''}" by (simp add: insisting_transition_def)
  moreover have "needs_consent quiet_env insisting_transition insisting_net
      \<lparr>tl_ID = i, tl_ToolName = ''rm'', tl_Arguments = args\<rparr>" for i args
    by (simp add: needs_consent_def requires_hitl_def tool_channel_def insisting_net_def
        insisting_transition_def NewCPN_def)
  ultimately show ?thesis using fireLLM_refines_protocol[OF f] by metis
qed

section \<open>The answer\<close>

lemma put_place_other: "q \<noteq> pid \<Longrightarrow> map_of (c_Places (put_place q p c)) pid = map_of (c_Places c) pid"
  "map_of (c_Places (put_place q p c)) q = Some p"
  by (simp_all add: put_place_def update_conv')

text \<open>The same token for every output place, in the space of each: a prefix of the places has it.\<close>

lemma llm_deposit_prefix:
  "deposit_each miss wrp (\<lambda>_ r. Inr (tok\<lparr>tok_Space := pl_Space r\<rparr>)) pids c = (err, ts, c') \<Longrightarrow>
   \<exists>n\<le>length pids. (err = None \<longrightarrow> n = length pids) \<and>
     (\<forall>pid p. map_of (c_Places c) pid = Some p \<longrightarrow> map_of (c_Places c') pid =
        Some (p\<lparr>pl_Tokens := pl_Tokens p @ replicate (count_list (take n pids) pid) (tok\<lparr>tok_Space := pl_Space p\<rparr>)\<rparr>))"
proof (induction pids arbitrary: c err ts)
  case Nil
  then show ?case by auto
next
  case (Cons q pids)
  let ?mk = "\<lambda>_ r. Inr (tok\<lparr>tok_Space := pl_Space r\<rparr>)"
  show ?case
  proof (cases "\<exists>r r'. map_of (c_Places c) q = Some r \<and> Deposit r (tok\<lparr>tok_Space := pl_Space r\<rparr>) = Inr r'")
    case False
    then have "c' = c \<and> err \<noteq> None"
      using Cons.prems by (auto split: option.splits sum.splits prod.splits)
    then show ?thesis by (intro exI[of _ 0]) simp
  next
    case True
    then obtain r r' where r: "map_of (c_Places c) q = Some r" "Deposit r (tok\<lparr>tok_Space := pl_Space r\<rparr>) = Inr r'"
      by blast
    obtain err1 ts1 c1 where d: "deposit_each miss wrp ?mk pids (put_place q r' c) = (err1, ts1, c1)"
      by (metis prod_cases3)
    with Cons.prems r have e: "err1 = err" "c1 = c'" by auto
    have r': "r' = r\<lparr>pl_Tokens := pl_Tokens r @ [tok\<lparr>tok_Space := pl_Space r\<rparr>]\<rparr>"
      using r(2) by (simp add: Deposit_Inr_iff)
    from Cons.IH[OF d[unfolded e]] obtain n where n: "n \<le> length pids" "err = None \<longrightarrow> n = length pids"
      "\<And>pid p. map_of (c_Places (put_place q r' c)) pid = Some p \<Longrightarrow> map_of (c_Places c') pid =
        Some (p\<lparr>pl_Tokens := pl_Tokens p @ replicate (count_list (take n pids) pid) (tok\<lparr>tok_Space := pl_Space p\<rparr>)\<rparr>)"
      by blast
    have "map_of (c_Places c') pid = Some (p\<lparr>pl_Tokens := pl_Tokens p @
        replicate (count_list (take (Suc n) (q # pids)) pid) (tok\<lparr>tok_Space := pl_Space p\<rparr>)\<rparr>)"
      if p: "map_of (c_Places c) pid = Some p" for pid p
    proof (cases "q = pid")
      case True
      with p r have "r = p" by simp
      with n(3)[of q r'] True show ?thesis by (simp add: put_place_other r')
    next
      case False
      with n(3)[of pid p] p show ?thesis by (simp add: put_place_other)
    qed
    with n(1,2) show ?thesis by (intro exI[of _ "Suc n"]) simp
  qed
qed

text \<open>
  C37: the answer of an LLM firing is one token. It is text coloured JSON or artefact as the
  configuration says, and the firing appends it, in the space of the place, once per occurrence among
  the output places: to all of them when it succeeds, to the first few of them when a deposit fails,
  to none when the conversation fails. Nothing is ever taken from a place.
\<close>
theorem fireLLM_answer:
  assumes "fireLLM env t toks w c = ((s, k, err), w', c')"
  shows "\<exists>n tok. n \<le> length (tr_OutputPlaces t) \<and> (err = None \<longrightarrow> n = length (tr_OutputPlaces t)) \<and>
    (\<exists>text. tok_Payload tok = PString text) \<and>
    (n > 0 \<longrightarrow> (\<exists>cfg. tr_LLMConfig t = Some cfg \<and>
       tok_Color tok = (if lc_RequireJSON cfg then ColorJSON else ColorArtifact))) \<and>
    (\<forall>pid p. map_of (c_Places c) pid = Some p \<longrightarrow> map_of (c_Places c') pid = Some (p\<lparr>pl_Tokens := pl_Tokens p @
       replicate (count_list (take n (tr_OutputPlaces t)) pid) (tok\<lparr>tok_Space := pl_Space p\<rparr>)\<rparr>))"
  using fireLLM_ends[OF assms]
proof (elim disjE conjE exE)
  assume "talks c c'" and "err \<noteq> None"
  then show ?thesis
    by (intro exI[of _ 0] exI[of _ "json_token NodeKindLLM []"]) (auto simp: talks_def json_token_def)
next
  fix cfg d tok ts x
  assume a: "tr_LLMConfig t = Some cfg" "heard c d" "llm_deposit t tok d = (err, ts, c')"
    "tok_Color tok = inferOutputColor (lc_RequireJSON cfg)" "tok_Payload tok = PString x"
  from llm_deposit_prefix[OF a(3)[unfolded llm_deposit_def]] obtain n where
    n: "n \<le> length (tr_OutputPlaces t)" "err = None \<longrightarrow> n = length (tr_OutputPlaces t)"
      "\<forall>pid p. map_of (c_Places d) pid = Some p \<longrightarrow> map_of (c_Places c') pid = Some (p\<lparr>pl_Tokens := pl_Tokens p @
         replicate (count_list (take n (tr_OutputPlaces t)) pid) (tok\<lparr>tok_Space := pl_Space p\<rparr>)\<rparr>)" by blast
  have 1: "\<exists>text. tok_Payload tok = PString text" using a(5) by blast
  have 2: "\<exists>cfg. tr_LLMConfig t = Some cfg \<and>
      tok_Color tok = (if lc_RequireJSON cfg then ColorJSON else ColorArtifact)"
    using a(1,4) by (intro exI[of _ cfg]) (simp add: inferOutputColor_def)
  show ?thesis using n(1,2) n(3)[unfolded heard_frame(1)[OF a(2)]] 1 2
    by (intro exI[of _ n] exI[of _ tok] conjI) simp_all
qed

definition answering_transition :: "nat transition" where
  "answering_transition = (NewTransition ''l'' NodeKindLLM [] [''a''])\<lparr>tr_LLMConfig := Some plain_llm_config\<rparr>"

definition answering_net :: "nat cpn" where
  "answering_net = insisting_net\<lparr>c_LLMClient := Some (echo_client ''yes'')\<rparr>"

theorem fireLLM_answer_witness:
  "\<exists>out w' c' p tok. fireLLM quiet_env answering_transition [] 0 answering_net = (out, w', c') \<and>
     map_of (c_Places c') ''a'' = Some p \<and> pl_Tokens p = [tok] \<and> tok_Color tok = ColorArtifact"
proof -
  obtain s k err w' c' where f: "fireLLM quiet_env answering_transition [] 0 answering_net = ((s, k, err), w', c')"
    by (metis prod_cases3)
  have "snd (snd (fst (fireLLM quiet_env answering_transition [] 0 answering_net))) = None" by code_simp
  with f have e: "err = None" by simp
  have o: "tr_OutputPlaces answering_transition = [''a'']"
    "tr_LLMConfig answering_transition = Some plain_llm_config" "\<not> lc_RequireJSON plain_llm_config"
    "map_of (c_Places answering_net) ''a'' = Some (NewPlace ''a'' ColorArtifact SpaceComputation)"
    by (simp_all add: answering_transition_def plain_llm_config_def NewTransition_def answering_net_def
        insisting_net_def NewCPN_def)
  from fireLLM_answer[OF f] e o obtain tok where
    "map_of (c_Places c') ''a'' = Some ((NewPlace ''a'' ColorArtifact SpaceComputation)
       \<lparr>pl_Tokens := [tok\<lparr>tok_Space := SpaceComputation\<rparr>]\<rparr>)" "tok_Color tok = ColorArtifact"
    by (auto simp: NewPlace_def)
  with f show ?thesis by fastforce
qed

section \<open>The context\<close>

text \<open>
  The context sent to the model is bounded. It is the system prompt, the summaries of the sub-nets, the end of the
  conversation and the new user message; below \<open>2 ^ 62\<close> the conversation part is the most recent
  \<open>2 * ContextWindowSize\<close> messages of the user and the assistant (twenty by default), in their order, and empty when
  the history is skipped or the size is negative. From there on the firing panics.
\<close>
theorem llm_context_bounded:
  assumes "c_ContextWindowSize c < 2 ^ 62" and "int64 (int (length (filterRaw (c_History c))))"
  shows "\<exists>window. llm_messages env t cfg toks c =
      Some (text_message ''system'' (renderSystemPrompt env t c) # observer_messages (c_History c) @ window @
        (if user_tokens toks = [] then [] else [text_message ''user'' (formatTokenPayload env (user_tokens toks))])) \<and>
    suffix window (map (\<lambda>m. text_message (role_str (ms_Role m)) (ms_Content m)) (filterRaw (c_History c))) \<and>
    int (length window) = min (int (length (filterRaw (c_History c))))
      (2 * (if lc_SkipHistory cfg then 0 else if c_ContextWindowSize c = 0 then 10 else max 0 (c_ContextWindowSize c)))"
proof -
  let ?sz = "if lc_SkipHistory cfg then 0 else if c_ContextWindowSize c = 0 then 10 else c_ContextWindowSize c"
  obtain window where w: "window_messages (c_History c) ?sz = Some window"
    "int (length window) = min (int (length (filterRaw (c_History c)))) (2 * max 0 ?sz)"
    using window_messages_small[of ?sz "c_History c"] assms by (cases "0 < ?sz") (auto simp: min_def)
  show ?thesis
    by (intro exI[of _ window] conjI window_suffix[OF w(1)])
      (use w in \<open>auto simp: llm_messages_def BuildContext_def DefaultContextWindowSize_def Let_def\<close>)
qed

end
