(* ===== verification/Topology.thy ===== *)
theory Topology
  imports Nets
begin

text \<open>
  The serialisable form of a net, \<open>cpn/persist/topology.go\<close>, and the registry that gives function
  values names, \<open>cpn/persist/registry.go\<close>. A JSON blob (\<open>json.RawMessage\<close>) is its text. A live net with
  its sub-nets is a tree, because \<open>Transition.SubNet\<close> points to a net again; \<open>SubNetFactory\<close> values have
  an abstract type. \<open>reflect.Value.Pointer\<close> is a parameter, one per function type.
\<close>

section \<open>The types\<close>

record place_topology =
  pt_ID :: string
  pt_Color :: string
  pt_Space :: string

record llm_topology =
  lg_Model :: string
  lg_Role :: string
  lg_FallbackModels :: "string list"
  lg_Endpoint :: string
  lg_MaxTokens :: int
  lg_Temperature :: real
  lg_StreamOutput :: bool
  lg_RequireJSON :: bool
  lg_ResponseFmtRequired :: bool
  lg_JSONSchema :: "json_schema_config option"
  lg_Budget :: real
  lg_Provider :: "provider_config option"
  lg_Trace :: "trace_config option"
  lg_Plugins :: "string list"
  lg_Reasoning :: "reasoning_config option"
  lg_CacheControl :: "cache_control option"
  lg_SkipHistory :: bool

record validate_topology =
  vg_SchemaFunc :: string
  vg_ValidateFunc :: string
  vg_OnSuccessFunc :: string
  vg_MaxCorrections :: int
  vg_CorrectionLLMID :: string

record hitl_topology =
  hg_Prompt :: string
  hg_RevisionLoop :: bool
  hg_CorrectionLLMID :: string
  hg_MaxRevisions :: int

record breaker_topology =
  bg_FailureThreshold :: int
  bg_OpenDurationMs :: int

record retry_topology =
  rg_MaxAttempts :: int
  rg_InitialWaitMs :: int
  rg_MaxWaitMs :: int
  rg_Multiplier :: real
  rg_RetryOnFunc :: string
  rg_CircuitBreaker :: "breaker_topology option"

text \<open>All fields of \<open>TransitionTopology\<close> but the nested topology.\<close>

record transition_fields =
  tf_ID :: string
  tf_Kind :: string
  tf_InputPlaces :: "string list"
  tf_OutputPlaces :: "string list"
  tf_ErrorPlace :: string
  tf_GuardFunc :: string
  tf_ExecutorFunc :: string
  tf_FactoryFunc :: string
  tf_EventFilterFunc :: string
  tf_RetryOnFunc :: string
  tf_SystemPrompt :: string
  tf_ToolName :: string
  tf_ToolParameters :: string
  tf_LLMConfig :: "llm_topology option"
  tf_LLMTools :: "string list"
  tf_ValidateConfig :: "validate_topology option"
  tf_HITLConfig :: "hitl_topology option"
  tf_ObservedCPNID :: string
  tf_Retry :: "retry_topology option"

datatype (plugins only: code size) cpn_topology =
    Topology (tp_ID: string) (tp_Role: string) (tp_Depth: int) (tp_Mode: string)
      (tp_Places: "(string \<times> place_topology) list")
      (tp_Transitions: "(string \<times> transition_topology) list")
and transition_topology =
    TransitionTopology (tt_Fields: transition_fields) (tt_SubNet: "cpn_topology option")

section \<open>The function registry\<close>

record 'f fn_table =
  ft_Fns :: "'f gomap"
  ft_Rev :: "(nat \<times> string) list"

definition empty_table :: "'f fn_table" where
  "empty_table = \<lparr>ft_Fns = [], ft_Rev = []\<rparr>"

text \<open>Registration panics on a duplicate name (\<open>None\<close>). The reverse map is keyed by the code pointer.\<close>

definition table_register :: "('f \<Rightarrow> nat) \<Rightarrow> string \<Rightarrow> 'f \<Rightarrow> 'f fn_table \<Rightarrow> 'f fn_table option" where
  "table_register ptr name fn tab =
     (if map_of (ft_Fns tab) name \<noteq> None then None
      else Some \<lparr>ft_Fns = AList.update name fn (ft_Fns tab), ft_Rev = AList.update (ptr fn) name (ft_Rev tab)\<rparr>)"

definition table_lookup :: "string \<Rightarrow> 'f fn_table \<Rightarrow> 'f option" where
  "table_lookup name tab = map_of (ft_Fns tab) name"

definition table_reverse :: "('f \<Rightarrow> nat) \<Rightarrow> 'f \<Rightarrow> 'f fn_table \<Rightarrow> string option" where
  "table_reverse ptr fn tab = map_of (ft_Rev tab) (ptr fn)"

record ('w, 'f) func_registry =
  fr_guards :: "(token list \<Rightarrow> bool) fn_table"
  fr_executors :: "('w \<Rightarrow> token \<Rightarrow> (gerr + token) \<times> 'w) fn_table"
  fr_retryOns :: "(gerr \<Rightarrow> int \<Rightarrow> bool) fn_table"
  fr_factories :: "'f fn_table"
  fr_eventFilters :: "(event \<Rightarrow> bool) fn_table"
  fr_validateFns :: "(payload \<Rightarrow> gerr option) fn_table"
  fr_onSuccessFns :: "(payload \<Rightarrow> payload) fn_table"
  fr_schemaFns :: "(string \<Rightarrow> gerr option) gomap"

record ('w, 'f) fn_pointers =
  fp_guard :: "(token list \<Rightarrow> bool) \<Rightarrow> nat"
  fp_executor :: "('w \<Rightarrow> token \<Rightarrow> (gerr + token) \<times> 'w) \<Rightarrow> nat"
  fp_retryOn :: "(gerr \<Rightarrow> int \<Rightarrow> bool) \<Rightarrow> nat"
  fp_factory :: "'f \<Rightarrow> nat"
  fp_eventFilter :: "(event \<Rightarrow> bool) \<Rightarrow> nat"
  fp_validateFn :: "(payload \<Rightarrow> gerr option) \<Rightarrow> nat"
  fp_onSuccessFn :: "(payload \<Rightarrow> payload) \<Rightarrow> nat"

definition NewFuncRegistry :: "('w, 'f) func_registry" where
  "NewFuncRegistry = \<lparr>fr_guards = empty_table, fr_executors = empty_table, fr_retryOns = empty_table,
     fr_factories = empty_table, fr_eventFilters = empty_table, fr_validateFns = empty_table,
     fr_onSuccessFns = empty_table, fr_schemaFns = []\<rparr>"

text \<open>\<open>mapM\<close> over a Go map in iteration order, with the error of the first failing entry.\<close>

fun collect :: "('a \<Rightarrow> gerr + 'b) \<Rightarrow> 'a list \<Rightarrow> gerr + 'b list" where
  "collect f [] = Inr []"
| "collect f (x # xs) = (case f x of
     Inl e \<Rightarrow> Inl e
   | Inr y \<Rightarrow> (case collect f xs of Inl e \<Rightarrow> Inl e | Inr ys \<Rightarrow> Inr (y # ys)))"

lemma collect_cong [fundef_cong]:
  "xs = ys \<Longrightarrow> (\<And>x. x \<in> set ys \<Longrightarrow> f x = g x) \<Longrightarrow> collect f xs = collect g ys"
  by (induction xs arbitrary: ys) (auto split: sum.splits)

lemma collect_Inr_iff:
  "collect f xs = Inr ys \<longleftrightarrow> list_all2 (\<lambda>x y. f x = Inr y) xs ys"
proof (induction xs arbitrary: ys)
  case (Cons x xs)
  show ?case
    by (cases "f x"; cases "collect f xs"; cases ys) (simp_all add: Cons.IH[symmetric])
qed auto

text \<open>A name for an optional function: the empty string when there is none.\<close>

definition name_of :: "('f \<Rightarrow> nat) \<Rightarrow> 'f fn_table \<Rightarrow> string \<Rightarrow> 'f option \<Rightarrow> gerr + string" where
  "name_of ptr tab what fn = (case fn of
     None \<Rightarrow> Inr []
   | Some f \<Rightarrow> (case table_reverse ptr f tab of
        None \<Rightarrow> Inl (Plain (what @ '' not registered'')) | Some n \<Rightarrow> Inr n))"

definition fn_of :: "'f fn_table \<Rightarrow> string \<Rightarrow> string \<Rightarrow> gerr + 'f option" where
  "fn_of tab what name =
     (if name = [] then Inr None
      else case table_lookup name tab of
             None \<Rightarrow> Inl (Plain (what @ '' '' @ fmt_q name @ '' not found in registry''))
           | Some f \<Rightarrow> Inr (Some f))"

section \<open>Marshalling\<close>

datatype (plugins only: code size) ('w, 'f) net_tree =
    NetTree (nt_Net: "'w cpn") (nt_SubNets: "(string \<times> ('w, 'f) net_tree) list")
      (nt_Factories: "(string \<times> 'f) list")

definition ms :: "int \<Rightarrow> int" where
  "ms d = (if d \<ge> 0 then d div 10 ^ 6 else - ((- d) div 10 ^ 6))"

definition marshalLLMConfig :: "llm_config \<Rightarrow> llm_topology" where
  "marshalLLMConfig c =
     \<lparr>lg_Model = lc_Model c, lg_Role = lc_Role c, lg_FallbackModels = lc_FallbackModels c,
      lg_Endpoint = lc_Endpoint c, lg_MaxTokens = lc_MaxTokens c, lg_Temperature = lc_Temperature c,
      lg_StreamOutput = lc_StreamOutput c, lg_RequireJSON = lc_RequireJSON c,
      lg_ResponseFmtRequired = lc_ResponseFmtRequired c, lg_JSONSchema = lc_JSONSchema c,
      lg_Budget = lc_Budget c, lg_Provider = lc_Provider c, lg_Trace = lc_Trace c,
      lg_Plugins = lc_Plugins c, lg_Reasoning = lc_Reasoning c, lg_CacheControl = lc_CacheControl c,
      lg_SkipHistory = lc_SkipHistory c\<rparr>"

definition marshalValidateConfig ::
  "('w, 'f) fn_pointers \<Rightarrow> ('w, 'f) func_registry \<Rightarrow> validate_config \<Rightarrow> gerr + validate_topology" where
  "marshalValidateConfig ptrs reg vc =
     (case name_of (fp_validateFn ptrs) (fr_validateFns reg) ''validateFunc'' (vc_ValidateFunc vc) of
        Inl e \<Rightarrow> Inl e
      | Inr v \<Rightarrow> (case name_of (fp_onSuccessFn ptrs) (fr_onSuccessFns reg) ''onSuccess func'' (vc_OnSuccess vc) of
          Inl e \<Rightarrow> Inl e
        | Inr s \<Rightarrow> Inr \<lparr>vg_SchemaFunc = [], vg_ValidateFunc = v, vg_OnSuccessFunc = s,
                         vg_MaxCorrections = vc_MaxCorrections vc,
                         vg_CorrectionLLMID = vc_CorrectionLLMID vc\<rparr>))"

definition marshalHITLConfig :: "'w hitl_config \<Rightarrow> hitl_topology" where
  "marshalHITLConfig hc = \<lparr>hg_Prompt = hc_Prompt hc, hg_RevisionLoop = hc_RevisionLoop hc,
     hg_CorrectionLLMID = hc_CorrectionLLMID hc, hg_MaxRevisions = hc_MaxRevisions hc\<rparr>"

definition marshalRetryPolicy ::
  "('w, 'f) fn_pointers \<Rightarrow> ('w, 'f) func_registry \<Rightarrow> retry_policy \<Rightarrow> gerr + retry_topology" where
  "marshalRetryPolicy ptrs reg rp =
     (case name_of (fp_retryOn ptrs) (fr_retryOns reg) ''retryOn func'' (rp_RetryOn rp) of
        Inl e \<Rightarrow> Inl e
      | Inr n \<Rightarrow> Inr \<lparr>rg_MaxAttempts = rp_MaxAttempts rp, rg_InitialWaitMs = ms (rp_InitialWait rp),
            rg_MaxWaitMs = ms (rp_MaxWait rp), rg_Multiplier = rp_Multiplier rp, rg_RetryOnFunc = n,
            rg_CircuitBreaker = map_option (\<lambda>cb. \<lparr>bg_FailureThreshold = bc_FailureThreshold cb,
              bg_OpenDurationMs = ms (bc_OpenDuration cb)\<rparr>) (rp_CircuitBreaker rp)\<rparr>)"

definition marshal_fields ::
  "'w transition \<Rightarrow> string \<Rightarrow> string \<Rightarrow> string \<Rightarrow> string \<Rightarrow> validate_topology option \<Rightarrow>
   retry_topology option \<Rightarrow> transition_fields" where
  "marshal_fields t g x f ef vc rp =
     \<lparr>tf_ID = tr_ID t, tf_Kind = kind_str (tr_Kind t), tf_InputPlaces = tr_InputPlaces t,
      tf_OutputPlaces = tr_OutputPlaces t, tf_ErrorPlace = tr_ErrorPlace t, tf_GuardFunc = g,
      tf_ExecutorFunc = x, tf_FactoryFunc = f, tf_EventFilterFunc = ef, tf_RetryOnFunc = [],
      tf_SystemPrompt = tr_SystemPrompt t, tf_ToolName = tr_ToolName t,
      tf_ToolParameters = (case tr_ToolMeta t of None \<Rightarrow> [] | Some m \<Rightarrow> tm_Parameters m),
      tf_LLMConfig = map_option marshalLLMConfig (tr_LLMConfig t), tf_LLMTools = tr_LLMTools t,
      tf_ValidateConfig = vc, tf_HITLConfig = map_option marshalHITLConfig (tr_HITLConfig t),
      tf_ObservedCPNID = tr_ObservedCPNID t, tf_Retry = rp\<rparr>"

definition marshalTransition ::
  "('w, 'f) fn_pointers \<Rightarrow> ('w, 'f) func_registry \<Rightarrow> 'w transition \<Rightarrow> 'f option \<Rightarrow>
   (gerr + cpn_topology) option \<Rightarrow> gerr + transition_topology" where
  "marshalTransition ptrs reg t factory sub =
     (case name_of (fp_guard ptrs) (fr_guards reg) ''guard func'' (tr_Guard t) of Inl e \<Rightarrow> Inl e
      | Inr g \<Rightarrow>
     (case name_of (fp_executor ptrs) (fr_executors reg) ''executor func'' (tr_Executor t) of Inl e \<Rightarrow> Inl e
      | Inr x \<Rightarrow>
     (case name_of (fp_factory ptrs) (fr_factories reg) ''subnet factory func'' factory of Inl e \<Rightarrow> Inl e
      | Inr f \<Rightarrow>
     (case (if factory \<noteq> None then Inr None
            else case sub of None \<Rightarrow> Inr None
                 | Some (Inl e) \<Rightarrow> Inl (Wrap ''subnet: '' e [])
                 | Some (Inr s) \<Rightarrow> Inr (Some s)) of Inl e \<Rightarrow> Inl e
      | Inr s \<Rightarrow>
     (case name_of (fp_eventFilter ptrs) (fr_eventFilters reg) ''event filter func'' (tr_EventFilter t) of
        Inl e \<Rightarrow> Inl e
      | Inr ef \<Rightarrow>
     (case (case tr_ValidateConfig t of None \<Rightarrow> Inr None
            | Some vc \<Rightarrow> map_sum id Some (marshalValidateConfig ptrs reg vc)) of Inl e \<Rightarrow> Inl e
      | Inr vc \<Rightarrow>
     (case (case tr_Retry t of None \<Rightarrow> Inr None
            | Some rp \<Rightarrow> map_sum id Some (marshalRetryPolicy ptrs reg rp)) of Inl e \<Rightarrow> Inl e
      | Inr rp \<Rightarrow>
        Inr (TransitionTopology
          (marshal_fields t g x f ef vc rp) s))))))))"

fun mode_str :: "mode \<Rightarrow> string" where
  "mode_str ModeMAS = ''mas''"
| "mode_str ModeCentaurian = ''centaurian''"
| "mode_str (ModeOther s) = s"

definition in_transition :: "string \<Rightarrow> gerr \<Rightarrow> gerr" where
  "in_transition k e = Wrap (''transition '' @ fmt_q k @ '': '') e []"

fun MarshalCPN ::
  "('w, 'f) fn_pointers \<Rightarrow> ('w, 'f) func_registry \<Rightarrow> ('w, 'f) net_tree \<Rightarrow> gerr + cpn_topology" where
  "MarshalCPN ptrs reg (NetTree c subs facs) =
     (let subs' = map (\<lambda>(k, s). (k, MarshalCPN ptrs reg s)) subs
      in case collect (\<lambda>(k, t).
           (case marshalTransition ptrs reg t (map_of facs k) (map_of subs' k) of
              Inl e \<Rightarrow> Inl (in_transition k e) | Inr tt \<Rightarrow> Inr (k, tt))) (c_Transitions c) of
           Inl e \<Rightarrow> Inl e
         | Inr trs \<Rightarrow>
             Inr (Topology (c_ID c) (c_Role c) (c_Depth c) (mode_str (c_Mode c))
               (map (\<lambda>(k, p). (k, \<lparr>pt_ID = pl_ID p, pt_Color = color_str (pl_Color p),
                                    pt_Space = space_str (pl_Space p)\<rparr>)) (c_Places c))
               trs))"

section \<open>Unmarshalling\<close>

definition color_of :: "string \<Rightarrow> color" where
  "color_of s = (case find (\<lambda>c. color_str c = s) [ColorString, ColorJSON, ColorArtifact, ColorScore,
       ColorEvent, ColorHuman, ColorCPN, ColorSchema, ColorError, ColorIdentity, ColorToolManifest,
       ColorShellCmd, ColorShellChunk, ColorShellResult, ColorHostFact, ColorProcess, ColorTopology,
       ColorFlowRef] of None \<Rightarrow> ColorOther s | Some c \<Rightarrow> c)"

definition space_of :: "string \<Rightarrow> space" where
  "space_of s = (case find (\<lambda>c. space_str c = s) [SpaceSurface, SpaceObservation, SpaceComputation] of
     None \<Rightarrow> SpaceOther s | Some c \<Rightarrow> c)"

definition mode_of :: "string \<Rightarrow> mode" where
  "mode_of s = (if s = ''mas'' then ModeMAS else if s = ''centaurian'' then ModeCentaurian else ModeOther s)"

definition kind_of :: "string \<Rightarrow> node_kind" where
  "kind_of s = (case find (\<lambda>c. kind_str c = s) [NodeKindTool, NodeKindLLM, NodeKindValidate,
       NodeKindSubNet, NodeKindObserver, NodeKindHITL, NodeKindBash, NodeKindRegisterTool,
       NodeKindSynthesize, NodeKindInstantiate, NodeKindTopologyMutate] of
     None \<Rightarrow> NodeKindOther s | Some c \<Rightarrow> c)"

definition unmarshalLLMConfig :: "llm_topology \<Rightarrow> llm_config" where
  "unmarshalLLMConfig g =
     \<lparr>lc_Model = lg_Model g, lc_Role = lg_Role g, lc_FallbackModels = lg_FallbackModels g,
      lc_Endpoint = lg_Endpoint g, lc_MaxTokens = lg_MaxTokens g, lc_Temperature = lg_Temperature g,
      lc_StreamOutput = lg_StreamOutput g, lc_RequireJSON = lg_RequireJSON g,
      lc_ResponseFmtRequired = lg_ResponseFmtRequired g, lc_JSONSchema = lg_JSONSchema g,
      lc_Budget = lg_Budget g, lc_Provider = lg_Provider g, lc_Trace = lg_Trace g,
      lc_Plugins = lg_Plugins g, lc_Reasoning = lg_Reasoning g, lc_CacheControl = lg_CacheControl g,
      lc_SkipHistory = lg_SkipHistory g, lc_SkipOutputHistory = False, lc_SkipRegionalPreamble = False\<rparr>"

definition unmarshalValidateConfig ::
  "('w, 'f) func_registry \<Rightarrow> validate_topology \<Rightarrow> gerr + validate_config" where
  "unmarshalValidateConfig reg vt =
     (case (if vg_SchemaFunc vt = [] then Inr None
            else case map_of (fr_schemaFns reg) (vg_SchemaFunc vt) of
                   None \<Rightarrow> Inl (Plain (''schema '' @ fmt_q (vg_SchemaFunc vt) @ '' not found in registry''))
                 | Some s \<Rightarrow> Inr (Some s)) of Inl e \<Rightarrow> Inl e
      | Inr sch \<Rightarrow>
     (case fn_of (fr_validateFns reg) ''validateFunc'' (vg_ValidateFunc vt) of Inl e \<Rightarrow> Inl e
      | Inr v \<Rightarrow>
     (case fn_of (fr_onSuccessFns reg) ''onSuccess'' (vg_OnSuccessFunc vt) of Inl e \<Rightarrow> Inl e
      | Inr s \<Rightarrow> Inr \<lparr>vc_Schema = sch, vc_ValidateFunc = v, vc_MaxCorrections = vg_MaxCorrections vt,
                        vc_CorrectionLLMID = vg_CorrectionLLMID vt, vc_OnSuccess = s\<rparr>)))"

definition unmarshalHITLConfig :: "hitl_topology \<Rightarrow> 'w hitl_config" where
  "unmarshalHITLConfig hg = \<lparr>hc_Channel = None, hc_Prompt = hg_Prompt hg,
     hc_RevisionLoop = hg_RevisionLoop hg, hc_CorrectionLLMID = hg_CorrectionLLMID hg,
     hc_MaxRevisions = hg_MaxRevisions hg, hc_A2UIPayloadBuilder = None, hc_OutputBuilder = None\<rparr>"

definition unmarshalRetryPolicy :: "('w, 'f) func_registry \<Rightarrow> retry_topology \<Rightarrow> gerr + retry_policy" where
  "unmarshalRetryPolicy reg rt =
     (case fn_of (fr_retryOns reg) ''retryOn'' (rg_RetryOnFunc rt) of
        Inl e \<Rightarrow> Inl e
      | Inr r \<Rightarrow> Inr \<lparr>rp_MaxAttempts = rg_MaxAttempts rt, rp_InitialWait = wrap64 (rg_InitialWaitMs rt * 10 ^ 6),
            rp_MaxWait = wrap64 (rg_MaxWaitMs rt * 10 ^ 6), rp_Multiplier = rg_Multiplier rt, rp_RetryOn = r,
            rp_CircuitBreaker = map_option (\<lambda>cb. \<lparr>bc_FailureThreshold = bg_FailureThreshold cb,
              bc_OpenDuration = wrap64 (bg_OpenDurationMs cb * 10 ^ 6)\<rparr>) (rg_CircuitBreaker rt)\<rparr>)"

text \<open>
  The transition, its factory, and the sub-net, whose unmarshalling is the argument. A transition with a
  factory drops a nested topology.
\<close>

definition unmarshalTransition ::
  "('w, 'f) func_registry \<Rightarrow> transition_fields \<Rightarrow> (gerr + ('w, 'f) net_tree) option \<Rightarrow>
   gerr + 'w transition \<times> 'f option \<times> ('w, 'f) net_tree option" where
  "unmarshalTransition reg tf sub =
     (case fn_of (fr_guards reg) ''guard'' (tf_GuardFunc tf) of Inl e \<Rightarrow> Inl e
      | Inr g \<Rightarrow>
     (case fn_of (fr_executors reg) ''executor'' (tf_ExecutorFunc tf) of Inl e \<Rightarrow> Inl e
      | Inr x \<Rightarrow>
     (case fn_of (fr_factories reg) ''subnet factory'' (tf_FactoryFunc tf) of Inl e \<Rightarrow> Inl e
      | Inr f \<Rightarrow>
     (case (if tf_FactoryFunc tf \<noteq> [] then Inr None
            else case sub of None \<Rightarrow> Inr None
                 | Some (Inl e) \<Rightarrow> Inl (Wrap ''subnet: '' e [])
                 | Some (Inr s) \<Rightarrow> Inr (Some s)) of Inl e \<Rightarrow> Inl e
      | Inr s \<Rightarrow>
     (case fn_of (fr_eventFilters reg) ''event filter'' (tf_EventFilterFunc tf) of Inl e \<Rightarrow> Inl e
      | Inr ef \<Rightarrow>
     (case (case tf_ValidateConfig tf of None \<Rightarrow> Inr None
            | Some vt \<Rightarrow> map_sum id Some (unmarshalValidateConfig reg vt)) of Inl e \<Rightarrow> Inl e
      | Inr vc \<Rightarrow>
     (case (case tf_Retry tf of None \<Rightarrow> Inr None
            | Some rt \<Rightarrow> map_sum id Some (unmarshalRetryPolicy reg rt)) of Inl e \<Rightarrow> Inl e
      | Inr rp \<Rightarrow>
        Inr (\<lparr>tr_ID = tf_ID tf, tr_Kind = kind_of (tf_Kind tf), tr_InputPlaces = tf_InputPlaces tf,
            tr_OutputPlaces = tf_OutputPlaces tf, tr_ErrorPlace = tf_ErrorPlace tf, tr_Guard = g,
            tr_Retry = rp, tr_cbState = None, tr_SystemPrompt = tf_SystemPrompt tf,
            tr_ToolName = tf_ToolName tf, tr_Executor = x, tr_ToolHandler = None,
            tr_LLMConfig = map_option unmarshalLLMConfig (tf_LLMConfig tf), tr_LLMTools = tf_LLMTools tf,
            tr_ToolMeta = (if tf_ToolParameters tf = [] then None
              else Some \<lparr>tm_Namespace = [], tm_Description = [], tm_Parameters = tf_ToolParameters tf,
                         tm_RequiresHITL = False\<rparr>),
            tr_ValidateConfig = vc,
            tr_SubNetRole = map_option (\<lambda>s. c_Role (nt_Net s)) s,
            tr_HITLConfig = map_option unmarshalHITLConfig (tf_HITLConfig tf),
            tr_ObservedCPNID = tf_ObservedCPNID tf, tr_EventFilter = ef, tr_BashConfig = None, tr_RegisterToolConfig = None,
            tr_SynthesizeConfig = None, tr_InstantiateConfig = None,
            tr_Silent = False, tr_Deprecated = False, tr_DeprecateReason = []\<rparr>, f, s))))))))"

definition unmarshal_net ::
  "string \<Rightarrow> string \<Rightarrow> int \<Rightarrow> string \<Rightarrow> (string \<times> place_topology) list \<Rightarrow>
   (string \<times> 'w transition \<times> 'f option \<times> ('w, 'f) net_tree option) list \<Rightarrow> ('w, 'f) net_tree" where
  "unmarshal_net i r d m pls ts = NetTree
     ((NewCPN i r d (mode_of m) []
        (map (\<lambda>(k, p). (k, NewPlace (pt_ID p) (color_of (pt_Color p)) (space_of (pt_Space p)))) pls)
        (map (\<lambda>(k, t, _). (k, t)) ts))\<lparr>c_initialMode := ModeOther []\<rparr>)
     (concat (map (\<lambda>(k, _, _, s). case s of None \<Rightarrow> [] | Some n \<Rightarrow> [(k, n)]) ts))
     (concat (map (\<lambda>(k, _, f, _). case f of None \<Rightarrow> [] | Some x \<Rightarrow> [(k, x)]) ts))"

fun UnmarshalCPN :: "('w, 'f) func_registry \<Rightarrow> cpn_topology \<Rightarrow> gerr + ('w, 'f) net_tree" where
  "UnmarshalCPN reg (Topology i r d m pls trs) =
     (case collect (\<lambda>(k, tt). (case tt of TransitionTopology tf sub \<Rightarrow>
        (case unmarshalTransition reg tf (map_option (UnmarshalCPN reg) sub) of
           Inl e \<Rightarrow> Inl (in_transition k e) | Inr x \<Rightarrow> Inr (k, x)))) trs of
        Inl e \<Rightarrow> Inl e
      | Inr ts \<Rightarrow> Inr (unmarshal_net i r d m pls ts))"

section \<open>What survives\<close>

text \<open>
  The net that comes back: \<open>stored\<close>. Lost are the tokens, the runtime state, the tool handlers, everything
  of a tool's metadata but its parameters, the schema of a validation, the channel and the builders of a
  HITL step, the shell configuration, the silent and deprecation marks, the breaker, the fractions of a
  millisecond and two flags of an LLM configuration. The initial mode comes back empty.
\<close>

definition stored_duration :: "int \<Rightarrow> int" where
  "stored_duration d = wrap64 (ms d * 10 ^ 6)"

definition stored_retry :: "retry_policy \<Rightarrow> retry_policy" where
  "stored_retry rp = rp\<lparr>rp_InitialWait := stored_duration (rp_InitialWait rp),
     rp_MaxWait := stored_duration (rp_MaxWait rp),
     rp_CircuitBreaker := map_option (\<lambda>cb. cb\<lparr>bc_OpenDuration := stored_duration (bc_OpenDuration cb)\<rparr>)
       (rp_CircuitBreaker rp)\<rparr>"

definition stored_transition :: "'w transition \<Rightarrow> string option \<Rightarrow> 'w transition" where
  "stored_transition t role = t\<lparr>
     tr_Kind := kind_of (kind_str (tr_Kind t)),
     tr_Retry := map_option stored_retry (tr_Retry t),
     tr_cbState := None,
     tr_ToolHandler := None,
     tr_LLMConfig := map_option (\<lambda>c. c\<lparr>lc_SkipOutputHistory := False, lc_SkipRegionalPreamble := False\<rparr>)
       (tr_LLMConfig t),
     tr_ToolMeta := (case tr_ToolMeta t of None \<Rightarrow> None
       | Some m \<Rightarrow> if tm_Parameters m = [] then None
          else Some \<lparr>tm_Namespace = [], tm_Description = [], tm_Parameters = tm_Parameters m,
                     tm_RequiresHITL = False\<rparr>),
     tr_ValidateConfig := map_option (\<lambda>v. v\<lparr>vc_Schema := None\<rparr>) (tr_ValidateConfig t),
     tr_SubNetRole := role,
     tr_HITLConfig := map_option (\<lambda>h. h\<lparr>hc_Channel := None, hc_A2UIPayloadBuilder := None,
       hc_OutputBuilder := None\<rparr>) (tr_HITLConfig t),
     tr_BashConfig := None, tr_RegisterToolConfig := None, tr_SynthesizeConfig := None,
     tr_InstantiateConfig := None, tr_Silent := False, tr_Deprecated := False, tr_DeprecateReason := []\<rparr>"

definition stored_place :: "place \<Rightarrow> place" where
  "stored_place p = NewPlace (pl_ID p) (color_of (color_str (pl_Color p))) (space_of (space_str (pl_Space p)))"

text \<open>The sub-net of a transition, which a factory hides.\<close>

definition visible_sub :: "(string \<times> 'f) list \<Rightarrow> (string \<times> 'a) list \<Rightarrow> string \<Rightarrow> 'a option" where
  "visible_sub facs subs k = (if map_of facs k = None then map_of subs k else None)"

fun stored :: "('w, 'f) net_tree \<Rightarrow> ('w, 'f) net_tree" where
  "stored (NetTree c subs facs) =
     (let subs' = map (\<lambda>(k, s). (k, stored s)) subs;
          ts = map (\<lambda>(k, t). (k,
                 stored_transition t (map_option (\<lambda>s. c_Role (nt_Net s)) (visible_sub facs subs' k)),
                 map_of facs k, visible_sub facs subs' k)) (c_Transitions c)
      in NetTree
           ((NewCPN (c_ID c) (c_Role c) (c_Depth c) (mode_of (mode_str (c_Mode c))) []
               (map (\<lambda>(k, p). (k, stored_place p)) (c_Places c))
               (map (\<lambda>(k, t, _). (k, t)) ts))\<lparr>c_initialMode := ModeOther []\<rparr>)
           (concat (map (\<lambda>(k, _, _, s). case s of None \<Rightarrow> [] | Some n \<Rightarrow> [(k, n)]) ts))
           (concat (map (\<lambda>(k, _, f, _). case f of None \<Rightarrow> [] | Some x \<Rightarrow> [(k, x)]) ts)))"

text \<open>A registry whose reverse map is right: no two functions it can be asked for share a code pointer.\<close>

definition table_ok :: "('f \<Rightarrow> nat) \<Rightarrow> 'f fn_table \<Rightarrow> bool" where
  "table_ok ptr tab \<longleftrightarrow>
     (\<forall>f n. table_reverse ptr f tab = Some n \<longrightarrow> n \<noteq> [] \<and> table_lookup n tab = Some f)"

definition registry_ok :: "('w, 'f) fn_pointers \<Rightarrow> ('w, 'f) func_registry \<Rightarrow> bool" where
  "registry_ok ptrs reg \<longleftrightarrow>
     table_ok (fp_guard ptrs) (fr_guards reg) \<and> table_ok (fp_executor ptrs) (fr_executors reg) \<and>
     table_ok (fp_retryOn ptrs) (fr_retryOns reg) \<and> table_ok (fp_factory ptrs) (fr_factories reg) \<and>
     table_ok (fp_eventFilter ptrs) (fr_eventFilters reg) \<and>
     table_ok (fp_validateFn ptrs) (fr_validateFns reg) \<and> table_ok (fp_onSuccessFn ptrs) (fr_onSuccessFns reg)"

lemma table_ok_empty: "table_ok ptr empty_table"
  by (simp add: table_ok_def empty_table_def table_reverse_def)

lemma table_ok_register:
  assumes "table_ok ptr tab" and "inj ptr" and "name \<noteq> []" and "table_register ptr name fn tab = Some tab'"
  shows "table_ok ptr tab'"
proof -
  from assms(4) have n: "map_of (ft_Fns tab) name = None" and
    t: "tab' = \<lparr>ft_Fns = AList.update name fn (ft_Fns tab), ft_Rev = AList.update (ptr fn) name (ft_Rev tab)\<rparr>"
    by (auto simp: table_register_def split: if_splits)
  show ?thesis
    unfolding table_ok_def
  proof (intro allI impI)
    fix f m assume r: "table_reverse ptr f tab' = Some m"
    show "m \<noteq> [] \<and> table_lookup m tab' = Some f"
    proof (cases "ptr f = ptr fn")
      case True
      then have "f = fn" using assms(2) by (simp add: inj_eq)
      with r True t assms(3) show ?thesis
        by (simp add: table_reverse_def table_lookup_def)
    next
      case False
      with r t have "table_reverse ptr f tab = Some m" by (simp add: table_reverse_def update_conv')
      with assms(1) have "m \<noteq> []" "map_of (ft_Fns tab) m = Some f"
        by (auto simp: table_ok_def table_lookup_def)
      with n t show ?thesis by (cases "m = name") (simp_all add: table_lookup_def)
    qed
  qed
qed

lemma name_fn: "table_ok ptr tab \<Longrightarrow> name_of ptr tab w fn = Inr n \<Longrightarrow> fn_of tab w2 n = Inr fn"
  by (auto simp: name_of_def fn_of_def table_ok_def split: option.splits)

section \<open>The round trip\<close>

lemma validate_round:
  assumes "registry_ok ptrs reg" and "marshalValidateConfig ptrs reg vc = Inr vt"
  shows "unmarshalValidateConfig reg vt = Inr (vc\<lparr>vc_Schema := None\<rparr>)"
proof -
  note ok = assms(1)[unfolded registry_ok_def]
  from assms(2) obtain v s where
    v: "name_of (fp_validateFn ptrs) (fr_validateFns reg) ''validateFunc'' (vc_ValidateFunc vc) = Inr v" and
    s: "name_of (fp_onSuccessFn ptrs) (fr_onSuccessFns reg) ''onSuccess func'' (vc_OnSuccess vc) = Inr s" and
    vt: "vt = \<lparr>vg_SchemaFunc = [], vg_ValidateFunc = v, vg_OnSuccessFunc = s,
      vg_MaxCorrections = vc_MaxCorrections vc, vg_CorrectionLLMID = vc_CorrectionLLMID vc\<rparr>"
    by (auto simp: marshalValidateConfig_def split: sum.splits)
  show ?thesis using name_fn[OF _ v] name_fn[OF _ s] ok
    by (simp add: unmarshalValidateConfig_def vt)
qed

lemma retry_round:
  assumes "registry_ok ptrs reg" and "marshalRetryPolicy ptrs reg rp = Inr rt"
  shows "unmarshalRetryPolicy reg rt = Inr (stored_retry rp)"
proof -
  from assms(2) obtain n where
    n: "name_of (fp_retryOn ptrs) (fr_retryOns reg) ''retryOn func'' (rp_RetryOn rp) = Inr n"
    by (auto simp: marshalRetryPolicy_def split: sum.splits)
  have f: "fn_of (fr_retryOns reg) ''retryOn'' n = Inr (rp_RetryOn rp)"
    using name_fn[OF _ n] assms(1) by (simp add: registry_ok_def)
  show ?thesis using assms(2) n f
    by (cases "rp_CircuitBreaker rp")
      (auto simp: marshalRetryPolicy_def unmarshalRetryPolicy_def stored_retry_def stored_duration_def)
qed

lemma llm_round: "unmarshalLLMConfig (marshalLLMConfig c) = c\<lparr>lc_SkipOutputHistory := False, lc_SkipRegionalPreamble := False\<rparr>"
  by (simp add: unmarshalLLMConfig_def marshalLLMConfig_def)

lemma hitl_round: "unmarshalHITLConfig (marshalHITLConfig h) =
    h\<lparr>hc_Channel := None, hc_A2UIPayloadBuilder := None, hc_OutputBuilder := None\<rparr>"
  by (simp add: unmarshalHITLConfig_def marshalHITLConfig_def)

text \<open>A stored transition with the sub-net that a later unmarshalling gives it.\<close>

lemma transition_round:
  fixes reg :: "('a, 'b) func_registry"
  assumes ok: "registry_ok ptrs reg" and m: "marshalTransition ptrs reg t fac sub = Inr tt"
  obtains tf s where "tt = TransitionTopology tf s"
    "if fac \<noteq> None then s = None else sub = map_option Inr s"
    "\<And>sub2. unmarshalTransition reg tf (map_option Inr sub2) =
       Inr (stored_transition t (map_option (\<lambda>n. c_Role (nt_Net n)) (if fac = None then sub2 else None)), fac,
         if fac = None then sub2 else None)"
proof -
  note okd = ok[unfolded registry_ok_def]
  from m obtain g x f ef vc rp s where
    n: "name_of (fp_guard ptrs) (fr_guards reg) ''guard func'' (tr_Guard t) = Inr g"
      "name_of (fp_executor ptrs) (fr_executors reg) ''executor func'' (tr_Executor t) = Inr x"
      "name_of (fp_factory ptrs) (fr_factories reg) ''subnet factory func'' fac = Inr f"
      "name_of (fp_eventFilter ptrs) (fr_eventFilters reg) ''event filter func'' (tr_EventFilter t) = Inr ef" and
    sub: "(if fac \<noteq> None then Inr None else case sub of None \<Rightarrow> Inr None
        | Some (Inl e) \<Rightarrow> Inl (Wrap ''subnet: '' e []) | Some (Inr s) \<Rightarrow> Inr (Some s)) = Inr s" and
    vc: "(case tr_ValidateConfig t of None \<Rightarrow> Inr None
        | Some vc \<Rightarrow> map_sum id Some (marshalValidateConfig ptrs reg vc)) = Inr vc" and
    rp: "(case tr_Retry t of None \<Rightarrow> Inr None
        | Some rp \<Rightarrow> map_sum id Some (marshalRetryPolicy ptrs reg rp)) = Inr rp"
    unfolding marshalTransition_def by (auto split: sum.splits)
  note tt = m[unfolded marshalTransition_def, simplified n sub vc rp sum.case, simplified]
  have F: "fn_of (fr_guards reg) ''guard'' g = Inr (tr_Guard t)"
    "fn_of (fr_executors reg) ''executor'' x = Inr (tr_Executor t)"
    "fn_of (fr_factories reg) ''subnet factory'' f = Inr fac"
    "fn_of (fr_eventFilters reg) ''event filter'' ef = Inr (tr_EventFilter t)"
    using okd n by (auto intro: name_fn)
  have fne: "(f \<noteq> []) = (fac \<noteq> None)"
    using n(3) okd by (auto simp: name_of_def table_ok_def split: option.splits)
  have vc2: "(case vc of None \<Rightarrow> Inr None | Some vt \<Rightarrow> map_sum id Some (unmarshalValidateConfig reg vt)) =
      Inr (map_option (\<lambda>v. v\<lparr>vc_Schema := None\<rparr>) (tr_ValidateConfig t))"
  proof (cases "tr_ValidateConfig t")
    case (Some v)
    with vc obtain vt where "marshalValidateConfig ptrs reg v = Inr vt" "vc = Some vt"
      by (cases "marshalValidateConfig ptrs reg v") auto
    with validate_round[OF ok] Some show ?thesis by simp
  qed (use vc in auto)
  have rp2: "(case rp of None \<Rightarrow> Inr None | Some rt \<Rightarrow> map_sum id Some (unmarshalRetryPolicy reg rt)) =
      Inr (map_option stored_retry (tr_Retry t))"
  proof (cases "tr_Retry t")
    case (Some r)
    with rp obtain rt where "marshalRetryPolicy ptrs reg r = Inr rt" "rp = Some rt"
      by (cases "marshalRetryPolicy ptrs reg r") auto
    with retry_round[OF ok] Some show ?thesis by simp
  qed (use rp in auto)
  have s: "if fac \<noteq> None then s = None else sub = map_option Inr s"
    using sub by (auto split: option.splits sum.splits if_splits)
  show ?thesis
  proof (rule that[OF tt[symmetric] s])
    fix sub2 :: "('a, 'b) net_tree option"
    have sub2: "(if f \<noteq> [] then Inr None else case map_option Inr sub2 of None \<Rightarrow> Inr None
        | Some (Inl e) \<Rightarrow> Inl (Wrap ''subnet: '' e []) | Some (Inr s) \<Rightarrow> Inr (Some s)) =
        Inr (if fac = None then sub2 else None)"
      by (cases sub2) (auto simp: fne)
    let ?tf = "marshal_fields t g x f ef vc rp"
    have sel: "tf_GuardFunc ?tf = g" "tf_ExecutorFunc ?tf = x" "tf_FactoryFunc ?tf = f"
      "tf_EventFilterFunc ?tf = ef" "tf_ValidateConfig ?tf = vc" "tf_Retry ?tf = rp"
      by (simp_all add: marshal_fields_def)
    show "unmarshalTransition reg ?tf (map_option Inr sub2) =
       Inr (stored_transition t (map_option (\<lambda>n. c_Role (nt_Net n)) (if fac = None then sub2 else None)), fac,
         if fac = None then sub2 else None)"
      unfolding unmarshalTransition_def sel F vc2 rp2 sub2 sum.case
      by (simp add: stored_transition_def marshal_fields_def option.map_comp comp_def llm_round hitl_round
          split: option.split)
  qed
qed

lemma map_of_map_pair: "map_of (map (\<lambda>(k, v). (k, h v)) xs) k = map_option h (map_of xs k)"
  by (induction xs) auto

lemma Marshal_round:
  "MarshalCPN ptrs reg n = Inr topo \<Longrightarrow> registry_ok ptrs reg \<Longrightarrow> UnmarshalCPN reg topo = Inr (stored n)"
proof (induction ptrs reg n arbitrary: topo rule: MarshalCPN.induct)
  case (1 ptrs reg c subs facs)
  let ?subs = "map (\<lambda>(k, s). (k, MarshalCPN ptrs reg s)) subs"
  let ?subs2 = "map (\<lambda>(k, s). (k, stored s)) subs"
  let ?h = "\<lambda>(k, t). (k, stored_transition t (map_option (\<lambda>s. c_Role (nt_Net s)) (visible_sub facs ?subs2 k)),
      map_of facs k, visible_sub facs ?subs2 k)"
  let ?U = "\<lambda>(k, tt). (case tt of TransitionTopology tf sub \<Rightarrow>
      (case unmarshalTransition reg tf (map_option (UnmarshalCPN reg) sub) of
         Inl e \<Rightarrow> Inl (in_transition k e) | Inr x \<Rightarrow> Inr (k, x)))"
  from 1(2) obtain trs where
    trs: "collect (\<lambda>(k, t). (case marshalTransition ptrs reg t (map_of facs k) (map_of ?subs k) of
        Inl e \<Rightarrow> Inl (in_transition k e) | Inr tt \<Rightarrow> Inr (k, tt))) (c_Transitions c) = Inr trs" and
    topo: "topo = Topology (c_ID c) (c_Role c) (c_Depth c) (mode_str (c_Mode c))
      (map (\<lambda>(k, p). (k, \<lparr>pt_ID = pl_ID p, pt_Color = color_str (pl_Color p),
         pt_Space = space_str (pl_Space p)\<rparr>)) (c_Places c)) trs"
    by (auto simp: Let_def split: sum.splits)
  have one: "?U y = Inr (?h x)"
    if m: "(case x of (k, t) \<Rightarrow> (case marshalTransition ptrs reg t (map_of facs k) (map_of ?subs k) of
        Inl e \<Rightarrow> Inl (in_transition k e) | Inr tt \<Rightarrow> Inr (k, tt))) = Inr y" for x y
  proof -
    obtain k t where x: "x = (k, t)" by force
    from m x obtain tt where tt: "marshalTransition ptrs reg t (map_of facs k) (map_of ?subs k) = Inr tt"
      "y = (k, tt)" by (auto split: sum.splits)
    from transition_round[OF 1(3) tt(1)] obtain tf s where r: "tt = TransitionTopology tf s"
      "if map_of facs k \<noteq> None then s = None else map_of ?subs k = map_option Inr s"
      "\<And>sub2. unmarshalTransition reg tf (map_option Inr sub2) =
         Inr (stored_transition t (map_option (\<lambda>n. c_Role (nt_Net n)) (if map_of facs k = None then sub2 else None)),
           map_of facs k, if map_of facs k = None then sub2 else None)" by metis
    have "map_option (UnmarshalCPN reg) s = map_option Inr (visible_sub facs ?subs2 k)"
    proof (cases "map_of facs k")
      case None
      show ?thesis
      proof (cases "map_of subs k")
        case none: None
        with None r(2) show ?thesis by (simp add: visible_sub_def map_of_map_pair)
      next
        case (Some n)
        with None r(2) obtain s' where s': "s = Some s'" "MarshalCPN ptrs reg n = Inr s'"
          by (cases s) (auto simp: map_of_map_pair)
        from 1(1)[OF map_of_SomeD[OF Some] refl s'(2) 1(3)] s' None Some show ?thesis
          by (simp add: visible_sub_def map_of_map_pair)
      qed
    qed (use r(2) in \<open>simp add: visible_sub_def\<close>)
    moreover have "(if map_of facs k = None then visible_sub facs ?subs2 k else None) = visible_sub facs ?subs2 k"
      by (simp add: visible_sub_def)
    ultimately show ?thesis using r(3)[of "visible_sub facs ?subs2 k"] by (simp add: x tt(2) r(1))
  qed
  have "collect ?U trs = Inr (map ?h (c_Transitions c))"
    using trs one unfolding collect_Inr_iff list_all2_conv_all_nth by simp
  then show ?case
    by (simp add: topo unmarshal_net_def stored_place_def Let_def comp_def split_def)
qed

end
