(* ===== verification/Linter.thy ===== *)
theory Linter
  imports Topology
begin

text \<open>
  Agent-authored topologies: the sealed catalogue of primitives they may name
  (\<open>cpn/synthesis/safe_registry.go\<close>), the linter (\<open>linter.go\<close>, \<open>cpn/synthesis_config.go\<close>) and the
  materialiser (\<open>materialise.go\<close>). \<open>lint_ok\<close> is the declarative reading of the linter.
\<close>

section \<open>The safe registry\<close>

record safe_primitive =
  sp_Name :: string
  sp_Kind :: string
  sp_Params :: string
  sp_Output :: string
  sp_CostHint :: string

definition PrimitiveKindGuard :: string where "PrimitiveKindGuard = ''guard''"
definition PrimitiveKindExecutor :: string where "PrimitiveKindExecutor = ''executor''"
definition PrimitiveKindFactory :: string where "PrimitiveKindFactory = ''factory''"

text \<open>The implementation handed to a registration, by its Go type; \<open>ImplOther\<close> is any other type.\<close>

datatype ('w, 'f) safe_impl =
    ImplGuard "token list \<Rightarrow> bool"
  | ImplExecutor "'w \<Rightarrow> token \<Rightarrow> (gerr + token) \<times> 'w"
  | ImplFactory 'f
  | ImplOther

record ('w, 'f) safe_registry =
  sr_sealed :: bool
  sr_primitives :: "safe_primitive gomap"
  sr_guards :: "(token list \<Rightarrow> bool) gomap"
  sr_executors :: "('w \<Rightarrow> token \<Rightarrow> (gerr + token) \<times> 'w) gomap"
  sr_factories :: "'f gomap"

definition NewSafeRegistry :: "('w, 'f) safe_registry" where
  "NewSafeRegistry = \<lparr>sr_sealed = False, sr_primitives = [], sr_guards = [], sr_executors = [], sr_factories = []\<rparr>"

text \<open>\<open>None\<close> is a panic.\<close>

definition RegisterSafePrimitive ::
  "safe_primitive \<Rightarrow> ('w, 'f) safe_impl \<Rightarrow> ('w, 'f) safe_registry \<Rightarrow> ('w, 'f) safe_registry option" where
  "RegisterSafePrimitive p impl r =
     (if sr_sealed r then None
      else if map_of (sr_primitives r) (sp_Name p) \<noteq> None then None
      else if sp_Name p = [] then None
      else case (if sp_Kind p = PrimitiveKindGuard
                 then (case impl of ImplGuard g \<Rightarrow> Some (r\<lparr>sr_guards := AList.update (sp_Name p) g (sr_guards r)\<rparr>)
                         | _ \<Rightarrow> None)
                 else if sp_Kind p = PrimitiveKindExecutor
                 then (case impl of ImplExecutor x \<Rightarrow>
                           Some (r\<lparr>sr_executors := AList.update (sp_Name p) x (sr_executors r)\<rparr>)
                         | _ \<Rightarrow> None)
                 else if sp_Kind p = PrimitiveKindFactory
                 then (case impl of ImplFactory f \<Rightarrow>
                           Some (r\<lparr>sr_factories := AList.update (sp_Name p) f (sr_factories r)\<rparr>)
                         | _ \<Rightarrow> None)
                 else None) of
             None \<Rightarrow> None
           | Some r1 \<Rightarrow> Some (r1\<lparr>sr_primitives := AList.update (sp_Name p) p (sr_primitives r1)\<rparr>))"

definition Seal :: "('w, 'f) safe_registry \<Rightarrow> ('w, 'f) safe_registry" where
  "Seal r = r\<lparr>sr_sealed := True\<rparr>"

definition SafeLookup :: "('w, 'f) safe_registry \<Rightarrow> string \<Rightarrow> string option" where
  "SafeLookup r name = map_option sp_Kind (map_of (sr_primitives r) name)"

definition SafeNames :: "('w, 'f) safe_registry \<Rightarrow> string list" where
  "SafeNames r = sort (map fst (sr_primitives r))"

definition Catalogue :: "(safe_primitive list \<Rightarrow> string) \<Rightarrow> ('w, 'f) safe_registry \<Rightarrow> string" where
  "Catalogue json r = json (map (\<lambda>n. the (map_of (sr_primitives r) n)) (SafeNames r))"

text \<open>The registry of a materialisation: fresh tables with every safe primitive registered.\<close>

fun register_all :: "('f \<Rightarrow> nat) \<Rightarrow> (string \<times> 'f) list \<Rightarrow> 'f fn_table \<Rightarrow> 'f fn_table option" where
  "register_all ptr [] tab = Some tab"
| "register_all ptr ((n, f) # fs) tab = (case table_register ptr n f tab of
     None \<Rightarrow> None | Some tab' \<Rightarrow> register_all ptr fs tab')"

definition BuildSafeFuncRegistry ::
  "('w, 'f) fn_pointers \<Rightarrow> ('w, 'f) safe_registry \<Rightarrow> ('w, 'f) func_registry option" where
  "BuildSafeFuncRegistry ptrs r =
     (case register_all (fp_guard ptrs) (sr_guards r) empty_table of None \<Rightarrow> None
      | Some g \<Rightarrow> (case register_all (fp_executor ptrs) (sr_executors r) empty_table of None \<Rightarrow> None
      | Some x \<Rightarrow> (case register_all (fp_factory ptrs) (sr_factories r) empty_table of None \<Rightarrow> None
      | Some f \<Rightarrow> Some (NewFuncRegistry\<lparr>fr_guards := g, fr_executors := x, fr_factories := f\<rparr>))))"

section \<open>The linter\<close>

record lint_result =
  li_PassedFlag :: bool
  li_UnsafePrimitives :: "string list"
  li_SizeViolations :: "string list"
  li_SpaceViolations :: "string list"
  li_UnresolvedArcs :: "string list"
  li_DisallowedKinds :: "string list"
  li_MissingTerminal :: bool
  li_Other :: "string list"

definition over_max :: "string \<Rightarrow> int \<Rightarrow> int \<Rightarrow> string list" where
  "over_max what n mx = (if n > mx then [what @ ''='' @ fmt_d n @ '' > max='' @ fmt_d mx] else [])"

fun count_arcs :: "(string \<times> transition_topology) list \<Rightarrow> int" where
  "count_arcs [] = 0"
| "count_arcs ((k, tt) # trs) =
     int (length (tf_InputPlaces (tt_Fields tt))) + int (length (tf_OutputPlaces (tt_Fields tt))) +
     (if tf_ErrorPlace (tt_Fields tt) \<noteq> [] then 1 else 0) + count_arcs trs"

definition lint_arcs :: "(string \<times> place_topology) list \<Rightarrow> string \<Rightarrow> transition_fields \<Rightarrow> string list" where
  "lint_arcs pls k tf =
     map (\<lambda>pid. k @ ''.in='' @ pid) (filter (\<lambda>pid. map_of pls pid = None) (tf_InputPlaces tf)) @
     map (\<lambda>pid. k @ ''.out='' @ pid) (filter (\<lambda>pid. map_of pls pid = None) (tf_OutputPlaces tf)) @
     (if tf_ErrorPlace tf \<noteq> [] \<and> map_of pls (tf_ErrorPlace tf) = None
      then [k @ ''.err='' @ tf_ErrorPlace tf] else [])"

definition place_in_space :: "(string \<times> place_topology) list \<Rightarrow> space \<Rightarrow> string \<Rightarrow> bool" where
  "place_in_space pls s pid = (case map_of pls pid of None \<Rightarrow> False | Some p \<Rightarrow> pt_Space p = space_str s)"

definition lint_spaces :: "(string \<times> place_topology) list \<Rightarrow> string \<Rightarrow> transition_fields \<Rightarrow> string list" where
  "lint_spaces pls k tf =
     (if tf_Kind tf \<noteq> kind_str NodeKindHITL
      then concat (map (\<lambda>i. map (\<lambda>out. k @ '': '' @ i @ ''(surface)'' @ [CHR 0xE2, CHR 0x86, CHR 0x92] @ out @
                                        ''(computation)'')
             (filter (place_in_space pls SpaceComputation) (tf_OutputPlaces tf)))
           (filter (place_in_space pls SpaceSurface) (tf_InputPlaces tf)))
      else [])"

text \<open>The names a transition refers to with the kind each must have, and the report of the unknown ones.\<close>

definition lint_name ::
  "(string \<Rightarrow> string option) \<Rightarrow> string \<times> string \<Rightarrow> string list \<Rightarrow> string list" where
  "lint_name safe nk seen = (case nk of (name, kind) \<Rightarrow>
     (if name \<noteq> [] \<and> safe name \<noteq> Some kind \<and> name \<notin> set seen then seen @ [name] else seen))"

definition named :: "transition_fields \<Rightarrow> (string \<times> string) list" where
  "named tf = [(tf_GuardFunc tf, PrimitiveKindGuard), (tf_ExecutorFunc tf, PrimitiveKindExecutor),
     (tf_FactoryFunc tf, PrimitiveKindFactory)]"

definition lint_names ::
  "(string \<Rightarrow> string option) option \<Rightarrow> (string \<times> transition_topology) list \<Rightarrow> string list" where
  "lint_names safe trs = (case safe of
     None \<Rightarrow> []
   | Some s \<Rightarrow> fold (lint_name s) (concat (map (\<lambda>(k, tt). named (tt_Fields tt)) trs)) [])"

definition Lint ::
  "cpn_topology option \<Rightarrow> (string \<Rightarrow> string option) option \<Rightarrow> size_cap \<Rightarrow> lint_result" where
  "Lint topo safe cap0 = (case topo of
     None \<Rightarrow> \<lparr>li_PassedFlag = False, li_UnsafePrimitives = [], li_SizeViolations = [],
        li_SpaceViolations = [], li_UnresolvedArcs = [], li_DisallowedKinds = [],
        li_MissingTerminal = False, li_Other = [''topology is nil'']\<rparr>
   | Some (Topology i r d m pls trs) \<Rightarrow>
       (let cap = Resolved cap0;
            sizes = over_max ''places'' (int (length pls)) (sz_MaxPlaces cap) @
                    over_max ''transitions'' (int (length trs)) (sz_MaxTransitions cap) @
                    over_max ''arcs'' (count_arcs trs) (sz_MaxArcs cap);
            kinds = concat (map (\<lambda>(k, tt). if tf_Kind (tt_Fields tt) = kind_str NodeKindRegisterTool
                                           then [k @ '':'' @ tf_Kind (tt_Fields tt)] else []) trs);
            arcs = concat (map (\<lambda>(k, tt). lint_arcs pls k (tt_Fields tt)) trs);
            spaces = concat (map (\<lambda>(k, tt). lint_spaces pls k (tt_Fields tt)) trs);
            names = lint_names safe trs;
            inputs = concat (map (\<lambda>(k, tt). tf_InputPlaces (tt_Fields tt)) trs);
            missing = (list_all (\<lambda>(k, p). k \<in> set inputs) pls \<and> pls \<noteq> [])
        in \<lparr>li_PassedFlag = (names = [] \<and> sizes = [] \<and> spaces = [] \<and> arcs = [] \<and> kinds = [] \<and> \<not> missing),
            li_UnsafePrimitives = names, li_SizeViolations = sizes, li_SpaceViolations = spaces,
            li_UnresolvedArcs = arcs, li_DisallowedKinds = kinds, li_MissingTerminal = missing,
            li_Other = []\<rparr>))"

text \<open>\<open>%v\<close> of a slice of strings.\<close>

definition fmt_slice :: "string list \<Rightarrow> string" where
  "fmt_slice xs = ''['' @ join_str '' '' xs @ '']''"

definition LintErr :: "lint_result \<Rightarrow> gerr option" where
  "LintErr r =
     (if li_PassedFlag r then None
      else (let sec = (\<lambda>s xs. if xs = [] then [] else [(s, sentinel_msg s @ '': '' @ fmt_slice xs)]);
                found = sec ErrUnsafePrimitive (sort (li_UnsafePrimitives r)) @
                  sec ErrTopologyTooLarge (li_SizeViolations r) @
                  sec ErrSpaceIsolationViolated (sort (li_SpaceViolations r)) @
                  sec ErrUnresolvedArc (sort (li_UnresolvedArcs r)) @
                  sec ErrDisallowedKind (sort (li_DisallowedKinds r)) @
                  (if li_MissingTerminal r then [(ErrNoTerminal, sentinel_msg ErrNoTerminal)] else []);
                parts = map snd found @ li_Other r
            in Some (Wrap [] (case found of [] \<Rightarrow> Plain ''lint failed'' | f # _ \<Rightarrow> Sentinel (fst f))
                 ('': '' @ fmt_slice parts))))"

section \<open>The materialiser\<close>

definition Materialise ::
  "('w, 'f) fn_pointers \<Rightarrow> cpn_topology option \<Rightarrow> ('w, 'f) safe_registry option \<Rightarrow>
   (gerr + ('w, 'f) net_tree) option" where
  "Materialise ptrs topo safe = (case topo of
     None \<Rightarrow> Some (Inl (Plain ''synthesis: nil topology''))
   | Some t \<Rightarrow> (case safe of
       None \<Rightarrow> Some (Inl (Plain ''synthesis: nil SafeRegistry''))
     | Some s \<Rightarrow> (case BuildSafeFuncRegistry ptrs s of
         None \<Rightarrow> None
       | Some reg \<Rightarrow> Some (case UnmarshalCPN reg t of
           Inl e \<Rightarrow> Inl (Wrap [] (Sentinel ErrDeprecatedDependency) ('': '' @ err_text e))
         | Inr n \<Rightarrow> Inr n))))"

section \<open>The linter, declaratively\<close>

definition place_known :: "(string \<times> place_topology) list \<Rightarrow> string \<Rightarrow> bool" where
  "place_known pls pid \<longleftrightarrow> pid \<in> fst ` set pls"

definition arcs_ok :: "(string \<times> place_topology) list \<Rightarrow> transition_fields \<Rightarrow> bool" where
  "arcs_ok pls tf \<longleftrightarrow> (\<forall>pid \<in> set (tf_InputPlaces tf) \<union> set (tf_OutputPlaces tf). place_known pls pid) \<and>
     (tf_ErrorPlace tf = [] \<or> place_known pls (tf_ErrorPlace tf))"

definition spaces_ok :: "(string \<times> place_topology) list \<Rightarrow> transition_fields \<Rightarrow> bool" where
  "spaces_ok pls tf \<longleftrightarrow> tf_Kind tf = ''hitl'' \<or>
     \<not> (\<exists>i \<in> set (tf_InputPlaces tf). place_in_space pls SpaceSurface i) \<or>
     \<not> (\<exists>out \<in> set (tf_OutputPlaces tf). place_in_space pls SpaceComputation out)"

definition names_ok :: "(string \<Rightarrow> string option) \<Rightarrow> transition_fields \<Rightarrow> bool" where
  "names_ok safe tf \<longleftrightarrow> (\<forall>(name, kind) \<in> set (named tf). name = [] \<or> safe name = Some kind)"

lemma names_ok_iff:
  "names_ok safe tf \<longleftrightarrow> (tf_GuardFunc tf = [] \<or> safe (tf_GuardFunc tf) = Some PrimitiveKindGuard) \<and>
     (tf_ExecutorFunc tf = [] \<or> safe (tf_ExecutorFunc tf) = Some PrimitiveKindExecutor) \<and>
     (tf_FactoryFunc tf = [] \<or> safe (tf_FactoryFunc tf) = Some PrimitiveKindFactory)"
  by (auto simp: names_ok_def named_def)

text \<open>Every condition is one of the transitions of the top level: nested topologies do not occur.\<close>

definition lint_ok :: "cpn_topology \<Rightarrow> (string \<Rightarrow> string option) \<Rightarrow> size_cap \<Rightarrow> bool" where
  "lint_ok t safe cap \<longleftrightarrow>
     int (length (tp_Places t)) \<le> sz_MaxPlaces cap \<and> int (length (tp_Transitions t)) \<le> sz_MaxTransitions cap \<and>
     count_arcs (tp_Transitions t) \<le> sz_MaxArcs cap \<and>
     (\<forall>(k, tt) \<in> set (tp_Transitions t). tf_Kind (tt_Fields tt) \<noteq> ''register_tool'' \<and>
        arcs_ok (tp_Places t) (tt_Fields tt) \<and> spaces_ok (tp_Places t) (tt_Fields tt) \<and>
        names_ok safe (tt_Fields tt)) \<and>
     (tp_Places t = [] \<or> (\<exists>pid \<in> fst ` set (tp_Places t).
        \<forall>(k, tt) \<in> set (tp_Transitions t). pid \<notin> set (tf_InputPlaces (tt_Fields tt))))"

lemma lint_arcs_iff: "lint_arcs pls k tf = [] \<longleftrightarrow> arcs_ok pls tf"
  by (auto simp: lint_arcs_def arcs_ok_def place_known_def filter_empty_conv map_of_eq_None_iff)

lemma lint_spaces_iff: "lint_spaces pls k tf = [] \<longleftrightarrow> spaces_ok pls tf"
  by (auto simp: lint_spaces_def spaces_ok_def filter_empty_conv)

lemma lint_name_fold_mono: "seen \<noteq> [] \<Longrightarrow> fold (lint_name safe) nks seen \<noteq> []"
  by (induction nks arbitrary: seen) (auto simp: lint_name_def split: prod.splits)

lemma lint_name_fold: "fold (lint_name safe) nks [] = [] \<longleftrightarrow> (\<forall>(n, k) \<in> set nks. n = [] \<or> safe n = Some k)"
proof (induction nks)
  case (Cons nk nks)
  obtain n k where nk: "nk = (n, k)" by force
  show ?case
  proof (cases "n = [] \<or> safe n = Some k")
    case True
    then have "lint_name safe nk [] = []" by (auto simp: lint_name_def nk)
    with Cons True show ?thesis by (simp add: nk)
  next
    case False
    then have "lint_name safe nk [] = [n]" by (auto simp: lint_name_def nk)
    with False lint_name_fold_mono[of "[n]" safe nks] show ?thesis by (auto simp: nk)
  qed
qed simp

lemma lint_names_iff:
  "lint_names (Some safe) trs = [] \<longleftrightarrow> (\<forall>(k, tt) \<in> set trs. names_ok safe (tt_Fields tt))"
  unfolding lint_names_def option.case lint_name_fold names_ok_def by fastforce

lemma over_max_iff: "over_max w n mx = [] \<longleftrightarrow> n \<le> mx"
  by (simp add: over_max_def)

lemma Lint_passed_iff:
  "li_PassedFlag (Lint (Some t) (Some safe) cap) \<longleftrightarrow> lint_ok t safe (Resolved cap)"
proof (cases t)
  case (Topology i r d m pls trs)
  have k: "concat (map (\<lambda>(k, tt). if tf_Kind (tt_Fields tt) = kind_str NodeKindRegisterTool
      then [k @ '':'' @ tf_Kind (tt_Fields tt)] else []) trs) = [] \<longleftrightarrow>
      (\<forall>(k, tt) \<in> set trs. tf_Kind (tt_Fields tt) \<noteq> ''register_tool'')" by auto
  have a: "concat (map (\<lambda>(k, tt). lint_arcs pls k (tt_Fields tt)) trs) = [] \<longleftrightarrow>
      (\<forall>(k, tt) \<in> set trs. arcs_ok pls (tt_Fields tt))" by (auto simp: lint_arcs_iff)
  have s: "concat (map (\<lambda>(k, tt). lint_spaces pls k (tt_Fields tt)) trs) = [] \<longleftrightarrow>
      (\<forall>(k, tt) \<in> set trs. spaces_ok pls (tt_Fields tt))" by (auto simp: lint_spaces_iff)
  have m: "\<not> (list_all (\<lambda>(k, p). k \<in> set (concat (map (\<lambda>(k, tt). tf_InputPlaces (tt_Fields tt)) trs))) pls \<and> pls \<noteq> []) \<longleftrightarrow>
      (pls = [] \<or> (\<exists>pid \<in> fst ` set pls. \<forall>(k, tt) \<in> set trs. pid \<notin> set (tf_InputPlaces (tt_Fields tt))))"
    by (fastforce simp: list_all_iff)
  show ?thesis
    unfolding Lint_def Topology option.case cpn_topology.case Let_def lint_result.select_convs m lint_ok_def
      cpn_topology.sel append_is_Nil_conv over_max_iff lint_names_iff k a s
    by fastforce
qed

lemma LintErr_iff: "LintErr r = None \<longleftrightarrow> li_PassedFlag r"
  by (simp add: LintErr_def Let_def)

section \<open>The registry invariant\<close>

text \<open>What registration keeps: each primitive is implemented in the table of its kind, and in no other.\<close>

definition safe_registry_ok :: "('w, 'f) safe_registry \<Rightarrow> bool" where
  "safe_registry_ok r \<longleftrightarrow>
     distinct (map fst (sr_guards r)) \<and> distinct (map fst (sr_executors r)) \<and> distinct (map fst (sr_factories r)) \<and>
     fst ` set (sr_guards r) = {n. SafeLookup r n = Some PrimitiveKindGuard} \<and>
     fst ` set (sr_executors r) = {n. SafeLookup r n = Some PrimitiveKindExecutor} \<and>
     fst ` set (sr_factories r) = {n. SafeLookup r n = Some PrimitiveKindFactory}"

lemmas primitive_kinds = PrimitiveKindGuard_def PrimitiveKindExecutor_def PrimitiveKindFactory_def

lemma safe_registry_ok_new: "safe_registry_ok NewSafeRegistry"
  by (simp add: safe_registry_ok_def NewSafeRegistry_def SafeLookup_def)

lemma safe_registry_ok_seal: "safe_registry_ok r \<Longrightarrow> safe_registry_ok (Seal r)"
  by (cases r) (simp only: safe_registry_ok_def Seal_def SafeLookup_def safe_registry.select_convs
    safe_registry.update_convs)

lemma SafeLookup_update:
  "SafeLookup (r1\<lparr>sr_primitives := AList.update (sp_Name p) p (sr_primitives r)\<rparr>) n =
     (if n = sp_Name p then Some (sp_Kind p) else SafeLookup r n)"
  by (simp add: SafeLookup_def)

lemma safe_registry_ok_register:
  assumes ok: "safe_registry_ok r" and reg: "RegisterSafePrimitive p impl r = Some r'"
  shows "safe_registry_ok r'"
proof -
  have new: "SafeLookup r (sp_Name p) = None"
    using reg by (auto simp: RegisterSafePrimitive_def SafeLookup_def split: if_splits)
  note o = ok[unfolded safe_registry_ok_def]
  from reg consider
      (g) g where "sp_Kind p = PrimitiveKindGuard"
        "r' = r\<lparr>sr_guards := AList.update (sp_Name p) g (sr_guards r),
               sr_primitives := AList.update (sp_Name p) p (sr_primitives r)\<rparr>"
    | (x) x where "sp_Kind p = PrimitiveKindExecutor"
        "r' = r\<lparr>sr_executors := AList.update (sp_Name p) x (sr_executors r),
               sr_primitives := AList.update (sp_Name p) p (sr_primitives r)\<rparr>"
    | (f) f where "sp_Kind p = PrimitiveKindFactory"
        "r' = r\<lparr>sr_factories := AList.update (sp_Name p) f (sr_factories r),
               sr_primitives := AList.update (sp_Name p) p (sr_primitives r)\<rparr>"
    by (auto simp: RegisterSafePrimitive_def split: if_splits safe_impl.splits)
  then show ?thesis
  proof cases
    case g
    show ?thesis using o new
      by (auto simp: safe_registry_ok_def g(2) SafeLookup_update g(1) distinct_update dom_update primitive_kinds)
  next
    case x
    show ?thesis using o new
      by (auto simp: safe_registry_ok_def x(2) SafeLookup_update x(1) distinct_update dom_update primitive_kinds)
  next
    case f
    show ?thesis using o new
      by (auto simp: safe_registry_ok_def f(2) SafeLookup_update f(1) distinct_update dom_update primitive_kinds)
  qed
qed

text \<open>The registries a program can build.\<close>

inductive safe_built :: "('w, 'f) safe_registry \<Rightarrow> bool" where
  built_new: "safe_built NewSafeRegistry"
| built_register: "safe_built r \<Longrightarrow> RegisterSafePrimitive p impl r = Some r' \<Longrightarrow> safe_built r'"
| built_seal: "safe_built r \<Longrightarrow> safe_built (Seal r)"

lemma safe_built_ok: "safe_built r \<Longrightarrow> safe_registry_ok r"
  by (induction rule: safe_built.induct)
    (auto intro: safe_registry_ok_new safe_registry_ok_register safe_registry_ok_seal)

lemma register_all_lookup:
  "distinct (map fst fs) \<Longrightarrow> \<forall>n \<in> fst ` set fs. table_lookup n tab = None \<Longrightarrow>
   \<exists>tab'. register_all ptr fs tab = Some tab' \<and>
     (\<forall>n. table_lookup n tab' = (case map_of fs n of Some f \<Rightarrow> Some f | None \<Rightarrow> table_lookup n tab))"
proof (induction fs arbitrary: tab)
  case (Cons nf fs)
  obtain n f where nf: "nf = (n, f)" by force
  define tab1 where "tab1 = \<lparr>ft_Fns = AList.update n f (ft_Fns tab), ft_Rev = AList.update (ptr f) n (ft_Rev tab)\<rparr>"
  have l: "table_lookup m tab1 = (if m = n then Some f else table_lookup m tab)" for m
    by (simp add: tab1_def table_lookup_def update_conv')
  have "table_register ptr n f tab = Some tab1"
    using Cons.prems(2) nf by (simp add: table_register_def tab1_def table_lookup_def)
  moreover have "\<forall>m \<in> fst ` set fs. table_lookup m tab1 = None" using Cons.prems nf by (auto simp: l image_iff)
  with Cons.IH[of tab1] Cons.prems(1) nf obtain tab' where t: "register_all ptr fs tab1 = Some tab'"
    "\<forall>m. table_lookup m tab' = (case map_of fs m of Some f \<Rightarrow> Some f | None \<Rightarrow> table_lookup m tab1)" by auto
  have "n \<notin> fst ` set fs" using Cons.prems(1) nf by auto
  then have "map_of fs n = None" by (simp add: map_of_eq_None_iff)
  with t(2) l have "\<forall>m. table_lookup m tab' = (case map_of (nf # fs) m of Some f \<Rightarrow> Some f | None \<Rightarrow> table_lookup m tab)"
    by (auto simp: nf split: option.split)
  ultimately show ?case using t(1) by (simp add: nf)
qed (auto split: option.split)

lemma register_all_empty:
  assumes "distinct (map fst fs)"
  shows "\<exists>tab. register_all ptr fs empty_table = Some tab \<and> (\<forall>n. table_lookup n tab = map_of fs n)"
proof -
  have e: "table_lookup n empty_table = None" for n by (simp add: table_lookup_def empty_table_def)
  obtain tab where t: "register_all ptr fs empty_table = Some tab"
    "\<forall>n. table_lookup n tab = (case map_of fs n of Some f \<Rightarrow> Some f | None \<Rightarrow> table_lookup n empty_table)"
    using register_all_lookup[OF assms, of empty_table ptr] e by (metis (no_types))
  have "table_lookup n tab = map_of fs n" for n
    using t(2)[rule_format, of n] e[of n] by (cases "map_of fs n") simp_all
  with t(1) show ?thesis by blast
qed

lemma BuildSafe_lookup:
  assumes "safe_registry_ok r"
  obtains reg where "BuildSafeFuncRegistry ptrs r = Some reg"
    "\<And>n. table_lookup n (fr_guards reg) = map_of (sr_guards r) n"
    "\<And>n. table_lookup n (fr_executors reg) = map_of (sr_executors r) n"
    "\<And>n. table_lookup n (fr_factories reg) = map_of (sr_factories r) n"
    "fr_eventFilters reg = empty_table" "fr_validateFns reg = empty_table" "fr_onSuccessFns reg = empty_table"
    "fr_retryOns reg = empty_table" "fr_schemaFns reg = []"
proof -
  have d: "distinct (map fst (sr_guards r))" "distinct (map fst (sr_executors r))" "distinct (map fst (sr_factories r))"
    using assms by (simp_all add: safe_registry_ok_def)
  obtain g where g: "register_all (fp_guard ptrs) (sr_guards r) empty_table = Some g"
      "\<And>n. table_lookup n g = map_of (sr_guards r) n"
    using register_all_empty[OF d(1), of "fp_guard ptrs"] by blast
  obtain x where x: "register_all (fp_executor ptrs) (sr_executors r) empty_table = Some x"
      "\<And>n. table_lookup n x = map_of (sr_executors r) n"
    using register_all_empty[OF d(2), of "fp_executor ptrs"] by blast
  obtain f where f: "register_all (fp_factory ptrs) (sr_factories r) empty_table = Some f"
      "\<And>n. table_lookup n f = map_of (sr_factories r) n"
    using register_all_empty[OF d(3), of "fp_factory ptrs"] by blast
  show ?thesis
    by (rule that[of "NewFuncRegistry\<lparr>fr_guards := g, fr_executors := x, fr_factories := f\<rparr>"])
      (simp_all add: BuildSafeFuncRegistry_def g x f NewFuncRegistry_def)
qed

section \<open>What a materialised net can call\<close>

text \<open>The transitions of a net and of the nets nested in it, and the factories beside them.\<close>

fun tree_transitions :: "('w, 'f) net_tree \<Rightarrow> 'w transition list" where
  "tree_transitions (NetTree c subs facs) =
     map snd (c_Transitions c) @ concat (map (\<lambda>(k, s). tree_transitions s) subs)"

fun tree_factories :: "('w, 'f) net_tree \<Rightarrow> 'f list" where
  "tree_factories (NetTree c subs facs) = map snd facs @ concat (map (\<lambda>(k, s). tree_factories s) subs)"

text \<open>Every function value of the transition is one the registry holds; the rest of its hooks are absent.\<close>

definition safe_calls :: "('w, 'f) safe_registry \<Rightarrow> 'w transition \<Rightarrow> bool" where
  "safe_calls s t \<longleftrightarrow>
     (\<forall>g. tr_Guard t = Some g \<longrightarrow> g \<in> snd ` set (sr_guards s)) \<and>
     (\<forall>x. tr_Executor t = Some x \<longrightarrow> x \<in> snd ` set (sr_executors s)) \<and>
     tr_EventFilter t = None \<and> tr_ToolHandler t = None \<and> tr_BashConfig t = None \<and>
     tr_RegisterToolConfig t = None \<and> tr_SynthesizeConfig t = None \<and> tr_InstantiateConfig t = None \<and>
     (\<forall>rp. tr_Retry t = Some rp \<longrightarrow> rp_RetryOn rp = None) \<and>
     (\<forall>vc. tr_ValidateConfig t = Some vc \<longrightarrow>
        vc_Schema vc = None \<and> vc_ValidateFunc vc = None \<and> vc_OnSuccess vc = None) \<and>
     (\<forall>hc. tr_HITLConfig t = Some hc \<longrightarrow>
        hc_Channel hc = None \<and> hc_A2UIPayloadBuilder hc = None \<and> hc_OutputBuilder hc = None)"

lemma fn_of_empty: "fn_of empty_table w n = Inr f \<Longrightarrow> f = None"
  by (auto simp: fn_of_def table_lookup_def empty_table_def split: if_splits)

lemma fn_of_lookup: "fn_of tab w n = Inr (Some f) \<Longrightarrow> table_lookup n tab = Some f"
  by (auto simp: fn_of_def split: if_splits option.splits)

lemma unmarshalValidateConfig_bare:
  assumes "fr_validateFns reg = empty_table" "fr_onSuccessFns reg = empty_table" "fr_schemaFns reg = []"
    and "unmarshalValidateConfig reg vt = Inr vc"
  shows "vc_Schema vc = None" "vc_ValidateFunc vc = None" "vc_OnSuccess vc = None"
  using assms fn_of_empty
  by (auto simp: unmarshalValidateConfig_def split: sum.splits if_splits option.splits)

lemma unmarshalRetryPolicy_bare:
  "fr_retryOns reg = empty_table \<Longrightarrow> unmarshalRetryPolicy reg rt = Inr rp \<Longrightarrow> rp_RetryOn rp = None"
  using fn_of_empty by (auto simp: unmarshalRetryPolicy_def split: sum.splits)

text \<open>The registry a materialisation builds from a catalogue.\<close>

definition safe_reg :: "('w, 'f) safe_registry \<Rightarrow> ('w, 'f) func_registry \<Rightarrow> bool" where
  "safe_reg s reg \<longleftrightarrow>
     (\<forall>n. table_lookup n (fr_guards reg) = map_of (sr_guards s) n) \<and>
     (\<forall>n. table_lookup n (fr_executors reg) = map_of (sr_executors s) n) \<and>
     (\<forall>n. table_lookup n (fr_factories reg) = map_of (sr_factories s) n) \<and>
     fr_eventFilters reg = empty_table \<and> fr_validateFns reg = empty_table \<and>
     fr_onSuccessFns reg = empty_table \<and> fr_retryOns reg = empty_table \<and> fr_schemaFns reg = []"

lemma BuildSafe_ok: "safe_registry_ok s \<Longrightarrow> \<exists>reg. BuildSafeFuncRegistry ptrs s = Some reg \<and> safe_reg s reg"
  using BuildSafe_lookup[of s ptrs] unfolding safe_reg_def by metis

lemma map_sum_Inr_iff: "map_sum id Some r = Inr y \<longleftrightarrow> (\<exists>x. r = Inr x \<and> y = Some x)"
  by (cases r) auto

lemma map_of_snd: "map_of xs n = Some f \<Longrightarrow> f \<in> snd ` set xs"
  by (force dest: map_of_SomeD)

lemma unmarshalTransition_safe:
  assumes reg: "safe_reg s reg" and u: "unmarshalTransition reg tf sub = Inr (t, f, n)"
  shows "safe_calls s t" "\<And>x. f = Some x \<Longrightarrow> x \<in> snd ` set (sr_factories s)"
    "\<And>m. n = Some m \<Longrightarrow> sub = Some (Inr m)"
proof -
  note r = reg[unfolded safe_reg_def]
  from u obtain g x ef vc rp where
    g: "fn_of (fr_guards reg) ''guard'' (tf_GuardFunc tf) = Inr g" and
    x: "fn_of (fr_executors reg) ''executor'' (tf_ExecutorFunc tf) = Inr x" and
    f: "fn_of (fr_factories reg) ''subnet factory'' (tf_FactoryFunc tf) = Inr f" and
    n: "(if tf_FactoryFunc tf \<noteq> [] then Inr None
         else case sub of None \<Rightarrow> Inr None | Some (Inl e) \<Rightarrow> Inl (Wrap ''subnet: '' e [])
              | Some (Inr s) \<Rightarrow> Inr (Some s)) = Inr n" and
    ef: "fn_of (fr_eventFilters reg) ''event filter'' (tf_EventFilterFunc tf) = Inr ef" and
    vc: "(case tf_ValidateConfig tf of None \<Rightarrow> Inr None
          | Some vt \<Rightarrow> map_sum id Some (unmarshalValidateConfig reg vt)) = Inr vc" and
    rp: "(case tf_Retry tf of None \<Rightarrow> Inr None
          | Some rt \<Rightarrow> map_sum id Some (unmarshalRetryPolicy reg rt)) = Inr rp" and
    t: "tr_Guard t = g" "tr_Executor t = x" "tr_EventFilter t = ef" "tr_ValidateConfig t = vc"
      "tr_Retry t = rp" "tr_ToolHandler t = None" "tr_BashConfig t = None"
      "tr_RegisterToolConfig t = None" "tr_SynthesizeConfig t = None" "tr_InstantiateConfig t = None"
      "tr_HITLConfig t = map_option unmarshalHITLConfig (tf_HITLConfig tf)"
    unfolding unmarshalTransition_def by (auto split: sum.splits)
  have "\<forall>c. rp = Some c \<longrightarrow> rp_RetryOn c = None"
    using rp r by (auto split: option.splits simp: map_sum_Inr_iff dest: unmarshalRetryPolicy_bare)
  moreover have "\<forall>c. vc = Some c \<longrightarrow> vc_Schema c = None \<and> vc_ValidateFunc c = None \<and> vc_OnSuccess c = None"
    using vc r by (auto split: option.splits simp: map_sum_Inr_iff dest: unmarshalValidateConfig_bare)
  moreover have "\<forall>h. g = Some h \<longrightarrow> h \<in> snd ` set (sr_guards s)"
    using g r by (auto dest!: fn_of_lookup intro: map_of_snd)
  moreover have "\<forall>h. x = Some h \<longrightarrow> h \<in> snd ` set (sr_executors s)"
    using x r by (auto dest!: fn_of_lookup intro: map_of_snd)
  moreover have "ef = None" using ef r fn_of_empty by metis
  ultimately show "safe_calls s t"
    by (auto simp: safe_calls_def t unmarshalHITLConfig_def)
  show "\<And>x. f = Some x \<Longrightarrow> x \<in> snd ` set (sr_factories s)"
    using f r by (auto dest!: fn_of_lookup intro: map_of_snd)
  show "\<And>m. n = Some m \<Longrightarrow> sub = Some (Inr m)"
    using n by (auto split: if_splits option.splits sum.splits)
qed

lemma collect_source: "collect f xs = Inr ys \<Longrightarrow> y \<in> set ys \<Longrightarrow> \<exists>x \<in> set xs. f x = Inr y"
  by (induction xs arbitrary: ys) (auto split: sum.splits)

lemma tree_transitions_unmarshal:
  "tree_transitions (unmarshal_net i r d m pls ts) = map (\<lambda>(k, t, _). t) ts @
     concat (map (\<lambda>(k, t, f, sub). case sub of None \<Rightarrow> [] | Some c \<Rightarrow> tree_transitions c) ts)"
  unfolding unmarshal_net_def tree_transitions.simps
  by (rule arg_cong2[where f = "(@)"], simp add: NewCPN_def split_def comp_def)
    (induction ts; simp split: option.split prod.split)

lemma tree_factories_unmarshal:
  "tree_factories (unmarshal_net i r d m pls ts) =
     concat (map (\<lambda>(k, t, f, sub). case f of None \<Rightarrow> [] | Some x \<Rightarrow> [x]) ts) @
     concat (map (\<lambda>(k, t, f, sub). case sub of None \<Rightarrow> [] | Some c \<Rightarrow> tree_factories c) ts)"
  unfolding unmarshal_net_def tree_factories.simps
  by (rule arg_cong2[where f = "(@)"]; induction ts; simp split: option.split prod.split)

lemma UnmarshalCPN_safe:
  "safe_reg s reg \<Longrightarrow> UnmarshalCPN reg topo = Inr n \<Longrightarrow>
   (\<forall>t \<in> set (tree_transitions n). safe_calls s t) \<and> (\<forall>f \<in> set (tree_factories n). f \<in> snd ` set (sr_factories s))"
proof (induction reg topo arbitrary: n rule: UnmarshalCPN.induct)
  case (1 reg i r d m pls trs)
  let ?U = "\<lambda>(k, tt). (case tt of TransitionTopology tf sub \<Rightarrow>
      (case unmarshalTransition reg tf (map_option (UnmarshalCPN reg) sub) of
         Inl e \<Rightarrow> Inl (in_transition k e) | Inr x \<Rightarrow> Inr (k, x)))"
  let ?ok = "\<lambda>n. (\<forall>t \<in> set (tree_transitions n). safe_calls s t) \<and>
      (\<forall>f \<in> set (tree_factories n). f \<in> snd ` set (sr_factories s))"
  from 1(3) obtain ts where ts: "collect ?U trs = Inr ts" "n = unmarshal_net i r d m pls ts"
    by (auto split: sum.splits)
  have all: "safe_calls s t \<and> (\<forall>x. f = Some x \<longrightarrow> x \<in> snd ` set (sr_factories s)) \<and> (\<forall>c. sub = Some c \<longrightarrow> ?ok c)"
    if m: "(k, t, f, sub) \<in> set ts" for k t f sub
  proof -
    from collect_source[OF ts(1) m] obtain kt where kt: "kt \<in> set trs" "?U kt = Inr (k, t, f, sub)" by blast
    obtain k2 tf s2 where e: "kt = (k2, TransitionTopology tf s2)" by (metis prod.exhaust transition_topology.exhaust)
    from kt(2) have u: "unmarshalTransition reg tf (map_option (UnmarshalCPN reg) s2) = Inr (t, f, sub)"
      by (auto simp: e split: sum.splits)
    note safe = unmarshalTransition_safe[OF 1(2) u]
    have "?ok c" if "sub = Some c" for c
    proof -
      from safe(3)[OF that] obtain t2 where "s2 = Some t2" "UnmarshalCPN reg t2 = Inr c" by auto
      with 1(1)[OF kt(1)[unfolded e] refl refl _ 1(2)] show ?thesis by simp
    qed
    with safe show ?thesis by blast
  qed
  show ?case
  proof (intro conjI ballI)
    fix t assume "t \<in> set (tree_transitions n)"
    then consider (here) k f sub where "(k, t, f, sub) \<in> set ts"
      | (below) k t2 f c where "(k, t2, f, Some c) \<in> set ts" "t \<in> set (tree_transitions c)"
      by (auto simp: ts(2) tree_transitions_unmarshal split: option.splits)
    then show "safe_calls s t" by cases (use all in blast)+
  next
    fix f assume "f \<in> set (tree_factories n)"
    then consider (here) k t sub where "(k, t, Some f, sub) \<in> set ts"
      | (below) k t2 f2 c where "(k, t2, f2, Some c) \<in> set ts" "f \<in> set (tree_factories c)"
      by (auto simp: ts(2) tree_factories_unmarshal split: option.splits)
    then show "f \<in> snd ` set (sr_factories s)" by cases (use all in blast)+
  qed
qed

section \<open>When materialising succeeds\<close>

text \<open>The names a topology needs, at every level, and nothing a safe registry cannot hold.\<close>

definition bare_fields :: "transition_fields \<Rightarrow> bool" where
  "bare_fields tf \<longleftrightarrow> tf_EventFilterFunc tf = [] \<and>
     (\<forall>vt. tf_ValidateConfig tf = Some vt \<longrightarrow>
        vg_SchemaFunc vt = [] \<and> vg_ValidateFunc vt = [] \<and> vg_OnSuccessFunc vt = []) \<and>
     (\<forall>rt. tf_Retry tf = Some rt \<longrightarrow> rg_RetryOnFunc rt = [])"

fun resolvable :: "(string \<Rightarrow> string option) \<Rightarrow> cpn_topology \<Rightarrow> bool" where
  "resolvable safe (Topology i r d m pls trs) \<longleftrightarrow>
     (\<forall>(k, tt) \<in> set trs. (case tt of TransitionTopology tf sub \<Rightarrow>
        names_ok safe tf \<and> bare_fields tf \<and>
        (case sub of None \<Rightarrow> True | Some t \<Rightarrow> tf_FactoryFunc tf \<noteq> [] \<or> resolvable safe t)))"

lemma fn_of_ok: "isl (fn_of tab w n) \<longleftrightarrow> n \<noteq> [] \<and> table_lookup n tab = None"
  by (simp add: fn_of_def split: option.split)

lemma table_lookup_empty [simp]: "table_lookup n empty_table = None"
  by (simp add: table_lookup_def empty_table_def)

lemma unmarshalValidateConfig_ok:
  "fr_validateFns reg = empty_table \<Longrightarrow> fr_onSuccessFns reg = empty_table \<Longrightarrow> fr_schemaFns reg = [] \<Longrightarrow>
   isl (unmarshalValidateConfig reg vt) \<longleftrightarrow>
     \<not> (vg_SchemaFunc vt = [] \<and> vg_ValidateFunc vt = [] \<and> vg_OnSuccessFunc vt = [])"
  by (auto simp: unmarshalValidateConfig_def fn_of_def)

lemma unmarshalRetryPolicy_ok:
  "fr_retryOns reg = empty_table \<Longrightarrow> isl (unmarshalRetryPolicy reg rt) \<longleftrightarrow> rg_RetryOnFunc rt \<noteq> []"
  by (simp add: unmarshalRetryPolicy_def fn_of_def)

lemma isl_bind: "isl (case x of Inl e \<Rightarrow> Inl e | Inr y \<Rightarrow> f y) \<longleftrightarrow> isl x \<or> isl (f (projr x))"
  by (cases x) simp_all

lemma isl_map_sum: "isl (map_sum f g x) = isl x"
  by (cases x) simp_all

lemma unmarshalTransition_ok:
  assumes reg: "safe_reg s reg" and ok: "safe_registry_ok s"
  shows "isl (unmarshalTransition reg tf sub) \<longleftrightarrow>
     \<not> (names_ok (SafeLookup s) tf \<and> bare_fields tf \<and>
        (tf_FactoryFunc tf \<noteq> [] \<or> (case sub of None \<Rightarrow> True | Some r \<Rightarrow> \<not> isl r)))"
proof -
  note r = reg[unfolded safe_reg_def] and o = ok[unfolded safe_registry_ok_def]
  have look: "map_of (sr_guards s) n = None \<longleftrightarrow> SafeLookup s n \<noteq> Some PrimitiveKindGuard"
    "map_of (sr_executors s) n = None \<longleftrightarrow> SafeLookup s n \<noteq> Some PrimitiveKindExecutor"
    "map_of (sr_factories s) n = None \<longleftrightarrow> SafeLookup s n \<noteq> Some PrimitiveKindFactory" for n
    using o by (simp_all only: map_of_eq_None_iff mem_Collect_eq)
  have sub: "isl (if tf_FactoryFunc tf \<noteq> [] then Inr None
      else case sub of None \<Rightarrow> Inr None | Some (Inl e) \<Rightarrow> Inl (Wrap ''subnet: '' e []) | Some (Inr s) \<Rightarrow> Inr (Some s))
      \<longleftrightarrow> \<not> (tf_FactoryFunc tf \<noteq> [] \<or> (case sub of None \<Rightarrow> True | Some r \<Rightarrow> \<not> isl r))"
    by (auto split: option.split sum.split)
  have vc: "isl (case tf_ValidateConfig tf of None \<Rightarrow> Inr None
      | Some vt \<Rightarrow> map_sum id Some (unmarshalValidateConfig reg vt)) \<longleftrightarrow>
      \<not> (\<forall>vt. tf_ValidateConfig tf = Some vt \<longrightarrow>
        vg_SchemaFunc vt = [] \<and> vg_ValidateFunc vt = [] \<and> vg_OnSuccessFunc vt = [])"
    using r by (simp add: isl_map_sum unmarshalValidateConfig_ok split: option.split)
  have rp: "isl (case tf_Retry tf of None \<Rightarrow> Inr None | Some rt \<Rightarrow> map_sum id Some (unmarshalRetryPolicy reg rt)) \<longleftrightarrow>
      \<not> (\<forall>rt. tf_Retry tf = Some rt \<longrightarrow> rg_RetryOnFunc rt = [])"
    using r by (simp add: isl_map_sum unmarshalRetryPolicy_ok split: option.split)
  show ?thesis
    unfolding unmarshalTransition_def isl_bind sub vc rp fn_of_ok names_ok_iff bare_fields_def
    using r by (simp add: look del: not_None_eq) blast
qed

lemma collect_ok: "isl (collect f xs) \<longleftrightarrow> (\<exists>x \<in> set xs. isl (f x))"
  by (induction xs) (auto split: sum.split)

lemma UnmarshalCPN_ok:
  "safe_reg s reg \<Longrightarrow> safe_registry_ok s \<Longrightarrow> isl (UnmarshalCPN reg topo) \<longleftrightarrow> \<not> resolvable (SafeLookup s) topo"
proof (induction reg topo rule: UnmarshalCPN.induct)
  case (1 reg i r d m pls trs)
  let ?U = "\<lambda>(k, tt). (case tt of TransitionTopology tf sub \<Rightarrow>
      (case unmarshalTransition reg tf (map_option (UnmarshalCPN reg) sub) of
         Inl e \<Rightarrow> Inl (in_transition k e) | Inr x \<Rightarrow> Inr (k, x)))"
  let ?R = "\<lambda>(k :: string, tt). (case tt of TransitionTopology tf sub \<Rightarrow>
      names_ok (SafeLookup s) tf \<and> bare_fields tf \<and>
      (case sub of None \<Rightarrow> True | Some t \<Rightarrow> tf_FactoryFunc tf \<noteq> [] \<or> resolvable (SafeLookup s) t))"
  have one: "isl (?U kt) \<longleftrightarrow> \<not> ?R kt" if m: "kt \<in> set trs" for kt
  proof -
    obtain k tf sub where e: "kt = (k, TransitionTopology tf sub)" by (metis prod.exhaust transition_topology.exhaust)
    have "isl (?U kt) = isl (unmarshalTransition reg tf (map_option (UnmarshalCPN reg) sub))"
      by (simp add: e split: sum.split)
    also have "\<dots> \<longleftrightarrow> \<not> ?R kt"
      unfolding unmarshalTransition_ok[OF 1(2,3)]
      using 1(1)[OF m[unfolded e] refl refl _ 1(2,3)] by (cases sub) (simp_all add: e)
    finally show ?thesis .
  qed
  have "isl (UnmarshalCPN reg (Topology i r d m pls trs)) = isl (collect ?U trs)"
    by (simp split: sum.split)
  also have "\<dots> \<longleftrightarrow> \<not> (\<forall>kt \<in> set trs. ?R kt)" using one by (simp add: collect_ok)
  finally show ?case by simp
qed

end
