(* ===== verification/Canonical.thy ===== *)
theory Canonical
  imports Topology
begin

text \<open>
  The identity of a topology: its canonical JSON text and hash, \<open>cpn/synthesis/canonical.go\<close>, and
  \<open>TopologyHash\<close> of \<open>cpn/persist/topology.go\<close>. A decoded JSON value is \<open>jv\<close>; the JSON texts of single
  values, the decoder and SHA-256 are parameters (\<open>codec\<close>). \<open>same_topology\<close> relates two topologies that
  differ only in the iteration order of their Go maps, at every level.
\<close>

section \<open>JSON values\<close>

datatype (plugins only: code size) jv =
    JNull | JBool bool | JNum real | JStr string | JArr "jv list" | JObj "(string \<times> jv) list"

record codec =
  js_str :: "string \<Rightarrow> string"
  js_int :: "int \<Rightarrow> string"
  js_num :: "real \<Rightarrow> gerr + string"
  js_llm :: "llm_topology \<Rightarrow> gerr + string"
  js_hitl :: "hitl_topology \<Rightarrow> gerr + string"
  js_validate :: "validate_topology \<Rightarrow> gerr + string"
  js_retry :: "retry_topology \<Rightarrow> gerr + string"
  js_parse :: "string \<Rightarrow> gerr + jv"
  js_sha :: "string \<Rightarrow> string"

definition json_object :: "codec \<Rightarrow> (string \<times> (gerr + string)) list \<Rightarrow> gerr + string" where
  "json_object cd kvs = (case collect (\<lambda>(k, r). map_sum id (\<lambda>b. js_str cd k @ '':'' @ b) r) kvs of
     Inl e \<Rightarrow> Inl e | Inr bs \<Rightarrow> Inr (''{'' @ join_str '','' bs @ ''}''))"

fun canonicaliseValue :: "codec \<Rightarrow> jv \<Rightarrow> gerr + string" where
  "canonicaliseValue cd (JObj kvs) =
     json_object cd (sort_key fst (map (\<lambda>(k, v). (k, canonicaliseValue cd v)) kvs))"
| "canonicaliseValue cd (JArr vs) = (case collect id (map (canonicaliseValue cd) vs) of
     Inl e \<Rightarrow> Inl e | Inr bs \<Rightarrow> Inr (''['' @ join_str '','' bs @ '']''))"
| "canonicaliseValue cd JNull = Inr ''null''"
| "canonicaliseValue cd (JBool b) = Inr (if b then ''true'' else ''false'')"
| "canonicaliseValue cd (JStr s) = Inr (js_str cd s)"
| "canonicaliseValue cd (JNum x) = js_num cd x"

definition canonicaliseRawJSON :: "codec \<Rightarrow> string \<Rightarrow> gerr + string" where
  "canonicaliseRawJSON cd raw =
     (if raw = [] then Inr ''null''
      else case js_parse cd raw of Inl e \<Rightarrow> Inl e | Inr v \<Rightarrow> canonicaliseValue cd v)"

section \<open>The canonical form\<close>

text \<open>The values \<open>marshalStable\<close> is given.\<close>

datatype (plugins only: code size) entry =
    EStr string | EInt int | EStrs "string list" | ERaw string | EMap "(string \<times> entry) list"

fun marshalStable :: "codec \<Rightarrow> entry \<Rightarrow> gerr + string" where
  "marshalStable cd (EMap kvs) = json_object cd (map (\<lambda>(k, v). (k, marshalStable cd v)) kvs)"
| "marshalStable cd (ERaw raw) = Inr (if raw = [] then ''null'' else raw)"
| "marshalStable cd (EStr s) = Inr (js_str cd s)"
| "marshalStable cd (EInt i) = Inr (js_int cd i)"
| "marshalStable cd (EStrs xs) = Inr (''['' @ join_str '','' (map (js_str cd) xs) @ '']'')"

definition opt_str :: "string \<Rightarrow> string \<Rightarrow> (string \<times> entry) list" where
  "opt_str k s = (if s \<noteq> [] then [(k, EStr s)] else [])"

definition opt_strs :: "string \<Rightarrow> string list \<Rightarrow> (string \<times> entry) list" where
  "opt_strs k xs = (if xs \<noteq> [] then [(k, EStrs xs)] else [])"

text \<open>A value that fails to encode or to decode is left out.\<close>

definition opt_raw :: "string \<Rightarrow> (gerr + string) option \<Rightarrow> (string \<times> entry) list" where
  "opt_raw k r = (case r of Some (Inr b) \<Rightarrow> [(k, ERaw b)] | _ \<Rightarrow> [])"

definition recoded :: "codec \<Rightarrow> ('a \<Rightarrow> gerr + string) \<Rightarrow> 'a option \<Rightarrow> (gerr + string) option" where
  "recoded cd enc x = map_option (\<lambda>v. case enc v of Inl e \<Rightarrow> Inl e | Inr b \<Rightarrow> canonicaliseRawJSON cd b) x"

definition canonical_fields :: "codec \<Rightarrow> transition_fields \<Rightarrow> (string \<times> entry) list" where
  "canonical_fields cd tf =
     [(''id'', EStr (tf_ID tf)), (''kind'', EStr (tf_Kind tf))] @
     opt_strs ''inputPlaces'' (tf_InputPlaces tf) @ opt_strs ''outputPlaces'' (tf_OutputPlaces tf) @
     opt_str ''errorPlace'' (tf_ErrorPlace tf) @ opt_str ''guardFunc'' (tf_GuardFunc tf) @
     opt_str ''executorFunc'' (tf_ExecutorFunc tf) @ opt_str ''factoryFunc'' (tf_FactoryFunc tf) @
     opt_str ''systemPrompt'' (tf_SystemPrompt tf) @ opt_str ''toolName'' (tf_ToolName tf) @
     opt_str ''observedCPNID'' (tf_ObservedCPNID tf) @ opt_str ''eventFilterFunc'' (tf_EventFilterFunc tf) @
     opt_str ''retryOnFunc'' (tf_RetryOnFunc tf) @ opt_strs ''llmTools'' (sort (tf_LLMTools tf)) @
     opt_raw ''toolParameters'' (if tf_ToolParameters tf \<noteq> []
       then Some (canonicaliseRawJSON cd (tf_ToolParameters tf)) else None) @
     opt_raw ''llmConfig'' (recoded cd (js_llm cd) (tf_LLMConfig tf)) @
     opt_raw ''hitlConfig'' (recoded cd (js_hitl cd) (tf_HITLConfig tf)) @
     opt_raw ''validateConfig'' (recoded cd (js_validate cd) (tf_ValidateConfig tf)) @
     opt_raw ''retry'' (recoded cd (js_retry cd) (tf_Retry tf))"

definition canonical_place :: "place_topology \<Rightarrow> entry" where
  "canonical_place p = EMap [(''id'', EStr (pt_ID p)), (''color'', EStr (pt_Color p)), (''space'', EStr (pt_Space p))]"

fun canonicalTopology :: "codec \<Rightarrow> cpn_topology \<Rightarrow> (string \<times> entry) list"
and canonicalTransition :: "codec \<Rightarrow> transition_topology \<Rightarrow> (string \<times> entry) list" where
  "canonicalTopology cd (Topology i r d m pls trs) =
     [(''id'', EStr i), (''role'', EStr r), (''depth'', EInt d), (''mode'', EStr m),
      (''places'', EMap (sort_key fst (map (\<lambda>(k, p). (k, canonical_place p)) pls))),
      (''transitions'', EMap (sort_key fst (map (\<lambda>(k, tt). (k, EMap (canonicalTransition cd tt))) trs)))]"
| "canonicalTransition cd (TransitionTopology tf sub) = canonical_fields cd tf @
     (case sub of None \<Rightarrow> [] | Some t \<Rightarrow> [(''subNetTopology'', EMap (canonicalTopology cd t))])"

definition CanonicaliseTopology :: "codec \<Rightarrow> cpn_topology option \<Rightarrow> gerr + string" where
  "CanonicaliseTopology cd topo = (case topo of
     None \<Rightarrow> Inl (Plain ''synthesis: canonicalise nil topology'')
   | Some t \<Rightarrow> marshalStable cd (EMap (canonicalTopology cd t)))"

definition CanonicalHash :: "codec \<Rightarrow> cpn_topology option \<Rightarrow> gerr + string" where
  "CanonicalHash cd topo = map_sum id (js_sha cd) (CanonicaliseTopology cd topo)"

section \<open>The topology hash\<close>

definition tagged :: "string \<Rightarrow> string \<Rightarrow> string" where
  "tagged tag s = tag @ '':'' @ s @ '';''"

definition tagged_json :: "string \<Rightarrow> ('a \<Rightarrow> gerr + string) \<Rightarrow> 'a option \<Rightarrow> string" where
  "tagged_json tag enc x = (case map_option enc x of Some (Inr b) \<Rightarrow> tagged tag b | _ \<Rightarrow> [])"

definition hash_fields :: "codec \<Rightarrow> transition_fields \<Rightarrow> string" where
  "hash_fields cd tf = ''T:'' @ tf_ID tf @ '':'' @ tf_Kind tf @ '':'' @
     concat (map (tagged ''I'') (tf_InputPlaces tf)) @ concat (map (tagged ''O'') (tf_OutputPlaces tf)) @
     tagged ''E'' (tf_ErrorPlace tf) @ tagged ''G'' (tf_GuardFunc tf) @ tagged ''X'' (tf_ExecutorFunc tf) @
     tagged ''F'' (tf_FactoryFunc tf) @ tagged ''EF'' (tf_EventFilterFunc tf) @
     tagged ''SP'' (tf_SystemPrompt tf) @ tagged ''TN'' (tf_ToolName tf) @ tagged ''OB'' (tf_ObservedCPNID tf) @
     concat (map (tagged ''LT'') (tf_LLMTools tf)) @ tagged_json ''LLC'' (js_llm cd) (tf_LLMConfig tf) @
     tagged_json ''VC'' (js_validate cd) (tf_ValidateConfig tf) @ tagged_json ''HC'' (js_hitl cd) (tf_HITLConfig tf) @
     tagged_json ''R'' (js_retry cd) (tf_Retry tf)"

fun TopologyHash :: "codec \<Rightarrow> cpn_topology \<Rightarrow> string" and hash_transition :: "codec \<Rightarrow> transition_topology \<Rightarrow> string" where
  "TopologyHash cd (Topology i r d m pls trs) = js_sha cd
     (concat (map (\<lambda>(k, p). ''P:'' @ pt_ID p @ '':'' @ pt_Color p @ '':'' @ pt_Space p @ '';'') (sort_key fst pls)) @
      concat (map snd (sort_key fst (map (\<lambda>(k, tt). (k, hash_transition cd tt)) trs))))"
| "hash_transition cd (TransitionTopology tf sub) = hash_fields cd tf @
     (case sub of None \<Rightarrow> [] | Some t \<Rightarrow> tagged ''SN'' (TopologyHash cd t))"

section \<open>Independence of the map order\<close>

definition same_keys :: "(string \<times> 'a) list \<Rightarrow> (string \<times> 'a) list \<Rightarrow> bool" where
  "same_keys xs ys \<longleftrightarrow> distinct (map fst xs) \<and> mset xs = mset ys"

text \<open>The same JSON value: the members of every object in any order.\<close>

inductive same_json :: "jv \<Rightarrow> jv \<Rightarrow> bool" where
  same_JNull: "same_json JNull JNull"
| same_JBool: "same_json (JBool b) (JBool b)"
| same_JNum: "same_json (JNum x) (JNum x)"
| same_JStr: "same_json (JStr s) (JStr s)"
| same_JArr: "length us = length vs \<Longrightarrow> (\<forall>i < length us. same_json (us ! i) (vs ! i)) \<Longrightarrow> same_json (JArr us) (JArr vs)"
| same_JObj: "map fst us = map fst vs \<Longrightarrow> (\<forall>i < length us. same_json (snd (us ! i)) (snd (vs ! i))) \<Longrightarrow>
    same_keys vs ws \<Longrightarrow> same_json (JObj us) (JObj ws)"

inductive same_topology :: "cpn_topology \<Rightarrow> cpn_topology \<Rightarrow> bool"
and same_transition :: "transition_topology \<Rightarrow> transition_topology \<Rightarrow> bool" where
  same_net: "same_keys pls pls' \<Longrightarrow> map fst trs = map fst us \<Longrightarrow>
    (\<forall>i < length trs. same_transition (snd (trs ! i)) (snd (us ! i))) \<Longrightarrow> same_keys us trs' \<Longrightarrow>
    same_topology (Topology i r d m pls trs) (Topology i r d m pls' trs')"
| same_plain: "same_transition (TransitionTopology tf None) (TransitionTopology tf None)"
| same_nested: "same_topology t t' \<Longrightarrow> same_transition (TransitionTopology tf (Some t)) (TransitionTopology tf (Some t'))"

text \<open>Two runs of the decoder may give the members of an object in different orders.\<close>

definition same_codec :: "codec \<Rightarrow> codec \<Rightarrow> bool" where
  "same_codec cd cd' \<longleftrightarrow> cd' = cd\<lparr>js_parse := js_parse cd'\<rparr> \<and>
     (\<forall>s. rel_sum (=) same_json (js_parse cd s) (js_parse cd' s))"

lemma map_values_cong:
  "map fst xs = map fst ys \<Longrightarrow> (\<forall>i < length xs. f (snd (xs ! i)) = g (snd (ys ! i))) \<Longrightarrow>
   map (\<lambda>(k, v). (k, f v)) xs = map (\<lambda>(k, v). (k, g v)) ys"
  by (rule nth_equalityI) (auto simp: map_eq_conv list_eq_iff_nth_eq[of "map fst xs"] split_def)

lemma sorted_values_perm:
  assumes "same_keys xs ys"
  shows "sort_key fst (map (\<lambda>(k, v). (k, f v)) xs) = sort_key fst (map (\<lambda>(k, v). (k, f v)) ys)"
proof (rule sort_key_perm)
  show "mset (map (\<lambda>(k, v). (k, f v)) xs) = mset (map (\<lambda>(k, v). (k, f v)) ys)"
    using assms by (simp add: same_keys_def)
  show "distinct (map fst (map (\<lambda>(k, v). (k, f v)) xs))"
    using assms by (simp add: same_keys_def comp_def split_def)
qed

lemma same_json_canonical:
  "same_json u v \<Longrightarrow> cd' = cd\<lparr>js_parse := p\<rparr> \<Longrightarrow> canonicaliseValue cd u = canonicaliseValue cd' v"
proof (induction rule: same_json.induct)
  case (same_JArr us vs)
  then have "map (canonicaliseValue cd) us = map (canonicaliseValue cd') vs" by (intro nth_equalityI) auto
  then show ?case by simp
next
  case (same_JObj us vs ws)
  then have "map (\<lambda>(k, v). (k, canonicaliseValue cd v)) us = map (\<lambda>(k, v). (k, canonicaliseValue cd' v)) vs"
    by (intro map_values_cong) auto
  moreover have "json_object cd = json_object cd'" by (rule ext) (simp add: json_object_def same_JObj.prems)
  ultimately show ?case
    using sorted_values_perm[OF same_JObj.hyps(2), of "canonicaliseValue cd'"] by (simp only: canonicaliseValue.simps)
qed simp_all

lemma same_codec_raw:
  assumes "same_codec cd cd'"
  shows "canonicaliseRawJSON cd raw = canonicaliseRawJSON cd' raw"
proof -
  from assms have cd': "cd' = cd\<lparr>js_parse := js_parse cd'\<rparr>" and r: "rel_sum (=) same_json (js_parse cd raw) (js_parse cd' raw)"
    by (simp_all add: same_codec_def)
  show ?thesis using r same_json_canonical[OF _ cd']
    by (cases rule: rel_sum.cases) (simp_all add: canonicaliseRawJSON_def)
qed

lemma same_codec_frame:
  assumes "same_codec cd cd'"
  shows "js_str cd' = js_str cd" "js_int cd' = js_int cd" "js_llm cd' = js_llm cd" "js_hitl cd' = js_hitl cd"
    "js_validate cd' = js_validate cd" "js_retry cd' = js_retry cd" "js_sha cd' = js_sha cd"
proof -
  from assms obtain p where "cd' = cd\<lparr>js_parse := p\<rparr>" unfolding same_codec_def by blast
  then show "js_str cd' = js_str cd" "js_int cd' = js_int cd" "js_llm cd' = js_llm cd" "js_hitl cd' = js_hitl cd"
    "js_validate cd' = js_validate cd" "js_retry cd' = js_retry cd" "js_sha cd' = js_sha cd" by simp_all
qed

lemma same_codec_fields: "same_codec cd cd' \<Longrightarrow> canonical_fields cd tf = canonical_fields cd' tf"
  by (simp add: canonical_fields_def recoded_def same_codec_frame same_codec_raw cong: sum.case_cong)

lemma same_codec_marshal: "same_codec cd cd' \<Longrightarrow> marshalStable cd v = marshalStable cd' v"
proof (induction cd v rule: marshalStable.induct)
  case (1 cd kvs)
  then have "map (\<lambda>(k, v). (k, marshalStable cd v)) kvs = map (\<lambda>(k, v). (k, marshalStable cd' v)) kvs" by auto
  moreover have "json_object cd = json_object cd'"
    by (rule ext) (simp add: json_object_def same_codec_frame[OF 1(2)])
  ultimately show ?case by (simp only: marshalStable.simps)
qed (simp_all add: same_codec_frame)

lemma same_topology_canonical:
  "same_topology t t' \<Longrightarrow> same_codec cd cd' \<Longrightarrow> canonicalTopology cd t = canonicalTopology cd' t'"
  "same_transition tt tt' \<Longrightarrow> same_codec cd cd' \<Longrightarrow> canonicalTransition cd tt = canonicalTransition cd' tt'"
proof (induction rule: same_topology_same_transition.inducts)
  case (same_net pls pls' trs us trs' i r d m)
  then have "map (\<lambda>(k, tt). (k, EMap (canonicalTransition cd tt))) trs =
      map (\<lambda>(k, tt). (k, EMap (canonicalTransition cd' tt))) us"
    by (intro map_values_cong) auto
  then show ?case
    using sorted_values_perm[OF same_net.hyps(1), of canonical_place]
      sorted_values_perm[OF same_net.hyps(3), of "\<lambda>tt. EMap (canonicalTransition cd' tt)"]
    by (simp only: canonicalTopology.simps)
qed (simp_all add: same_codec_fields)

lemma sort_key_same: "same_keys xs ys \<Longrightarrow> sort_key fst xs = sort_key fst ys"
  unfolding same_keys_def by (blast intro: sort_key_perm)

lemma same_topology_hash:
  "same_topology t t' \<Longrightarrow> TopologyHash cd t = TopologyHash cd t'"
  "same_transition tt tt' \<Longrightarrow> hash_transition cd tt = hash_transition cd tt'"
proof (induction rule: same_topology_same_transition.inducts)
  case (same_net pls pls' trs us trs' i r d m)
  then have "map (\<lambda>(k, tt). (k, hash_transition cd tt)) trs = map (\<lambda>(k, tt). (k, hash_transition cd tt)) us"
    by (intro map_values_cong) auto
  then show ?case
    using sort_key_same[OF same_net.hyps(1)] sorted_values_perm[OF same_net.hyps(3), of "hash_transition cd"]
    by (simp only: TopologyHash.simps)
qed simp_all

lemma same_codec_hash:
  "same_codec cd cd' \<Longrightarrow> TopologyHash cd u = TopologyHash cd' u"
  "same_codec cd cd' \<Longrightarrow> hash_transition cd x = hash_transition cd' x"
proof (induction cd u and cd x rule: TopologyHash_hash_transition.induct)
  case (1 cd i r d m pls trs)
  then have "map (\<lambda>(k, tt). (k, hash_transition cd tt)) trs = map (\<lambda>(k, tt). (k, hash_transition cd' tt)) trs"
    by auto
  then show ?case by (simp only: TopologyHash.simps same_codec_frame[OF 1(2)])
next
  case (2 cd tf sub)
  then show ?case
    by (cases sub) (simp_all add: hash_fields_def same_codec_frame[OF 2(2)])
qed

lemma canonical_same:
  assumes "same_topology t t'" "same_codec cd cd'"
  shows "CanonicaliseTopology cd (Some t) = CanonicaliseTopology cd' (Some t')"
    "CanonicalHash cd (Some t) = CanonicalHash cd' (Some t')"
    "TopologyHash cd t = TopologyHash cd' t'"
proof -
  show c: "CanonicaliseTopology cd (Some t) = CanonicaliseTopology cd' (Some t')"
    using same_topology_canonical(1)[OF assms] same_codec_marshal[OF assms(2)]
    by (simp only: CanonicaliseTopology_def option.case)
  then show "CanonicalHash cd (Some t) = CanonicalHash cd' (Some t')"
    by (simp add: CanonicalHash_def same_codec_frame[OF assms(2)])
  show "TopologyHash cd t = TopologyHash cd' t'"
    using same_topology_hash(1)[OF assms(1)] same_codec_hash(1)[OF assms(2)] by metis
qed

lemma CanonicaliseTopology_nonempty: "CanonicaliseTopology cd (Some t) = Inr j \<Longrightarrow> j \<noteq> []"
  by (auto simp: CanonicaliseTopology_def json_object_def split: sum.splits)

end
