(* ===== verification/Flow_Store.thy ===== *)
theory Flow_Store
  imports Prelude Synthesis_Types
begin

text \<open>
  The store of agent-authored flows, \<open>cpn/synthesis/authored_flow_memory.go\<close>, behind the contract of
  the port \<open>AuthoredFlowRepository\<close>: the locale \<open>flow_store\<close>. Flows are keyed by the SHA-256 of their
  canonical text, so that saving a topology again changes nothing.
\<close>

section \<open>The contract\<close>

locale flow_store =
  fixes sha :: "string \<Rightarrow> string"
    and save :: "string \<Rightarrow> 'd \<Rightarrow> 's \<Rightarrow> (gerr + string \<times> bool) \<times> 's"
    and get :: "string \<Rightarrow> 's \<Rightarrow> gerr + flow_record"
    and reject :: "string \<Rightarrow> string \<Rightarrow> 's \<Rightarrow> gerr option \<times> 's"
    and inv :: "'s \<Rightarrow> bool"
  assumes save_inv: "inv s \<Longrightarrow> inv (snd (save j d s))"
    and save_fails: "fst (save j d s) = Inl e \<Longrightarrow> snd (save j d s) = s"
    and save_id: "save j d s = (Inr (fid, b), s') \<Longrightarrow> fid = sha j"
    and save_found: "save j d s = (Inr (fid, b), s') \<Longrightarrow>
      (if b then isl (get fid s) \<and> (\<exists>r. get fid s' = Inr r \<and> fd_TopologyJSON r = j \<and> \<not> fd_Rejected r)
       else \<not> isl (get fid s) \<and> s' = s)"
    and save_frame: "save j d s = (Inr (fid, b), s') \<Longrightarrow> f \<noteq> fid \<Longrightarrow> get f s' = get f s"
    and save_ok: "j \<noteq> [] \<Longrightarrow> \<not> isl (fst (save j d s))"
    and get_text: "inv s \<Longrightarrow> get f s = Inr r \<Longrightarrow> sha (fd_TopologyJSON r) = f"
    and reject_inv: "inv s \<Longrightarrow> inv (snd (reject f why s))"
    and reject_found: "get f s = Inr r \<Longrightarrow> fst (reject f why s) = None \<and>
      get f (snd (reject f why s)) = Inr (r\<lparr>fd_Rejected := True, fd_RejectedReason := why\<rparr>)"
    and reject_frame: "g \<noteq> f \<Longrightarrow> get g (snd (reject f why s)) = get g s"
begin

lemma save_twice:
  assumes "j \<noteq> []" and "save j d s = (Inr (fid, b), s')"
  shows "save j d2 s' = (Inr (fid, False), s')"
proof -
  obtain r s2 where s2: "save j d2 s' = (r, s2)" by force
  with save_ok[OF assms(1), of d2 s'] obtain f2 b2 where r: "r = Inr (f2, b2)" by (cases r) auto
  have "f2 = fid" using save_id[OF assms(2)] save_id[OF s2[unfolded r]] by simp
  moreover have "\<not> isl (get fid s')" using save_found[OF assms(2)] by (auto split: if_splits)
  ultimately have "\<not> b2 \<and> s2 = s'" using save_found[OF s2[unfolded r]] by (auto split: if_splits)
  with s2 r \<open>f2 = fid\<close> show ?thesis by simp
qed

text \<open>A rejected flow stays rejected, whoever authors it again.\<close>

lemma save_keeps:
  assumes "get f s = Inr r" and "save j d s = (res, s')"
  shows "get f s' = Inr r"
proof (cases res)
  case (Inl e)
  with save_fails[of j d s e] assms show ?thesis by simp
next
  case (Inr x)
  obtain fid b where x: "x = (fid, b)" by force
  note sv = assms(2)[unfolded Inr x]
  show ?thesis
  proof (cases "f = fid")
    case True
    with assms(1) save_found[OF sv] show ?thesis by (auto split: if_splits)
  next
    case False
    with assms(1) save_frame[OF sv] show ?thesis by simp
  qed
qed

end

section \<open>The in-memory store\<close>

record flows =
  fs_flows :: "flow_record gomap"
  fs_order :: "string list"

record flow_meta =
  fm_Summary :: string
  fm_SizePlaces :: int
  fm_SizeTransitions :: int
  fm_Referenced :: "string list"
  fm_Provenance :: flow_provenance

definition NewMemoryAuthoredFlowRepository :: flows where
  "NewMemoryAuthoredFlowRepository = \<lparr>fs_flows = [], fs_order = []\<rparr>"

definition SaveAuthored ::
  "(string \<Rightarrow> string) \<Rightarrow> string \<Rightarrow> flow_meta \<Rightarrow> flows \<Rightarrow> (gerr + string \<times> bool) \<times> flows" where
  "SaveAuthored sha canonicalJSON d s =
     (if canonicalJSON = [] then (Inl (Plain ''synthesis: empty topology JSON''), s)
      else (let flowID = sha canonicalJSON
            in if map_of (fs_flows s) flowID \<noteq> None then (Inr (flowID, False), s)
               else (Inr (flowID, True),
                     \<lparr>fs_flows = AList.update flowID
                        \<lparr>fd_FlowID = flowID, fd_TopologyJSON = canonicalJSON, fd_Summary = fm_Summary d,
                         fd_Rejected = False, fd_RejectedReason = [], fd_SafeLintPassed = True,
                         fd_SizePlaces = fm_SizePlaces d, fd_SizeTransitions = fm_SizeTransitions d,
                         fd_Provenance = fm_Provenance d\<rparr> (fs_flows s),
                      fs_order = fs_order s @ [flowID]\<rparr>)))"

definition flow_not_found :: gerr where "flow_not_found = Plain ''synthesis: flow not found''"

definition GetByID :: "string \<Rightarrow> flows \<Rightarrow> gerr + flow_record" where
  "GetByID flowID s = (case map_of (fs_flows s) flowID of None \<Rightarrow> Inl flow_not_found | Some r \<Rightarrow> Inr r)"

definition RejectFlow :: "string \<Rightarrow> string \<Rightarrow> flows \<Rightarrow> gerr option \<times> flows" where
  "RejectFlow flowID reason s = (case map_of (fs_flows s) flowID of
     None \<Rightarrow> (Some flow_not_found, s)
   | Some r \<Rightarrow> (None, s\<lparr>fs_flows := AList.update flowID
       (r\<lparr>fd_Rejected := True, fd_RejectedReason := reason\<rparr>) (fs_flows s)\<rparr>))"

text \<open>The listing dereferences the record of every ordered ID: \<open>None\<close> is the panic on a missing one.\<close>

fun ordered_flows :: "string list \<Rightarrow> flow_record gomap \<Rightarrow> flow_record list option" where
  "ordered_flows [] m = Some []"
| "ordered_flows (i # ids) m = (case map_of m i of
     None \<Rightarrow> None
   | Some r \<Rightarrow> map_option (Cons r) (ordered_flows ids m))"

definition ListAuthored :: "int \<Rightarrow> flows \<Rightarrow> flow_record list option" where
  "ListAuthored limit s = map_option
     (\<lambda>out. let sorted = sort_key fd_FlowID out
            in if limit > 0 \<and> int (length sorted) > limit then take (nat limit) sorted else sorted)
     (ordered_flows (fs_order s) (fs_flows s))"

definition flows_ok :: "(string \<Rightarrow> string) \<Rightarrow> flows \<Rightarrow> bool" where
  "flows_ok sha s \<longleftrightarrow> distinct (map fst (fs_flows s)) \<and> fs_order s = map fst (fs_flows s) \<and>
     (\<forall>f r. map_of (fs_flows s) f = Some r \<longrightarrow> fd_FlowID r = f \<and> sha (fd_TopologyJSON r) = f)"

lemma update_new_append: "map_of m k = None \<Longrightarrow> AList.update k v m = m @ [(k, v)]"
  by (induction m) (auto split: if_splits)

lemma flows_ok_New: "flows_ok sha NewMemoryAuthoredFlowRepository"
  by (simp add: flows_ok_def NewMemoryAuthoredFlowRepository_def)

lemma flows_ok_Save:
  assumes ok: "flows_ok sha s" shows "flows_ok sha (snd (SaveAuthored sha j d s))"
proof (cases "j = [] \<or> map_of (fs_flows s) (sha j) \<noteq> None")
  case False
  then have n: "map_of (fs_flows s) (sha j) = None" "j \<noteq> []" by auto
  then have "sha j \<notin> set (map fst (fs_flows s))" by (simp add: map_of_eq_None_iff)
  with ok n show ?thesis
    by (simp add: flows_ok_def SaveAuthored_def Let_def distinct_keys_update update_conv')
      (simp add: update_new_append)
qed (use ok in \<open>auto simp: SaveAuthored_def Let_def\<close>)

lemma flows_ok_Reject:
  assumes ok: "flows_ok sha s" shows "flows_ok sha (snd (RejectFlow f why s))"
proof (cases "map_of (fs_flows s) f")
  case (Some r)
  with ok show ?thesis
    by (simp add: flows_ok_def RejectFlow_def distinct_keys_update update_conv' keys_update_existing)
qed (use ok in \<open>simp add: RejectFlow_def\<close>)

interpretation flow_memory: flow_store sha "SaveAuthored sha" GetByID RejectFlow "flows_ok sha" for sha
proof unfold_locales
  fix s j d
  show "flows_ok sha s \<Longrightarrow> flows_ok sha (snd (SaveAuthored sha j d s))" by (rule flows_ok_Save)
next
  fix f why s
  show "flows_ok sha s \<Longrightarrow> flows_ok sha (snd (RejectFlow f why s))" by (rule flows_ok_Reject)
qed (auto simp: SaveAuthored_def GetByID_def RejectFlow_def flows_ok_def Let_def split: if_splits option.splits)

lemma ordered_flows_all:
  "set ids \<subseteq> set (map fst m) \<Longrightarrow> ordered_flows ids m = Some (map (\<lambda>i. the (map_of m i)) ids)"
proof (induction ids)
  case (Cons i ids)
  then obtain r where "map_of m i = Some r" by (cases "map_of m i") (auto simp: map_of_eq_None_iff)
  with Cons show ?case by simp
qed simp

text \<open>The listing never panics, and gives every stored flow once, by ID.\<close>

lemma ListAuthored_total:
  assumes ok: "flows_ok sha s"
  shows "\<exists>out. ListAuthored 0 s = Some out \<and> sorted (map fd_FlowID out) \<and> mset out = mset (map snd (fs_flows s))"
proof -
  from ok have d: "distinct (map fst (fs_flows s))" and o: "fs_order s = map fst (fs_flows s)"
    by (simp_all add: flows_ok_def)
  have m: "map (\<lambda>i. the (map_of (fs_flows s) i)) (fs_order s) = map snd (fs_flows s)"
    using d by (auto simp: o map_of_in_set[symmetric])
  have "ordered_flows (fs_order s) (fs_flows s) = Some (map snd (fs_flows s))"
    using ordered_flows_all[of "fs_order s" "fs_flows s"] by (simp only: o m[unfolded o] subset_refl)
  then show ?thesis by (simp add: ListAuthored_def Let_def)
qed

end
