(* ===== verification/Synthesis.thy ===== *)
theory Synthesis
  imports Linter Canonical Flow_Store Fire_Instantiate
begin

text \<open>
  The synthesis subsystem put together: \<open>Bootstrap\<close> (\<open>cpn/synthesis/bootstrap.go\<close>) installs the linter,
  the canonical form, the materialiser and the digest as the hooks of the engine, and the in-memory flow
  store becomes the repository of a net. The decoder of a topology is a parameter. The facts about the
  synthesis and instantiation firings the properties rest on are here.
\<close>

section \<open>Wiring\<close>

definition decodeTopology :: "(string \<Rightarrow> gerr + cpn_topology) \<Rightarrow> string \<Rightarrow> gerr + cpn_topology" where
  "decodeTopology dec raw = (if raw = [] then Inr (Topology [] [] 0 [] [] []) else dec raw)"

definition lint_hook ::
  "(string \<Rightarrow> gerr + cpn_topology) \<Rightarrow> string \<Rightarrow> safe_port \<Rightarrow> size_cap \<Rightarrow> bool \<times> gerr option" where
  "lint_hook dec raw sp cap =
     (let r = (case decodeTopology dec raw of
          Inl e \<Rightarrow> \<lparr>li_PassedFlag = False, li_UnsafePrimitives = [], li_SizeViolations = [],
             li_SpaceViolations = [], li_UnresolvedArcs = [], li_DisallowedKinds = [],
             li_MissingTerminal = False, li_Other = [''topology decode error: '' @ err_text e]\<rparr>
        | Inr t \<Rightarrow> Lint (Some t) (Some (sf_Lookup sp)) cap)
      in (li_PassedFlag r, LintErr r))"

definition canonical_hook :: "(string \<Rightarrow> gerr + cpn_topology) \<Rightarrow> codec \<Rightarrow> string \<Rightarrow> gerr + string" where
  "canonical_hook dec cd raw = (case decodeTopology dec raw of
     Inl e \<Rightarrow> Inl e | Inr t \<Rightarrow> CanonicaliseTopology cd (Some t))"

text \<open>The panic of a duplicate registration does not occur on a sealed registry (\<open>BuildSafe_ok\<close>).\<close>

definition materialise_hook ::
  "('w, 'f) fn_pointers \<Rightarrow> (string \<Rightarrow> gerr + cpn_topology) \<Rightarrow> ('w, 'f) safe_registry \<Rightarrow> string \<Rightarrow> safe_port \<Rightarrow>
   gerr + 'w cpn" where
  "materialise_hook ptrs dec safe raw sp = (case decodeTopology dec raw of
     Inl e \<Rightarrow> Inl e
   | Inr t \<Rightarrow> (case Materialise ptrs (Some t) (Some safe) of
       None \<Rightarrow> Inl (Plain ''panic'') | Some r \<Rightarrow> map_sum id nt_Net r))"

definition digest_hook :: "(string \<Rightarrow> gerr + cpn_topology) \<Rightarrow> string \<Rightarrow> topology_digest" where
  "digest_hook dec raw = (case decodeTopology dec raw of
     Inl e \<Rightarrow> no_digest
   | Inr t \<Rightarrow> \<lparr>dg_Name = tp_ID t, dg_Role = tp_Role t, dg_SizePlaces = int (length (tp_Places t)),
        dg_SizeTransitions = int (length (tp_Transitions t)),
        dg_ReferencedPrimitives = sort (remdups (filter (\<lambda>n. n \<noteq> [])
          (concat (map (\<lambda>(k, tt). map fst (named (tt_Fields tt))) (tp_Transitions t)))))\<rparr>)"

definition Bootstrap ::
  "('w, 'f) fn_pointers \<Rightarrow> (string \<Rightarrow> gerr + cpn_topology) \<Rightarrow> codec \<Rightarrow> ('w, 'f) safe_registry \<Rightarrow> 'w env \<Rightarrow> 'w env" where
  "Bootstrap ptrs dec cd safe env = env\<lparr>en_lint := Some (lint_hook dec), en_canonicalise := Some (canonical_hook dec cd),
     en_materialise := Some (materialise_hook ptrs dec safe), en_digest := Some (digest_hook dec)\<rparr>"

definition safe_port_of :: "(safe_primitive list \<Rightarrow> string) \<Rightarrow> ('w, 'f) safe_registry \<Rightarrow> safe_port" where
  "safe_port_of json s = \<lparr>sf_Lookup = SafeLookup s, sf_Catalogue = Catalogue json s, sf_Names = SafeNames s\<rparr>"

text \<open>The in-memory store as a repository: \<open>rd\<close> and \<open>wr\<close> read and replace it in the world.\<close>

definition memory_repository ::
  "(string \<Rightarrow> string) \<Rightarrow> ('w \<Rightarrow> flows) \<Rightarrow> (flows \<Rightarrow> 'w \<Rightarrow> 'w) \<Rightarrow> 'w flow_repository" where
  "memory_repository sha rd wr =
     \<lparr>fy_SaveAuthored = (\<lambda>w j sm sp st refs prov.
        (let (r, s) = SaveAuthored sha j \<lparr>fm_Summary = sm, fm_SizePlaces = sp, fm_SizeTransitions = st,
             fm_Referenced = refs, fm_Provenance = prov\<rparr> (rd w) in (r, wr s w))),
      fy_GetByID = (\<lambda>w f. (GetByID f (rd w), w))\<rparr>"

section \<open>What synthesis stores\<close>

text \<open>An accepted reply: the linter passed it.\<close>

definition lint_passed :: "'w env \<Rightarrow> safe_port \<Rightarrow> synthesize_config \<Rightarrow> string \<Rightarrow> bool" where
  "lint_passed env safe cfg raw \<longleftrightarrow> fst (lintTopology env raw safe (sy_SizeCap cfg))"

lemma synth_loop_graded:
  assumes llm: "\<And>n w q. I n w \<Longrightarrow> I (Suc n) (snd (lk_Complete llm w q))"
  shows "synth_loop env t llm safe cfg base task c left fb tot w = (r, tot', w') \<Longrightarrow> I n w \<Longrightarrow>
    (\<exists>m \<le> n + left + 1. I m w') \<and> (\<forall>raw. r = Inr raw \<longrightarrow> lint_passed env safe cfg raw) \<and> r \<noteq> Inl None"
proof (induction left arbitrary: fb tot w n)
  case 0
  obtain x w1 where x: "lk_Complete llm w (synth_request cfg base task fb c) = (x, w1)" by force
  have "I (Suc n) w1" using llm[OF 0(2), of "synth_request cfg base task fb c"] x by simp
  then have "\<exists>m \<le> n + 0 + 1. I m w1" by (intro exI[of _ "Suc n"]) simp
  with 0(1) x show ?case
    by (auto simp: synth_loop.simps Let_def lint_passed_def routeSynthErr_def
        split: sum.splits prod.splits if_splits option.splits)
next
  case (Suc left)
  obtain x w1 where x: "lk_Complete llm w (synth_request cfg base task fb c) = (x, w1)" by force
  have i: "I (Suc n) w1" using llm[OF Suc(3), of "synth_request cfg base task fb c"] x by simp
  then have one: "\<exists>m \<le> n + Suc left + 1. I m w1" by (intro exI[of _ "Suc n"]) simp
  have rec: "(\<exists>m \<le> n + Suc left + 1. I m w') \<and> (\<forall>raw. r = Inr raw \<longrightarrow> lint_passed env safe cfg raw) \<and> r \<noteq> Inl None"
    if "synth_loop env t llm safe cfg base task c left fb2 tot2 w1 = (r, tot', w')" for fb2 tot2
    using Suc.IH[OF that i] by (simp add: add.commute)
  from Suc.prems(1) x one show ?case
    by (auto simp: synth_loop.simps[of env t llm safe cfg base task c "Suc left"] Let_def lint_passed_def
        split: sum.splits prod.splits if_splits dest!: rec[unfolded lint_passed_def])
qed

lemma synth_finish_saves:
  assumes "synth_finish env t repo cfg base topo tot w c = (out, w', c')" and "Q w"
    and "\<And>canon sm sp st refs prov. canonicaliseTopology env topo = Inr canon \<Longrightarrow>
      Q (snd (fy_SaveAuthored repo w canon sm sp st refs prov))"
  shows "Q w'"
proof (cases "canonicaliseTopology env topo")
  case (Inr canon)
  obtain r w1 where s: "synth_save env repo cfg base c canon w = (r, w1)" by force
  have "Q w1" using s assms(3)[OF Inr] by (auto simp: synth_save_def Let_def split: prod.splits) (metis snd_conv)
  then show ?thesis using assms(1) Inr s
    by (auto simp: synth_finish_def Let_def split: sum.splits prod.splits option.splits)
qed (use assms in \<open>auto simp: synth_finish_def\<close>)

lemma fireSynthesize_graded:
  assumes f: "fireSynthesize env t toks w c = (out, w', c')"
    and ports: "c_LLMClient c = Some llm" "c_FlowRepository c = Some repo" "c_SafeRegistry c = Some safe"
      "tr_SynthesizeConfig t = Some cfg"
    and start: "I 0 w"
    and llm: "\<And>n w q. I n w \<Longrightarrow> I (Suc n) (snd (lk_Complete llm w q))"
    and save: "\<And>n w raw canon sm sp st refs prov. I n w \<Longrightarrow> lint_passed env safe cfg raw \<Longrightarrow>
      canonicaliseTopology env raw = Inr canon \<Longrightarrow> I n (snd (fy_SaveAuthored repo w canon sm sp st refs prov))"
  shows "\<exists>n \<le> nat (sy_MaxCorrections cfg) + 1. I n w'"
proof -
  let ?task = "extractTaskPayload env toks" and ?base = "buildSynthesizePrompt cfg (sf_Catalogue safe) (extractTaskPayload env toks)"
  obtain r tot w1 where l: "synth_loop env t llm safe cfg ?base ?task c (nat (sy_MaxCorrections cfg)) [] 0 w = (r, tot, w1)"
    by (metis prod_cases3)
  from synth_loop_graded[of I llm, OF llm l start] obtain n where
    n: "n \<le> nat (sy_MaxCorrections cfg) + 1" "I n w1" and p: "\<And>raw. r = Inr raw \<Longrightarrow> lint_passed env safe cfg raw" by auto
  show ?thesis
  proof (cases r)
    case (Inl e)
    then show ?thesis using f ports l n by (auto simp: fireSynthesize_def Let_def)
  next
    case (Inr topo)
    then have "synth_finish env t repo cfg ?base topo tot w1 c = (out, w', c')"
      using f ports l by (simp add: fireSynthesize_def Let_def)
    from synth_finish_saves[OF this, of "I n"] n save[OF _ p[OF Inr]] show ?thesis by blast
  qed
qed

text \<open>Every stored flow is the canonical text of a topology the linter accepts, under its hash.\<close>

definition flows_linted ::
  "(string \<Rightarrow> gerr + cpn_topology) \<Rightarrow> codec \<Rightarrow> (string \<Rightarrow> string) \<Rightarrow> (string \<Rightarrow> string option) \<Rightarrow> size_cap \<Rightarrow> flows \<Rightarrow> bool" where
  "flows_linted dec cd sha safe cap s \<longleftrightarrow> (\<forall>f r. map_of (fs_flows s) f = Some r \<longrightarrow>
     f = sha (fd_TopologyJSON r) \<and> (\<exists>raw t. decodeTopology dec raw = Inr t \<and> lint_ok t safe (Resolved cap) \<and>
       CanonicaliseTopology cd (Some t) = Inr (fd_TopologyJSON r)))"

lemma lint_hook_passed:
  "fst (lint_hook dec raw sp cap) \<Longrightarrow> \<exists>t. decodeTopology dec raw = Inr t \<and> lint_ok t (sf_Lookup sp) (Resolved cap)"
  by (auto simp: lint_hook_def Let_def Lint_passed_iff split: sum.splits)

lemma flows_linted_save:
  assumes i: "flows_linted dec cd sha (sf_Lookup sp) cap s"
    and l: "fst (lint_hook dec raw sp cap)" and c: "canonical_hook dec cd raw = Inr canon"
  shows "flows_linted dec cd sha (sf_Lookup sp) cap (snd (SaveAuthored sha canon d s))"
proof -
  from lint_hook_passed[OF l] obtain t where t: "decodeTopology dec raw = Inr t" "lint_ok t (sf_Lookup sp) (Resolved cap)"
    by blast
  with c have "CanonicaliseTopology cd (Some t) = Inr canon" by (simp add: canonical_hook_def)
  with t i show ?thesis
    by (auto simp: flows_linted_def SaveAuthored_def Let_def update_conv' split: if_splits)
qed

section \<open>What instantiation runs\<close>

text \<open>The user's consent, as \<open>approve_flow\<close> establishes it: skipped, given before, given now, or no router.\<close>

definition flow_consent ::
  "'w env \<Rightarrow> 'w transition \<Rightarrow> flow_ref \<Rightarrow> flow_record \<Rightarrow> 'w \<Rightarrow> 'w cpn \<Rightarrow> bool" where
  "flow_consent env t ref r w c \<longleftrightarrow>
     (\<exists>cfg. tr_InstantiateConfig t = Some cfg \<and> in_SkipHITL cfg) \<or> HasApprovedFlow (fl_FlowID ref) c \<or>
     c_TopologyRouter c = None \<or>
     (\<exists>router s. c_TopologyRouter c = Some router \<and> ts_FlowID s = fl_FlowID ref \<and> fst (router w s) = Inr True)"

lemma approve_flow_consent:
  "approve_flow env t ref (topologyDigest env (fd_TopologyJSON r)) w c = (None, w', c') \<Longrightarrow>
   flow_consent env t ref r w c \<and> (c' = c \<or> c' = MarkFlowApproved (fl_FlowID ref) c)"
proof -
  assume a: "approve_flow env t ref (topologyDigest env (fd_TopologyJSON r)) w c = (None, w', c')"
  show ?thesis
  proof (cases "(case tr_InstantiateConfig t of None \<Rightarrow> False | Some cfg \<Rightarrow> in_SkipHITL cfg) \<or>
      HasApprovedFlow (fl_FlowID ref) c")
    case True
    with a show ?thesis by (auto simp: approve_flow_def flow_consent_def split: option.splits)
  next
    case False
    show ?thesis
    proof (cases "c_TopologyRouter c")
      case None
      with a False show ?thesis by (auto simp: approve_flow_def flow_consent_def)
    next
      case (Some router)
      let ?s = "\<lparr>ts_FlowID = fl_FlowID ref, ts_Name = dg_Name (topologyDigest env (fd_TopologyJSON r)),
        ts_Summary = fl_Summary ref, ts_SizePlaces = dg_SizePlaces (topologyDigest env (fd_TopologyJSON r)),
        ts_SizeTransitions = dg_SizeTransitions (topologyDigest env (fd_TopologyJSON r)),
        ts_ReferencedPrimitives = dg_ReferencedPrimitives (topologyDigest env (fd_TopologyJSON r))\<rparr>"
      obtain x w1 where x: "router w ?s = (x, w1)" by force
      with a False Some have "x = Inr True" "c' = MarkFlowApproved (fl_FlowID ref) c"
        by (auto simp: approve_flow_def Let_def split: sum.splits bool.splits)
      moreover have "ts_FlowID ?s = fl_FlowID ref" by simp
      ultimately show ?thesis using x Some unfolding flow_consent_def by (metis fst_conv)
    qed
  qed
qed

text \<open>The run of a child does not change the verdict on the flow.\<close>

definition with_runner :: "(int \<Rightarrow> 'w \<Rightarrow> 'w cpn \<Rightarrow> gerr option \<times> 'w \<times> 'w cpn) \<Rightarrow> 'w env \<Rightarrow> 'w env" where
  "with_runner run env = env\<lparr>en_run_child := run\<rparr>"

lemma with_runner_frame:
  "extractFlowRef (with_runner run env) toks = extractFlowRef env toks"
  "lintTopology (with_runner run env) = lintTopology env"
  "topologyDigest (with_runner run env) = topologyDigest env"
  "materialiseTopology (with_runner run env) = materialiseTopology env"
  "approve_flow (with_runner run env) = approve_flow env"
proof -
  have "payload_flow_ref (with_runner run env) = payload_flow_ref env"
    by (rule ext) (simp add: payload_flow_ref_def with_runner_def split: payload.split)
  then have "first_flow_ref (with_runner run env) toks = first_flow_ref env toks" by (induction toks) (simp_all split: option.split)
  then show "extractFlowRef (with_runner run env) toks = extractFlowRef env toks" by (simp add: extractFlowRef_def)
qed (auto simp: fun_eq_iff lintTopology_def topologyDigest_def materialiseTopology_def approve_flow_def with_runner_def)

lemma instantiate_flow_cases:
  assumes f: "instantiate_flow env t toks safe ref r w c = (out, w', c')"
  shows "(\<forall>run. instantiate_flow (with_runner run env) t toks safe ref r w c = (out, w', c')) \<and>
      c_Places c' = c_Places c \<and> fst out = [] \<and> snd (snd out) \<noteq> None \<or>
    (\<exists>child w1 c1. \<not> fd_Rejected r \<and> fst (lintTopology env (fd_TopologyJSON r) safe DefaultSizeCap) \<and>
      flow_consent env t ref r w c \<and> materialiseTopology env (fd_TopologyJSON r) safe = Inr child \<and>
      (c1 = c \<or> c1 = MarkFlowApproved (fl_FlowID ref) c) \<and> run_instance env t toks child w1 c1 = (out, w', c'))"
proof -
  obtain ok lerr where l: "lintTopology env (fd_TopologyJSON r) safe DefaultSizeCap = (ok, lerr)" by force
  obtain e w1 c1 where a: "approve_flow env t ref (topologyDigest env (fd_TopologyJSON r)) w c = (e, w1, c1)"
    by (metis prod_cases3)
  note d = instantiate_flow_def with_runner_frame l a
  consider (rejected) "fd_Rejected r" | (lint) "\<not> fd_Rejected r" "\<not> ok"
    | (declined) x where "\<not> fd_Rejected r" "ok" "e = Some x"
    | (missing) x where "\<not> fd_Rejected r" "ok" "e = None" "materialiseTopology env (fd_TopologyJSON r) safe = Inl x"
    | (run) child where "\<not> fd_Rejected r" "ok" "e = None" "materialiseTopology env (fd_TopologyJSON r) safe = Inr child"
    by (cases e; cases "materialiseTopology env (fd_TopologyJSON r) safe") auto
  then show ?thesis
  proof cases
    case run
    with f have "run_instance env t toks child w1 c1 = (out, w', c')" by (simp add: d)
    with run approve_flow_consent[OF a[unfolded run(3)]] l show ?thesis by auto
  qed (use f approve_flow_places[OF a] in \<open>auto simp: d\<close>)
qed

end
