(* ===== verification/Synthesis_Properties.thy ===== *)
theory Synthesis_Properties
  imports Synthesis Sample_Nets
begin

text \<open>
  Properties of the stored form of nets, of agent-authored topologies and of sub-nets: what a
  round trip through the serialised form keeps, what the linter accepts, what a materialised net can
  call, the identity of a flow, what is stored and what is run, and what a sub-net delivers.
\<close>

section \<open>The stored form of a net\<close>

text \<open>
  C9: A net whose functions are all registered comes back from its serialised form, nested nets and
  factories included, as \<open>stored\<close> describes; unmarshalling what was marshalled never fails.
\<close>
theorem Marshal_roundtrip:
  assumes "MarshalCPN ptrs reg n = Inr topo" and "registry_ok ptrs reg"
  shows "UnmarshalCPN reg topo = Inr (stored n)"
  using assms by (rule Marshal_round)

definition any_guard :: "token list \<Rightarrow> bool" where "any_guard ts = (ts \<noteq> [])"

definition unit_pointers :: "(nat, nat) fn_pointers" where
  "unit_pointers = \<lparr>fp_guard = (\<lambda>f. if f = any_guard then 7 else 0), fp_executor = (\<lambda>f. 0), fp_retryOn = (\<lambda>f. 0), fp_factory = (\<lambda>f. f),
     fp_eventFilter = (\<lambda>f. 0), fp_validateFn = (\<lambda>f. 0), fp_onSuccessFn = (\<lambda>f. 0)\<rparr>"

definition guard_registry :: "(nat, nat) func_registry" where
  "guard_registry = NewFuncRegistry\<lparr>fr_guards := \<lparr>ft_Fns = [(''nonempty'', any_guard)], ft_Rev = [(7, ''nonempty'')]\<rparr>\<rparr>"

definition guarded_net :: "nat cpn" where
  "guarded_net = NewCPN ''n'' ''r'' 0 ModeMAS [] [(''a'', queue_of ''a'' []), (''b'', queue_of ''b'' [])]
     [(''t'', (NewTransition ''t'' NodeKindTool [''a''] [''b''])\<lparr>tr_Guard := Some any_guard\<rparr>)]"

definition guarded_tree :: "(nat, nat) net_tree" where
  "guarded_tree = NetTree guarded_net [(''t'', NetTree guarded_net [] [])] []"

lemma guard_registry_ok: "registry_ok unit_pointers guard_registry"
  by (auto simp: registry_ok_def guard_registry_def NewFuncRegistry_def unit_pointers_def table_ok_empty
      table_ok_def table_reverse_def table_lookup_def empty_table_def split: if_splits)

lemma Marshal_guarded: "\<exists>topo. MarshalCPN unit_pointers guard_registry guarded_tree = Inr topo"
  by (simp add: guarded_tree_def guarded_net_def guard_registry_def NewFuncRegistry_def NewCPN_def
      NewTransition_def queue_of_def NewPlace_def marshalTransition_def name_of_def unit_pointers_def
      table_reverse_def empty_table_def)

theorem Marshal_roundtrip_witness:
  "\<exists>topo. MarshalCPN unit_pointers guard_registry guarded_tree = Inr topo \<and>
     UnmarshalCPN guard_registry topo = Inr (stored guarded_tree)"
  using Marshal_guarded Marshal_roundtrip[OF _ guard_registry_ok] by blast

section \<open>The linter and the materialiser\<close>


text \<open>
  C11: Materialising never panics on a registry that was built by registrations; it succeeds exactly when every
  name the topology uses, at every level, is registered under its kind and nothing else needs a function;
  and then every function a transition of the net or of a nested net can call is one of the catalogue,
  while all other hooks, the shell and the human channel included, are absent.
\<close>
theorem materialised_calls_safe:
  assumes "safe_built s"
  shows "\<exists>r. Materialise ptrs (Some t) (Some s) = Some r \<and> (isl r \<longleftrightarrow> \<not> resolvable (SafeLookup s) t) \<and>
    (\<forall>n. r = Inr n \<longrightarrow> (\<forall>tr \<in> set (tree_transitions n). safe_calls s tr) \<and>
       (\<forall>f \<in> set (tree_factories n). f \<in> snd ` set (sr_factories s)))"
proof -
  note ok = safe_built_ok[OF assms]
  obtain reg where b: "BuildSafeFuncRegistry ptrs s = Some reg" "safe_reg s reg"
    using BuildSafe_ok[OF ok] by blast
  show ?thesis
  proof (cases "UnmarshalCPN reg t")
    case (Inl e)
    with b UnmarshalCPN_ok[OF b(2) ok, of t] show ?thesis by (simp add: Materialise_def)
  next
    case (Inr n)
    with b UnmarshalCPN_ok[OF b(2) ok, of t] UnmarshalCPN_safe[OF b(2) Inr] show ?thesis
      by (simp add: Materialise_def)
  qed
qed

definition guard_primitive :: safe_primitive where
  "guard_primitive = \<lparr>sp_Name = ''nonempty'', sp_Kind = PrimitiveKindGuard, sp_Params = [], sp_Output = [], sp_CostHint = []\<rparr>"

definition guard_catalogue :: "(nat, nat) safe_registry" where
  "guard_catalogue = Seal (NewSafeRegistry\<lparr>sr_guards := [(''nonempty'', any_guard)],
     sr_primitives := [(''nonempty'', guard_primitive)]\<rparr>)"

lemma guard_catalogue_built: "safe_built guard_catalogue"
proof -
  have "RegisterSafePrimitive guard_primitive (ImplGuard any_guard) NewSafeRegistry =
      Some (NewSafeRegistry\<lparr>sr_guards := [(''nonempty'', any_guard)], sr_primitives := [(''nonempty'', guard_primitive)]\<rparr>)"
    by (simp add: RegisterSafePrimitive_def NewSafeRegistry_def guard_primitive_def)
  from built_seal[OF built_register[OF built_new this]] show ?thesis by (simp add: guard_catalogue_def)
qed

definition linted_topology :: cpn_topology where
  "linted_topology = Topology ''t'' ''r'' 0 ''mas''
     [(''a'', \<lparr>pt_ID = ''a'', pt_Color = ''JSON'', pt_Space = ''computation''\<rparr>),
      (''b'', \<lparr>pt_ID = ''b'', pt_Color = ''JSON'', pt_Space = ''computation''\<rparr>)]
     [(''g'', TransitionTopology \<lparr>tf_ID = ''g'', tf_Kind = ''tool'', tf_InputPlaces = [''a''],
         tf_OutputPlaces = [''b''], tf_ErrorPlace = [], tf_GuardFunc = ''nonempty'', tf_ExecutorFunc = [],
         tf_FactoryFunc = [], tf_EventFilterFunc = [], tf_RetryOnFunc = [], tf_SystemPrompt = [],
         tf_ToolName = [], tf_ToolParameters = [], tf_LLMConfig = None, tf_LLMTools = [],
         tf_ValidateConfig = None, tf_HITLConfig = None, tf_ObservedCPNID = [], tf_Retry = None\<rparr> None)]"

lemma linted_topology_resolvable: "resolvable (SafeLookup guard_catalogue) linted_topology"
  by (simp add: linted_topology_def names_ok_iff bare_fields_def guard_catalogue_def Seal_def NewSafeRegistry_def
      SafeLookup_def guard_primitive_def)

theorem materialised_calls_safe_witness:
  "\<exists>n. Materialise unit_pointers (Some linted_topology) (Some guard_catalogue) = Some (Inr n) \<and>
     (\<forall>tr \<in> set (tree_transitions n). safe_calls guard_catalogue tr)"
proof -
  from materialised_calls_safe[OF guard_catalogue_built, of unit_pointers linted_topology]
  obtain r where r: "Materialise unit_pointers (Some linted_topology) (Some guard_catalogue) = Some r" "\<not> isl r"
    "\<And>n. r = Inr n \<Longrightarrow> \<forall>tr \<in> set (tree_transitions n). safe_calls guard_catalogue tr"
    using linted_topology_resolvable by blast
  then show ?thesis by (cases r) auto
qed

section \<open>The identity of a flow\<close>

text \<open>
  C36: Two topologies that differ only in the iteration order of their Go maps, decoded in whatever order, have
  the same canonical text and the same hashes; so the second one to be saved gets the flow ID of the first
  and the store stays as it was.
\<close>
theorem flow_identity:
  assumes "same_topology t t'" and "same_codec cd cd'"
    and "CanonicaliseTopology cd (Some t) = Inr j" and "SaveAuthored sha j d s = (Inr (fid, b), s')"
  shows "CanonicaliseTopology cd' (Some t') = Inr j \<and> TopologyHash cd' t' = TopologyHash cd t \<and>
    SaveAuthored sha j d' s' = (Inr (fid, False), s')"
proof (intro conjI)
  show "CanonicaliseTopology cd' (Some t') = Inr j" using canonical_same(1)[OF assms(1,2)] assms(3) by simp
  show "TopologyHash cd' t' = TopologyHash cd t" using canonical_same(3)[OF assms(1,2)] by simp
  show "SaveAuthored sha j d' s' = (Inr (fid, False), s')"
    by (rule flow_memory.save_twice[OF CanonicaliseTopology_nonempty[OF assms(3)] assms(4)])
qed

definition raw_codec :: codec where
  "raw_codec = \<lparr>js_str = (\<lambda>s. s), js_int = fmt_d, js_num = (\<lambda>x. Inr []), js_llm = (\<lambda>g. Inr []),
     js_hitl = (\<lambda>g. Inr []), js_validate = (\<lambda>g. Inr []), js_retry = (\<lambda>g. Inr []),
     js_parse = (\<lambda>s. Inr JNull), js_sha = (\<lambda>s. s)\<rparr>"

definition swapped_topology :: cpn_topology where
  "swapped_topology = (case linted_topology of Topology i r d m pls trs \<Rightarrow> Topology i r d m (rev pls) trs)"

definition no_meta :: flow_meta where
  "no_meta = \<lparr>fm_Summary = [], fm_SizePlaces = 2, fm_SizeTransitions = 1, fm_Referenced = [],
     fm_Provenance = \<lparr>fw_AuthoredByCPNID = [], fw_AuthoredFromPromptHash = [], fw_SessionID = []\<rparr>\<rparr>"

lemma swapped_same: "same_topology linted_topology swapped_topology"
  unfolding swapped_topology_def linted_topology_def cpn_topology.case
  by (rule same_net) (auto simp: same_keys_def intro: same_plain)

lemma raw_codec_same: "same_codec raw_codec raw_codec"
  by (simp add: same_codec_def raw_codec_def same_JNull)

lemma linted_canonical: "\<exists>j. CanonicaliseTopology raw_codec (Some linted_topology) = Inr j"
  by (simp add: CanonicaliseTopology_def linted_topology_def raw_codec_def json_object_def canonical_fields_def
      canonical_place_def opt_str_def opt_strs_def opt_raw_def recoded_def sort_key_def)

theorem flow_identity_witness:
  "\<exists>j fid s'. SaveAuthored id j no_meta NewMemoryAuthoredFlowRepository = (Inr (fid, True), s') \<and>
     CanonicaliseTopology raw_codec (Some swapped_topology) = Inr j \<and>
     SaveAuthored id j no_meta s' = (Inr (fid, False), s')"
proof -
  from linted_canonical obtain j where j: "CanonicaliseTopology raw_codec (Some linted_topology) = Inr j" by blast
  then have "j \<noteq> []" by (rule CanonicaliseTopology_nonempty)
  then obtain fid s' where s: "SaveAuthored id j no_meta NewMemoryAuthoredFlowRepository = (Inr (fid, True), s')"
    by (simp add: SaveAuthored_def NewMemoryAuthoredFlowRepository_def)
  from flow_identity[OF swapped_same raw_codec_same j s, of no_meta] s show ?thesis by blast
qed

section \<open>What synthesis stores\<close>

text \<open>
  C35: Behind the bootstrapped hooks a synthesis firing leaves every stored flow the canonical text of a
  topology that the linter accepts against the catalogue and the size cap of the transition, whatever the
  model replies; and it asks the model at most \<open>MaxCorrections\<close> times again.
\<close>
theorem authored_flows_linted:
  assumes "fireSynthesize (Bootstrap ptrs dec cd safe env) t toks w c = (out, w', c')"
    and "c_LLMClient c = Some llm" and "c_FlowRepository c = Some (memory_repository sha rd wr)"
    and "c_SafeRegistry c = Some sp" and "tr_SynthesizeConfig t = Some cfg"
    and store: "\<And>s w. rd (wr s w) = s \<and> calls (wr s w) = calls w"
    and model: "\<And>w q. rd (snd (lk_Complete llm w q)) = rd w \<and> calls (snd (lk_Complete llm w q)) = Suc (calls w)"
    and "flows_linted dec cd sha (sf_Lookup sp) (sy_SizeCap cfg) (rd w)"
  shows "flows_linted dec cd sha (sf_Lookup sp) (sy_SizeCap cfg) (rd w') \<and>
    calls w \<le> calls w' \<and> calls w' \<le> calls w + nat (sy_MaxCorrections cfg) + 1"
proof -
  let ?I = "\<lambda>n v. flows_linted dec cd sha (sf_Lookup sp) (sy_SizeCap cfg) (rd v) \<and> calls v = calls w + n"
  have "\<exists>n \<le> nat (sy_MaxCorrections cfg) + 1. ?I n w'"
  proof (rule fireSynthesize_graded[OF assms(1-5), of ?I])
    show "?I 0 w" using assms(8) by simp
    show "\<And>n v q. ?I n v \<Longrightarrow> ?I (Suc n) (snd (lk_Complete llm v q))" using model by simp
    fix n v raw canon sm sz st refs prov
    assume "?I n v" and "lint_passed (Bootstrap ptrs dec cd safe env) sp cfg raw"
      and "canonicaliseTopology (Bootstrap ptrs dec cd safe env) raw = Inr canon"
    then show "?I n (snd (fy_SaveAuthored (memory_repository sha rd wr) v canon sm sz st refs prov))"
      using flows_linted_save[of dec cd sha sp "sy_SizeCap cfg" "rd v" raw canon] store
      by (simp add: lint_passed_def lintTopology_def canonicaliseTopology_def Bootstrap_def memory_repository_def
          split_def Let_def)
  qed
  then show ?thesis by auto
qed

definition idle_env :: "'w env" where
  "idle_env =
     \<lparr>en_now = (\<lambda>w. (0, w)), en_sleep = (\<lambda>d w. (None, w)), en_done = (\<lambda>w. (None, w)), en_ovf = 0,
      en_order = (\<lambda>w s. 0), en_render = (\<lambda>p. []), en_sprint = (\<lambda>p. []), en_sprint_plus = (\<lambda>p. []),
      en_json = (\<lambda>p. Inr []), en_mutation = (\<lambda>s. Inl (Plain [])), en_event_json = (\<lambda>e. []),
      en_json_string = (\<lambda>s. s), en_type = (\<lambda>p. []), en_host_context = (\<lambda>c. []),
      en_shell_args = (\<lambda>s. Inl (Plain [])), en_path_arg = (\<lambda>s. Inl (Plain [])), en_usd = (\<lambda>x. []),
      en_approval_json = (\<lambda>c t a r. []), en_stamp = (\<lambda>w. (''0'', w)), en_background = (\<lambda>w c. (w, c)),
      en_join = (\<lambda>w c. (w, c)), en_rand = (\<lambda>w. (Inr (replicate 16 0), w)), en_sha = (\<lambda>s. s),
      en_json_check = (\<lambda>s. None), en_flow_ref = (\<lambda>s. Inl (Plain [])), en_manifest = (\<lambda>s. Inl (Plain [])),
      en_lint = None, en_canonicalise = None, en_materialise = None, en_digest = None,
      en_run_child = (\<lambda>d w c. (None, w, c)), en_factory = (\<lambda>t. None), en_subnet = (\<lambda>t. None),
      en_spawn = (\<lambda>t c w. w)\<rparr>"

definition author_client :: "(flows \<times> nat) llm_client" where
  "author_client = \<lparr>lk_Complete = (\<lambda>w q. (Inr (text_response ''<topology>{}</topology>''), (fst w, Suc (snd w)))),
     lk_CompleteStream = (\<lambda>w q. (([], Inr (text_response [])), w)), lk_EstimateCost = (\<lambda>q. Inr 1)\<rparr>"

definition author_config :: synthesize_config where
  "author_config = \<lparr>sy_Model = ''m'', sy_SystemPrompt = ''s'', sy_MaxTokens = 9, sy_Temperature = 0,
     sy_TaskPlaceholder = [], sy_SizeCap = \<lparr>sz_MaxPlaces = 0, sz_MaxTransitions = 0, sz_MaxArcs = 0\<rparr>,
     sy_MaxCorrections = 1, sy_Summary = ''s''\<rparr>"

definition author_step :: "(flows \<times> nat) transition" where
  "author_step = (NewTransition ''s'' NodeKindSynthesize [''a''] [''b''])\<lparr>tr_SynthesizeConfig := Some author_config\<rparr>"

definition author_port :: safe_port where
  "author_port = \<lparr>sf_Lookup = SafeLookup guard_catalogue, sf_Catalogue = [], sf_Names = []\<rparr>"

definition author_net :: "(flows \<times> nat) cpn" where
  "author_net = (NewCPN ''n'' ''r'' 0 ModeMAS [] [(''b'', NewPlace ''b'' ColorFlowRef SpaceComputation)] [(''s'', author_step)])
     \<lparr>c_LLMClient := Some author_client, c_SafeRegistry := Some author_port,
      c_FlowRepository := Some (memory_repository id fst (\<lambda>s w. (s, snd w)))\<rparr>"

definition zero_pointers :: "(flows \<times> nat, nat) fn_pointers" where
  "zero_pointers = \<lparr>fp_guard = (\<lambda>f. 0), fp_executor = (\<lambda>f. 0), fp_retryOn = (\<lambda>f. 0), fp_factory = (\<lambda>f. f),
     fp_eventFilter = (\<lambda>f. 0), fp_validateFn = (\<lambda>f. 0), fp_onSuccessFn = (\<lambda>f. 0)\<rparr>"

definition author_run :: "fire_out \<times> (flows \<times> nat) \<times> (flows \<times> nat) cpn" where
  "author_run = fireSynthesize (Bootstrap zero_pointers (\<lambda>s. Inr linted_topology) raw_codec
     NewSafeRegistry idle_env) author_step [] (NewMemoryAuthoredFlowRepository, 0) author_net"

theorem authored_flows_linted_witness:
  "flows_linted (\<lambda>s. Inr linted_topology) raw_codec id (SafeLookup guard_catalogue)
     \<lparr>sz_MaxPlaces = 0, sz_MaxTransitions = 0, sz_MaxArcs = 0\<rparr> (fst (fst (snd author_run))) \<and>
   snd (fst (snd author_run)) \<le> 2"
proof -
  have e: "fireSynthesize (Bootstrap zero_pointers (\<lambda>s. Inr linted_topology) raw_codec
      NewSafeRegistry idle_env) author_step [] (NewMemoryAuthoredFlowRepository, 0) author_net =
      (fst author_run, fst (snd author_run), snd (snd author_run))"
    by (simp add: author_run_def)
  have "flows_linted (\<lambda>s. Inr linted_topology) raw_codec id (sf_Lookup author_port) (sy_SizeCap author_config)
      (fst (fst (snd author_run))) \<and> snd (NewMemoryAuthoredFlowRepository, 0 :: nat) \<le> snd (fst (snd author_run)) \<and>
      snd (fst (snd author_run)) \<le> snd (NewMemoryAuthoredFlowRepository, 0) + nat (sy_MaxCorrections author_config) + 1"
    by (rule authored_flows_linted[OF e, where rd = fst and calls = snd and wr = "\<lambda>s w. (s, snd w)" and llm = author_client])
      (simp_all add: author_net_def author_step_def author_client_def NewCPN_def NewTransition_def
        flows_linted_def NewMemoryAuthoredFlowRepository_def)
  then show ?thesis by (simp add: author_port_def author_config_def)
qed

section \<open>What instantiation runs\<close>

text \<open>
  C34: A child net runs only for a flow that the repository finds, that is not rejected, that the linter passes
  again, that the user has consented to, and that materialises. In every other case (no repository or safe
  registry, no readable flow reference and an unknown flow included) the firing fails, adds no token, and is the
  same whatever a child run would do.
\<close>
theorem instantiate_guarded:
  assumes "fireInstantiate env t toks w c = (out, w', c')"
  shows "(\<forall>run. fireInstantiate (with_runner run env) t toks w c = (out, w', c')) \<and>
      c_Places c' = c_Places c \<and> fst out = [] \<and> snd (snd out) \<noteq> None \<or>
    (\<exists>repo safe ref r w1 child w2 c2. c_FlowRepository c = Some repo \<and> c_SafeRegistry c = Some safe \<and>
      extractFlowRef env toks = Inr ref \<and> fy_GetByID repo w (fl_FlowID ref) = (Inr r, w1) \<and>
      \<not> fd_Rejected r \<and> fst (lintTopology env (fd_TopologyJSON r) safe DefaultSizeCap) \<and>
      flow_consent env t ref r w1 c \<and> materialiseTopology env (fd_TopologyJSON r) safe = Inr child \<and>
      (c2 = c \<or> c2 = MarkFlowApproved (fl_FlowID ref) c) \<and> run_instance env t toks child w2 c2 = (out, w', c'))"
proof -
  consider (unwired) "c_FlowRepository c = None \<or> c_SafeRegistry c = None"
    | (wired) repo safe where "c_FlowRepository c = Some repo" "c_SafeRegistry c = Some safe" by fastforce
  then show ?thesis
  proof cases
    case unwired
    then show ?thesis using assms by (auto simp: fireInstantiate_def with_runner_frame fail_with_def split: option.splits)
  next
    case wired
    show ?thesis
    proof (cases "extractFlowRef env toks")
      case (Inl e)
      then show ?thesis using assms wired by (auto simp: fireInstantiate_def with_runner_frame fail_with_def)
    next
      case (Inr ref)
      obtain res w1 where g: "fy_GetByID repo w (fl_FlowID ref) = (res, w1)" by force
      show ?thesis
      proof (cases res)
        case (Inl e)
        then show ?thesis using assms wired Inr g by (auto simp: fireInstantiate_def with_runner_frame fail_with_def)
      next
        case found: (Inr r)
        note step = fireInstantiate_def with_runner_frame wired Inr g found
        have "instantiate_flow env t toks safe ref r w1 c = (out, w', c')" using assms by (simp add: step)
        moreover have "fireInstantiate (with_runner run env) t toks w c =
            instantiate_flow (with_runner run env) t toks safe ref r w1 c" for run by (simp add: step)
        ultimately show ?thesis
          using instantiate_flow_cases[of env t toks safe ref r w1 c out w' c'] wired Inr g found by auto
      qed
    qed
  qed
qed

definition rejected_flow :: flow_record where
  "rejected_flow = \<lparr>fd_FlowID = ''f'', fd_TopologyJSON = ''{}'', fd_Summary = [], fd_Rejected = True,
     fd_RejectedReason = ''unsafe'', fd_SafeLintPassed = True, fd_SizePlaces = 2, fd_SizeTransitions = 1,
     fd_Provenance = fm_Provenance no_meta\<rparr>"

definition rejecting_repository :: "nat flow_repository" where
  "rejecting_repository = \<lparr>fy_SaveAuthored = (\<lambda>w j sm sp st refs prov. (Inl (Plain []), w)),
     fy_GetByID = (\<lambda>w f. (Inr rejected_flow, w))\<rparr>"

lemma rejecting_lookup: "fy_GetByID rejecting_repository w f = (Inr rejected_flow, w)"
  by (simp add: rejecting_repository_def)

definition flow_token :: token where
  "flow_token = (json_token NodeKindSynthesize [])\<lparr>tok_Color := ColorFlowRef,
     tok_Payload := PFlowRef \<lparr>fl_FlowID = ''f'', fl_Summary = []\<rparr>\<rparr>"

definition instance_net :: "nat cpn" where
  "instance_net = (NewCPN ''n'' ''r'' 0 ModeMAS [] [(''b'', queue_of ''b'' [])] [])
     \<lparr>c_FlowRepository := Some rejecting_repository, c_SafeRegistry := Some author_port\<rparr>"

definition instance_step :: "nat transition" where
  "instance_step = NewTransition ''i'' NodeKindInstantiate [''a''] [''b'']"

text \<open>A rejected flow and one that is not there.\<close>

definition empty_repository :: "nat flow_repository" where
  "empty_repository = rejecting_repository\<lparr>fy_GetByID := (\<lambda>w f. (Inl (Plain ''flow not found''), w))\<rparr>"

definition run_blind :: "nat cpn \<Rightarrow> bool" where
  "run_blind c \<longleftrightarrow> (\<forall>run. fireInstantiate (with_runner run quiet_env) instance_step [flow_token] 0 c =
     fireInstantiate quiet_env instance_step [flow_token] 0 c)"

lemma flow_token_ref: "extractFlowRef quiet_env [flow_token] = Inr \<lparr>fl_FlowID = ''f'', fl_Summary = []\<rparr>"
  by (simp add: flow_token_def json_token_def extractFlowRef_def payload_flow_ref_def)

theorem instantiate_guarded_witness:
  "run_blind instance_net \<and> run_blind (instance_net\<lparr>c_FlowRepository := Some empty_repository\<rparr>)"
proof -
  have "run_blind c" if repo: "c_FlowRepository c = Some repo"
    and no: "\<And>r w1. fy_GetByID repo 0 ''f'' = (Inr r, w1) \<Longrightarrow> fd_Rejected r" for c :: "nat cpn" and repo
  proof -
    obtain out w' c' where f: "fireInstantiate quiet_env instance_step [flow_token] 0 c = (out, w', c')"
      by (metis prod_cases3)
    then show ?thesis
      using instantiate_guarded[OF f] repo no flow_token_ref by (auto simp: run_blind_def)
  qed
  from this[of instance_net rejecting_repository] this[of _ empty_repository] show ?thesis
    by (simp add: instance_net_def NewCPN_def rejecting_repository_def empty_repository_def rejected_flow_def)
qed

section \<open>Sub-nets\<close>

text \<open>
  C13: When the run of a child has returned, every output place of the sub-net transition holds, behind what it
  held, all terminal tokens of the child in order, retyped to the place, once per mention, and the state of
  the parent is as before. A failed child leaves its error token in the error place, or a failed parent
  when there is no error place.
\<close>
theorem subnet_delivers:
  assumes "finish_subnet env t child r w parent = (w', parent')" and "map_of (c_Places parent) pid = Some p"
  shows "(r = None \<longrightarrow> c_State parent' = c_State parent \<and> c_Error parent' = c_Error parent \<and>
      map_of (c_Places parent') pid = Some (p\<lparr>pl_Tokens := pl_Tokens p @
        concat (replicate (count_list (tr_OutputPlaces t) pid) (map (retyped p) (child_outputs child)))\<rparr>)) \<and>
    (\<forall>e. r = Some e \<longrightarrow> tr_ErrorPlace t = [] \<longrightarrow> c_State parent' = StateFailed \<and>
      c_Error parent' = Some (Wrap [] (Sentinel ErrSubNetFailed) ('': '' @ err_text e))) \<and>
    (\<forall>e. r = Some e \<longrightarrow> tr_ErrorPlace t \<noteq> [] \<longrightarrow> tr_ErrorPlace t = pid \<longrightarrow> pl_Color p = ColorError \<longrightarrow>
      map_of (c_Places parent') pid =
        Some (p\<lparr>pl_Tokens := pl_Tokens p @ [child_error_token NodeKindSubNet child parent p e]\<rparr>))"
proof -
  have p': "parent' = snd (finish_subnet env t child r w parent)" using assms(1) by simp
  show ?thesis unfolding p'
    using child_completed_places[of env t child w parent pid] child_completed_state[of env t child w parent]
      child_failed_heard[of t env child _ w parent] child_failed_token[of t parent p env child _ w] assms(2) by auto
qed

definition child_of_two :: "nat cpn" where
  "child_of_two = NewCPN ''kid'' ''r'' 1 ModeMAS ''s'' [(''o'', queue_of ''o'' [ai_token, human_token])] []"

definition subnet_parent :: "nat cpn" where
  "subnet_parent = NewCPN ''n'' ''r'' 0 ModeMAS ''s'' [(''b'', queue_of ''b'' [ai_token])] []"

definition subnet_step :: "nat transition" where
  "subnet_step = NewTransition ''sub'' NodeKindSubNet [''a''] [''b'']"

theorem subnet_delivers_witness:
  "\<exists>p'. map_of (c_Places (snd (finish_subnet quiet_env subnet_step child_of_two None 0 subnet_parent))) ''b'' = Some p' \<and>
     map tok_Payload (pl_Tokens p') = [PString ''a'', PString ''a'', PString ''h'']"
proof -
  obtain w' p' where f: "finish_subnet quiet_env subnet_step child_of_two None 0 subnet_parent = (w', p')" by force
  have b: "map_of (c_Places subnet_parent) ''b'' = Some (queue_of ''b'' [ai_token])"
    by (simp add: subnet_parent_def NewCPN_def)
  from subnet_delivers[OF f b] f show ?thesis
    by (simp add: subnet_step_def NewTransition_def child_outputs_def child_of_two_def NewCPN_def TerminalPlaces_def
        queue_of_def NewPlace_def Peek_def retyped_def ai_token_def human_token_def json_token_def)
qed

text \<open>
  C14: An environment whose background is nothing but finished children keeps the typing of a net, so the
  hypotheses on the environment in the properties of a run hold for it.
\<close>
theorem subnet_background_sound:
  assumes "subnet_env env"
  shows "env_sound env \<and> env_recording env"
  using assms by (rule subnet_env_keeps)

definition family_env :: "nat env" where
  "family_env = quiet_env\<lparr>en_background := finish_subnet quiet_env subnet_step child_of_two None\<rparr>"

lemma finish_subnet_family: "finish_subnet family_env = finish_subnet quiet_env"
  by (intro ext) (simp add: finish_subnet_def child_completed_def family_env_def split: option.split)

theorem subnet_background_sound_witness: "env_sound family_env \<and> env_recording family_env"
proof (rule subnet_background_sound)
  have "children_steps family_env w c (fst (en_background family_env w c)) (snd (en_background family_env w c))" for w c
    by (rule children_more[OF children_none, of _ subnet_step child_of_two None w c])
      (simp add: finish_subnet_family, simp add: family_env_def)
  then show "subnet_env family_env"
    by (simp add: subnet_env_def) (simp add: family_env_def quiet_env_def children_none)
qed

end
