(* ===== verification/Versions.thy ===== *)
theory Versions
  imports Prelude "HOL-Library.Product_Lexorder" "HOL-Library.Option_ord"
begin

text \<open>
  Version strings and sorting by them (\<open>CompareSemver\<close>, \<open>SplitQualifiedName\<close> of
  \<open>cpn/persist/tool_registry_memory.go\<close>). \<open>slice_sort\<close> says what \<open>sort.Slice\<close> promises; the insertion sort
  that Go runs on short slices has it. On \<open>plain_version\<close>s the comparison is the order of a key, on other
  strings it is not transitive.
\<close>

section \<open>Sorting a slice by a comparison\<close>

text \<open>What \<open>sort.Slice\<close> needs of \<open>lt\<close>: a strict weak order on the elements.\<close>

definition weak_order :: "('a \<Rightarrow> 'a \<Rightarrow> bool) \<Rightarrow> 'a set \<Rightarrow> bool" where
  "weak_order lt S \<longleftrightarrow> (\<forall>x \<in> S. \<not> lt x x) \<and>
     (\<forall>x \<in> S. \<forall>y \<in> S. \<forall>z \<in> S. lt x y \<longrightarrow> lt y z \<longrightarrow> lt x z) \<and>
     (\<forall>x \<in> S. \<forall>y \<in> S. \<forall>z \<in> S. \<not> lt x y \<longrightarrow> \<not> lt y z \<longrightarrow> \<not> lt x z)"

text \<open>The documentation: the slice is permuted, and sorted when \<open>lt\<close> is such an order. It is not stable.\<close>

definition slice_sort :: "(('a \<Rightarrow> 'a \<Rightarrow> bool) \<Rightarrow> 'a list \<Rightarrow> 'a list) \<Rightarrow> bool" where
  "slice_sort srt \<longleftrightarrow> (\<forall>lt xs. mset (srt lt xs) = mset xs \<and>
     (weak_order lt (set xs) \<longrightarrow> sorted_wrt (\<lambda>x y. \<not> lt y x) (srt lt xs)))"

lemma weak_order_irrefl: "weak_order lt S \<Longrightarrow> x \<in> S \<Longrightarrow> \<not> lt x x"
  by (simp add: weak_order_def)

lemma weak_order_trans: "weak_order lt S \<Longrightarrow> x \<in> S \<Longrightarrow> y \<in> S \<Longrightarrow> z \<in> S \<Longrightarrow> lt x y \<Longrightarrow> lt y z \<Longrightarrow> lt x z"
  unfolding weak_order_def by blast

lemma weak_order_negtrans:
  "weak_order lt S \<Longrightarrow> x \<in> S \<Longrightarrow> y \<in> S \<Longrightarrow> z \<in> S \<Longrightarrow> \<not> lt x y \<Longrightarrow> \<not> lt y z \<Longrightarrow> \<not> lt x z"
  unfolding weak_order_def by blast

lemma weak_order_asym: "weak_order lt S \<Longrightarrow> x \<in> S \<Longrightarrow> y \<in> S \<Longrightarrow> lt x y \<Longrightarrow> \<not> lt y x"
  using weak_order_irrefl weak_order_trans by metis

lemma weak_order_mono: "weak_order lt S \<Longrightarrow> T \<subseteq> S \<Longrightarrow> weak_order lt T"
  unfolding weak_order_def by (meson subsetD)

lemma slice_sort_mset [simp]: "slice_sort srt \<Longrightarrow> mset (srt lt xs) = mset xs"
  by (simp add: slice_sort_def)

lemma slice_sort_set [simp]: "slice_sort srt \<Longrightarrow> set (srt lt xs) = set xs"
  by (metis slice_sort_mset set_mset_mset)

lemma slice_sort_distinct [simp]: "slice_sort srt \<Longrightarrow> distinct (srt lt xs) = distinct xs"
  by (metis slice_sort_mset mset_eq_imp_distinct_iff)

lemma slice_sort_length [simp]: "slice_sort srt \<Longrightarrow> length (srt lt xs) = length xs"
  by (metis slice_sort_mset size_mset)

lemma slice_sort_sorted:
  "slice_sort srt \<Longrightarrow> weak_order lt (set xs) \<Longrightarrow> sorted_wrt (\<lambda>x y. \<not> lt y x) (srt lt xs)"
  by (simp add: slice_sort_def)

text \<open>A comparison of keys in a linear order is one.\<close>

lemma weak_order_key:
  fixes key :: "'a \<Rightarrow> 'k :: linorder"
  assumes "\<And>x y. x \<in> S \<Longrightarrow> y \<in> S \<Longrightarrow> lt x y \<longleftrightarrow> key x < key y"
  shows "weak_order lt S"
  unfolding weak_order_def using assms by (auto simp: not_less)

lemma weak_order_key_rev:
  fixes key :: "'a \<Rightarrow> 'k :: linorder"
  assumes "\<And>x y. x \<in> S \<Longrightarrow> y \<in> S \<Longrightarrow> lt x y \<longleftrightarrow> key y < key x"
  shows "weak_order lt S"
  unfolding weak_order_def using assms by (auto simp: not_less)

text \<open>\<open>insertionSort\<close>, which \<open>sort.Slice\<close> runs on at most twelve elements: each element is swapped to
  the left while it is less than its neighbour.\<close>

fun sink :: "('a \<Rightarrow> 'a \<Rightarrow> bool) \<Rightarrow> 'a \<Rightarrow> 'a list \<Rightarrow> 'a list" where
  "sink lt x [] = [x]"
| "sink lt x (y # ys) = (if lt x y then y # sink lt x ys else x # y # ys)"

definition insertion_sort :: "('a \<Rightarrow> 'a \<Rightarrow> bool) \<Rightarrow> 'a list \<Rightarrow> 'a list" where
  "insertion_sort lt xs = rev (foldl (\<lambda>done x. sink lt x done) [] xs)"

lemma mset_sink [simp]: "mset (sink lt x ys) = add_mset x (mset ys)"
  by (induction ys) auto

lemma mset_foldl_sink [simp]: "mset (foldl (\<lambda>done x. sink lt x done) acc xs) = mset acc + mset xs"
  by (induction xs arbitrary: acc) auto

lemma sorted_sink:
  assumes "weak_order lt (insert x (set ys))" and "sorted_wrt (\<lambda>a b. \<not> lt a b) ys"
  shows "sorted_wrt (\<lambda>a b. \<not> lt a b) (sink lt x ys)"
  using assms
proof (induction ys)
  case (Cons y ys)
  note wo = Cons.prems(1)
  have set: "set (sink lt x ys) = insert x (set ys)"
    by (metis mset_sink set_mset_add_mset_insert set_mset_mset)
  have "weak_order lt (insert x (set ys))" using wo by (rule weak_order_mono) auto
  then have IH: "sorted_wrt (\<lambda>a b. \<not> lt a b) (sink lt x ys)" using Cons by simp
  show ?case
  proof (cases "lt x y")
    case True
    then have "\<not> lt y x" using weak_order_asym[OF wo, of x y] by simp
    then show ?thesis using True IH set Cons.prems(2) by auto
  next
    case False
    then have "\<forall>z \<in> set ys. \<not> lt x z" using weak_order_negtrans[OF wo, of x y] Cons.prems(2) by simp
    then show ?thesis using False Cons.prems(2) by simp
  qed
qed simp

lemma sorted_foldl_sink:
  assumes "weak_order lt (set acc \<union> set xs)" and "sorted_wrt (\<lambda>a b. \<not> lt a b) acc"
  shows "sorted_wrt (\<lambda>a b. \<not> lt a b) (foldl (\<lambda>done x. sink lt x done) acc xs)"
  using assms
proof (induction xs arbitrary: acc)
  case (Cons x xs)
  have set: "set (sink lt x acc) = insert x (set acc)"
    by (metis mset_sink set_mset_add_mset_insert set_mset_mset)
  have "weak_order lt (insert x (set acc))" using Cons.prems(1) by (rule weak_order_mono) auto
  then have "sorted_wrt (\<lambda>a b. \<not> lt a b) (sink lt x acc)" using Cons.prems(2) by (rule sorted_sink)
  moreover have "weak_order lt (set (sink lt x acc) \<union> set xs)"
    using Cons.prems(1) by (rule weak_order_mono) (auto simp: set)
  ultimately show ?case using Cons.IH by simp
qed simp

lemma insertion_slice_sort: "slice_sort insertion_sort"
  by (auto simp: slice_sort_def insertion_sort_def sorted_wrt_rev intro!: sorted_foldl_sink)

section \<open>Comparing versions\<close>

text \<open>\<open>strings.SplitN (s, ".", n)\<close> for a positive \<open>n\<close>.\<close>

fun split_n :: "nat \<Rightarrow> char \<Rightarrow> string \<Rightarrow> string list" where
  "split_n 0 c s = [s]"
| "split_n (Suc n) c s = (case cut_at c s of (a, b, True) \<Rightarrow> a # split_n n c b | _ \<Rightarrow> [s])"

text \<open>The integer of a string of ASCII digits, in 64 bits; \<open>None\<close> is \<open>false\<close>.\<close>

fun atoi_from :: "int \<Rightarrow> string \<Rightarrow> int option" where
  "atoi_from n [] = Some n"
| "atoi_from n (c # s) =
     (if c < CHR ''0'' \<or> CHR ''9'' < c then None else atoi_from (wrap64 (n * 10 + (of_char c - 48))) s)"

definition atoiSafe :: "string \<Rightarrow> int option" where
  "atoiSafe s = (if s = [] then None else atoi_from 0 s)"

definition compareNumericOrLex :: "string \<Rightarrow> string \<Rightarrow> int" where
  "compareNumericOrLex a b = (case (atoiSafe a, atoiSafe b) of
     (Some i, Some j) \<Rightarrow> (if i < j then -1 else if j < i then 1 else 0)
   | _ \<Rightarrow> (if a = b then 0 else if a < b then -1 else 1))"

text \<open>A component is a head and a tail from its first dash on; an absent component is empty.\<close>

definition version_part :: "string \<Rightarrow> nat \<Rightarrow> string" where
  "version_part v i = (let ps = split_n 2 CHR ''.'' v in if i < length ps then ps ! i else [])"

definition part_head :: "string \<Rightarrow> string" where "part_head p = takeWhile (\<lambda>c. c \<noteq> CHR ''-'') p"
definition part_tail :: "string \<Rightarrow> string" where "part_tail p = dropWhile (\<lambda>c. c \<noteq> CHR ''-'') p"

definition compare_part :: "string \<Rightarrow> string \<Rightarrow> int" where
  "compare_part a b = (let c = compareNumericOrLex (part_head a) (part_head b); s = part_tail a; t = part_tail b
     in if c \<noteq> 0 then c else if s = t then 0 else if s = [] then 1 else if t = [] then -1
        else if s < t then -1 else 1)"

fun compare_parts :: "(string \<times> string) list \<Rightarrow> int" where
  "compare_parts [] = 0"
| "compare_parts ((a, b) # ps) = (let c = compare_part a b in if c \<noteq> 0 then c else compare_parts ps)"

definition CompareSemver :: "string \<Rightarrow> string \<Rightarrow> int" where
  "CompareSemver a b = compare_parts (map (\<lambda>i. (version_part a i, version_part b i)) [0, 1, 2])"

text \<open>\<open>SplitQualifiedName\<close>: \<open>ns/name@ver\<close> or \<open>ns/name\<close>; \<open>None\<close> is \<open>ok = false\<close>.\<close>

definition SplitQualifiedName :: "string \<Rightarrow> (string \<times> string \<times> string) option" where
  "SplitQualifiedName qn = (case cut_at CHR ''/'' qn of
     (ns, rest, found) \<Rightarrow>
       if \<not> found \<or> ns = [] \<or> rest = [] then None
       else (case cut_at CHR ''@'' rest of
         (name, ver, tagged) \<Rightarrow>
           if \<not> tagged then Some (ns, rest, [])
           else if name = [] \<or> ver = [] then None
           else Some (ns, name, ver)))"

section \<open>The order of plain versions\<close>

text \<open>Every component starts with digits, or is absent.\<close>

definition plain_part :: "string \<Rightarrow> bool" where
  "plain_part p \<longleftrightarrow> part_head p = [] \<or> atoiSafe (part_head p) \<noteq> None"

definition plain_version :: "string \<Rightarrow> bool" where
  "plain_version v \<longleftrightarrow> (\<forall>i \<in> {0, 1, 2}. plain_part (version_part v i))"

type_synonym part_key = "int option \<times> bool \<times> string"

definition part_key :: "string \<Rightarrow> part_key" where
  "part_key p = (atoiSafe (part_head p), part_tail p = [], part_tail p)"

definition version_key :: "string \<Rightarrow> part_key \<times> part_key \<times> part_key" where
  "version_key v = (part_key (version_part v 0), part_key (version_part v 1), part_key (version_part v 2))"

definition sign_of :: "'k :: linorder \<Rightarrow> 'k \<Rightarrow> int" where
  "sign_of x y = (if x < y then -1 else if y < x then 1 else 0)"

lemma atoiSafe_Nil [simp]: "atoiSafe [] = None"
  by (simp add: atoiSafe_def)

lemma compareNumericOrLex_key:
  assumes "a = [] \<or> atoiSafe a \<noteq> None" and "b = [] \<or> atoiSafe b \<noteq> None"
  shows "compareNumericOrLex a b = sign_of (atoiSafe a) (atoiSafe b)"
  using assms by (cases a; cases b) (auto simp: compareNumericOrLex_def sign_of_def)

lemma sign_of_prod: "sign_of (a, b) (c, d) = (if sign_of a c \<noteq> 0 then sign_of a c else sign_of b d)"
  by (auto simp: sign_of_def less_prod_simp)

lemma compare_part_key:
  assumes "plain_part a" and "plain_part b"
  shows "compare_part a b = sign_of (part_key a) (part_key b)"
proof -
  have heads: "compareNumericOrLex (part_head a) (part_head b) = sign_of (atoiSafe (part_head a)) (atoiSafe (part_head b))"
    using assms compareNumericOrLex_key unfolding plain_part_def by blast
  have tails: "sign_of (s = [], s) (t = [], t) =
    (if s = t then 0 else if s = [] then 1 else if t = [] then -1 else if s < t then -1 else 1)" for s t :: string
    unfolding sign_of_prod by (auto simp: sign_of_def)
  show ?thesis
    unfolding compare_part_def part_key_def heads Let_def tails[symmetric] by (simp add: sign_of_prod)
qed

lemma CompareSemver_key:
  assumes "plain_version a" and "plain_version b"
  shows "CompareSemver a b = sign_of (version_key a) (version_key b)"
proof -
  have part: "compare_part (version_part a i) (version_part b i) =
    sign_of (part_key (version_part a i)) (part_key (version_part b i))" if "i \<in> {0, 1, 2}" for i
    using that assms unfolding plain_version_def by (blast intro: compare_part_key)
  show ?thesis
    using part[of 0] part[of 1] part[of 2]
    unfolding CompareSemver_def version_key_def sign_of_prod by (simp add: Let_def)
qed

lemma sign_of_less [simp]: "sign_of x y < 0 \<longleftrightarrow> x < y" "0 < sign_of x y \<longleftrightarrow> y < x"
  by (auto simp: sign_of_def)

lemma sign_of_eq [simp]: "sign_of x y = 0 \<longleftrightarrow> x = y"
  by (auto simp: sign_of_def)

lemma sign_of_swap: "sign_of x y = - sign_of y x"
  by (auto simp: sign_of_def)

end
