(* ===== verification/Tool_Store.thy ===== *)
theory Tool_Store
  imports Versions Synthesis_Types
begin

text \<open>
  The persistent side of the tool registry: the rows and the repository port of
  \<open>cpn/persist/tool_registry.go\<close> and the in-memory repository of \<open>tool_registry_memory.go\<close>. A time is an
  integer and the zero time is \<open>0\<close>; an operation that reads the clock takes its value. The locale
  \<open>tool_repository\<close> is the contract the registry relies on; the in-memory repository interprets it.
\<close>

record tool_row =
  tw_ID :: string
  tw_Namespace :: string
  tw_Name :: string
  tw_Version :: string
  tw_Schema :: string
  tw_HelpText :: string
  tw_ManPage :: string
  tw_BinaryPath :: string
  tw_BinarySHA256 :: string
  tw_Origin :: string
  tw_Provenance :: provenance
  tw_RegisteredAt :: int
  tw_RegisteredBy :: string
  tw_Deprecated :: bool
  tw_DeprecatedAt :: int
  tw_DeprecationReason :: string

definition row_qualified :: "tool_row \<Rightarrow> string" where
  "row_qualified e = tw_Namespace e @ ''/'' @ tw_Name e @ ''@'' @ tw_Version e"

definition ErrToolDuplicate :: gerr where "ErrToolDuplicate = Plain ''persist: tool already registered''"
definition ErrToolNotFound :: gerr where "ErrToolNotFound = Plain ''persist: tool not found''"
definition ErrPersistInvalidInput :: gerr where "ErrPersistInvalidInput = Plain ''persist: invalid input''"

text \<open>The operations of the port that the registry calls, on the state \<open>'r\<close> of the repository.\<close>

record 'r tool_port =
  tp_Upsert :: "int \<Rightarrow> tool_row \<Rightarrow> 'r \<Rightarrow> gerr option \<times> 'r"
  tp_ListAll :: "'r \<Rightarrow> gerr + tool_row list"
  tp_Deprecate :: "int \<Rightarrow> string \<Rightarrow> string \<Rightarrow> 'r \<Rightarrow> gerr option \<times> 'r"
  tp_Delete :: "string \<Rightarrow> 'r \<Rightarrow> gerr option \<times> 'r"

definition row_deprecated :: "int \<Rightarrow> string \<Rightarrow> tool_row \<Rightarrow> tool_row" where
  "row_deprecated now reason e = e\<lparr>tw_Deprecated := True, tw_DeprecatedAt := now, tw_DeprecationReason := reason\<rparr>"

lemma row_deprecated_simps [simp]:
  "row_qualified (row_deprecated now reason e) = row_qualified e"
  "tw_Namespace (row_deprecated now reason e) = tw_Namespace e"
  "tw_Name (row_deprecated now reason e) = tw_Name e"
  "tw_Version (row_deprecated now reason e) = tw_Version e"
  by (simp_all add: row_deprecated_def row_qualified_def)

definition row_valid :: "tool_row \<Rightarrow> bool" where
  "row_valid e \<longleftrightarrow> tw_Namespace e \<noteq> [] \<and> tw_Name e \<noteq> [] \<and> tw_Version e \<noteq> []"

section \<open>The contract\<close>

locale tool_repository =
  fixes port :: "'r tool_port" and lookup :: "'r \<Rightarrow> string \<Rightarrow> tool_row option" and inv :: "'r \<Rightarrow> bool"
  assumes upsert_new: "inv s \<Longrightarrow> row_valid e \<Longrightarrow> tw_RegisteredAt e \<noteq> 0 \<Longrightarrow> lookup s (row_qualified e) = None \<Longrightarrow>
      \<exists>s'. tp_Upsert port now e s = (None, s') \<and> inv s' \<and> lookup s' = (lookup s)(row_qualified e \<mapsto> e)"
    and upsert_fails: "inv s \<Longrightarrow> tp_Upsert port now e s = (Some err, s') \<Longrightarrow> s' = s"
    and upsert_taken: "inv s \<Longrightarrow> lookup s (row_qualified e) \<noteq> None \<Longrightarrow> fst (tp_Upsert port now e s) \<noteq> None"
    and deprecate_some: "inv s \<Longrightarrow> lookup s qn = Some e \<Longrightarrow>
      \<exists>s'. tp_Deprecate port now qn reason s = (None, s') \<and> inv s' \<and>
           lookup s' = (lookup s)(qn \<mapsto> row_deprecated now reason e)"
    and deprecate_none: "inv s \<Longrightarrow> lookup s qn = None \<Longrightarrow> tp_Deprecate port now qn reason s = (Some ErrToolNotFound, s)"
    and delete_some: "inv s \<Longrightarrow> lookup s qn = Some e \<Longrightarrow>
      \<exists>s'. tp_Delete port qn s = (None, s') \<and> inv s' \<and> lookup s' = (lookup s)(qn := None)"
    and delete_none: "inv s \<Longrightarrow> lookup s qn = None \<Longrightarrow> tp_Delete port qn s = (Some ErrToolNotFound, s)"
    and list_all: "inv s \<Longrightarrow> \<exists>rows. tp_ListAll port s = Inr rows \<and> distinct (map row_qualified rows) \<and>
      (\<forall>e. e \<in> set rows \<longleftrightarrow> lookup s (row_qualified e) = Some e)"
    and lookup_key: "inv s \<Longrightarrow> lookup s qn = Some e \<Longrightarrow> row_qualified e = qn \<and> row_valid e"
begin

text \<open>What a listing says about the table.\<close>

lemma list_all_map:
  assumes "inv s"
  obtains rows where "tp_ListAll port s = Inr rows" "distinct (map row_qualified rows)"
    "\<And>qn. map_of (map (\<lambda>e. (row_qualified e, e)) rows) qn = lookup s qn"
proof -
  obtain rows where rows: "tp_ListAll port s = Inr rows" "distinct (map row_qualified rows)"
    "\<And>e. e \<in> set rows \<longleftrightarrow> lookup s (row_qualified e) = Some e" using list_all[OF assms] by blast
  have "map_of (map (\<lambda>e. (row_qualified e, e)) rows) qn = lookup s qn" for qn
  proof (cases "lookup s qn")
    case None
    with rows(3) have "qn \<notin> fst ` set (map (\<lambda>e. (row_qualified e, e)) rows)" by auto
    then show ?thesis using None by (simp add: map_of_eq_None_iff)
  next
    case (Some e)
    then have "e \<in> set rows" "row_qualified e = qn" using rows(3) lookup_key[OF assms] by auto
    then have "(qn, e) \<in> set (map (\<lambda>e. (row_qualified e, e)) rows)" by force
    moreover have "distinct (map fst (map (\<lambda>e. (row_qualified e, e)) rows))" using rows(2) by (simp add: comp_def)
    ultimately show ?thesis using Some by (simp add: map_of_is_SomeI)
  qed
  then show thesis using that rows by blast
qed

end

section \<open>The in-memory repository\<close>

type_synonym tool_rows = "tool_row gomap"

definition UpsertRow :: "int \<Rightarrow> tool_row \<Rightarrow> tool_rows \<Rightarrow> gerr option \<times> tool_rows" where
  "UpsertRow now e m =
     (if tw_Namespace e = [] \<or> tw_Name e = [] \<or> tw_Version e = [] then (Some ErrPersistInvalidInput, m)
      else if map_of m (row_qualified e) \<noteq> None then (Some ErrToolDuplicate, m)
      else (None, AList.update (row_qualified e)
              (if tw_RegisteredAt e = 0 then e\<lparr>tw_RegisteredAt := now\<rparr> else e) m))"

definition GetRowVersion :: "string \<Rightarrow> string \<Rightarrow> string \<Rightarrow> tool_rows \<Rightarrow> gerr + tool_row" where
  "GetRowVersion ns name ver m = (case map_of m (ns @ ''/'' @ name @ ''@'' @ ver) of
     None \<Rightarrow> Inl ErrToolNotFound | Some e \<Rightarrow> Inr e)"

text \<open>The less function of \<open>sortEntriesStable\<close>, and the listing operations.\<close>

definition row_less :: "tool_row \<Rightarrow> tool_row \<Rightarrow> bool" where
  "row_less a b = (if tw_Namespace a \<noteq> tw_Namespace b then tw_Namespace a < tw_Namespace b
     else if tw_Name a \<noteq> tw_Name b then tw_Name a < tw_Name b
     else CompareSemver (tw_Version a) (tw_Version b) < 0)"

type_synonym row_sort = "(tool_row \<Rightarrow> tool_row \<Rightarrow> bool) \<Rightarrow> tool_row list \<Rightarrow> tool_row list"

definition ListRowsByNamespace :: "row_sort \<Rightarrow> string \<Rightarrow> tool_rows \<Rightarrow> tool_row list" where
  "ListRowsByNamespace srt ns m = srt row_less (filter (\<lambda>e. tw_Namespace e = ns) (map snd m))"

definition ListAllRows :: "row_sort \<Rightarrow> tool_rows \<Rightarrow> tool_row list" where
  "ListAllRows srt m = srt row_less (map snd m)"

definition DeprecateRow :: "int \<Rightarrow> string \<Rightarrow> string \<Rightarrow> tool_rows \<Rightarrow> gerr option \<times> tool_rows" where
  "DeprecateRow now qn reason m = (case map_of m qn of
     None \<Rightarrow> (Some ErrToolNotFound, m)
   | Some e \<Rightarrow> (None, AList.update qn
       (e\<lparr>tw_Deprecated := True, tw_DeprecatedAt := now, tw_DeprecationReason := reason\<rparr>) m))"

definition LatestRow :: "row_sort \<Rightarrow> string \<Rightarrow> string \<Rightarrow> tool_rows \<Rightarrow> gerr + tool_row" where
  "LatestRow srt ns name m =
     (case srt (\<lambda>a b. 0 < CompareSemver (tw_Version a) (tw_Version b))
             (filter (\<lambda>e. tw_Namespace e = ns \<and> tw_Name e = name \<and> \<not> tw_Deprecated e) (map snd m)) of
        [] \<Rightarrow> Inl ErrToolNotFound
      | e # _ \<Rightarrow> Inr e)"

definition DeleteRow :: "string \<Rightarrow> tool_rows \<Rightarrow> gerr option \<times> tool_rows" where
  "DeleteRow qn m = (if map_of m qn = None then (Some ErrToolNotFound, m) else (None, AList.delete qn m))"

definition GetRow :: "row_sort \<Rightarrow> string \<Rightarrow> tool_rows \<Rightarrow> gerr + tool_row" where
  "GetRow srt qn m = (case SplitQualifiedName qn of
     None \<Rightarrow> Inl ErrPersistInvalidInput
   | Some (ns, name, ver) \<Rightarrow> (if ver \<noteq> [] then GetRowVersion ns name ver m else LatestRow srt ns name m))"

definition memory_tools :: "row_sort \<Rightarrow> tool_rows tool_port" where
  "memory_tools srt = \<lparr>tp_Upsert = UpsertRow, tp_ListAll = (\<lambda>m. Inr (ListAllRows srt m)),
     tp_Deprecate = DeprecateRow, tp_Delete = DeleteRow\<rparr>"

definition rows_ok :: "tool_rows \<Rightarrow> bool" where
  "rows_ok m \<longleftrightarrow> distinct (map fst m) \<and> (\<forall>(k, e) \<in> set m. row_qualified e = k \<and> row_valid e)"

lemma rows_ok_Nil [simp]: "rows_ok []"
  by (simp add: rows_ok_def)

lemma rows_ok_lookup: "rows_ok m \<Longrightarrow> map_of m k = Some e \<Longrightarrow> row_qualified e = k \<and> row_valid e"
  by (auto simp: rows_ok_def dest: map_of_SomeD)

lemma rows_ok_update:
  "rows_ok m \<Longrightarrow> row_qualified e = k \<Longrightarrow> row_valid e \<Longrightarrow> rows_ok (AList.update k e m)"
  using set_update_subset[of k e m] by (auto simp: rows_ok_def distinct_keys_update)

lemma delete_set_subset_in: "x \<in> set (AList.delete k m) \<Longrightarrow> x \<in> set m"
  by (induction m) (auto split: if_splits)

lemma rows_ok_delete: "rows_ok m \<Longrightarrow> rows_ok (AList.delete k m)"
  by (auto simp: rows_ok_def distinct_delete dest: delete_set_subset_in)

lemma map_of_update_fun: "map_of (AList.update k v m) = (map_of m)(k \<mapsto> v)"
  by (simp add: update_conv')

lemma map_of_delete_fun: "map_of (AList.delete k m) = (map_of m)(k := None)"
  by (simp add: delete_conv')

text \<open>The sort is only used to permute here, so its contract is a parameter of the interpretation.\<close>

lemma memory_tools_repository:
  assumes srt: "slice_sort srt"
  shows "tool_repository (memory_tools srt) map_of rows_ok"
proof
  fix s :: tool_rows
  assume ok: "rows_ok s"
  have rows: "e \<in> set (map snd s) \<longleftrightarrow> map_of s (row_qualified e) = Some e" for e
  proof
    assume "e \<in> set (map snd s)"
    then obtain k where k: "(k, e) \<in> set s" by auto
    then have "row_qualified e = k" using ok by (auto simp: rows_ok_def)
    then show "map_of s (row_qualified e) = Some e" using k ok by (simp add: rows_ok_def)
  next
    assume "map_of s (row_qualified e) = Some e"
    then show "e \<in> set (map snd s)" by (force dest: map_of_SomeD)
  qed
  have "map row_qualified (map snd s) = map fst s"
    using ok by (auto simp: rows_ok_def)
  then have "distinct (map row_qualified (map snd s))" using ok by (simp only: rows_ok_def)
  moreover have "mset (map row_qualified (srt row_less (map snd s))) = mset (map row_qualified (map snd s))"
    using srt by (simp only: mset_map slice_sort_mset)
  ultimately have "distinct (map row_qualified (srt row_less (map snd s)))"
    using mset_eq_imp_distinct_iff by blast
  then show "\<exists>rows. tp_ListAll (memory_tools srt) s = Inr rows \<and> distinct (map row_qualified rows) \<and>
      (\<forall>e. e \<in> set rows \<longleftrightarrow> map_of s (row_qualified e) = Some e)"
    using rows slice_sort_set[OF srt, of row_less "map snd s"]
    by (auto simp: memory_tools_def ListAllRows_def simp del: set_map)
next
  fix s :: tool_rows and e now
  assume "rows_ok s" "row_valid e" "tw_RegisteredAt e \<noteq> 0" "map_of s (row_qualified e) = None"
  then show "\<exists>s'. tp_Upsert (memory_tools srt) now e s = (None, s') \<and> rows_ok s' \<and>
      map_of s' = (map_of s)(row_qualified e \<mapsto> e)"
    by (simp add: memory_tools_def UpsertRow_def row_valid_def map_of_update_fun rows_ok_update)
next
  fix s :: tool_rows and e now err s'
  assume "tp_Upsert (memory_tools srt) now e s = (Some err, s')"
  then show "s' = s" by (simp add: memory_tools_def UpsertRow_def split: if_splits)
next
  fix s :: tool_rows and e now
  assume "map_of s (row_qualified e) \<noteq> None"
  then show "fst (tp_Upsert (memory_tools srt) now e s) \<noteq> None" by (auto simp: memory_tools_def UpsertRow_def)
next
  fix s :: tool_rows and qn e now reason
  assume ok: "rows_ok s" and at: "map_of s qn = Some e"
  have "rows_ok (AList.update qn (row_deprecated now reason e) s)"
    using rows_ok_lookup[OF ok at] by (intro rows_ok_update[OF ok]) (simp_all add: row_valid_def)
  then show "\<exists>s'. tp_Deprecate (memory_tools srt) now qn reason s = (None, s') \<and> rows_ok s' \<and>
      map_of s' = (map_of s)(qn \<mapsto> row_deprecated now reason e)"
    using at by (simp add: memory_tools_def DeprecateRow_def map_of_update_fun row_deprecated_def)
next
  fix s :: tool_rows and qn now reason
  assume "map_of s qn = None"
  then show "tp_Deprecate (memory_tools srt) now qn reason s = (Some ErrToolNotFound, s)"
    by (simp add: memory_tools_def DeprecateRow_def)
next
  fix s :: tool_rows and qn e
  assume "rows_ok s" "map_of s qn = Some e"
  then show "\<exists>s'. tp_Delete (memory_tools srt) qn s = (None, s') \<and> rows_ok s' \<and> map_of s' = (map_of s)(qn := None)"
    by (simp add: memory_tools_def DeleteRow_def map_of_delete_fun rows_ok_delete)
next
  fix s :: tool_rows and qn
  assume "map_of s qn = None"
  then show "tp_Delete (memory_tools srt) qn s = (Some ErrToolNotFound, s)"
    by (simp add: memory_tools_def DeleteRow_def)
next
  fix s :: tool_rows and qn e
  assume "rows_ok s" "map_of s qn = Some e"
  then show "row_qualified e = qn \<and> row_valid e" by (rule rows_ok_lookup)
qed

interpretation memory_repo: tool_repository "memory_tools insertion_sort" map_of rows_ok
  by (rule memory_tools_repository[OF insertion_slice_sort])

end
