(* ===== verification/Tool_Registry.thy ===== *)
theory Tool_Registry
  imports Tool_Store Topology
begin

text \<open>
  The runtime tool registry, \<open>cpn/tools/registry.go\<close> with the errors of \<open>errors.go\<close>. Entries are shared by
  pointer between the index by anchor and the index by qualified name, and \<open>Deprecate\<close> writes through the
  pointer, so the state has a heap and the indexes hold addresses; entries are never freed. The executor
  of a tool is a value \<open>'x\<close>, the wired repository works on a state \<open>'r\<close> that the operations thread.
  \<open>RegisterEntry\<close>, \<open>Deprecate\<close> and \<open>Unregister\<close> release the lock while they call the repository; they are
  composed of one definition per locked section. A listener is a list of the events it got.
\<close>

section \<open>Errors\<close>

datatype registry_code =
  CodeDuplicate | CodeNotFound | CodeSchemaInvalid | CodeBinaryDrift | CodeInvalidInput | CodeForbidden

fun code_str :: "registry_code \<Rightarrow> string" where
  "code_str CodeDuplicate = ''ErrDuplicate''"
| "code_str CodeNotFound = ''ErrNotFound''"
| "code_str CodeSchemaInvalid = ''ErrSchemaInvalid''"
| "code_str CodeBinaryDrift = ''ErrBinaryDrift''"
| "code_str CodeInvalidInput = ''ErrInvalidInput''"
| "code_str CodeForbidden = ''ErrForbidden''"

record registry_error =
  re_Code :: registry_code
  re_Message :: string
  re_Err :: "gerr option"

definition wrapErr :: "registry_code \<Rightarrow> string \<Rightarrow> gerr option \<Rightarrow> registry_error" where
  "wrapErr code msg err = \<lparr>re_Code = code, re_Message = msg, re_Err = err\<rparr>"

text \<open>The error as an \<open>error\<close>: its text and what it wraps.\<close>

definition registry_err :: "registry_error \<Rightarrow> gerr" where
  "registry_err e = (case re_Err e of
     Some w \<Rightarrow> Wrap (code_str (re_Code e) @ '': '' @ re_Message e @ '': '') w []
   | None \<Rightarrow> Plain (if re_Message e = [] then code_str (re_Code e) else code_str (re_Code e) @ '': '' @ re_Message e))"

definition ErrToolAlreadyRegistered :: gerr where "ErrToolAlreadyRegistered = Plain ''tool already registered''"
definition ErrSystemNamespaceSealed :: gerr where "ErrSystemNamespaceSealed = Plain ''system namespace is sealed''"
definition ErrInvalidToolSchema :: gerr where "ErrInvalidToolSchema = Plain ''invalid tool schema''"

section \<open>Entries\<close>

record tool_schema =
  sm_Name :: string
  sm_Namespace :: string
  sm_Description :: string
  sm_InputColor :: color
  sm_OutputColor :: color
  sm_Parameters :: string
  sm_RequiresHITL :: bool
  sm_Version :: string

record 'x tool_entry =
  et_Schema :: "tool_schema option"
  et_Executor :: "'x option"
  et_ID :: string
  et_Namespace :: string
  et_Name :: string
  et_Version :: string
  et_JSONSchema :: string
  et_HelpText :: string
  et_ManPage :: string
  et_BinaryPath :: string
  et_BinarySHA256 :: string
  et_Origin :: string
  et_Provenance :: provenance
  et_RegisteredAt :: int
  et_RegisteredBy :: string
  et_Deprecated :: bool
  et_DeprecatedAt :: int
  et_DeprecationReason :: string

definition OriginBuiltin :: string where "OriginBuiltin = ''builtin''"
definition OriginAgentAuthored :: string where "OriginAgentAuthored = ''agent-authored''"

definition schema_qualified :: "tool_schema \<Rightarrow> string" where
  "schema_qualified s = sm_Namespace s @ ''/'' @ sm_Name s"

definition resolveNS :: "'x tool_entry \<Rightarrow> string \<times> string" where
  "resolveNS e =
     ((case et_Schema e of Some s \<Rightarrow> if et_Namespace e = [] then sm_Namespace s else et_Namespace e | None \<Rightarrow> et_Namespace e),
      (case et_Schema e of Some s \<Rightarrow> if et_Name e = [] then sm_Name s else et_Name e | None \<Rightarrow> et_Name e))"

definition QualifiedName :: "'x tool_entry \<Rightarrow> string" where
  "QualifiedName e = (case resolveNS e of (ns, name) \<Rightarrow>
     if et_Version e \<noteq> [] then ns @ ''/'' @ name @ ''@'' @ et_Version e else ns @ ''/'' @ name)"

definition Anchor :: "'x tool_entry \<Rightarrow> string" where
  "Anchor e = (case resolveNS e of (ns, name) \<Rightarrow> ns @ ''/'' @ name)"

definition toPersistEntry :: "'x tool_entry \<Rightarrow> tool_row" where
  "toPersistEntry e = \<lparr>tw_ID = et_ID e, tw_Namespace = et_Namespace e, tw_Name = et_Name e,
     tw_Version = et_Version e, tw_Schema = et_JSONSchema e, tw_HelpText = et_HelpText e, tw_ManPage = et_ManPage e,
     tw_BinaryPath = et_BinaryPath e, tw_BinarySHA256 = et_BinarySHA256 e, tw_Origin = et_Origin e,
     tw_Provenance = et_Provenance e, tw_RegisteredAt = et_RegisteredAt e, tw_RegisteredBy = et_RegisteredBy e,
     tw_Deprecated = et_Deprecated e, tw_DeprecatedAt = et_DeprecatedAt e,
     tw_DeprecationReason = et_DeprecationReason e\<rparr>"

definition bare_schema :: "string \<Rightarrow> string \<Rightarrow> string \<Rightarrow> string \<Rightarrow> string \<Rightarrow> tool_schema" where
  "bare_schema name ns descr params ver = \<lparr>sm_Name = name, sm_Namespace = ns, sm_Description = descr,
     sm_InputColor = ColorOther [], sm_OutputColor = ColorOther [], sm_Parameters = params,
     sm_RequiresHITL = False, sm_Version = ver\<rparr>"

definition fromPersistEntry :: "tool_row \<Rightarrow> 'x tool_entry" where
  "fromPersistEntry row = \<lparr>et_Schema = Some (bare_schema (tw_Name row) (tw_Namespace row) (tw_HelpText row)
       (tw_Schema row) (tw_Version row)), et_Executor = None,
     et_ID = tw_ID row, et_Namespace = tw_Namespace row, et_Name = tw_Name row, et_Version = tw_Version row,
     et_JSONSchema = tw_Schema row, et_HelpText = tw_HelpText row, et_ManPage = tw_ManPage row,
     et_BinaryPath = tw_BinaryPath row, et_BinarySHA256 = tw_BinarySHA256 row, et_Origin = tw_Origin row,
     et_Provenance = tw_Provenance row, et_RegisteredAt = tw_RegisteredAt row,
     et_RegisteredBy = tw_RegisteredBy row, et_Deprecated = tw_Deprecated row,
     et_DeprecatedAt = tw_DeprecatedAt row, et_DeprecationReason = tw_DeprecationReason row\<rparr>"

section \<open>The registry\<close>

datatype tool_event_type = ToolRegistered | ToolDeprecated | ToolDeprecationWarning

record tool_event =
  ge_Type :: tool_event_type
  ge_QualifiedName :: string
  ge_Entry :: nat
  ge_Reason :: string

record ('x, 'r) tool_registry =
  rg_heap :: "'x tool_entry list"
  rg_byAnchor :: "nat list gomap"
  rg_byQualified :: "nat gomap"
  rg_sealed :: bool
  rg_repo :: "'r tool_port option"
  rg_emit :: "tool_event list option"

type_synonym address_sort = "(nat \<Rightarrow> nat \<Rightarrow> bool) \<Rightarrow> nat list \<Rightarrow> nat list"

definition NewRegistry :: "('x, 'r) tool_registry" where
  "NewRegistry = \<lparr>rg_heap = [], rg_byAnchor = [], rg_byQualified = [], rg_sealed = False, rg_repo = None, rg_emit = None\<rparr>"

definition emit_tool :: "tool_event \<Rightarrow> ('x, 'r) tool_registry \<Rightarrow> ('x, 'r) tool_registry" where
  "emit_tool ev r = r\<lparr>rg_emit := map_option (\<lambda>evs. evs @ [ev]) (rg_emit r)\<rparr>"

definition anchored :: "string \<Rightarrow> ('x, 'r) tool_registry \<Rightarrow> nat list" where
  "anchored anchor r = (case map_of (rg_byAnchor r) anchor of None \<Rightarrow> [] | Some l \<Rightarrow> l)"

definition newer :: "'x tool_entry list \<Rightarrow> nat \<Rightarrow> nat \<Rightarrow> bool" where
  "newer heap i j \<longleftrightarrow> 0 < CompareSemver (et_Version (heap ! i)) (et_Version (heap ! j))"

definition appendSortedDesc :: "address_sort \<Rightarrow> 'x tool_entry list \<Rightarrow> nat list \<Rightarrow> nat \<Rightarrow> nat list" where
  "appendSortedDesc srt heap l a = srt (newer heap) (l @ [a])"

definition pickLatestNonDeprecated :: "'x tool_entry list \<Rightarrow> nat list \<Rightarrow> nat option" where
  "pickLatestNonDeprecated heap l = find (\<lambda>a. \<not> et_Deprecated (heap ! a)) l"

definition insertLocked :: "address_sort \<Rightarrow> 'x tool_entry \<Rightarrow> ('x, 'r) tool_registry \<Rightarrow> ('x, 'r) tool_registry" where
  "insertLocked srt e r =
     (let e1 = (if et_Version e = [] then e\<lparr>et_Version := ''0.1.0''\<rparr> else e);
          a = length (rg_heap r); heap = rg_heap r @ [e1]
      in r\<lparr>rg_heap := heap, rg_byQualified := AList.update (QualifiedName e1) a (rg_byQualified r),
           rg_byAnchor := AList.update (Anchor e1) (appendSortedDesc srt heap (anchored (Anchor e1) r) a) (rg_byAnchor r)\<rparr>)"

definition removeLocked :: "nat \<Rightarrow> ('x, 'r) tool_registry \<Rightarrow> ('x, 'r) tool_registry" where
  "removeLocked a r =
     (let e = rg_heap r ! a; kept = filter (\<lambda>b. b \<noteq> a) (anchored (Anchor e) r)
      in r\<lparr>rg_byQualified := AList.delete (QualifiedName e) (rg_byQualified r),
           rg_byAnchor := (if kept = [] then AList.delete (Anchor e) (rg_byAnchor r)
                           else AList.update (Anchor e) kept (rg_byAnchor r))\<rparr>)"

definition resolveLocked :: "string \<Rightarrow> ('x, 'r) tool_registry \<Rightarrow> nat option" where
  "resolveLocked qn r = (case map_of (rg_byQualified r) qn of
     Some a \<Rightarrow> Some a
   | None \<Rightarrow> (case anchored qn r of
       [] \<Rightarrow> None
     | a # l \<Rightarrow> (case pickLatestNonDeprecated (rg_heap r) (a # l) of Some b \<Rightarrow> Some b | None \<Rightarrow> Some a)))"

text \<open>Loading the rows of a repository.\<close>

definition BootstrapTools ::
  "address_sort \<Rightarrow> 'r tool_port option \<Rightarrow> 'r \<Rightarrow> ('x, 'r) tool_registry \<Rightarrow> gerr option \<times> ('x, 'r) tool_registry" where
  "BootstrapTools srt repo s r = (case repo of
     None \<Rightarrow> (Some (Plain ''tools: Bootstrap: nil repository''), r)
   | Some port \<Rightarrow> (case tp_ListAll port s of
       Inl e \<Rightarrow> (Some (Wrap ''tools: Bootstrap: list all: '' e []), r)
     | Inr rows \<Rightarrow> (None, foldl (\<lambda>r row. insertLocked srt (fromPersistEntry row) r) (r\<lparr>rg_repo := repo\<rparr>) rows)))"

definition anchorBuiltinLocked :: "string \<Rightarrow> ('x, 'r) tool_registry \<Rightarrow> nat option" where
  "anchorBuiltinLocked anchor r =
     find (\<lambda>a. et_Origin (rg_heap r ! a) = OriginBuiltin \<or> et_Origin (rg_heap r ! a) = []) (anchored anchor r)"

definition builtin_entry :: "tool_schema \<Rightarrow> 'x option \<Rightarrow> string \<Rightarrow> int \<Rightarrow> 'x tool_entry" where
  "builtin_entry s exec uuid now = \<lparr>et_Schema = Some s, et_Executor = exec, et_ID = uuid,
     et_Namespace = sm_Namespace s, et_Name = sm_Name s,
     et_Version = (if sm_Version s = [] then ''0.1.0'' else sm_Version s), et_JSONSchema = sm_Parameters s,
     et_HelpText = sm_Description s, et_ManPage = [], et_BinaryPath = [], et_BinarySHA256 = [],
     et_Origin = OriginBuiltin,
     et_Provenance = \<lparr>pn_AuthoringCPNID = [], pn_FlowHash = [], pn_ForgeRunID = [], pn_PromptDigest = [],
        pn_SourcePath = [], pn_SourceSHA256 = []\<rparr>,
     et_RegisteredAt = now, et_RegisteredBy = ''builtin'', et_Deprecated = False, et_DeprecatedAt = 0,
     et_DeprecationReason = []\<rparr>"

definition RegisterBuiltin ::
  "address_sort \<Rightarrow> tool_schema option \<Rightarrow> 'x option \<Rightarrow> string \<Rightarrow> int \<Rightarrow> ('x, 'r) tool_registry \<Rightarrow>
   gerr option \<times> ('x, 'r) tool_registry" where
  "RegisterBuiltin srt schema exec uuid now r = (case schema of
     None \<Rightarrow> (Some ErrInvalidToolSchema, r)
   | Some s \<Rightarrow>
       if sm_Name s = [] \<or> sm_Namespace s = [] then (Some ErrInvalidToolSchema, r)
       else if sm_Namespace s = ''system'' \<and> rg_sealed r
       then (Some (Wrap [] ErrSystemNamespaceSealed ('': '' @ schema_qualified s)), r)
       else if anchorBuiltinLocked (schema_qualified s) r \<noteq> None
       then (Some (Wrap [] ErrToolAlreadyRegistered ('': '' @ schema_qualified s)), r)
       else (None, insertLocked srt (builtin_entry s exec uuid now) r))"

definition SealTools :: "('x, 'r) tool_registry \<Rightarrow> ('x, 'r) tool_registry" where
  "SealTools r = r\<lparr>rg_sealed := True\<rparr>"

section \<open>Registering, deprecating and removing entries\<close>

text \<open>The fields a registration fills in; \<open>jsonObject\<close> is \<open>json.Unmarshal\<close> into a map.\<close>

definition validateJSONSchema :: "(string \<Rightarrow> gerr option) \<Rightarrow> string \<Rightarrow> gerr option" where
  "validateJSONSchema jsonObject raw = (if raw = [] then None
     else map_option (\<lambda>e. Wrap ''schema must be a JSON object: '' e []) (jsonObject raw))"

definition prepare_entry ::
  "(string \<Rightarrow> gerr option) \<Rightarrow> string \<Rightarrow> int \<Rightarrow> 'x tool_entry option \<Rightarrow> registry_error + 'x tool_entry" where
  "prepare_entry jsonObject uuid now entry = (case entry of
     None \<Rightarrow> Inl (wrapErr CodeInvalidInput ''nil entry'' None)
   | Some e \<Rightarrow>
       if et_Namespace e = [] \<or> et_Name e = [] \<or> et_Version e = []
       then Inl (wrapErr CodeInvalidInput ''namespace/name/version are required'' None)
       else (case validateJSONSchema jsonObject (et_JSONSchema e) of
         Some err \<Rightarrow> Inl (wrapErr CodeSchemaInvalid (err_text err) (Some err))
       | None \<Rightarrow> Inr (e\<lparr>et_Origin := (if et_Origin e = [] then OriginAgentAuthored else et_Origin e),
            et_ID := (if et_ID e = [] then uuid else et_ID e),
            et_RegisteredAt := (if et_RegisteredAt e = 0 then now else et_RegisteredAt e),
            et_Schema := (case et_Schema e of Some s \<Rightarrow> Some s
              | None \<Rightarrow> Some (bare_schema (et_Name e) (et_Namespace e) (et_HelpText e) (et_JSONSchema e) (et_Version e)))\<rparr>)))"

definition check_duplicate :: "'x tool_entry \<Rightarrow> ('x, 'r) tool_registry \<Rightarrow> registry_error option" where
  "check_duplicate e r = (if map_of (rg_byQualified r) (QualifiedName e) \<noteq> None
     then Some (wrapErr CodeDuplicate (QualifiedName e) None) else None)"

definition ascii_lower :: "string \<Rightarrow> string" where
  "ascii_lower s = map (\<lambda>c. if CHR ''A'' \<le> c \<and> c \<le> CHR ''Z'' then char_of (of_char c + 32 :: nat) else c) s"

definition isPersistDuplicate :: "gerr \<Rightarrow> bool" where
  "isPersistDuplicate e \<longleftrightarrow> e = ErrToolDuplicate \<or>
     list_ex (contains_str (ascii_lower (err_text e))) [''duplicate'', ''already exists'', ''unique constraint'']"

definition persist_entry ::
  "int \<Rightarrow> 'x tool_entry \<Rightarrow> 'r tool_port option \<Rightarrow> 'r \<Rightarrow> registry_error option \<times> 'r" where
  "persist_entry now e repo s = (case repo of
     None \<Rightarrow> (None, s)
   | Some port \<Rightarrow> (case tp_Upsert port now (toPersistEntry e) s of
       (None, s1) \<Rightarrow> (None, s1)
     | (Some err, s1) \<Rightarrow> (Some (if isPersistDuplicate err then wrapErr CodeDuplicate (QualifiedName e) (Some err)
          else wrapErr CodeInvalidInput ''persist upsert'' (Some err)), s1)))"

definition commit_entry ::
  "address_sort \<Rightarrow> 'x tool_entry \<Rightarrow> ('x, 'r) tool_registry \<Rightarrow> registry_error option \<times> ('x, 'r) tool_registry" where
  "commit_entry srt e r = (case check_duplicate e r of
     Some err \<Rightarrow> (Some err, r)
   | None \<Rightarrow> (None, emit_tool \<lparr>ge_Type = ToolRegistered, ge_QualifiedName = QualifiedName e,
       ge_Entry = length (rg_heap r), ge_Reason = []\<rparr> (insertLocked srt e r)))"

definition RegisterEntry ::
  "(string \<Rightarrow> gerr option) \<Rightarrow> address_sort \<Rightarrow> string \<Rightarrow> int \<Rightarrow> 'x tool_entry option \<Rightarrow> 'r \<Rightarrow> ('x, 'r) tool_registry \<Rightarrow>
   registry_error option \<times> 'r \<times> ('x, 'r) tool_registry" where
  "RegisterEntry jsonObject srt uuid now entry s r = (case prepare_entry jsonObject uuid now entry of
     Inl err \<Rightarrow> (Some err, s, r)
   | Inr e \<Rightarrow> (case check_duplicate e r of
       Some err \<Rightarrow> (Some err, s, r)
     | None \<Rightarrow> (case persist_entry now e (rg_repo r) s of
         (Some err, s1) \<Rightarrow> (Some err, s1, r)
       | (None, s1) \<Rightarrow> (case commit_entry srt e r of (err, r1) \<Rightarrow> (err, s1, r1)))))"

definition check_deprecate :: "string \<Rightarrow> ('x, 'r) tool_registry \<Rightarrow> registry_error + nat" where
  "check_deprecate qn r = (if qn = [] then Inl (wrapErr CodeInvalidInput ''qualified name required'' None)
     else case SplitQualifiedName qn of
       None \<Rightarrow> Inl (wrapErr CodeInvalidInput ''expected namespace/name@version'' None)
     | Some (_, _, ver) \<Rightarrow> if ver = [] then Inl (wrapErr CodeInvalidInput ''expected namespace/name@version'' None)
         else (case map_of (rg_byQualified r) qn of
           None \<Rightarrow> Inl (wrapErr CodeNotFound qn None) | Some a \<Rightarrow> Inr a))"

definition persist_change :: "string \<Rightarrow> string \<Rightarrow> gerr option \<times> 'r \<Rightarrow> registry_error option \<times> 'r" where
  "persist_change qn msg res = (case res of
     (None, s) \<Rightarrow> (None, s)
   | (Some e, s) \<Rightarrow> (Some (if e = ErrToolNotFound then wrapErr CodeNotFound qn (Some e)
       else wrapErr CodeInvalidInput msg (Some e)), s))"

definition persist_deprecate ::
  "int \<Rightarrow> string \<Rightarrow> string \<Rightarrow> 'r tool_port option \<Rightarrow> 'r \<Rightarrow> registry_error option \<times> 'r" where
  "persist_deprecate now qn reason repo s = (case repo of
     None \<Rightarrow> (None, s) | Some port \<Rightarrow> persist_change qn ''persist deprecate'' (tp_Deprecate port now qn reason s))"

definition commit_deprecate :: "int \<Rightarrow> string \<Rightarrow> string \<Rightarrow> nat \<Rightarrow> ('x, 'r) tool_registry \<Rightarrow> ('x, 'r) tool_registry" where
  "commit_deprecate now qn reason a r =
     emit_tool \<lparr>ge_Type = ToolDeprecated, ge_QualifiedName = qn, ge_Entry = a, ge_Reason = reason\<rparr>
       (r\<lparr>rg_heap := (rg_heap r)[a := (rg_heap r ! a)\<lparr>et_Deprecated := True, et_DeprecatedAt := now,
            et_DeprecationReason := reason\<rparr>]\<rparr>)"

text \<open>The clock is read by the repository and by the registry.\<close>

definition DeprecateTool ::
  "int \<Rightarrow> int \<Rightarrow> string \<Rightarrow> string \<Rightarrow> 'r \<Rightarrow> ('x, 'r) tool_registry \<Rightarrow> registry_error option \<times> 'r \<times> ('x, 'r) tool_registry" where
  "DeprecateTool now1 now2 qn reason s r = (case check_deprecate qn r of
     Inl err \<Rightarrow> (Some err, s, r)
   | Inr a \<Rightarrow> (case persist_deprecate now1 qn reason (rg_repo r) s of
       (Some err, s1) \<Rightarrow> (Some err, s1, r)
     | (None, s1) \<Rightarrow> (None, s1, commit_deprecate now2 qn reason a r)))"

definition check_unregister :: "string \<Rightarrow> ('x, 'r) tool_registry \<Rightarrow> registry_error + nat" where
  "check_unregister qn r = (if qn = [] then Inl (wrapErr CodeInvalidInput ''qualified name required'' None)
     else case map_of (rg_byQualified r) qn of
       None \<Rightarrow> Inl (wrapErr CodeNotFound qn None)
     | Some a \<Rightarrow> if et_Origin (rg_heap r ! a) \<noteq> OriginAgentAuthored
         then Inl (wrapErr CodeForbidden ''delete only allowed for origin=agent-authored'' None) else Inr a)"

definition persist_delete :: "string \<Rightarrow> 'r tool_port option \<Rightarrow> 'r \<Rightarrow> registry_error option \<times> 'r" where
  "persist_delete qn repo s = (case repo of
     None \<Rightarrow> (None, s) | Some port \<Rightarrow> persist_change qn ''persist delete'' (tp_Delete port qn s))"

definition Unregister ::
  "string \<Rightarrow> 'r \<Rightarrow> ('x, 'r) tool_registry \<Rightarrow> registry_error option \<times> 'r \<times> ('x, 'r) tool_registry" where
  "Unregister qn s r = (case check_unregister qn r of
     Inl err \<Rightarrow> (Some err, s, r)
   | Inr a \<Rightarrow> (case persist_delete qn (rg_repo r) s of
       (Some err, s1) \<Rightarrow> (Some err, s1, r)
     | (None, s1) \<Rightarrow> (None, s1, removeLocked a r)))"

section \<open>Queries\<close>

definition GetTool :: "string \<Rightarrow> ('x, 'r) tool_registry \<Rightarrow> registry_error + nat" where
  "GetTool qn r = (case resolveLocked qn r of Some a \<Rightarrow> Inr a | None \<Rightarrow> Inl (wrapErr CodeNotFound qn None))"

definition LatestTool :: "string \<Rightarrow> string \<Rightarrow> ('x, 'r) tool_registry \<Rightarrow> registry_error + nat" where
  "LatestTool ns name r = (let anchor = ns @ ''/'' @ name; l = anchored anchor r
     in if l = [] then Inl (wrapErr CodeNotFound anchor None)
        else case pickLatestNonDeprecated (rg_heap r) l of
          Some a \<Rightarrow> Inr a
        | None \<Rightarrow> Inl (wrapErr CodeNotFound (''no non-deprecated entry for '' @ anchor) None))"

definition VersionsOf ::
  "address_sort \<Rightarrow> string \<Rightarrow> string \<Rightarrow> ('x, 'r) tool_registry \<Rightarrow> registry_error + nat list" where
  "VersionsOf srt ns name r = (case map_of (rg_byAnchor r) (ns @ ''/'' @ name) of
     None \<Rightarrow> Inl (wrapErr CodeNotFound (ns @ ''/'' @ name) None)
   | Some l \<Rightarrow> Inr (srt (\<lambda>i j. CompareSemver (et_Version (rg_heap r ! i)) (et_Version (rg_heap r ! j)) < 0) l))"

record tool_filter =
  tq_Origin :: string
  tq_Namespace :: string
  tq_Deprecated :: "bool option"

definition tool_matches :: "tool_filter \<Rightarrow> 'x tool_entry \<Rightarrow> bool" where
  "tool_matches f e \<longleftrightarrow> (tq_Origin f = [] \<or> et_Origin e = tq_Origin f) \<and>
     (tq_Namespace f = [] \<or> et_Namespace e = tq_Namespace f) \<and>
     (case tq_Deprecated f of None \<Rightarrow> True | Some d \<Rightarrow> et_Deprecated e = d)"

definition listed_before :: "'x tool_entry list \<Rightarrow> nat \<Rightarrow> nat \<Rightarrow> bool" where
  "listed_before heap i j = (let a = heap ! i; b = heap ! j
     in if et_Namespace a \<noteq> et_Namespace b then et_Namespace a < et_Namespace b
        else if et_Name a \<noteq> et_Name b then et_Name a < et_Name b
        else 0 < CompareSemver (et_Version a) (et_Version b))"

definition all_addresses :: "('x, 'r) tool_registry \<Rightarrow> nat list" where
  "all_addresses r = concat (map snd (rg_byAnchor r))"

definition ListFiltered :: "address_sort \<Rightarrow> tool_filter \<Rightarrow> ('x, 'r) tool_registry \<Rightarrow> nat list" where
  "ListFiltered srt f r = srt (listed_before (rg_heap r)) (filter (\<lambda>a. tool_matches f (rg_heap r ! a)) (all_addresses r))"

definition bare_matches :: "string \<Rightarrow> ('x, 'r) tool_registry \<Rightarrow> (string \<times> nat) list" where
  "bare_matches name r = concat (map (\<lambda>(anchor, l). case l of
       [] \<Rightarrow> []
     | b # _ \<Rightarrow> if et_Name (rg_heap r ! b) \<noteq> name then []
         else (case pickLatestNonDeprecated (rg_heap r) l of None \<Rightarrow> [] | Some a \<Rightarrow> [(anchor, a)])) (rg_byAnchor r))"

text \<open>Anchors are distinct, so sorting by them has one result.\<close>

definition ResolveByName :: "string \<Rightarrow> ('x, 'r) tool_registry \<Rightarrow> registry_error + nat" where
  "ResolveByName name r =
     (if name = [] then Inl (wrapErr CodeInvalidInput ''empty name'' None)
      else if CHR ''/'' \<in> set name
      then (case resolveLocked name r of Some a \<Rightarrow> Inr a | None \<Rightarrow> Inl (wrapErr CodeNotFound name None))
      else (case sort_key fst (bare_matches name r) of
        [] \<Rightarrow> Inl (wrapErr CodeNotFound name None)
      | (_, a) # _ \<Rightarrow> Inr a))"

definition better_anchor :: "(string \<times> nat) option \<Rightarrow> string \<times> nat \<Rightarrow> (string \<times> nat) option" where
  "better_anchor best c = (case best of None \<Rightarrow> Some c | Some b \<Rightarrow> if fst c < fst b then Some c else best)"

definition resolveByBareNameLocked :: "string \<Rightarrow> ('x, 'r) tool_registry \<Rightarrow> nat option" where
  "resolveByBareNameLocked name r = map_option snd (foldl better_anchor None (bare_matches name r))"

text \<open>\<open>content\<close> opens and reads a file: the error of opening, or that of reading, or the bytes.\<close>

definition VerifyBinary ::
  "(string \<Rightarrow> gerr + gerr + string) \<Rightarrow> (string \<Rightarrow> string) \<Rightarrow> 'x tool_entry option \<Rightarrow> registry_error option" where
  "VerifyBinary content sha entry = (case entry of
     None \<Rightarrow> None
   | Some e \<Rightarrow> if et_BinaryPath e = [] \<or> et_BinarySHA256 e = [] then None
       else (case content (et_BinaryPath e) of
         Inl err \<Rightarrow> Some (wrapErr CodeBinaryDrift ''open binary'' (Some err))
       | Inr (Inl err) \<Rightarrow> Some (wrapErr CodeBinaryDrift ''read binary'' (Some err))
       | Inr (Inr bytes) \<Rightarrow>
           if ascii_lower (sha bytes) = ascii_lower (et_BinarySHA256 e) then None
           else Some (wrapErr CodeBinaryDrift (et_BinaryPath e @ '': expected '' @ et_BinarySHA256 e @ '', got '' @ sha bytes)
                  None)))"

definition EmitDeprecationWarning :: "nat \<Rightarrow> ('x, 'r) tool_registry \<Rightarrow> ('x, 'r) tool_registry" where
  "EmitDeprecationWarning a r = emit_tool \<lparr>ge_Type = ToolDeprecationWarning,
     ge_QualifiedName = QualifiedName (rg_heap r ! a), ge_Entry = a,
     ge_Reason = et_DeprecationReason (rg_heap r ! a)\<rparr> r"

definition SchemasOf :: "string \<Rightarrow> ('x, 'r) tool_registry \<Rightarrow> tool_schema list" where
  "SchemasOf ns r = List.map_filter (\<lambda>a. if et_Namespace (rg_heap r ! a) \<noteq> ns then None else et_Schema (rg_heap r ! a))
     (all_addresses r)"

definition AllSchemas :: "('x, 'r) tool_registry \<Rightarrow> tool_schema list" where
  "AllSchemas r = List.map_filter (\<lambda>a. et_Schema (rg_heap r ! a)) (all_addresses r)"

definition AsLLMTools :: "string list \<Rightarrow> ('x, 'r) tool_registry \<Rightarrow> llm_tool list" where
  "AsLLMTools namespaces r = List.map_filter (\<lambda>a. let e = rg_heap r ! a
     in if et_Deprecated e \<or> namespaces \<noteq> [] \<and> et_Namespace e \<notin> set namespaces then None
        else map_option (\<lambda>s. \<lparr>lt_Name = schema_qualified s, lt_Description = sm_Description s,
               lt_Parameters = sm_Parameters s\<rparr>) (et_Schema e)) (all_addresses r)"

section \<open>Wiring tools into nets\<close>

definition dashed :: "string \<Rightarrow> string" where
  "dashed s = map (\<lambda>c. if c = CHR ''.'' then CHR ''-'' else c) s"

definition registrationName :: "string \<Rightarrow> string" where
  "registrationName qn = (case cut_at CHR ''/'' qn of
     (ns, name, found) \<Rightarrow> if \<not> found then ''tool-exec-'' @ dashed qn else ''tool-exec-'' @ dashed ns @ ''-'' @ dashed name)"

type_synonym 'w executor = "'w \<Rightarrow> token \<Rightarrow> (gerr + token) \<times> 'w"

definition inject_transition :: "('w executor, 'r) tool_registry \<Rightarrow> 'w transition \<Rightarrow> 'w transition" where
  "inject_transition r t =
     (if tr_ToolName t = [] then t
      else case (case resolveLocked (tr_ToolName t) r of
                   Some a \<Rightarrow> Some a | None \<Rightarrow> resolveByBareNameLocked (tr_ToolName t) r) of
        None \<Rightarrow> t
      | Some a \<Rightarrow> (let e = rg_heap r ! a in case et_Schema e of
          None \<Rightarrow> t
        | Some s \<Rightarrow> t\<lparr>tr_ToolMeta := Some \<lparr>tm_Namespace = sm_Namespace s, tm_Description = sm_Description s,
               tm_Parameters = sm_Parameters s, tm_RequiresHITL = sm_RequiresHITL s\<rparr>,
             tr_Executor := (case tr_Executor t of None \<Rightarrow> et_Executor e | Some x \<Rightarrow> Some x)\<rparr>))"

definition InjectIntoCPN :: "('w executor, 'r) tool_registry \<Rightarrow> 'w cpn \<Rightarrow> 'w cpn" where
  "InjectIntoCPN r c = c\<lparr>c_Transitions := map (\<lambda>(k, t). (k, inject_transition r t)) (c_Transitions c)\<rparr>"

text \<open>Registering one name twice panics (\<open>None\<close>).\<close>

definition InjectIntoFuncRegistry ::
  "('w, 'f) fn_pointers \<Rightarrow> ('w executor, 'r) tool_registry \<Rightarrow> ('w, 'f) func_registry \<Rightarrow> ('w, 'f) func_registry option" where
  "InjectIntoFuncRegistry ptrs r fr = map_option (\<lambda>tab. fr\<lparr>fr_executors := tab\<rparr>)
     (foldl (\<lambda>acc a. case et_Executor (rg_heap r ! a) of
          None \<Rightarrow> acc
        | Some x \<Rightarrow> Option.bind acc (table_register (fp_executor ptrs) (registrationName (Anchor (rg_heap r ! a))) x))
        (Some (fr_executors fr)) (all_addresses r))"

definition manifest_entry :: "tool_manifest \<Rightarrow> 'x tool_entry" where
  "manifest_entry m = \<lparr>et_Schema = None, et_Executor = None, et_ID = [], et_Namespace = tn_Namespace m,
     et_Name = tn_Name m, et_Version = tn_Version m, et_JSONSchema = tn_Schema m, et_HelpText = tn_HelpText m,
     et_ManPage = tn_ManPage m, et_BinaryPath = tn_BinaryPath m, et_BinarySHA256 = tn_BinarySHA256 m,
     et_Origin = tn_Origin m, et_Provenance = tn_Provenance m, et_RegisteredAt = 0,
     et_RegisteredBy = tn_RegisteredBy m, et_Deprecated = False, et_DeprecatedAt = 0, et_DeprecationReason = []\<rparr>"

definition RegisterManifest ::
  "(string \<Rightarrow> gerr option) \<Rightarrow> address_sort \<Rightarrow> string \<Rightarrow> int \<Rightarrow> tool_manifest \<Rightarrow> 'r \<Rightarrow> ('x, 'r) tool_registry \<Rightarrow>
   (gerr + manifest_result) \<times> 'r \<times> ('x, 'r) tool_registry" where
  "RegisterManifest jsonObject srt uuid now m s r =
     (case RegisterEntry jsonObject srt uuid now (Some (manifest_entry m)) s r of
        (Some err, s1, r1) \<Rightarrow> (Inl (registry_err err), s1, r1)
      | (None, s1, r1) \<Rightarrow> (Inr \<lparr>mr_QualifiedName = QualifiedName (manifest_entry m :: 'x tool_entry), mr_ID = uuid,
          mr_RegisteredAt = now\<rparr>, s1, r1))"

end
