(* ===== verification/Tool_Facts.thy ===== *)
theory Tool_Facts
  imports Tool_Registry
begin

text \<open>
  The invariant of the tool registry and what its queries return. \<open>tools_ok\<close> holds after every locked
  section, in whatever order concurrent calls interleave; \<open>indexed\<close>, that every listed entry is found by its
  qualified name, holds between whole operations but not under every interleaving.
\<close>

definition tools_ok :: "('x, 'r) tool_registry \<Rightarrow> bool" where
  "tools_ok r \<longleftrightarrow> distinct (map fst (rg_byAnchor r)) \<and>
     (\<forall>k l. map_of (rg_byAnchor r) k = Some l \<longrightarrow> l \<noteq> [] \<and> distinct l \<and>
        (\<forall>a \<in> set l. a < length (rg_heap r) \<and> Anchor (rg_heap r ! a) = k \<and> et_Version (rg_heap r ! a) \<noteq> [])) \<and>
     (\<forall>q a. map_of (rg_byQualified r) q = Some a \<longrightarrow> a < length (rg_heap r) \<and> QualifiedName (rg_heap r ! a) = q \<and>
        a \<in> set (anchored (Anchor (rg_heap r ! a)) r))"

definition versions_plain :: "('x, 'r) tool_registry \<Rightarrow> bool" where
  "versions_plain r \<longleftrightarrow> (\<forall>e \<in> set (rg_heap r). plain_version (et_Version e))"

definition descending :: "('x, 'r) tool_registry \<Rightarrow> bool" where
  "descending r \<longleftrightarrow> (\<forall>k l. map_of (rg_byAnchor r) k = Some l \<longrightarrow> sorted_wrt (\<lambda>i j. \<not> newer (rg_heap r) j i) l)"

definition indexed :: "('x, 'r) tool_registry \<Rightarrow> bool" where
  "indexed r \<longleftrightarrow> (\<forall>k. \<forall>a \<in> set (anchored k r). map_of (rg_byQualified r) (QualifiedName (rg_heap r ! a)) = Some a)"

lemma tools_ok_New [simp]: "tools_ok NewRegistry" "descending NewRegistry" "indexed NewRegistry"
  "versions_plain NewRegistry"
  by (simp_all add: tools_ok_def descending_def indexed_def versions_plain_def NewRegistry_def anchored_def)

lemma anchored_ok:
  assumes "tools_ok r" and "a \<in> set (anchored k r)"
  shows "a < length (rg_heap r)" "Anchor (rg_heap r ! a) = k" "et_Version (rg_heap r ! a) \<noteq> []"
  using assms by (auto simp: tools_ok_def anchored_def split: option.splits)

lemma anchored_distinct: "tools_ok r \<Longrightarrow> distinct (anchored k r)"
  by (auto simp: tools_ok_def anchored_def split: option.splits)

lemma anchor_nonempty: "tools_ok r \<Longrightarrow> map_of (rg_byAnchor r) k \<noteq> Some []"
  unfolding tools_ok_def by blast

lemma qualified_ok:
  assumes "tools_ok r" and "map_of (rg_byQualified r) q = Some a"
  shows "a < length (rg_heap r)" "QualifiedName (rg_heap r ! a) = q" "a \<in> set (anchored (Anchor (rg_heap r ! a)) r)"
  using assms by (auto simp: tools_ok_def)

lemma tools_okI:
  assumes "distinct (map fst (rg_byAnchor r))"
    and "\<And>k. map_of (rg_byAnchor r) k \<noteq> Some []"
    and "\<And>k. distinct (anchored k r)"
    and "\<And>k a. a \<in> set (anchored k r) \<Longrightarrow>
      a < length (rg_heap r) \<and> Anchor (rg_heap r ! a) = k \<and> et_Version (rg_heap r ! a) \<noteq> []"
    and "\<And>q a. map_of (rg_byQualified r) q = Some a \<Longrightarrow> a < length (rg_heap r) \<and> QualifiedName (rg_heap r ! a) = q \<and>
        a \<in> set (anchored (Anchor (rg_heap r ! a)) r)"
  shows "tools_ok r"
  unfolding tools_ok_def
proof (intro conjI allI impI ballI)
  fix k l assume l: "map_of (rg_byAnchor r) k = Some l"
  then have an: "anchored k r = l" by (simp add: anchored_def)
  show "l \<noteq> []" using assms(2) l by metis
  show "distinct l" using assms(3)[of k] an by simp
  fix a assume "a \<in> set l"
  then show "a < length (rg_heap r)" "Anchor (rg_heap r ! a) = k" "et_Version (rg_heap r ! a) \<noteq> []"
    using assms(4)[of a k] an by auto
qed (use assms in blast)+

lemma descending_alt: "descending r \<longleftrightarrow> (\<forall>k. sorted_wrt (\<lambda>i j. \<not> newer (rg_heap r) j i) (anchored k r))"
  by (auto simp: descending_def anchored_def split: option.splits)

section \<open>Inserting\<close>

definition versioned :: "'x tool_entry \<Rightarrow> 'x tool_entry" where
  "versioned e = (if et_Version e = [] then e\<lparr>et_Version := ''0.1.0''\<rparr> else e)"

lemma versioned_version [simp]: "et_Version (versioned e) \<noteq> []"
  by (simp add: versioned_def)

lemma versioned_id [simp]: "et_Version e \<noteq> [] \<Longrightarrow> versioned e = e"
  by (simp add: versioned_def)

lemma insertLocked_fields [simp]:
  "rg_heap (insertLocked srt e r) = rg_heap r @ [versioned e]"
  "rg_sealed (insertLocked srt e r) = rg_sealed r"
  "rg_repo (insertLocked srt e r) = rg_repo r"
  "rg_byQualified (insertLocked srt e r) = AList.update (QualifiedName (versioned e)) (length (rg_heap r)) (rg_byQualified r)"
  by (simp_all add: insertLocked_def versioned_def Let_def)

lemma anchored_insert:
  "anchored k (insertLocked srt e r) =
     (if k = Anchor (versioned e)
      then srt (newer (rg_heap r @ [versioned e])) (anchored k r @ [length (rg_heap r)]) else anchored k r)"
  by (simp add: insertLocked_def versioned_def Let_def anchored_def appendSortedDesc_def)

lemma map_of_insert_anchor:
  "map_of (rg_byAnchor (insertLocked srt e r)) k =
     (if k = Anchor (versioned e)
      then Some (srt (newer (rg_heap r @ [versioned e])) (anchored k r @ [length (rg_heap r)]))
      else map_of (rg_byAnchor r) k)"
  by (simp add: insertLocked_def versioned_def Let_def anchored_def appendSortedDesc_def)

lemma insertLocked_ok:
  assumes "slice_sort srt" and ok: "tools_ok r"
  shows "tools_ok (insertLocked srt e r)"
proof (rule tools_okI)
  let ?n = "length (rg_heap r)"
  have fresh: "?n \<notin> set (anchored k r)" for k using anchored_ok(1)[OF ok] by blast
  have keep: "a < ?n \<Longrightarrow> (rg_heap r @ [versioned e]) ! a = rg_heap r ! a" for a by (simp add: nth_append)
  show "distinct (map fst (rg_byAnchor (insertLocked srt e r)))"
    using ok by (simp add: insertLocked_def Let_def tools_ok_def distinct_keys_update)
  show "map_of (rg_byAnchor (insertLocked srt e r)) k \<noteq> Some []" for k
  proof
    assume a: "map_of (rg_byAnchor (insertLocked srt e r)) k = Some []"
    show False
    proof (cases "k = Anchor (versioned e)")
      case True
      with a have "srt (newer (rg_heap r @ [versioned e])) (anchored k r @ [?n]) = []"
        by (simp add: map_of_insert_anchor)
      then have "length (srt (newer (rg_heap r @ [versioned e])) (anchored k r @ [?n])) = 0" by simp
      then show False using assms(1) by simp
    next
      case False
      with a have "map_of (rg_byAnchor r) k = Some []" by (simp add: map_of_insert_anchor)
      with anchor_nonempty[OF ok] show False by blast
    qed
  qed
  show "distinct (anchored k (insertLocked srt e r))" for k
    using assms(1) fresh[of k] anchored_distinct[OF ok, of k] by (auto simp: anchored_insert)
  show "a < length (rg_heap (insertLocked srt e r)) \<and> Anchor (rg_heap (insertLocked srt e r) ! a) = k \<and>
      et_Version (rg_heap (insertLocked srt e r) ! a) \<noteq> []" if a: "a \<in> set (anchored k (insertLocked srt e r))" for k a
  proof (cases "a = ?n \<and> k = Anchor (versioned e)")
    case True
    then show ?thesis by simp
  next
    case False
    then have "a \<in> set (anchored k r)" using a assms(1) by (auto simp: anchored_insert split: if_splits)
    then show ?thesis using anchored_ok[OF ok] keep by (simp add: less_SucI)
  qed
  show "a < length (rg_heap (insertLocked srt e r)) \<and> QualifiedName (rg_heap (insertLocked srt e r) ! a) = q \<and>
      a \<in> set (anchored (Anchor (rg_heap (insertLocked srt e r) ! a)) (insertLocked srt e r))"
    if q: "map_of (rg_byQualified (insertLocked srt e r)) q = Some a" for q a
  proof (cases "q = QualifiedName (versioned e)")
    case True
    then have "a = ?n" using q by simp
    then show ?thesis using True assms(1) by (simp add: anchored_insert)
  next
    case False
    then have "map_of (rg_byQualified r) q = Some a" using q by simp
    from qualified_ok[OF ok this] show ?thesis using keep assms(1) by (auto simp: anchored_insert less_SucI)
  qed
qed

lemma newer_weak_order:
  assumes "\<forall>i \<in> S. plain_version (et_Version (heap ! i))"
  shows "weak_order (newer heap) S"
  by (rule weak_order_key_rev[where key = "\<lambda>i. version_key (et_Version (heap ! i))"])
    (use assms in \<open>simp add: newer_def CompareSemver_key\<close>)

lemma insertLocked_descending:
  assumes srt: "slice_sort srt" and ok: "tools_ok r" and desc: "descending r"
    and plain: "versions_plain (insertLocked srt e r)"
  shows "descending (insertLocked srt e r)"
  unfolding descending_alt
proof
  fix k
  let ?heap = "rg_heap r @ [versioned e]"
  have pl: "plain_version (et_Version (?heap ! i))" if "i < Suc (length (rg_heap r))" for i
    using plain that unfolding versions_plain_def by (metis insertLocked_fields(1) length_append_singleton nth_mem)
  show "sorted_wrt (\<lambda>i j. \<not> newer (rg_heap (insertLocked srt e r)) j i) (anchored k (insertLocked srt e r))"
  proof (cases "k = Anchor (versioned e)")
    case True
    have "\<forall>i \<in> set (anchored k r @ [length (rg_heap r)]). plain_version (et_Version (?heap ! i))"
      using pl pl[of "length (rg_heap r)"] anchored_ok(1)[OF ok] by (auto simp: less_SucI)
    then have "weak_order (newer ?heap) (set (anchored k r @ [length (rg_heap r)]))" by (rule newer_weak_order)
    then show ?thesis using True slice_sort_sorted[OF srt] by (simp add: anchored_insert del: set_append)
  next
    case False
    have "sorted_wrt (\<lambda>i j. \<not> newer (rg_heap r) j i) (anchored k r)" using desc by (simp add: descending_alt)
    then have "sorted_wrt (\<lambda>i j. \<not> newer ?heap j i) (anchored k r)"
      by (rule sorted_wrt_mono_rel[rotated]) (use anchored_ok(1)[OF ok] in \<open>auto simp: newer_def nth_append\<close>)
    then show ?thesis using False by (simp add: anchored_insert)
  qed
qed

lemma insertLocked_indexed:
  assumes srt: "slice_sort srt" and ok: "tools_ok r" and ix: "indexed r"
    and new: "map_of (rg_byQualified r) (QualifiedName (versioned e)) = None"
  shows "indexed (insertLocked srt e r)"
  unfolding indexed_def
proof (intro allI ballI)
  fix k a assume a: "a \<in> set (anchored k (insertLocked srt e r))"
  show "map_of (rg_byQualified (insertLocked srt e r)) (QualifiedName (rg_heap (insertLocked srt e r) ! a)) = Some a"
  proof (cases "a \<in> set (anchored k r)")
    case True
    then have "map_of (rg_byQualified r) (QualifiedName (rg_heap r ! a)) = Some a" using ix by (simp add: indexed_def)
    moreover from this have "QualifiedName (rg_heap r ! a) \<noteq> QualifiedName (versioned e)" using new by auto
    ultimately show ?thesis using anchored_ok(1)[OF ok True] by (simp add: nth_append)
  next
    case False
    then have "a = length (rg_heap r)" using a srt by (auto simp: anchored_insert split: if_splits)
    then show ?thesis by simp
  qed
qed

section \<open>Removing, deprecating, emitting\<close>

lemma emit_tool_fields [simp]:
  "rg_heap (emit_tool ev r) = rg_heap r" "rg_byAnchor (emit_tool ev r) = rg_byAnchor r"
  "rg_byQualified (emit_tool ev r) = rg_byQualified r" "rg_repo (emit_tool ev r) = rg_repo r"
  "rg_sealed (emit_tool ev r) = rg_sealed r"
  by (simp_all add: emit_tool_def)

lemma anchored_emit [simp]: "anchored k (emit_tool ev r) = anchored k r"
  by (simp add: anchored_def)

lemma emit_tool_ok [simp]:
  "tools_ok (emit_tool ev r) = tools_ok r" "descending (emit_tool ev r) = descending r"
  "indexed (emit_tool ev r) = indexed r" "versions_plain (emit_tool ev r) = versions_plain r"
  by (simp_all add: tools_ok_def descending_alt indexed_def versions_plain_def)

lemma removeLocked_fields [simp]:
  "rg_heap (removeLocked a r) = rg_heap r" "rg_repo (removeLocked a r) = rg_repo r"
  "rg_byQualified (removeLocked a r) = AList.delete (QualifiedName (rg_heap r ! a)) (rg_byQualified r)"
  by (simp_all add: removeLocked_def Let_def)

lemma anchored_remove:
  "anchored k (removeLocked a r) =
     (if k = Anchor (rg_heap r ! a) then filter (\<lambda>b. b \<noteq> a) (anchored k r) else anchored k r)"
  by (simp add: removeLocked_def Let_def anchored_def)

lemma removeLocked_ok:
  assumes ok: "tools_ok r"
  shows "tools_ok (removeLocked a r)"
proof (rule tools_okI)
  show "distinct (map fst (rg_byAnchor (removeLocked a r)))"
    using ok by (simp add: removeLocked_def Let_def tools_ok_def distinct_keys_update distinct_delete)
  show "map_of (rg_byAnchor (removeLocked a r)) k \<noteq> Some []" for k
    using anchor_nonempty[OF ok, of k] by (auto simp: removeLocked_def Let_def)
  show "distinct (anchored k (removeLocked a r))" for k
    using anchored_distinct[OF ok, of k] by (auto simp: anchored_remove)
  show "b < length (rg_heap (removeLocked a r)) \<and> Anchor (rg_heap (removeLocked a r) ! b) = k \<and>
      et_Version (rg_heap (removeLocked a r) ! b) \<noteq> []" if "b \<in> set (anchored k (removeLocked a r))" for k b
    using that anchored_ok[OF ok] by (auto simp: anchored_remove split: if_splits)
  show "b < length (rg_heap (removeLocked a r)) \<and> QualifiedName (rg_heap (removeLocked a r) ! b) = q \<and>
      b \<in> set (anchored (Anchor (rg_heap (removeLocked a r) ! b)) (removeLocked a r))"
    if "map_of (rg_byQualified (removeLocked a r)) q = Some b" for q b
    using that qualified_ok[OF ok, of q b] by (auto simp: anchored_remove split: if_splits)
qed

lemma removeLocked_descending: "descending r \<Longrightarrow> descending (removeLocked a r)"
  by (simp add: descending_alt anchored_remove sorted_wrt_filter)

lemma removeLocked_indexed:
  assumes ok: "tools_ok r" and ix: "indexed r" and a: "a \<in> set (anchored (Anchor (rg_heap r ! a)) r)"
  shows "indexed (removeLocked a r)"
  unfolding indexed_def
proof (intro allI ballI)
  fix k b assume b: "b \<in> set (anchored k (removeLocked a r))"
  then have bk: "b \<in> set (anchored k r)" by (auto simp: anchored_remove split: if_splits)
  then have at: "map_of (rg_byQualified r) (QualifiedName (rg_heap r ! b)) = Some b" using ix by (simp add: indexed_def)
  have "b \<noteq> a" using b bk anchored_ok(2)[OF ok bk] by (auto simp: anchored_remove split: if_splits)
  moreover have "map_of (rg_byQualified r) (QualifiedName (rg_heap r ! a)) = Some a" using ix a by (simp add: indexed_def)
  ultimately show "map_of (rg_byQualified (removeLocked a r)) (QualifiedName (rg_heap (removeLocked a r) ! b)) = Some b"
    using at by auto
qed

definition deprecated_entry :: "int \<Rightarrow> string \<Rightarrow> 'x tool_entry \<Rightarrow> 'x tool_entry" where
  "deprecated_entry now reason e = e\<lparr>et_Deprecated := True, et_DeprecatedAt := now, et_DeprecationReason := reason\<rparr>"

lemma deprecated_entry_simps [simp]:
  "QualifiedName (deprecated_entry now reason e) = QualifiedName e"
  "Anchor (deprecated_entry now reason e) = Anchor e"
  "et_Version (deprecated_entry now reason e) = et_Version e"
  "et_Deprecated (deprecated_entry now reason e)"
  by (simp_all add: deprecated_entry_def QualifiedName_def Anchor_def resolveNS_def split: option.split)

lemma commit_deprecate_fields [simp]:
  "rg_heap (commit_deprecate now qn reason a r) = (rg_heap r)[a := deprecated_entry now reason (rg_heap r ! a)]"
  "rg_byAnchor (commit_deprecate now qn reason a r) = rg_byAnchor r"
  "rg_byQualified (commit_deprecate now qn reason a r) = rg_byQualified r"
  "rg_repo (commit_deprecate now qn reason a r) = rg_repo r"
  by (simp_all add: commit_deprecate_def deprecated_entry_def)

lemma anchored_deprecate [simp]: "anchored k (commit_deprecate now qn reason a r) = anchored k r"
  by (simp add: anchored_def)

lemma deprecated_names [simp]:
  "QualifiedName (heap[a := deprecated_entry now reason (heap ! a)] ! b) = QualifiedName (heap ! b)"
  "Anchor (heap[a := deprecated_entry now reason (heap ! a)] ! b) = Anchor (heap ! b)"
  "et_Version (heap[a := deprecated_entry now reason (heap ! a)] ! b) = et_Version (heap ! b)"
  by (cases "a < length heap"; cases "a = b"; simp add: list_update_beyond)+

lemma commit_deprecate_ok [simp]:
  "tools_ok (commit_deprecate now qn reason a r) = tools_ok r"
  "descending (commit_deprecate now qn reason a r) = descending r"
  "indexed (commit_deprecate now qn reason a r) = indexed r"
  by (simp_all add: tools_ok_def descending_alt indexed_def newer_def)

section \<open>What the queries return\<close>

lemma find_sorted:
  assumes "sorted_wrt R l" and "find P l = Some a"
  shows "a \<in> set l \<and> P a \<and> (\<forall>b \<in> set l. P b \<longrightarrow> b = a \<or> R a b)"
  using assms by (induction l) (auto split: if_splits)

lemma pickLatest_None: "pickLatestNonDeprecated heap l = None \<longleftrightarrow> (\<forall>a \<in> set l. et_Deprecated (heap ! a))"
  by (auto simp: pickLatestNonDeprecated_def find_None_iff)

lemma pickLatest_Some:
  assumes "descending r" and "pickLatestNonDeprecated (rg_heap r) (anchored k r) = Some a"
  shows "a \<in> set (anchored k r)" "\<not> et_Deprecated (rg_heap r ! a)"
    "\<And>b. b \<in> set (anchored k r) \<Longrightarrow> \<not> et_Deprecated (rg_heap r ! b) \<Longrightarrow> b \<noteq> a \<Longrightarrow>
       CompareSemver (et_Version (rg_heap r ! b)) (et_Version (rg_heap r ! a)) \<le> 0"
  using find_sorted[of "\<lambda>i j. \<not> newer (rg_heap r) j i" "anchored k r" "\<lambda>a. \<not> et_Deprecated (rg_heap r ! a)" a] assms
  by (auto simp: descending_alt pickLatestNonDeprecated_def newer_def)

text \<open>The scan for a bare name ends on the least anchor, as the sort of \<open>ResolveByName\<close> does.\<close>

lemma foldl_better_anchor:
  "\<exists>c. foldl better_anchor (Some b) cs = Some c \<and> c \<in> set (b # cs) \<and> (\<forall>d \<in> set (b # cs). fst c \<le> fst d)"
proof (induction cs arbitrary: b)
  case (Cons x cs)
  obtain c where c: "foldl better_anchor (better_anchor (Some b) x) cs = Some c"
    "c \<in> set (b # x # cs)" "\<forall>d \<in> set (b # x # cs). fst c \<le> fst d"
    using Cons.IH[of "if fst x < fst b then x else b"]
    by (force simp: better_anchor_def not_less split: if_splits dest: order.trans less_imp_le)
  then show ?case by auto
qed simp

lemma distinct_concat_keys:
  fixes f :: "string \<times> nat list \<Rightarrow> (string \<times> nat) list"
  assumes f: "\<And>k l. f (k, l) = [] \<or> (\<exists>a. f (k, l) = [(k, a)])" and m: "distinct (map fst m)"
  shows "distinct (map fst (concat (map f m)))"
proof -
  have one: "set (map fst (f x)) \<subseteq> {fst x} \<and> distinct (map fst (f x))" for x
    using f[of "fst x" "snd x"] by (cases x) auto
  have key: "fst y = fst x" if "y \<in> set (f x)" for x y
  proof -
    have "fst y \<in> set (map fst (f x))" using that by (metis image_eqI set_map)
    then show ?thesis using one[of x] by blast
  qed
  have sub: "fst ` set (concat (map f m)) \<subseteq> fst ` set m" for m using key by (induction m) force+
  show ?thesis using m
  proof (induction m)
    case (Cons x m)
    have "fst y \<notin> fst ` set (concat (map f m))" if "y \<in> set (f x)" for y
      using key[OF that] sub[of m] Cons.prems by auto
    then show ?case using one[of x] Cons by (auto simp: disjoint_iff)
  qed simp
qed

lemma distinct_bare_matches:
  "distinct (map fst (rg_byAnchor r)) \<Longrightarrow> distinct (map fst (bare_matches name r))"
  unfolding bare_matches_def by (rule distinct_concat_keys) (auto split: list.splits option.splits)

lemma least_is_head:
  fixes cs :: "(string \<times> nat) list"
  assumes d: "distinct (map fst cs)" and c: "c \<in> set cs" "\<forall>d \<in> set cs. fst c \<le> fst d"
  shows "\<exists>rest. sort_key fst cs = c # rest"
proof (cases "sort_key fst cs")
  case Nil
  then have "set cs = {}" by (metis set_sort empty_set)
  then show ?thesis using c(1) by simp
next
  case (Cons x rest)
  have x: "x \<in> set cs" using Cons by (metis set_sort list.set_intros(1))
  have "sorted (map fst (x # rest))" using Cons by (metis sorted_sort_key)
  moreover have "c \<in> set (x # rest)" using c(1) Cons by (metis set_sort)
  ultimately have "fst x \<le> fst c" by auto
  then have "fst x = fst c" using c(2) x by force
  then have "x = c" using d c(1) x by (metis eq_key_imp_eq_value prod.collapse)
  then show ?thesis using Cons by simp
qed

lemma bare_name_same:
  assumes "tools_ok r" and "name \<noteq> []" and "CHR ''/'' \<notin> set name"
  shows "ResolveByName name r = (case resolveByBareNameLocked name r of
     Some a \<Rightarrow> Inr a | None \<Rightarrow> Inl (wrapErr CodeNotFound name None))"
proof (cases "bare_matches name r")
  case Nil
  then show ?thesis using assms by (simp add: ResolveByName_def resolveByBareNameLocked_def)
next
  case (Cons b cs)
  obtain c where c: "foldl better_anchor (Some b) cs = Some c" "c \<in> set (b # cs)" "\<forall>d \<in> set (b # cs). fst c \<le> fst d"
    using foldl_better_anchor by blast
  have "distinct (map fst (b # cs))"
    using distinct_bare_matches[of r name] assms(1) Cons by (simp add: tools_ok_def)
  from least_is_head[OF this c(2,3)] obtain rest where "sort_key fst (b # cs) = c # rest" by blast
  then show ?thesis using assms c(1) Cons
    by (cases c) (simp add: ResolveByName_def resolveByBareNameLocked_def better_anchor_def del: sort_key_simps)
qed

end
