(* ===== verification/Tool_Runs.thy ===== *)
theory Tool_Runs
  imports Tool_Facts
begin

text \<open>
  Runs of the tool registry. \<open>registry_step\<close> interleaves the locked sections and repository calls of concurrent
  operations; the invariant of the registry is an invariant of it. For operations that run one after the
  other the registry and its repository agree (locale \<open>tool_repository\<close>), so a registry bootstrapped from
  the repository after a restart answers as the old one did.
\<close>

section \<open>Interleavings\<close>

text \<open>A pending operation between two of its sections.\<close>

datatype (plugins only: code size) 'x pending =
    RegisterChecked "'x tool_entry"
  | RegisterPersisted "'x tool_entry"
  | DeprecateChecked string string nat
  | DeprecatePersisted string string nat
  | UnregisterChecked string nat
  | UnregisterPersisted nat

inductive registry_step ::
  "(string \<Rightarrow> gerr option) \<Rightarrow> address_sort \<Rightarrow> ('x, 'r) tool_registry \<times> 'r \<times> 'x pending list \<Rightarrow>
   ('x, 'r) tool_registry \<times> 'r \<times> 'x pending list \<Rightarrow> bool" for jo srt where
  builtin: "RegisterBuiltin srt schema exec uuid now r = (err, r') \<Longrightarrow> registry_step jo srt (r, s, ps) (r', s, ps)"
| seal: "registry_step jo srt (r, s, ps) (SealTools r, s, ps)"
| register: "prepare_entry jo uuid now entry = Inr e \<Longrightarrow> check_duplicate e r = None \<Longrightarrow>
    registry_step jo srt (r, s, ps) (r, s, RegisterChecked e # ps)"
| register_persist: "RegisterChecked e \<in> set ps \<Longrightarrow> persist_entry now e (rg_repo r) s = (err, s') \<Longrightarrow>
    registry_step jo srt (r, s, ps)
      (r, s', (if err = None then [RegisterPersisted e] else []) @ remove1 (RegisterChecked e) ps)"
| register_commit: "RegisterPersisted e \<in> set ps \<Longrightarrow> commit_entry srt e r = (err, r') \<Longrightarrow>
    registry_step jo srt (r, s, ps) (r', s, remove1 (RegisterPersisted e) ps)"
| deprecate: "check_deprecate qn r = Inr a \<Longrightarrow> registry_step jo srt (r, s, ps) (r, s, DeprecateChecked qn reason a # ps)"
| deprecate_persist: "DeprecateChecked qn reason a \<in> set ps \<Longrightarrow>
    persist_deprecate now qn reason (rg_repo r) s = (err, s') \<Longrightarrow>
    registry_step jo srt (r, s, ps)
      (r, s', (if err = None then [DeprecatePersisted qn reason a] else []) @ remove1 (DeprecateChecked qn reason a) ps)"
| deprecate_commit: "DeprecatePersisted qn reason a \<in> set ps \<Longrightarrow>
    registry_step jo srt (r, s, ps)
      (commit_deprecate now qn reason a r, s, remove1 (DeprecatePersisted qn reason a) ps)"
| unregister: "check_unregister qn r = Inr a \<Longrightarrow> registry_step jo srt (r, s, ps) (r, s, UnregisterChecked qn a # ps)"
| unregister_persist: "UnregisterChecked qn a \<in> set ps \<Longrightarrow> persist_delete qn (rg_repo r) s = (err, s') \<Longrightarrow>
    registry_step jo srt (r, s, ps)
      (r, s', (if err = None then [UnregisterPersisted a] else []) @ remove1 (UnregisterChecked qn a) ps)"
| unregister_commit: "UnregisterPersisted a \<in> set ps \<Longrightarrow>
    registry_step jo srt (r, s, ps) (removeLocked a r, s, remove1 (UnregisterPersisted a) ps)"

text \<open>Steps that succeed, with the list of pending operations they leave.\<close>

lemma persisted_step:
  assumes "RegisterChecked e \<in> set ps" and "persist_entry now e (rg_repo r) s = (None, s')"
    and "ps' = RegisterPersisted e # remove1 (RegisterChecked e) ps"
  shows "registry_step jo srt (r, s, ps) (r, s', ps')"
  using register_persist[OF assms(1,2)] assms(3) by simp

lemma committed_step:
  assumes "RegisterPersisted e \<in> set ps" and "r' = snd (commit_entry srt e r)"
    and "ps' = remove1 (RegisterPersisted e) ps"
  shows "registry_step jo srt (r, s, ps) (r', s, ps')"
  using register_commit[OF assms(1), of srt r "fst (commit_entry srt e r)" "snd (commit_entry srt e r)" jo s] assms(2,3)
  by simp

lemma deleted_step:
  assumes "UnregisterChecked qn a \<in> set ps" and "persist_delete qn (rg_repo r) s = (None, s')"
    and "ps' = UnregisterPersisted a # remove1 (UnregisterChecked qn a) ps"
  shows "registry_step jo srt (r, s, ps) (r, s', ps')"
  using unregister_persist[OF assms(1,2)] assms(3) by simp

lemma removed_step:
  assumes "UnregisterPersisted a \<in> set ps" and "r' = removeLocked a r" and "ps' = remove1 (UnregisterPersisted a) ps"
  shows "registry_step jo srt (r, s, ps) (r', s, ps')"
  using unregister_commit[OF assms(1)] assms(2,3) by simp

definition tools_sound :: "('x, 'r) tool_registry \<Rightarrow> bool" where
  "tools_sound r \<longleftrightarrow> tools_ok r \<and> (versions_plain r \<longrightarrow> descending r)"

lemma tools_sound_New [simp]: "tools_sound NewRegistry"
  by (simp add: tools_sound_def)

lemma tools_sound_insert: "slice_sort srt \<Longrightarrow> tools_sound r \<Longrightarrow> tools_sound (insertLocked srt e r)"
  unfolding tools_sound_def
  by (auto simp: insertLocked_ok intro!: insertLocked_descending) (simp add: versions_plain_def)

lemma tools_sound_remove: "tools_sound r \<Longrightarrow> tools_sound (removeLocked a r)"
  by (auto simp: tools_sound_def removeLocked_ok removeLocked_descending versions_plain_def)

lemma versions_plain_deprecate: "versions_plain (commit_deprecate now qn reason a r) \<Longrightarrow> versions_plain r"
  unfolding versions_plain_def
proof
  fix e assume plain: "\<forall>e \<in> set (rg_heap (commit_deprecate now qn reason a r)). plain_version (et_Version e)"
    and "e \<in> set (rg_heap r)"
  then obtain i where i: "i < length (rg_heap r)" "rg_heap r ! i = e" by (meson in_set_conv_nth)
  then have "rg_heap (commit_deprecate now qn reason a r) ! i \<in> set (rg_heap (commit_deprecate now qn reason a r))"
    by (intro nth_mem) simp
  with plain have "plain_version (et_Version (rg_heap (commit_deprecate now qn reason a r) ! i))" by blast
  then show "plain_version (et_Version e)" using i by simp
qed

lemma tools_sound_deprecate: "tools_sound r \<Longrightarrow> tools_sound (commit_deprecate now qn reason a r)"
  by (auto simp: tools_sound_def dest: versions_plain_deprecate)

lemma tools_sound_emit [simp]: "tools_sound (emit_tool ev r) = tools_sound r"
  by (simp add: tools_sound_def)

lemma tools_sound_commit: "slice_sort srt \<Longrightarrow> tools_sound r \<Longrightarrow> commit_entry srt e r = (err, r') \<Longrightarrow> tools_sound r'"
  by (auto simp: commit_entry_def tools_sound_insert split: option.splits)

lemma tools_sound_builtin:
  "slice_sort srt \<Longrightarrow> tools_sound r \<Longrightarrow> RegisterBuiltin srt schema exec uuid now r = (err, r') \<Longrightarrow> tools_sound r'"
  by (auto simp: RegisterBuiltin_def tools_sound_insert split: option.splits if_splits)

lemma tools_sound_seal [simp]: "tools_sound (SealTools r) = tools_sound r"
  by (simp add: tools_sound_def SealTools_def tools_ok_def descending_def versions_plain_def anchored_def)

lemma registry_step_sound:
  assumes "slice_sort srt" and "registry_step jo srt cfg cfg'" and "tools_sound (fst cfg)"
  shows "tools_sound (fst cfg')"
  using assms(2,3)
  by (induction rule: registry_step.induct)
    (auto intro: tools_sound_builtin[OF assms(1)] tools_sound_commit[OF assms(1)] tools_sound_remove tools_sound_deprecate)

lemma registry_steps_sound:
  assumes "slice_sort srt" and "(registry_step jo srt)\<^sup>*\<^sup>* cfg cfg'" and "tools_sound (fst cfg)"
  shows "tools_sound (fst cfg')"
  using assms(2,3) by induction (auto intro: registry_step_sound[OF assms(1)])

lemma LatestTool_greatest:
  assumes "tools_sound r" and "versions_plain r"
  shows "case LatestTool ns name r of
      Inl err \<Rightarrow> re_Code err = CodeNotFound \<and> (\<forall>a \<in> set (anchored (ns @ ''/'' @ name) r). et_Deprecated (rg_heap r ! a))
    | Inr a \<Rightarrow> a \<in> set (anchored (ns @ ''/'' @ name) r) \<and> \<not> et_Deprecated (rg_heap r ! a) \<and>
        (\<forall>b \<in> set (anchored (ns @ ''/'' @ name) r). \<not> et_Deprecated (rg_heap r ! b) \<longrightarrow>
           CompareSemver (et_Version (rg_heap r ! b)) (et_Version (rg_heap r ! a)) \<le> 0)"
proof -
  let ?k = "ns @ ''/'' @ name"
  have desc: "descending r" and ok: "tools_ok r" using assms by (auto simp: tools_sound_def)
  show ?thesis
  proof (cases "pickLatestNonDeprecated (rg_heap r) (anchored ?k r)")
    case None
    then have "\<forall>a \<in> set (anchored ?k r). et_Deprecated (rg_heap r ! a)" by (simp add: pickLatest_None)
    then show ?thesis using None by (simp add: LatestTool_def Let_def wrapErr_def)
  next
    case (Some a)
    note pick = pickLatest_Some[OF desc Some]
    then have "anchored ?k r \<noteq> []" by auto
    moreover have "CompareSemver (et_Version (rg_heap r ! a)) (et_Version (rg_heap r ! a)) \<le> 0"
      using assms(2) anchored_ok(1)[OF ok pick(1)] by (simp add: CompareSemver_key versions_plain_def sign_of_def)
    ultimately show ?thesis using Some pick by (fastforce simp: LatestTool_def Let_def)
  qed
qed

section \<open>What a registration leaves\<close>

lemma RegisterEntry_fails: "RegisterEntry jo srt uuid now entry s r = (Some err, s', r') \<Longrightarrow> r' = r"
  by (auto simp: RegisterEntry_def commit_entry_def split: sum.splits option.splits prod.splits)

lemma RegisterEntry_ok:
  assumes "RegisterEntry jo srt uuid now entry s r = (None, s', r')"
  obtains e ev where "prepare_entry jo uuid now entry = Inr e"
    "map_of (rg_byQualified r) (QualifiedName e) = None" "r' = emit_tool ev (insertLocked srt e r)"
  using assms
  by (auto simp: RegisterEntry_def commit_entry_def check_duplicate_def split: sum.splits option.splits prod.splits if_splits)

lemma prepared_manifest:
  assumes "prepare_entry jo uuid now (Some (manifest_entry m)) = Inr e"
  shows "et_BinaryPath e = tn_BinaryPath m" "et_Provenance e = tn_Provenance m" "et_Version e \<noteq> []"
    "QualifiedName e = tn_Namespace m @ ''/'' @ tn_Name m @ ''@'' @ tn_Version m"
  using assms
  by (auto simp: prepare_entry_def manifest_entry_def QualifiedName_def resolveNS_def split: option.splits if_splits)

lemma inserted_found:
  assumes ok: "tools_ok r" and "et_Version e \<noteq> []" and new: "map_of (rg_byQualified r) (QualifiedName e) = None"
  shows "GetTool (QualifiedName e) (insertLocked srt e r) = Inr (length (rg_heap r))"
    "rg_heap (insertLocked srt e r) ! length (rg_heap r) = e"
    "map_of (rg_byQualified r) q = Some b \<Longrightarrow> map_of (rg_byQualified (insertLocked srt e r)) q = Some b \<and>
       rg_heap (insertLocked srt e r) ! b = rg_heap r ! b"
proof -
  show "GetTool (QualifiedName e) (insertLocked srt e r) = Inr (length (rg_heap r))"
    "rg_heap (insertLocked srt e r) ! length (rg_heap r) = e"
    using assms(2) by (simp_all add: GetTool_def resolveLocked_def)
  assume b: "map_of (rg_byQualified r) q = Some b"
  then have "q \<noteq> QualifiedName e" using new by auto
  then show "map_of (rg_byQualified (insertLocked srt e r)) q = Some b \<and> rg_heap (insertLocked srt e r) ! b = rg_heap r ! b"
    using b assms(2) qualified_ok(1)[OF ok b] by (simp add: nth_append)
qed

lemma resolve_emit [simp]:
  "resolveLocked q (emit_tool ev r) = resolveLocked q r"
  "resolveByBareNameLocked q (emit_tool ev r) = resolveByBareNameLocked q r"
  unfolding resolveLocked_def resolveByBareNameLocked_def bare_matches_def emit_tool_fields anchored_emit by (rule refl)+

lemma GetTool_emit [simp]: "GetTool q (emit_tool ev r) = GetTool q r"
  by (simp add: GetTool_def)

lemma QualifiedName_shape:
  "et_Version e \<noteq> [] \<Longrightarrow> CHR ''@'' \<in> set (QualifiedName e)" "CHR ''/'' \<in> set (QualifiedName e)" "CHR ''/'' \<in> set (Anchor e)"
  by (cases "resolveNS e"; auto simp: QualifiedName_def Anchor_def)+

lemma plain_names_free:
  assumes "tools_ok r"
  shows "CHR ''@'' \<notin> set k \<Longrightarrow> map_of (rg_byQualified r) k = None"
    and "CHR ''/'' \<notin> set k \<Longrightarrow> map_of (rg_byQualified r) k = None" and "CHR ''/'' \<notin> set k \<Longrightarrow> anchored k r = []"
proof -
  have "CHR ''@'' \<in> set k \<and> CHR ''/'' \<in> set k" if "map_of (rg_byQualified r) k = Some a" for a
    using qualified_ok[OF assms that] anchored_ok(3)[OF assms] QualifiedName_shape by metis
  then show "CHR ''@'' \<notin> set k \<Longrightarrow> map_of (rg_byQualified r) k = None"
    "CHR ''/'' \<notin> set k \<Longrightarrow> map_of (rg_byQualified r) k = None" by (meson not_None_eq)+
  have "CHR ''/'' \<in> set k" if "a \<in> set (anchored k r)" for a
    using anchored_ok(2)[OF assms that] QualifiedName_shape by metis
  then show "CHR ''/'' \<notin> set k \<Longrightarrow> anchored k r = []" by (metis list.set_sel(1))
qed

text \<open>An entry above all listed ones of its anchor is listed first.\<close>

lemma inserted_head:
  assumes srt: "slice_sort srt" and ok: "tools_ok r" and desc: "descending (insertLocked srt e r)"
    and plain: "versions_plain (insertLocked srt e r)" and ver: "et_Version e \<noteq> []"
    and top: "\<forall>b \<in> set (anchored (Anchor e) r). CompareSemver (et_Version (rg_heap r ! b)) (et_Version e) < 0"
  shows "\<exists>l. anchored (Anchor e) (insertLocked srt e r) = length (rg_heap r) # l"
proof -
  let ?r = "insertLocked srt e r" and ?n = "length (rg_heap r)"
  have e: "versioned e = e" using ver by simp
  have mem: "set (anchored (Anchor e) ?r) = insert ?n (set (anchored (Anchor e) r))"
    using srt by (simp add: anchored_insert e)
  then obtain h t where ht: "anchored (Anchor e) ?r = h # t" by (cases "anchored (Anchor e) ?r") auto
  have "h = ?n"
  proof (rule ccontr)
    assume neq: "h \<noteq> ?n"
    then have h: "h \<in> set (anchored (Anchor e) r)" and n: "?n \<in> set t" using mem ht by auto
    have lt: "h < ?n" by (rule anchored_ok(1)[OF ok h])
    have "\<not> newer (rg_heap ?r) ?n h" using desc[unfolded descending_alt, rule_format, of "Anchor e"] ht n by simp
    then have "\<not> 0 < CompareSemver (et_Version e) (et_Version (rg_heap r ! h))" using lt by (simp add: newer_def e nth_append)
    moreover have "CompareSemver (et_Version (rg_heap r ! h)) (et_Version e) < 0" using top h by blast
    moreover have "plain_version (et_Version e)" "plain_version (et_Version (rg_heap r ! h))"
      using plain lt by (simp_all add: versions_plain_def e)
    ultimately show False by (simp add: CompareSemver_key)
  qed
  then show ?thesis using ht by blast
qed

lemma bare_matches_member:
  "(k, a) \<in> set (bare_matches name r) \<longleftrightarrow> (\<exists>b l. (k, b # l) \<in> set (rg_byAnchor r) \<and> et_Name (rg_heap r ! b) = name \<and>
     pickLatestNonDeprecated (rg_heap r) (b # l) = Some a)"
  by (force simp: bare_matches_def split: list.splits option.splits if_splits)

text \<open>So it is what its anchor resolves to, and what its bare name resolves to when no other anchor sorts earlier.\<close>

lemma inserted_resolved:
  assumes srt: "slice_sort srt" and snd: "tools_sound r" and plain: "versions_plain (insertLocked srt e r)"
    and ver: "et_Version e \<noteq> []" and live: "\<not> et_Deprecated e"
    and top: "\<forall>b \<in> set (anchored (Anchor e) r). CompareSemver (et_Version (rg_heap r ! b)) (et_Version e) < 0"
  shows "CHR ''@'' \<notin> set (Anchor e) \<Longrightarrow> resolveLocked (Anchor e) (insertLocked srt e r) = Some (length (rg_heap r))"
    and "(\<forall>(k, a) \<in> set (bare_matches (et_Name e) r). Anchor e \<le> k) \<Longrightarrow>
      resolveByBareNameLocked (et_Name e) (insertLocked srt e r) = Some (length (rg_heap r))"
proof -
  let ?r = "insertLocked srt e r" and ?n = "length (rg_heap r)"
  have e: "versioned e = e" using ver by simp
  have old: "versions_plain r" using plain by (simp add: versions_plain_def)
  have ok: "tools_ok r" and d: "descending r" using snd old by (auto simp: tools_sound_def)
  have ok': "tools_ok ?r" by (rule insertLocked_ok[OF srt ok])
  have d': "descending ?r" by (rule insertLocked_descending[OF srt ok d plain])
  obtain l where l: "anchored (Anchor e) ?r = ?n # l" using inserted_head[OF srt ok d' plain ver top] by blast
  have pick: "pickLatestNonDeprecated (rg_heap ?r) (?n # l) = Some ?n" using live by (simp add: pickLatestNonDeprecated_def e)
  show "resolveLocked (Anchor e) ?r = Some ?n" if "CHR ''@'' \<notin> set (Anchor e)"
    unfolding resolveLocked_def plain_names_free(1)[OF ok' that] using l pick by simp
  assume least: "\<forall>(k, a) \<in> set (bare_matches (et_Name e) r). Anchor e \<le> k"
  have at: "map_of (rg_byAnchor ?r) (Anchor e) = Some (?n # l)" using l by (simp add: anchored_def split: option.splits)
  then have mem: "(Anchor e, ?n) \<in> set (bare_matches (et_Name e) ?r)"
    using pick map_of_SomeD[OF at] unfolding bare_matches_member by (intro exI[of _ ?n] exI[of _ l]) (simp add: e)
  have low: "Anchor e \<le> fst c" if c: "c \<in> set (bare_matches (et_Name e) ?r)" for c
  proof (cases "fst c = Anchor e")
    case False
    obtain k a where ka: "c = (k, a)" by (cases c)
    obtain b m where bm: "(k, b # m) \<in> set (rg_byAnchor ?r)" "et_Name (rg_heap ?r ! b) = et_Name e"
      "pickLatestNonDeprecated (rg_heap ?r) (b # m) = Some a" using c unfolding ka bare_matches_member by blast
    have "map_of (rg_byAnchor ?r) k = Some (b # m)" using bm(1) ok' by (simp add: tools_ok_def)
    then have k: "map_of (rg_byAnchor r) k = Some (b # m)" using False by (simp add: map_of_insert_anchor ka e)
    then have "\<forall>i \<in> set (b # m). i < ?n" using anchored_ok(1)[OF ok, of _ k] by (simp add: anchored_def)
    then have "et_Name (rg_heap r ! b) = et_Name e" "pickLatestNonDeprecated (rg_heap r) (b # m) = Some a"
      using bm(2,3) by (auto simp: nth_append pickLatestNonDeprecated_def cong: find_cong)
    then have "(k, a) \<in> set (bare_matches (et_Name e) r)" using map_of_SomeD[OF k] unfolding bare_matches_member by blast
    then show ?thesis using least by (auto simp: ka)
  qed simp
  obtain x xs where x: "bare_matches (et_Name e) ?r = x # xs" using mem by (cases "bare_matches (et_Name e) ?r") auto
  obtain c where c: "foldl better_anchor (Some x) xs = Some c" "c \<in> set (x # xs)" "\<forall>d \<in> set (x # xs). fst c \<le> fst d"
    using foldl_better_anchor by blast
  have "fst c = Anchor e" using c(3) low[unfolded x] c(2) mem[unfolded x] by (metis fst_conv order_antisym)
  moreover have "distinct (map fst (x # xs))" using distinct_bare_matches[of ?r "et_Name e"] ok' by (simp add: tools_ok_def x)
  ultimately have "c = (Anchor e, ?n)" using c(2) mem[unfolded x] by (metis eq_key_imp_eq_value prod.collapse)
  then show "resolveByBareNameLocked (et_Name e) ?r = Some ?n"
    using c(1) by (simp add: resolveByBareNameLocked_def x better_anchor_def)
qed

lemma RegisterEntry_sealed:
  "RegisterEntry jo srt uuid now entry s (r\<lparr>rg_sealed := b\<rparr>) =
     (case RegisterEntry jo srt uuid now entry s r of (err, s', r') \<Rightarrow> (err, s', r'\<lparr>rg_sealed := b\<rparr>))"
  unfolding RegisterEntry_def commit_entry_def check_duplicate_def emit_tool_def insertLocked_def anchored_def Let_def
  by (auto split: sum.split option.split prod.split)

lemma prepared_names:
  assumes "prepare_entry jo uuid now (Some e) = Inr e'"
  shows "Anchor e' = et_Namespace e @ ''/'' @ et_Name e" "et_Name e' = et_Name e" "et_Version e' = et_Version e"
    "et_Version e \<noteq> []" "et_Deprecated e' = et_Deprecated e" "et_Executor e' = et_Executor e"
    "\<exists>s. et_Schema e' = Some s \<and> sm_RequiresHITL s = (case et_Schema e of None \<Rightarrow> False | Some s \<Rightarrow> sm_RequiresHITL s)"
  using assms
  by (auto simp: prepare_entry_def Anchor_def resolveNS_def bare_schema_def split: option.splits if_splits)

section \<open>One operation after the other\<close>

datatype (plugins only: code size) 'x tool_op =
    OpRegister string int "'x tool_entry option"
  | OpDeprecate int int string string
  | OpUnregister string

fun run_op ::
  "(string \<Rightarrow> gerr option) \<Rightarrow> address_sort \<Rightarrow> 'x tool_op \<Rightarrow> 'r \<Rightarrow> ('x, 'r) tool_registry \<Rightarrow>
   registry_error option \<times> 'r \<times> ('x, 'r) tool_registry" where
  "run_op jo srt (OpRegister uuid now entry) s r = RegisterEntry jo srt uuid now entry s r"
| "run_op jo srt (OpDeprecate now1 now2 qn reason) s r = DeprecateTool now1 now2 qn reason s r"
| "run_op jo srt (OpUnregister qn) s r = Unregister qn s r"

fun run_ops ::
  "(string \<Rightarrow> gerr option) \<Rightarrow> address_sort \<Rightarrow> 'x tool_op list \<Rightarrow> 'r \<Rightarrow> ('x, 'r) tool_registry \<Rightarrow> 'r \<times> ('x, 'r) tool_registry" where
  "run_ops jo srt [] s r = (s, r)"
| "run_ops jo srt (p # ps) s r = (case run_op jo srt p s r of (_, s1, r1) \<Rightarrow> run_ops jo srt ps s1 r1)"

text \<open>The clock never reads the zero time.\<close>

fun clocked :: "'x tool_op \<Rightarrow> bool" where
  "clocked (OpRegister uuid now entry) = (now \<noteq> 0)"
| "clocked (OpDeprecate now1 now2 qn reason) = True"
| "clocked (OpUnregister qn) = True"

text \<open>A row without the time of its deprecation, which registry and repository read from the clock separately.\<close>

definition row_seen :: "tool_row \<Rightarrow> tool_row" where
  "row_seen e = e\<lparr>tw_DeprecatedAt := 0\<rparr>"

lemma row_seen_simps [simp]:
  "tw_Namespace (row_seen e) = tw_Namespace e" "tw_Name (row_seen e) = tw_Name e"
  "tw_Version (row_seen e) = tw_Version e" "tw_Deprecated (row_seen e) = tw_Deprecated e"
  "row_valid (row_seen e) = row_valid e" "row_qualified (row_seen e) = row_qualified e"
  by (simp_all add: row_seen_def row_valid_def row_qualified_def)

definition tool_view :: "('x, 'r) tool_registry \<Rightarrow> string \<Rightarrow> tool_row option" where
  "tool_view r q = map_option (\<lambda>a. row_seen (toPersistEntry (rg_heap r ! a))) (map_of (rg_byQualified r) q)"

lemma toPersistEntry_simps [simp]:
  "tw_Namespace (toPersistEntry e) = et_Namespace e" "tw_Name (toPersistEntry e) = et_Name e"
  "tw_Version (toPersistEntry e) = et_Version e" "tw_Deprecated (toPersistEntry e) = et_Deprecated e"
  "tw_RegisteredAt (toPersistEntry e) = et_RegisteredAt e"
  by (simp_all add: toPersistEntry_def)

lemma fromPersistEntry_simps [simp]:
  "toPersistEntry (fromPersistEntry row) = row" "et_Version (fromPersistEntry row) = tw_Version row"
  by (simp_all add: toPersistEntry_def fromPersistEntry_def)

lemma names_of_row:
  assumes "row_valid (toPersistEntry e)"
  shows "QualifiedName e = row_qualified (toPersistEntry e)" "Anchor e = et_Namespace e @ ''/'' @ et_Name e"
  using assms
  by (auto simp: row_valid_def QualifiedName_def Anchor_def resolveNS_def row_qualified_def split: option.splits)

lemma tool_view_insert:
  assumes "tools_ok r"
  shows "tool_view (insertLocked srt e r) q =
    (if q = QualifiedName (versioned e) then Some (row_seen (toPersistEntry (versioned e))) else tool_view r q)"
  using qualified_ok(1)[OF assms, of q]
  by (cases "map_of (rg_byQualified r) q") (auto simp: tool_view_def nth_append)

lemma tool_view_emit [simp]: "tool_view (emit_tool ev r) = tool_view r"
  by (simp add: tool_view_def fun_eq_iff)

lemma tool_view_remove:
  "tool_view (removeLocked a r) q = (if q = QualifiedName (rg_heap r ! a) then None else tool_view r q)"
  by (simp add: tool_view_def)

lemma tool_view_deprecate:
  fixes r :: "('x, 'r) tool_registry"
  assumes ok: "tools_ok r" and a: "map_of (rg_byQualified r) q0 = Some a"
  shows "tool_view (commit_deprecate now qn reason a r) q =
    (if q = q0 then map_option (\<lambda>e. row_seen (row_deprecated now reason e)) (tool_view r q) else tool_view r q)"
proof (cases "map_of (rg_byQualified r) q")
  case (Some b)
  have "q = q0 \<longleftrightarrow> b = a" 
    using qualified_ok(2)[OF ok Some] qualified_ok(2)[OF ok a] a Some by (metis option.inject)
  moreover have "row_seen (toPersistEntry (deprecated_entry now reason e)) =
      row_seen (row_deprecated now reason (row_seen (toPersistEntry e)))" for e :: "'x tool_entry"
    by (simp add: deprecated_entry_def row_seen_def row_deprecated_def toPersistEntry_def)
  ultimately show ?thesis using Some qualified_ok(1)[OF ok Some] by (simp add: tool_view_def nth_list_update)
next
  case None
  then show ?thesis by (auto simp: tool_view_def)
qed

lemma row_seen_deprecated: "row_seen (row_deprecated now reason (row_seen e)) = row_seen (row_deprecated now' reason e)"
  by (simp add: row_seen_def row_deprecated_def)

context tool_repository
begin

definition agrees :: "('x, 'r) tool_registry \<Rightarrow> 'r \<Rightarrow> bool" where
  "agrees r s \<longleftrightarrow> rg_repo r = Some port \<and> inv s \<and> tools_sound r \<and> indexed r \<and>
     (\<forall>q. tool_view r q = map_option row_seen (lookup s q))"

lemma agrees_D:
  assumes "agrees r s"
  shows "rg_repo r = Some port" "inv s" "tools_sound r" "tools_ok r" "indexed r"
    "tool_view r q = map_option row_seen (lookup s q)"
  using assms by (auto simp: agrees_def tools_sound_def)

lemma agrees_lookup_None:
  "agrees r s \<Longrightarrow> map_of (rg_byQualified r) q = None \<longleftrightarrow> lookup s q = None"
  using agrees_D(6)[of r s q] by (auto simp: tool_view_def)

lemma register_agrees:
  assumes srt: "slice_sort srt" and ag: "agrees r s" and now: "now \<noteq> 0"
    and run: "RegisterEntry jo srt uuid now entry s r = (err, s', r')"
  shows "agrees r' s' \<and> (err \<noteq> None \<longrightarrow> s' = s \<and> r' = r)"
proof (cases "prepare_entry jo uuid now entry")
  case (Inl e)
  then show ?thesis using ag run by (auto simp: RegisterEntry_def)
next
  case (Inr e)
  then have valid: "row_valid (toPersistEntry e)" and at: "et_RegisteredAt e \<noteq> 0"
    using now by (auto simp: prepare_entry_def row_valid_def split: option.splits if_splits)
  note names = names_of_row[OF valid]
  note D = agrees_D[OF ag]
  show ?thesis
  proof (cases "map_of (rg_byQualified r) (QualifiedName e)")
    case None
    then have "lookup s (row_qualified (toPersistEntry e)) = None" using agrees_lookup_None[OF ag] names by simp
    from upsert_new[OF D(2) valid _ this, of now] at obtain s1 where s1: "tp_Upsert port now (toPersistEntry e) s = (None, s1)"
      "inv s1" "lookup s1 = (lookup s)(row_qualified (toPersistEntry e) \<mapsto> toPersistEntry e)" by auto
    have r': "r' = emit_tool \<lparr>ge_Type = ToolRegistered, ge_QualifiedName = QualifiedName e,
       ge_Entry = length (rg_heap r), ge_Reason = []\<rparr> (insertLocked srt e r)" "s' = s1" "err = None"
      using run None Inr s1(1) D(1)
      by (auto simp: RegisterEntry_def check_duplicate_def persist_entry_def commit_entry_def)
    have ver: "et_Version e \<noteq> []" using valid by (simp add: row_valid_def)
    show ?thesis
      unfolding agrees_def r'
      using None D s1 names ver tools_sound_insert[OF srt D(3)] insertLocked_indexed[OF srt D(4,5)]
      by (auto simp: tool_view_insert)
  next
    case (Some a)
    then show ?thesis using ag run Inr by (auto simp: RegisterEntry_def check_duplicate_def)
  qed
qed

lemma deprecate_agrees:
  assumes ag: "agrees r s" and run: "DeprecateTool now1 now2 qn reason s r = (err, s', r')"
  shows "agrees r' s' \<and> (err \<noteq> None \<longrightarrow> s' = s \<and> r' = r)"
proof (cases "check_deprecate qn r")
  case (Inl e)
  then show ?thesis using ag run by (auto simp: DeprecateTool_def)
next
  case (Inr a)
  then have a: "map_of (rg_byQualified r) qn = Some a"
    by (auto simp: check_deprecate_def split: if_splits option.splits)
  note D = agrees_D[OF ag]
  obtain e where e: "lookup s qn = Some e" using agrees_lookup_None[OF ag, of qn] a by auto
  from deprecate_some[OF D(2) e, of now1 reason] obtain s1 where s1:
    "tp_Deprecate port now1 qn reason s = (None, s1)" "inv s1"
    "lookup s1 = (lookup s)(qn \<mapsto> row_deprecated now1 reason e)" by auto
  have r': "r' = commit_deprecate now2 qn reason a r" "s' = s1" "err = None"
    using run Inr s1(1) D(1) by (auto simp: DeprecateTool_def persist_deprecate_def persist_change_def)
  have "tool_view r qn = Some (row_seen e)" using D(6)[of qn] e by simp
  then show ?thesis
    unfolding agrees_def r'
    using D s1 tools_sound_deprecate[OF D(3)] by (auto simp: tool_view_deprecate[OF D(4) a] row_seen_deprecated)
qed

lemma unregister_agrees:
  assumes ag: "agrees r s" and run: "Unregister qn s r = (err, s', r')"
  shows "agrees r' s' \<and> (err \<noteq> None \<longrightarrow> s' = s \<and> r' = r)"
proof (cases "check_unregister qn r")
  case (Inl e)
  then show ?thesis using ag run by (auto simp: Unregister_def)
next
  case (Inr a)
  then have a: "map_of (rg_byQualified r) qn = Some a"
    by (auto simp: check_unregister_def split: if_splits option.splits)
  note D = agrees_D[OF ag]
  note qa = qualified_ok[OF D(4) a]
  obtain e where e: "lookup s qn = Some e" using agrees_lookup_None[OF ag, of qn] a by auto
  from delete_some[OF D(2) e] obtain s1 where s1:
    "tp_Delete port qn s = (None, s1)" "inv s1" "lookup s1 = (lookup s)(qn := None)" by auto
  have r': "r' = removeLocked a r" "s' = s1" "err = None"
    using run Inr s1(1) D(1) by (auto simp: Unregister_def persist_delete_def persist_change_def)
  show ?thesis
    unfolding agrees_def r'
    using D s1 qa tools_sound_remove[OF D(3)] removeLocked_indexed[OF D(4,5) qa(3)]
    by (auto simp: tool_view_remove)
qed

lemma run_op_agrees:
  assumes "slice_sort srt" and "agrees r s" and "clocked p" and "run_op jo srt p s r = (err, s', r')"
  shows "agrees r' s' \<and> (err \<noteq> None \<longrightarrow> s' = s \<and> r' = r)"
proof (cases p)
  case (OpRegister uuid now entry)
  with assms(3,4) show ?thesis by (intro register_agrees[OF assms(1,2)]) simp_all
next
  case (OpDeprecate now1 now2 qn reason)
  with assms(4) show ?thesis by (intro deprecate_agrees[OF assms(2)]) simp_all
next
  case (OpUnregister qn)
  with assms(4) show ?thesis by (intro unregister_agrees[OF assms(2)]) simp_all
qed

lemma run_ops_agrees:
  assumes "slice_sort srt" and "agrees r s" and "list_all clocked ps" and "run_ops jo srt ps s r = (s', r')"
  shows "agrees r' s'"
  using assms(2-)
proof (induction ps arbitrary: s r)
  case (Cons p ps)
  obtain err s1 r1 where p: "run_op jo srt p s r = (err, s1, r1)" by (cases "run_op jo srt p s r")
  then have "agrees r1 s1" using run_op_agrees[OF assms(1) Cons.prems(1) _ p] Cons.prems(2) by simp
  then show ?case using Cons.IH Cons.prems(2,3) p by simp
qed simp

text \<open>A registry loaded from the repository.\<close>

lemma foldl_insert_rows:
  fixes r :: "('x, 'r) tool_registry"
  assumes srt: "slice_sort srt"
    and "distinct (map row_qualified rows)" and "\<forall>e \<in> set rows. row_valid e \<and> tool_view r (row_qualified e) = None"
    and "tools_sound r" and "indexed r"
  shows "let r' = foldl (\<lambda>r row. insertLocked srt (fromPersistEntry row) r) r rows
    in tools_sound r' \<and> indexed r' \<and> rg_repo r' = rg_repo r \<and>
       rg_heap r' = rg_heap r @ map (\<lambda>row. versioned (fromPersistEntry row)) rows \<and>
       (\<forall>q. tool_view r' q = (case map_of (map (\<lambda>e. (row_qualified e, e)) rows) q of
          Some e \<Rightarrow> Some (row_seen e) | None \<Rightarrow> tool_view r q))"
  using assms(2-)
proof (induction rows arbitrary: r)
  case (Cons e rows)
  let ?e = "fromPersistEntry e :: 'x tool_entry"
  let ?r1 = "insertLocked srt ?e r"
  have ok: "tools_ok r" using Cons.prems(3) by (simp add: tools_sound_def)
  have valid: "row_valid e" using Cons.prems(2) by simp
  then have ver: "versioned ?e = ?e" by (simp add: row_valid_def)
  have qn: "QualifiedName ?e = row_qualified e" using names_of_row(1)[of ?e] valid by simp
  have view: "tool_view ?r1 q = (if q = row_qualified e then Some (row_seen e) else tool_view r q)" for q
    by (simp add: tool_view_insert[OF ok] ver qn)
  have "map_of (rg_byQualified r) (row_qualified e) = None" using Cons.prems(2) by (simp add: tool_view_def)
  then have "indexed ?r1" using insertLocked_indexed[OF srt ok Cons.prems(4)] by (simp add: ver qn)
  moreover have "\<forall>x \<in> set rows. row_valid x \<and> tool_view ?r1 (row_qualified x) = None"
  proof
    fix x assume x: "x \<in> set rows"
    then have "row_qualified x \<in> set (map row_qualified rows)" by (metis image_eqI set_map)
    then have "row_qualified x \<noteq> row_qualified e" using Cons.prems(1) by auto
    then show "row_valid x \<and> tool_view ?r1 (row_qualified x) = None" using Cons.prems(2) x by (simp add: view)
  qed
  moreover have "tools_sound ?r1" using srt Cons.prems(3) by (rule tools_sound_insert)
  ultimately show ?case
    using Cons.IH[of ?r1] Cons.prems(1) by (auto simp: Let_def view map_of_eq_None_iff image_iff split: option.splits)
qed (simp add: Let_def)

lemma bootstrap_agrees:
  assumes srt: "slice_sort srt" and "inv s"
  shows "\<exists>r :: ('x, 'r) tool_registry. BootstrapTools srt (Some port) s NewRegistry = (None, r) \<and> agrees r s \<and>
    (\<forall>e \<in> set (rg_heap r). \<exists>q row. lookup s q = Some row \<and> et_Version e = tw_Version row)"
proof -
  obtain rows where rows: "tp_ListAll port s = Inr rows" "distinct (map row_qualified rows)"
    "\<And>qn. map_of (map (\<lambda>e. (row_qualified e, e)) rows) qn = lookup s qn" using list_all_map[OF assms(2)] by metis
  have found: "lookup s (row_qualified e) = Some e" if "e \<in> set rows" for e
  proof -
    obtain rows' where "tp_ListAll port s = Inr rows'" "\<forall>e. e \<in> set rows' \<longleftrightarrow> lookup s (row_qualified e) = Some e"
      using list_all[OF assms(2)] by blast
    then show ?thesis using rows(1) that by simp
  qed
  then have valid: "row_valid e" if "e \<in> set rows" for e using that lookup_key[OF assms(2)] by blast
  let ?r0 = "NewRegistry\<lparr>rg_repo := Some port\<rparr> :: ('x, 'r) tool_registry"
  have r0: "tools_sound ?r0" "indexed ?r0" "\<And>q. tool_view ?r0 q = None"
    by (simp_all add: tools_sound_def tools_ok_def descending_def indexed_def anchored_def NewRegistry_def tool_view_def)
  define r where "r = foldl (\<lambda>r row. insertLocked srt (fromPersistEntry row) r) ?r0 rows"
  have "agrees r s"
    using foldl_insert_rows[OF srt rows(2) _ r0(1,2)] valid r0(3) assms(2) rows(3)
    by (auto simp: agrees_def r_def Let_def split: option.splits)
  moreover have heap: "rg_heap r = map (\<lambda>row. versioned (fromPersistEntry row)) rows"
    using foldl_insert_rows[OF srt rows(2) _ r0(1,2)] valid r0(3) by (simp add: r_def Let_def NewRegistry_def)
  then have "\<exists>q row. lookup s q = Some row \<and> et_Version e = tw_Version row" if mem: "e \<in> set (rg_heap r)" for e
  proof -
    obtain x where x: "x \<in> set rows" "e = versioned (fromPersistEntry x)" using mem heap by auto
    then have "et_Version e = tw_Version x" using valid[of x] by (simp add: row_valid_def)
    then show ?thesis using found[OF x(1)] by blast
  qed
  ultimately show ?thesis using rows(1) by (auto simp: BootstrapTools_def r_def)
qed

text \<open>Two registries that agree with one repository return the same versions.\<close>

lemma agrees_entry:
  assumes ag: "agrees r s" and a: "a \<in> set (anchored k r)"
  obtains e where "lookup s (QualifiedName (rg_heap r ! a)) = Some e" "row_seen e = row_seen (toPersistEntry (rg_heap r ! a))"
    "k = tw_Namespace e @ ''/'' @ tw_Name e"
proof -
  note D = agrees_D[OF ag]
  have "map_of (rg_byQualified r) (QualifiedName (rg_heap r ! a)) = Some a" using D(5) a by (auto simp: indexed_def)
  then have "tool_view r (QualifiedName (rg_heap r ! a)) = Some (row_seen (toPersistEntry (rg_heap r ! a)))"
    by (simp add: tool_view_def)
  then obtain e where e: "lookup s (QualifiedName (rg_heap r ! a)) = Some e"
    "row_seen e = row_seen (toPersistEntry (rg_heap r ! a))"
    using D(6)[of "QualifiedName (rg_heap r ! a)"] by auto
  then have "row_valid (toPersistEntry (rg_heap r ! a))"
    using lookup_key[OF D(2) e(1)] by (metis row_seen_simps(5))
  from names_of_row(2)[OF this] have "k = et_Namespace (rg_heap r ! a) @ ''/'' @ et_Name (rg_heap r ! a)"
    using anchored_ok(2)[OF D(4) a] by simp
  moreover have "tw_Namespace e = et_Namespace (rg_heap r ! a)" "tw_Name e = et_Name (rg_heap r ! a)"
    using e(2) by (metis row_seen_simps(1) toPersistEntry_simps(1), metis row_seen_simps(2) toPersistEntry_simps(2))
  ultimately show thesis using that e by simp
qed

lemma agrees_same_entry:
  assumes ag: "agrees r s" "agrees r' s" and a: "a \<in> set (anchored k r)"
  shows "\<exists>b \<in> set (anchored k r'). row_seen (toPersistEntry (rg_heap r' ! b)) = row_seen (toPersistEntry (rg_heap r ! a))"
proof -
  note D = agrees_D[OF ag(1)] note D' = agrees_D[OF ag(2)]
  let ?q = "QualifiedName (rg_heap r ! a)"
  obtain e where e: "lookup s ?q = Some e" "row_seen e = row_seen (toPersistEntry (rg_heap r ! a))"
    "k = tw_Namespace e @ ''/'' @ tw_Name e" using agrees_entry[OF ag(1) a] .
  then have "tool_view r' ?q = Some (row_seen e)" using D'(6)[of ?q] by simp
  then obtain b where b: "map_of (rg_byQualified r') ?q = Some b" "row_seen (toPersistEntry (rg_heap r' ! b)) = row_seen e"
    by (auto simp: tool_view_def)
  note qb = qualified_ok[OF D'(4) b(1)]
  have "row_valid (toPersistEntry (rg_heap r' ! b))" using b(2) lookup_key[OF D(2) e(1)] by (metis row_seen_simps(5))
  from names_of_row(2)[OF this] have "Anchor (rg_heap r' ! b) = tw_Namespace e @ ''/'' @ tw_Name e"
    using b(2) by (metis row_seen_simps(1,2) toPersistEntry_simps(1,2))
  then show ?thesis using qb(3) b(2) e(2,3) by auto
qed

lemma agrees_latest_le:
  assumes ag: "agrees r s" "agrees r' s" and plain: "versions_plain r" "versions_plain r'"
    and a: "LatestTool ns name r = Inr a" and b: "LatestTool ns name r' = Inr b"
  shows "version_key (et_Version (rg_heap r ! a)) \<le> version_key (et_Version (rg_heap r' ! b))"
proof -
  note D = agrees_D[OF ag(1)] note D' = agrees_D[OF ag(2)]
  let ?k = "ns @ ''/'' @ name"
  have la: "a \<in> set (anchored ?k r)" "\<not> et_Deprecated (rg_heap r ! a)"
    using LatestTool_greatest[OF D(3) plain(1), of ns name] a by auto
  obtain c where c: "c \<in> set (anchored ?k r')"
    "row_seen (toPersistEntry (rg_heap r' ! c)) = row_seen (toPersistEntry (rg_heap r ! a))"
    using agrees_same_entry[OF ag la(1)] by blast
  then have same: "et_Version (rg_heap r' ! c) = et_Version (rg_heap r ! a)" "\<not> et_Deprecated (rg_heap r' ! c)"
    using la(2) by (metis row_seen_simps(3) toPersistEntry_simps(3), metis row_seen_simps(4) toPersistEntry_simps(4))
  have "b \<in> set (anchored ?k r')"
    "CompareSemver (et_Version (rg_heap r' ! c)) (et_Version (rg_heap r' ! b)) \<le> 0"
    using LatestTool_greatest[OF D'(3) plain(2), of ns name] b c(1) same(2) by auto
  then show ?thesis
    using plain(2) anchored_ok(1)[OF D'(4)] c(1) same(1)
    by (metis CompareSemver_key sign_of_less(2) linorder_not_le nth_mem versions_plain_def)
qed

lemma agrees_latest_found:
  assumes ag: "agrees r s" "agrees r' s" and plain: "versions_plain r" "versions_plain r'"
    and a: "LatestTool ns name r = Inr a"
  shows "\<exists>b. LatestTool ns name r' = Inr b"
proof (rule ccontr)
  assume "\<nexists>b. LatestTool ns name r' = Inr b"
  then obtain err where "LatestTool ns name r' = Inl err" by (cases "LatestTool ns name r'") auto
  then have none: "\<forall>b \<in> set (anchored (ns @ ''/'' @ name) r'). et_Deprecated (rg_heap r' ! b)"
    using LatestTool_greatest[OF agrees_D(3)[OF ag(2)] plain(2), of ns name] by auto
  have la: "a \<in> set (anchored (ns @ ''/'' @ name) r)" "\<not> et_Deprecated (rg_heap r ! a)"
    using LatestTool_greatest[OF agrees_D(3)[OF ag(1)] plain(1), of ns name] a by auto
  obtain c where "c \<in> set (anchored (ns @ ''/'' @ name) r')"
    "row_seen (toPersistEntry (rg_heap r' ! c)) = row_seen (toPersistEntry (rg_heap r ! a))"
    using agrees_same_entry[OF ag la(1)] by blast
  then show False using none la(2) by (metis row_seen_simps(4) toPersistEntry_simps(4))
qed

text \<open>The restart: everything the old registry knew by name, and the same latest versions.\<close>

lemma restart_same:
  fixes r :: "('x, 'r) tool_registry"
  assumes srt: "slice_sort srt" and ag: "agrees r s"
  shows "\<exists>r' :: ('x, 'r) tool_registry. BootstrapTools srt (Some port) s NewRegistry = (None, r') \<and>
    (\<forall>q. tool_view r' q = tool_view r q) \<and>
    (versions_plain r \<longrightarrow> (\<forall>ns name. case LatestTool ns name r of
        Inl _ \<Rightarrow> isl (LatestTool ns name r')
      | Inr a \<Rightarrow> \<exists>b. LatestTool ns name r' = Inr b \<and>
          CompareSemver (et_Version (rg_heap r' ! b)) (et_Version (rg_heap r ! a)) = 0))"
proof -
  obtain r' :: "('x, 'r) tool_registry" where r': "BootstrapTools srt (Some port) s NewRegistry = (None, r')" "agrees r' s"
    "\<forall>e \<in> set (rg_heap r'). \<exists>q row. lookup s q = Some row \<and> et_Version e = tw_Version row"
    using bootstrap_agrees[OF srt agrees_D(2)[OF ag]] by blast
  have view: "tool_view r' q = tool_view r q" for q
    using agrees_D(6)[OF ag, of q] agrees_D(6)[OF r'(2), of q] by simp
  have latest: "case LatestTool ns name r of
        Inl _ \<Rightarrow> isl (LatestTool ns name r')
      | Inr a \<Rightarrow> \<exists>b. LatestTool ns name r' = Inr b \<and>
          CompareSemver (et_Version (rg_heap r' ! b)) (et_Version (rg_heap r ! a)) = 0"
    if plain: "versions_plain r" for ns name
  proof -
    have plain': "versions_plain r'"
      unfolding versions_plain_def
    proof
      fix e assume "e \<in> set (rg_heap r')"
      then obtain q row where row: "lookup s q = Some row" "et_Version e = tw_Version row" using r'(3) by blast
      then have "tool_view r q = Some (row_seen row)" using agrees_D(6)[OF ag, of q] by simp
      then obtain a where a: "map_of (rg_byQualified r) q = Some a" "row_seen (toPersistEntry (rg_heap r ! a)) = row_seen row"
        by (auto simp: tool_view_def)
      then have "et_Version (rg_heap r ! a) = tw_Version row" by (metis row_seen_simps(3) toPersistEntry_simps(3))
      then show "plain_version (et_Version e)"
        using plain qualified_ok(1)[OF agrees_D(4)[OF ag] a(1)] row(2) by (metis nth_mem versions_plain_def)
    qed
    show ?thesis
    proof (cases "LatestTool ns name r")
      case (Inl err)
      then show ?thesis using agrees_latest_found[OF r'(2) ag plain' plain, of ns name]
        by (cases "LatestTool ns name r'") auto
    next
      case (Inr a)
      obtain b where b: "LatestTool ns name r' = Inr b" using agrees_latest_found[OF ag r'(2) plain plain' Inr] by blast
      have "version_key (et_Version (rg_heap r' ! b)) = version_key (et_Version (rg_heap r ! a))"
        using agrees_latest_le[OF ag r'(2) plain plain' Inr b] agrees_latest_le[OF r'(2) ag plain' plain b Inr] by simp
      moreover have "plain_version (et_Version (rg_heap r' ! b))" "plain_version (et_Version (rg_heap r ! a))"
        using LatestTool_greatest[OF agrees_D(3)[OF r'(2)] plain', of ns name] b
          LatestTool_greatest[OF agrees_D(3)[OF ag] plain, of ns name] Inr
          anchored_ok(1)[OF agrees_D(4)[OF ag]] anchored_ok(1)[OF agrees_D(4)[OF r'(2)]] plain plain'
        by (auto simp: versions_plain_def)
      ultimately show ?thesis using Inr b by (simp add: CompareSemver_key)
    qed
  qed
  then show ?thesis using r'(1) view by blast
qed

end

end
