(* ===== verification/Tool_Properties.thy ===== *)
theory Tool_Properties
  imports Tool_Runs Fire_Registry Sample_Nets
begin

text \<open>
  Properties of the tool registry: the order of versions, what concurrent operations keep and what they can
  break, the agreement with the repository across a restart, the sealed namespace, and what a firing of a
  registration step leaves behind.
\<close>

section \<open>Versions\<close>

text \<open>
  C20: On versions whose components start with digits (or are absent) \<open>CompareSemver\<close> is the order of a key, so
  it is transitive and total, and a release is above its pre-releases. On other strings it is not
  transitive: \<open>10\<close>, \<open>1a\<close> and \<open>9\<close> form a cycle, so which of them is the latest depends on the sort.
\<close>
theorem CompareSemver_order:
  assumes "plain_version a" and "plain_version b" and "plain_version c"
  shows "(CompareSemver a b < 0 \<longleftrightarrow> version_key a < version_key b) \<and>
    (CompareSemver a b = 0 \<longleftrightarrow> version_key a = version_key b) \<and> CompareSemver b a = - CompareSemver a b \<and>
    (CompareSemver a b \<le> 0 \<longrightarrow> CompareSemver b c \<le> 0 \<longrightarrow> CompareSemver a c \<le> 0) \<and>
    CompareSemver ''10'' ''1a'' < 0 \<and> CompareSemver ''1a'' ''9'' < 0 \<and> CompareSemver ''9'' ''10'' < 0"
proof -
  have "CompareSemver a b \<le> 0 \<longrightarrow> CompareSemver b c \<le> 0 \<longrightarrow> CompareSemver a c \<le> 0"
    using assms by (auto simp: CompareSemver_key sign_of_def split: if_splits)
  moreover have "CompareSemver b a = - CompareSemver a b"
    using assms sign_of_swap[of "version_key b" "version_key a"] by (simp add: CompareSemver_key)
  moreover have "CompareSemver ''10'' ''1a'' < 0 \<and> CompareSemver ''1a'' ''9'' < 0 \<and> CompareSemver ''9'' ''10'' < 0"
    by code_simp
  ultimately show ?thesis using assms by (simp add: CompareSemver_key)
qed

theorem CompareSemver_order_witness:
  "CompareSemver ''1.0.0-rc1'' ''1.0.0'' < 0 \<and> CompareSemver ''1.9.0'' ''1.10.0'' < 0 \<and>
   CompareSemver ''1.0.0-rc1'' ''1.10.0'' \<le> 0"
proof -
  have "plain_version ''1.0.0-rc1'' \<and> plain_version ''1.0.0'' \<and> plain_version ''1.10.0'' \<and> plain_version ''1.9.0''"
    by code_simp
  moreover have "CompareSemver ''1.0.0-rc1'' ''1.0.0'' < 0 \<and> CompareSemver ''1.9.0'' ''1.10.0'' < 0 \<and>
      CompareSemver ''1.0.0'' ''1.10.0'' < 0" by code_simp
  ultimately show ?thesis
    using CompareSemver_order[of "''1.0.0-rc1''" "''1.0.0''" "''1.10.0''"] by simp
qed

section \<open>Concurrent operations\<close>

definition any_json :: "string \<Rightarrow> gerr option" where "any_json s = None"

definition no_provenance :: provenance where
  "no_provenance = \<lparr>pn_AuthoringCPNID = [], pn_FlowHash = [], pn_ForgeRunID = [], pn_PromptDigest = [],
     pn_SourcePath = [], pn_SourceSHA256 = []\<rparr>"

definition tool_of :: "string \<Rightarrow> string \<Rightarrow> string \<Rightarrow> 'x tool_entry" where
  "tool_of ns name ver = \<lparr>et_Schema = None, et_Executor = None, et_ID = [], et_Namespace = ns, et_Name = name,
     et_Version = ver, et_JSONSchema = [], et_HelpText = [], et_ManPage = [], et_BinaryPath = [],
     et_BinarySHA256 = [], et_Origin = [], et_Provenance = no_provenance, et_RegisteredAt = 0,
     et_RegisteredBy = [], et_Deprecated = False, et_DeprecatedAt = 0, et_DeprecationReason = []\<rparr>"

text \<open>
  C16: However the sections of concurrent registrations, deprecations and removals interleave, the registry
  stays consistent: as long as its versions are plain, \<open>Latest\<close> returns an entry of the anchor that is not
  deprecated and that no other one exceeds, and fails exactly when there is none.
\<close>
theorem concurrent_latest:
  assumes "slice_sort srt" and "(registry_step jo srt)\<^sup>*\<^sup>* (r0, s0, ps0) (r, s, ps)" and "tools_sound r0" and "versions_plain r"
  shows "tools_ok r \<and> (case LatestTool ns name r of
      Inl err \<Rightarrow> re_Code err = CodeNotFound \<and> (\<forall>a \<in> set (anchored (ns @ ''/'' @ name) r). et_Deprecated (rg_heap r ! a))
    | Inr a \<Rightarrow> a \<in> set (anchored (ns @ ''/'' @ name) r) \<and> \<not> et_Deprecated (rg_heap r ! a) \<and>
        (\<forall>b \<in> set (anchored (ns @ ''/'' @ name) r). \<not> et_Deprecated (rg_heap r ! b) \<longrightarrow>
           CompareSemver (et_Version (rg_heap r ! b)) (et_Version (rg_heap r ! a)) \<le> 0))"
proof -
  have "tools_sound r" using registry_steps_sound[OF assms(1,2)] assms(3) by simp
  then show ?thesis using LatestTool_greatest[OF _ assms(4), of ns name] by (simp add: tools_sound_def)
qed

text \<open>A registry in which two versions of a tool were registered by interleaved calls.\<close>

definition prepared :: "string \<Rightarrow> nat tool_entry" where
  "prepared ver = (case prepare_entry any_json ''id'' 1 (Some (tool_of ''acme'' ''run'' ver)) of
     Inr e \<Rightarrow> e | Inl _ \<Rightarrow> tool_of [] [] [])"

definition two_versions :: "(nat, tool_rows) tool_registry" where
  "two_versions = snd (commit_entry insertion_sort (prepared ''1.9.0'')
     (snd (commit_entry insertion_sort (prepared ''1.10.0'') NewRegistry)))"

lemma prepared_Inr:
  "ver \<noteq> [] \<Longrightarrow> prepare_entry any_json ''id'' 1 (Some (tool_of ''acme'' ''run'' ver)) = Inr (prepared ver)"
  by (simp add: prepared_def prepare_entry_def any_json_def validateJSONSchema_def tool_of_def)

lemma prepared_version [simp]: "ver \<noteq> [] \<Longrightarrow> et_Version (prepared ver) = ver"
  by (simp add: prepared_def prepare_entry_def any_json_def validateJSONSchema_def tool_of_def)

lemma prepared_other [simp]: "ver \<noteq> [] \<Longrightarrow> ver' \<noteq> [] \<Longrightarrow> ver \<noteq> ver' \<Longrightarrow> prepared ver \<noteq> prepared ver'"
  by (metis prepared_version)

lemma two_versions_reached:
  "(registry_step any_json insertion_sort)\<^sup>*\<^sup>* (NewRegistry, [], []) (two_versions, [], [])"
proof -
  let ?A = "prepared ''1.10.0''" and ?B = "prepared ''1.9.0''"
  let ?r0 = "NewRegistry :: (nat, tool_rows) tool_registry" and ?s = "[] :: tool_rows"
  let ?r1 = "snd (commit_entry insertion_sort ?A ?r0)"
  let ?step = "registry_step any_json insertion_sort"
  have fresh: "check_duplicate e ?r0 = None" for e by (simp add: check_duplicate_def NewRegistry_def)
  have stored: "persist_entry 1 e (rg_repo ?r0) ?s = (None, ?s)" for e by (simp add: persist_entry_def NewRegistry_def)
  note rtranclp.rtrancl_into_rtrancl [trans]
  have "?step\<^sup>*\<^sup>* (?r0, ?s, []) (?r0, ?s, [])" by simp
  also have "?step (?r0, ?s, []) (?r0, ?s, [RegisterChecked ?A])"
    by (rule registry_step.register[OF prepared_Inr fresh]) simp
  also have "?step (?r0, ?s, [RegisterChecked ?A]) (?r0, ?s, [RegisterChecked ?B, RegisterChecked ?A])"
    by (rule registry_step.register[OF prepared_Inr fresh]) simp
  also have "?step (?r0, ?s, [RegisterChecked ?B, RegisterChecked ?A]) (?r0, ?s, [RegisterPersisted ?A, RegisterChecked ?B])"
    by (rule persisted_step[OF _ stored, of ?A]) simp_all
  also have "?step (?r0, ?s, [RegisterPersisted ?A, RegisterChecked ?B]) (?r0, ?s, [RegisterPersisted ?B, RegisterPersisted ?A])"
    by (rule persisted_step[OF _ stored, of ?B]) simp_all
  also have "?step (?r0, ?s, [RegisterPersisted ?B, RegisterPersisted ?A]) (?r1, ?s, [RegisterPersisted ?B])"
    by (rule committed_step[of ?A]) simp_all
  also have "?step (?r1, ?s, [RegisterPersisted ?B]) (two_versions, ?s, [])"
    by (rule committed_step[of ?B]) (simp_all add: two_versions_def)
  finally show ?thesis .
qed

lemma two_versions_heap: "rg_heap two_versions = [prepared ''1.10.0'', prepared ''1.9.0'']"
  "anchored ''acme/run'' two_versions = [0, 1]"
  by code_simp+

theorem concurrent_latest_witness:
  "LatestTool ''acme'' ''run'' two_versions = Inr 0 \<and>
   CompareSemver (et_Version (rg_heap two_versions ! 1)) (et_Version (rg_heap two_versions ! 0)) \<le> 0"
proof -
  have "plain_version ''1.10.0'' \<and> plain_version ''1.9.0''" by code_simp
  then have plain: "versions_plain two_versions" by (simp add: versions_plain_def two_versions_heap)
  have latest: "LatestTool ''acme'' ''run'' two_versions = Inr 0" by code_simp
  have "\<not> et_Deprecated (rg_heap two_versions ! 1)" by code_simp
  then show ?thesis
    using concurrent_latest[OF insertion_slice_sort two_versions_reached tools_sound_New plain, of "''acme''" "''run''"] latest
    by (simp add: two_versions_heap)
qed









section \<open>The repository and the restart\<close>

text \<open>
  C15: An operation that fails changes neither the registry nor the repository, and every sequence of
  registrations, deprecations and removals leaves them in agreement: a registry bootstrapped from the
  in-memory repository after a restart knows the same tools by qualified name, and its latest version of
  every tool compares equal to that of the old one.
\<close>
theorem tool_restart:
  fixes r0 :: "('x, tool_rows) tool_registry"
  assumes srt: "slice_sort srt" and "slice_sort rsrt" and "rows_ok s0"
    and "BootstrapTools srt (Some (memory_tools rsrt)) s0 NewRegistry = (None, r0)" and "list_all clocked ps"
    and "run_ops jo srt ps s0 r0 = (s, r)"
  shows "(\<exists>r' :: ('x, tool_rows) tool_registry.
      BootstrapTools srt (Some (memory_tools rsrt)) s NewRegistry = (None, r') \<and>
      (\<forall>q. tool_view r' q = tool_view r q) \<and>
      (versions_plain r \<longrightarrow> (\<forall>ns name. case LatestTool ns name r of
          Inl _ \<Rightarrow> isl (LatestTool ns name r')
        | Inr a \<Rightarrow> \<exists>b. LatestTool ns name r' = Inr b \<and>
            CompareSemver (et_Version (rg_heap r' ! b)) (et_Version (rg_heap r ! a)) = 0))) \<and>
    (\<forall>p err s' r'. clocked p \<longrightarrow> run_op jo srt p s r = (Some err, s', r') \<longrightarrow> s' = s \<and> r' = r)"
proof -
  note repo = memory_tools_repository[OF assms(2)]
  let ?agrees = "tool_repository.agrees (memory_tools rsrt) map_of rows_ok"
  have "?agrees r0 s0"
    using tool_repository.bootstrap_agrees[OF repo srt assms(3), where 'x = 'x] assms(4) by auto
  then have ag: "?agrees r s" using tool_repository.run_ops_agrees[OF repo srt _ assms(5,6)] by blast
  have "s' = s \<and> r' = r" if "clocked p" "run_op jo srt p s r = (Some err, s', r')" for p err s' r'
    using tool_repository.run_op_agrees[OF repo srt ag that] by simp
  then show ?thesis using tool_repository.restart_same[OF repo srt ag] by blast
qed

definition some_ops :: "nat tool_op list" where
  "some_ops = [OpRegister ''a'' 1 (Some (tool_of ''acme'' ''run'' ''1.10.0'')),
     OpRegister ''b'' 1 (Some (tool_of ''acme'' ''run'' ''1.9.0'')),
     OpDeprecate 1 2 ''acme/run@1.10.0'' ''old'', OpUnregister ''acme/none@1'']"

definition after_boot :: "(nat, tool_rows) tool_registry" where
  "after_boot = snd (BootstrapTools insertion_sort (Some (memory_tools insertion_sort)) [] NewRegistry)"

definition after_ops :: "tool_rows \<times> (nat, tool_rows) tool_registry" where
  "after_ops = run_ops any_json insertion_sort some_ops [] after_boot"

theorem tool_restart_witness:
  "LatestTool ''acme'' ''run'' (snd after_ops) = Inr 1 \<and>
   (\<exists>r' :: (nat, tool_rows) tool_registry.
      BootstrapTools insertion_sort (Some (memory_tools insertion_sort)) (fst after_ops) NewRegistry = (None, r') \<and>
      tool_view r' ''acme/run@1.10.0'' = tool_view (snd after_ops) ''acme/run@1.10.0'')"
proof -
  have boot: "BootstrapTools insertion_sort (Some (memory_tools insertion_sort)) [] NewRegistry = (None, after_boot)"
    by (simp add: after_boot_def BootstrapTools_def memory_tools_def)
  have "list_all clocked some_ops" by (simp add: some_ops_def)
  from tool_restart[OF insertion_slice_sort insertion_slice_sort rows_ok_Nil boot this, of any_json "fst after_ops" "snd after_ops"]
  have "\<exists>r' :: (nat, tool_rows) tool_registry.
      BootstrapTools insertion_sort (Some (memory_tools insertion_sort)) (fst after_ops) NewRegistry = (None, r') \<and>
      tool_view r' ''acme/run@1.10.0'' = tool_view (snd after_ops) ''acme/run@1.10.0''"
    by (auto simp: after_ops_def)
  moreover have "LatestTool ''acme'' ''run'' (snd after_ops) = Inr 1" by code_simp
  ultimately show ?thesis by blast
qed

section \<open>The sealed namespace\<close>

definition shell_schema :: tool_schema where
  "shell_schema = (bare_schema ''bash_exec'' ''system'' [] [] [])\<lparr>sm_RequiresHITL := True\<rparr>"

definition run_shell :: "nat executor" where "run_shell w tok = (Inr tok, Suc w)"

definition sealed_tools :: "(nat executor, unit) tool_registry" where
  "sealed_tools = SealTools (snd (RegisterBuiltin insertion_sort (Some shell_schema) (Some run_shell) ''b'' 1 NewRegistry))"

definition authored_tool :: "string \<Rightarrow> registry_error option \<times> unit \<times> (nat executor, unit) tool_registry" where
  "authored_tool ns = RegisterEntry any_json insertion_sort ''a'' 2 (Some (tool_of ns ''bash_exec'' ''9.0.0'')) () sealed_tools"

definition asks_first :: "string \<Rightarrow> (nat executor, unit) tool_registry \<Rightarrow> bool option" where
  "asks_first name r = map_option tm_RequiresHITL (tr_ToolMeta (inject_transition r
     ((NewTransition ''t'' NodeKindTool [''a''] [''b''])\<lparr>tr_ToolName := name, tr_Executor := Some run_shell\<rparr>)))"

text \<open>
  C18: Sealing does not protect the built-in tools from \<open>RegisterEntry\<close>. The flag has no influence on it at all; and
  in any sound registry of plain versions, an entry it accepts, if it is not deprecated and its version is above
  those listed under its anchor, is from then on what a transition that names the anchor gets injected, and what a
  transition that names the bare tool gets unless the tool is also known in a namespace that sorts earlier. The
  transition keeps the executor it has, but asks for consent only if the schema of the new entry says so, which an
  entry without a schema never does.
\<close>
theorem sealed_namespace_open:
  fixes r :: "('w executor, 'r) tool_registry"
  assumes "slice_sort srt" and "tools_sound r" and "versions_plain r'" and "\<not> et_Deprecated e"
    and reg: "RegisterEntry jo srt uuid now (Some e) s r = (None, s', r')"
    and top: "\<forall>b \<in> set (anchored (et_Namespace e @ ''/'' @ et_Name e) r).
      CompareSemver (et_Version (rg_heap r ! b)) (et_Version e) < 0"
    and name: "tr_ToolName t = et_Namespace e @ ''/'' @ et_Name e \<and> CHR ''@'' \<notin> set (tr_ToolName t) \<or>
      tr_ToolName t = et_Name e \<and> CHR ''/'' \<notin> set (et_Name e) \<and>
        (\<forall>(k, a) \<in> set (bare_matches (et_Name e) r). et_Namespace e @ ''/'' @ et_Name e \<le> k)"
  shows "RegisterEntry jo srt uuid now entry s (r\<lparr>rg_sealed := b\<rparr>) =
      (case RegisterEntry jo srt uuid now entry s r of (err, s'', r'') \<Rightarrow> (err, s'', r''\<lparr>rg_sealed := b\<rparr>)) \<and>
    map_option tm_RequiresHITL (tr_ToolMeta (inject_transition r' t)) =
      Some (case et_Schema e of None \<Rightarrow> False | Some sc \<Rightarrow> sm_RequiresHITL sc) \<and>
    tr_Executor (inject_transition r' t) = (if tr_Executor t = None then et_Executor e else tr_Executor t)"
proof -
  obtain e' ev where p: "prepare_entry jo uuid now (Some e) = Inr e'" and r': "r' = emit_tool ev (insertLocked srt e' r)"
    using RegisterEntry_ok[OF reg] by metis
  note nm = prepared_names[OF p]
  let ?i = "insertLocked srt e' r" and ?n = "length (rg_heap r)"
  have pl: "versions_plain ?i" using assms(3) by (simp add: r')
  have ver: "et_Version e' \<noteq> []" using nm(3,4) by simp
  have tp: "\<forall>b \<in> set (anchored (Anchor e') r). CompareSemver (et_Version (rg_heap r ! b)) (et_Version e') < 0"
    using top by (simp add: nm)
  note res = inserted_resolved[OF assms(1,2) pl ver _ tp]
  have at: "rg_heap r' ! ?n = e'" using ver by (simp add: r')
  have ok: "tools_ok r'" using insertLocked_ok[OF assms(1), of r e'] assms(2) by (simp add: r' tools_sound_def)
  have "(case resolveLocked (tr_ToolName t) r' of
      Some a \<Rightarrow> Some a | None \<Rightarrow> resolveByBareNameLocked (tr_ToolName t) r') = Some ?n \<and> tr_ToolName t \<noteq> []"
    using name
  proof
    assume a: "tr_ToolName t = et_Namespace e @ ''/'' @ et_Name e \<and> CHR ''@'' \<notin> set (tr_ToolName t)"
    then have "CHR ''@'' \<notin> set (Anchor e')" by (auto simp: nm)
    from res(1)[OF _ this] have "resolveLocked (tr_ToolName t) r' = Some ?n" using a assms(4) by (simp add: nm r')
    then show ?thesis using a by simp
  next
    assume b: "tr_ToolName t = et_Name e \<and> CHR ''/'' \<notin> set (et_Name e) \<and>
      (\<forall>(k, a) \<in> set (bare_matches (et_Name e) r). et_Namespace e @ ''/'' @ et_Name e \<le> k)"
    then have "resolveLocked (tr_ToolName t) r' = None"
      using plain_names_free(2,3)[OF ok] by (simp add: resolveLocked_def)
    moreover have "resolveByBareNameLocked (tr_ToolName t) r' = Some ?n"
      using res(2) assms(4) b by (simp add: nm r')
    moreover have "et_Name e \<noteq> []" using p by (auto simp: prepare_entry_def split: if_splits)
    ultimately show ?thesis using b by simp
  qed
  then have "map_option tm_RequiresHITL (tr_ToolMeta (inject_transition r' t)) =
      Some (case et_Schema e of None \<Rightarrow> False | Some sc \<Rightarrow> sm_RequiresHITL sc) \<and>
    tr_Executor (inject_transition r' t) = (if tr_Executor t = None then et_Executor e else tr_Executor t)"
    using nm(6,7) by (auto simp: inject_transition_def at Let_def split: option.split)
  with RegisterEntry_sealed show ?thesis by (rule conjI)
qed

text \<open>A sealed built-in tool that asks loses its consent to an entry of a namespace that sorts earlier.\<close>

definition shell_step :: "nat transition" where
  "shell_step = (NewTransition ''t'' NodeKindTool [''a''] [''b''])\<lparr>tr_ToolName := ''bash_exec'', tr_Executor := Some run_shell\<rparr>"

definition taken_over :: "(nat executor, unit) tool_registry" where
  "taken_over = snd (snd (authored_tool ''acme''))"

theorem sealed_namespace_open_witness:
  "rg_sealed taken_over \<and>
   map_option tm_RequiresHITL (tr_ToolMeta (inject_transition sealed_tools shell_step)) = Some True \<and>
   map_option tm_RequiresHITL (tr_ToolMeta (inject_transition taken_over shell_step)) = Some False \<and>
   tr_Executor (inject_transition taken_over shell_step) = Some run_shell"
proof -
  let ?e = "tool_of ''acme'' ''bash_exec'' ''9.0.0'' :: nat executor tool_entry"
  have "tools_sound sealed_tools"
    unfolding sealed_tools_def tools_sound_seal by
      (rule tools_sound_builtin[OF insertion_slice_sort tools_sound_New prod.collapse[symmetric]])
  moreover have "map (plain_version \<circ> et_Version) (rg_heap taken_over) = [True, True]" by code_simp
  then have "versions_plain taken_over" by (auto simp: versions_plain_def map_eq_Cons_conv)
  moreover have "\<not> et_Deprecated ?e" by (simp add: tool_of_def)
  moreover have "fst (authored_tool ''acme'') = None" by code_simp
  then have reg: "RegisterEntry any_json insertion_sort ''a'' 2 (Some ?e) () sealed_tools = (None, (), taken_over)"
    by (simp add: authored_tool_def[symmetric] taken_over_def prod_eq_iff)
  moreover have "anchored (et_Namespace ?e @ ''/'' @ et_Name ?e) sealed_tools = []" by code_simp
  moreover have "bare_matches (et_Name ?e) sealed_tools = [(''system/bash_exec'', 0)]" by code_simp
  ultimately have "map_option tm_RequiresHITL (tr_ToolMeta (inject_transition taken_over shell_step)) = Some False \<and>
      tr_Executor (inject_transition taken_over shell_step) = Some run_shell"
    using sealed_namespace_open[OF insertion_slice_sort, where t = shell_step and b = True, OF _ _ _ reg]
    by (simp add: tool_of_def shell_step_def NewTransition_def)
  moreover have "rg_sealed taken_over" by code_simp
  moreover have "map_option tm_RequiresHITL (tr_ToolMeta (inject_transition sealed_tools shell_step)) = Some True" by code_simp
  ultimately show ?thesis by blast
qed

section \<open>The registration firing\<close>

text \<open>The registry as the port of the net: the world is the repository and the registry, \<open>fresh\<close> gives the
  identifier and the time.\<close>

definition registrar_of ::
  "(string \<Rightarrow> gerr option) \<Rightarrow> address_sort \<Rightarrow> ('r \<times> ('x, 'r) tool_registry \<Rightarrow> string \<times> int) \<Rightarrow>
   ('r \<times> ('x, 'r) tool_registry) tool_registrar" where
  "registrar_of jo srt fresh w m = (case fresh w of (uuid, now) \<Rightarrow>
     (case RegisterManifest jo srt uuid now m (fst w) (snd w) of (res, s', r') \<Rightarrow> (res, (s', r'))))"

text \<open>
  C17: A registration firing that succeeds leaves the tool of its manifest in the registry under its
  qualified name, with the binary and the provenance of the stamped manifest, and no tool that was there
  before is changed or renamed; one whose registration is refused leaves the registry as it was.
\<close>
theorem fired_tool_found:
  fixes w w' :: "'r \<times> ('x, 'r) tool_registry"
  assumes "c_ToolRegistry c = Some (registrar_of jo srt fresh)" and "c_FirstRunLedger c = None"
    and ok: "tools_ok (snd w)" and fire: "fireRegisterTool env t toks w c = ((snaps, cost, err), w', c')"
  shows "(snd w' = snd w \<and> err \<noteq> None) \<or>
    (\<exists>m a. resolveRegisterManifest env t toks = Inr m \<and> a = length (rg_heap (snd w)) \<and>
       GetTool (tn_Namespace m @ ''/'' @ tn_Name m @ ''@'' @ tn_Version m) (snd w') = Inr a \<and>
       et_BinaryPath (rg_heap (snd w') ! a) = tn_BinaryPath m \<and>
       et_Provenance (rg_heap (snd w') ! a) = tn_Provenance (stamp_manifest c m) \<and>
       (\<forall>q b. map_of (rg_byQualified (snd w)) q = Some b \<longrightarrow>
          map_of (rg_byQualified (snd w')) q = Some b \<and> rg_heap (snd w') ! b = rg_heap (snd w) ! b))"
proof (cases "resolveRegisterManifest env t toks")
  case (Inl e)
  then show ?thesis using fire assms(1) by (auto simp: fireRegisterTool_def fail_with_def)
next
  case (Inr m)
  let ?m = "stamp_manifest c m"
  obtain uuid now where fr: "fresh w = (uuid, now)" by (cases "fresh w")
  obtain rerr s1 r1 where re: "RegisterEntry jo srt uuid now (Some (manifest_entry ?m)) (fst w) (snd w) = (rerr, s1, r1)"
    by (cases "RegisterEntry jo srt uuid now (Some (manifest_entry ?m :: 'x tool_entry)) (fst w) (snd w)")
  have w': "w' = (s1, r1)" and "rerr \<noteq> None \<longrightarrow> err \<noteq> None"
    using fire assms(1,2) Inr fr re
    by (auto simp: fireRegisterTool_def first_run_def registrar_of_def RegisterManifest_def fail_with_def Let_def
        split: option.splits if_splits prod.splits)
  show ?thesis
  proof (cases rerr)
    case None
    obtain e ev where e: "prepare_entry jo uuid now (Some (manifest_entry ?m)) = Inr e"
      "map_of (rg_byQualified (snd w)) (QualifiedName e) = None" "r1 = emit_tool ev (insertLocked srt e (snd w))"
      using RegisterEntry_ok re None by metis
    note pm = prepared_manifest[OF e(1)]
    have same: "tn_Namespace ?m = tn_Namespace m" "tn_Name ?m = tn_Name m" "tn_Version ?m = tn_Version m"
      "tn_BinaryPath ?m = tn_BinaryPath m" by (simp_all add: stamp_manifest_def Let_def)
    have "GetTool (QualifiedName e) r1 = Inr (length (rg_heap (snd w)))"
      using inserted_found(1)[where srt = srt, OF ok pm(3) e(2)] by (simp add: e(3))
    then show ?thesis
      using Inr w' pm same inserted_found(2,3)[where srt = srt, OF ok pm(3) e(2)] by (auto simp: e(3))
  next
    case (Some rr)
    then show ?thesis using w' re RegisterEntry_fails \<open>rerr \<noteq> None \<longrightarrow> err \<noteq> None\<close> by force
  qed
qed

definition tool_env :: "(unit \<times> (nat, unit) tool_registry) env" where
  "tool_env =
     \<lparr>en_now = (\<lambda>w. (0, w)), en_sleep = (\<lambda>d w. (None, w)), en_done = (\<lambda>w. (None, w)),
      en_ovf = 0, en_order = (\<lambda>w s. 0), en_render = (\<lambda>p. []), en_sprint = (\<lambda>p. []), en_sprint_plus = (\<lambda>p. []),
      en_json = (\<lambda>p. Inr []), en_mutation = (\<lambda>s. Inl (Plain [])), en_event_json = (\<lambda>e. []),
      en_json_string = (\<lambda>s. s), en_type = (\<lambda>p. []),
      en_host_context = (\<lambda>c. []), en_shell_args = (\<lambda>s. Inl (Plain [])), en_path_arg = (\<lambda>s. Inl (Plain [])),
      en_usd = (\<lambda>x. []), en_approval_json = (\<lambda>c t a r. []), en_stamp = (\<lambda>w. (''0'', w)),
      en_background = (\<lambda>w c. (w, c)), en_join = (\<lambda>w c. (w, c)),
      en_rand = (\<lambda>w. (Inr [], w)), en_sha = (\<lambda>s. s), en_json_check = (\<lambda>s. None),
      en_flow_ref = (\<lambda>s. Inl (Plain [])), en_manifest = (\<lambda>s. Inl (Plain [])), en_lint = None,
      en_canonicalise = None, en_materialise = None, en_digest = None,
      en_run_child = (\<lambda>d w c. (None, w, c)), en_factory = (\<lambda>t. None), en_subnet = (\<lambda>t. None),
      en_spawn = (\<lambda>t c w. w)\<rparr>"

definition run_config :: register_tool_config where
  "run_config = \<lparr>rc_Namespace = ''acme'', rc_Name = ''run'', rc_Version = ''1.0.0'', rc_Schema = [], rc_HelpText = [],
     rc_ManPage = [], rc_BinaryPath = ''/bin/run'', rc_BinarySHA256 = [], rc_Origin = [], rc_Provenance = no_provenance,
     rc_RegisteredBy = []\<rparr>"

definition register_step :: "(unit \<times> (nat, unit) tool_registry) transition" where
  "register_step = (NewTransition ''t'' NodeKindRegisterTool [] [''b''])\<lparr>tr_RegisterToolConfig := Some run_config\<rparr>"

definition register_net :: "(unit \<times> (nat, unit) tool_registry) cpn" where
  "register_net = (NewCPN ''n'' ''r'' 0 ModeMAS [] [(''b'', NewPlace ''b'' ColorArtifact SpaceComputation)]
     [(''t'', register_step)])\<lparr>c_ToolRegistry := Some (registrar_of any_json insertion_sort (\<lambda>_. (''id'', 1)))\<rparr>"

definition fired :: "fire_out \<times> (unit \<times> (nat, unit) tool_registry) \<times> (unit \<times> (nat, unit) tool_registry) cpn" where
  "fired = fireRegisterTool tool_env register_step [] ((), NewRegistry) register_net"

theorem fired_tool_found_witness:
  "GetTool ''acme/run@1.0.0'' (snd (fst (snd fired))) = Inr 0 \<and>
   et_BinaryPath (rg_heap (snd (fst (snd fired))) ! 0) = ''/bin/run''"
proof -
  obtain snaps cost err w' c' where f: "fired = ((snaps, cost, err), w', c')" by (cases fired) auto
  have "snd (snd (fst fired)) = None" by code_simp
  then have "err = None" by (simp add: f)
  moreover have "resolveRegisterManifest tool_env register_step [] = Inr (ToManifest run_config)"
    by (simp add: resolveRegisterManifest_def register_step_def)
  moreover have "tools_ok (snd ((), NewRegistry :: (nat, unit) tool_registry))" by simp
  moreover have "c_ToolRegistry register_net = Some (registrar_of any_json insertion_sort (\<lambda>_. (''id'', 1)))"
    "c_FirstRunLedger register_net = None" by (simp_all add: register_net_def NewCPN_def)
  ultimately show ?thesis
    using fired_tool_found[of register_net any_json insertion_sort "\<lambda>_. (''id'', 1)" "((), NewRegistry)"
        tool_env register_step "[]" snaps cost err w' c'] f
    by (auto simp: fired_def ToManifest_def run_config_def NewRegistry_def)
qed

end
