(* ===== verification/Paths.thy ===== *)
theory Paths
  imports Prelude
begin

text \<open>
  The part of \<open>path/filepath\<close> the artefact services use, on Unix: \<open>Clean\<close>, \<open>Join\<close>, \<open>Rel\<close>, \<open>Base\<close>, \<open>Dir\<close> and
  \<open>Ext\<close>. \<open>path_of\<close> is the list of names an absolute path denotes; joining appends names and \<open>Rel\<close> inverts it.
\<close>

fun split_slash :: "string \<Rightarrow> string list" where
  "split_slash [] = [[]]"
| "split_slash (c # s) = (if c = CHR ''/'' then [] # split_slash s
     else case split_slash s of [] \<Rightarrow> [[c]] | x # xs \<Rightarrow> (c # x) # xs)"

text \<open>The names kept so far are a stack; \<open>..\<close> removes the last one, and stays when there is none to remove
  and the path is relative.\<close>

fun clean_names :: "bool \<Rightarrow> string list \<Rightarrow> string list \<Rightarrow> string list" where
  "clean_names r st [] = rev st"
| "clean_names r st (c # cs) =
     (if c = [] \<or> c = ''.'' then clean_names r st cs
      else if c = ''..'' then
        (case st of [] \<Rightarrow> clean_names r (if r then [] else [''..'']) cs
         | t # ts \<Rightarrow> if t = ''..'' then clean_names r (''..'' # st) cs else clean_names r ts cs)
      else clean_names r (c # st) cs)"

definition rooted :: "string \<Rightarrow> bool" where
  "rooted s \<longleftrightarrow> has_prefix s ''/''"

definition names_of_path :: "string \<Rightarrow> string list" where
  "names_of_path s = clean_names (rooted s) [] (split_slash s)"

definition join_slash :: "string list \<Rightarrow> string" where
  "join_slash = join_str ''/''"

definition CleanPath :: "string \<Rightarrow> string" where
  "CleanPath s = (let out = join_slash (names_of_path s)
     in if rooted s then CHR ''/'' # out else if out = [] then ''.'' else out)"

definition JoinPath :: "string list \<Rightarrow> string" where
  "JoinPath es = (case filter (\<lambda>e. e \<noteq> []) es of [] \<Rightarrow> [] | ne \<Rightarrow> CleanPath (join_slash ne))"

text \<open>What is left of both after their common names.\<close>

fun strip_common :: "string list \<Rightarrow> string list \<Rightarrow> string list \<times> string list" where
  "strip_common (a # as) (b # bs) = (if a = b then strip_common as bs else (a # as, b # bs))"
| "strip_common as bs = (as, bs)"

text \<open>\<open>None\<close> is the error of \<open>Rel\<close>.\<close>

definition RelPath :: "string \<Rightarrow> string \<Rightarrow> string option" where
  "RelPath base targ =
     (if rooted base \<noteq> rooted targ then None
      else case strip_common (names_of_path base) (names_of_path targ) of
        (up, down) \<Rightarrow>
          if up \<noteq> [] \<and> hd up = ''..'' then None
          else if up = [] \<and> down = [] then Some ''.''
          else Some (join_slash (replicate (length up) ''..'' @ down)))"

text \<open>\<open>Base\<close>, \<open>Dir\<close> and \<open>Ext\<close>: the last name, everything before it, and the suffix from its last dot.\<close>

definition BasePath :: "string \<Rightarrow> string" where
  "BasePath s = (let t = rev (dropWhile (\<lambda>c. c = CHR ''/'') (rev s))
     in if s = [] then ''.'' else if t = [] then ''/'' else rev (takeWhile (\<lambda>c. c \<noteq> CHR ''/'') (rev t)))"

definition DirPath :: "string \<Rightarrow> string" where
  "DirPath s = CleanPath (rev (dropWhile (\<lambda>c. c \<noteq> CHR ''/'') (rev s)))"

definition ExtPath :: "string \<Rightarrow> string" where
  "ExtPath s = (let name = takeWhile (\<lambda>c. c \<noteq> CHR ''/'') (rev s)
     in if CHR ''.'' \<in> set name then ''.'' @ rev (takeWhile (\<lambda>c. c \<noteq> CHR ''.'') name) else [])"

section \<open>Absolute paths\<close>

definition path_of :: "string \<Rightarrow> string list" where
  "path_of s = clean_names True [] (split_slash s)"

lemma names_of_rooted: "rooted s \<Longrightarrow> names_of_path s = path_of s"
  by (simp add: names_of_path_def path_of_def)

definition plain_name :: "string \<Rightarrow> bool" where
  "plain_name n \<longleftrightarrow> n \<noteq> [] \<and> n \<noteq> ''.'' \<and> n \<noteq> ''..'' \<and> CHR ''/'' \<notin> set n"

lemma split_slash_plain: "CHR ''/'' \<notin> set n \<Longrightarrow> split_slash n = [n]"
  by (induction n) auto

lemma split_slash_nonempty [simp]: "split_slash s \<noteq> []"
  by (cases s) (auto split: list.splits)

lemma split_slash_append: "split_slash (a @ CHR ''/'' # b) = split_slash a @ split_slash b"
  by (induction a) (auto split: list.splits simp: append_eq_Cons_conv)

lemma split_slash_no_slash: "n \<in> set (split_slash s) \<Longrightarrow> CHR ''/'' \<notin> set n"
  by (induction s arbitrary: n) (auto split: list.splits if_splits)

lemma split_join_slash:
  "ns \<noteq> [] \<Longrightarrow> \<forall>n \<in> set ns. CHR ''/'' \<notin> set n \<Longrightarrow> split_slash (join_slash ns) = ns"
  unfolding join_slash_def
  by (induction "''/''" ns rule: join_str.induct) (auto simp: split_slash_plain split_slash_append)

lemma clean_names_append:
  "clean_names r st (as @ bs) = clean_names r (rev (clean_names r st as)) bs"
  by (induction r st as rule: clean_names.induct) (auto split: list.splits)

lemma clean_names_plain:
  "\<forall>n \<in> set st. plain_name n \<Longrightarrow> \<forall>n \<in> set cs. CHR ''/'' \<notin> set n \<Longrightarrow> \<forall>n \<in> set (clean_names True st cs). plain_name n"
proof (induction cs arbitrary: st)
  case (Cons c cs)
  consider "c = [] \<or> c = ''.''" | "c = ''..''" "st = []" | t ts where "c = ''..''" "st = t # ts"
    | "c \<noteq> []" "c \<noteq> ''.''" "c \<noteq> ''..''" by (cases st) blast+
  then show ?case
  proof cases
    case 3
    then have "t \<noteq> ''..''" using Cons.prems(1) by (simp add: plain_name_def)
    then have "clean_names True st (c # cs) = clean_names True ts cs" using 3 by simp
    moreover have "\<forall>n \<in> set ts. plain_name n" "\<forall>n \<in> set cs. CHR ''/'' \<notin> set n" using Cons.prems 3 by simp_all
    ultimately show ?thesis using Cons.IH by metis
  next
    case 4
    then have "clean_names True st (c # cs) = clean_names True (c # st) cs" by (simp only: clean_names.simps simp_thms if_False)
    moreover have "\<forall>n \<in> set (c # st). plain_name n" "\<forall>n \<in> set cs. CHR ''/'' \<notin> set n"
      using Cons.prems 4 by (simp_all add: plain_name_def)
    ultimately show ?thesis using Cons.IH by metis
  next
    case 1
    then have "clean_names True st (c # cs) = clean_names True st cs" by auto
    moreover have "\<forall>n \<in> set cs. CHR ''/'' \<notin> set n" using Cons.prems by simp
    ultimately show ?thesis using Cons.IH Cons.prems(1) by metis
  next
    case 2
    then have "clean_names True st (c # cs) = clean_names True [] cs" by simp
    moreover have "\<forall>n \<in> set cs. CHR ''/'' \<notin> set n" using Cons.prems by simp
    ultimately show ?thesis using Cons.IH[of "[]"] by simp
  qed
qed simp

lemma path_of_plain: "\<forall>n \<in> set (path_of s). plain_name n"
  unfolding path_of_def by (rule clean_names_plain) (auto dest: split_slash_no_slash)

lemma clean_names_id: "\<forall>n \<in> set cs. plain_name n \<Longrightarrow> clean_names r st cs = rev st @ cs"
  by (induction cs arbitrary: st) (auto simp: plain_name_def)

lemma path_of_slash: "path_of (a @ CHR ''/'' # b) = clean_names True (rev (path_of a)) (split_slash b)"
  by (simp add: path_of_def split_slash_append clean_names_append)

lemma path_of_names:
  assumes "\<forall>n \<in> set ns. plain_name n"
  shows "path_of (CHR ''/'' # join_slash ns) = ns"
proof (cases "ns = []")
  case False
  then have "split_slash (join_slash ns) = ns" using assms by (simp add: split_join_slash plain_name_def)
  then show ?thesis using assms by (simp add: path_of_def clean_names_id)
qed (simp add: path_of_def join_slash_def)

lemma path_of_Clean: "rooted s \<Longrightarrow> path_of (CleanPath s) = path_of s"
  using path_of_names[OF path_of_plain, of s] by (simp add: CleanPath_def Let_def names_of_rooted)

lemma rooted_Clean: "rooted s \<Longrightarrow> rooted (CleanPath s)"
  by (simp add: CleanPath_def Let_def rooted_def has_prefix_def)

lemma rooted_append: "rooted a \<Longrightarrow> rooted (a @ b)"
  by (cases a) (simp_all add: rooted_def has_prefix_def)

text \<open>Joining a name, or a relative path of plain names.\<close>

lemma path_of_Join:
  assumes "rooted a" and "\<forall>n \<in> set ns. plain_name n"
  shows "path_of (JoinPath (a # ns)) = path_of a @ ns" "rooted (JoinPath (a # ns))"
proof -
  have a: "a \<noteq> []" using assms(1) by (auto simp: rooted_def has_prefix_def)
  have ne: "filter (\<lambda>e. e \<noteq> []) (a # ns) = a # ns" using a assms(2) by (auto simp: plain_name_def)
  have j: "JoinPath (a # ns) = CleanPath (join_slash (a # ns))" unfolding JoinPath_def ne by simp
  have r: "rooted (join_slash (a # ns))"
    using assms(1) by (cases ns) (simp_all add: join_slash_def rooted_append)
  have p: "path_of (join_slash (a # ns)) = path_of a @ ns"
  proof (cases ns)
    case Nil
    then show ?thesis by (simp add: join_slash_def)
  next
    case (Cons n ms)
    then have "join_slash (a # ns) = a @ CHR ''/'' # join_slash ns" by (simp add: join_slash_def)
    moreover have "split_slash (join_slash ns) = ns" using assms(2) Cons by (simp add: split_join_slash plain_name_def)
    ultimately show ?thesis using assms(2) by (simp add: path_of_slash clean_names_id)
  qed
  show "path_of (JoinPath (a # ns)) = path_of a @ ns" using r p by (simp add: j path_of_Clean)
  show "rooted (JoinPath (a # ns))" using r by (simp add: j rooted_Clean)
qed

lemma strip_common_prefix:
  "strip_common as bs = ([], ds) \<Longrightarrow> bs = as @ ds"
  by (induction as bs rule: strip_common.induct) (auto split: if_splits)

lemma join_dotdot: "up \<noteq> [] \<Longrightarrow> has_prefix (join_slash (replicate (length up) ''..'' @ down)) ''..''"
  by (cases up; cases "replicate (length (tl up)) ''..'' @ down") (auto simp: join_slash_def has_prefix_def)

text \<open>A relative path that does not climb is the rest of the target, and joining it elsewhere moves that rest.\<close>

lemma RelPath_inside:
  assumes root: "rooted base" and rel: "RelPath base targ = Some rel" and inside: "\<not> has_prefix rel ''..''"
  obtains rest where "path_of targ = path_of base @ rest" "rooted targ"
    "\<And>d. rooted d \<Longrightarrow> path_of (JoinPath [d, rel]) = path_of d @ rest \<and> rooted (JoinPath [d, rel])"
proof -
  have rt: "rooted targ" using root rel by (auto simp: RelPath_def split: if_splits)
  obtain up down where ud: "strip_common (path_of base) (path_of targ) = (up, down)" by force
  have up: "up = []"
    using rel inside join_dotdot[of up down] by (auto simp: RelPath_def names_of_rooted root rt ud split: if_splits)
  then have rest: "path_of targ = path_of base @ down" using strip_common_prefix ud by metis
  then have plain: "\<forall>n \<in> set down. plain_name n" using path_of_plain[of targ] by auto
  have relj: "rel = (if down = [] then ''.'' else join_slash down)"
    using rel up by (auto simp: RelPath_def names_of_rooted root rt ud)
  have "path_of (JoinPath [d, rel]) = path_of d @ down \<and> rooted (JoinPath [d, rel])" if d: "rooted d" for d
  proof -
    have "d \<noteq> []" using d by (auto simp: rooted_def has_prefix_def)
    moreover have "join_slash down \<noteq> []" if "down \<noteq> []"
      using plain that by (cases "(''/'', down)" rule: join_str.cases) (auto simp: join_slash_def plain_name_def)
    then have "rel \<noteq> []" by (simp add: relj)
    ultimately have j: "JoinPath [d, rel] = CleanPath (d @ CHR ''/'' # rel)" by (simp add: JoinPath_def join_slash_def)
    have "split_slash rel = (if down = [] then [''.''] else down)"
      using plain by (auto simp: relj split_join_slash plain_name_def)
    then have "path_of (d @ CHR ''/'' # rel) = path_of d @ down"
      using plain by (auto simp: path_of_slash clean_names_id)
    then show ?thesis using rooted_append[OF d] by (simp add: j path_of_Clean rooted_Clean)
  qed
  then show thesis using that rest rt by blast
qed

end
