(* ===== verification/Artefacts.thy ===== *)
theory Artefacts
  imports Paths Versions Go_Errors
begin

text \<open>
  The provenance ledger of the files the agent writes: the types of \<open>cpn/persist/artefacts.go\<close>, the
  classification of \<open>artefacts_classify.go\<close> and the in-memory ledger of \<open>artefacts_memory.go\<close>. A time is an
  integer; the pointers to times are options. An operation that reads the clock or makes an identifier takes
  the value. Listings sort with a parameter (see \<open>slice_sort\<close>).
\<close>

section \<open>Classification\<close>

datatype artefact_class = ClassSource | ClassBinary | ClassConfig | ClassLog | ClassMan | ClassOther

text \<open>\<open>strings.ToLower\<close> as far as a comparison with ASCII sees it: besides the ASCII letters only U+0130 and
  the Kelvin sign have an ASCII lower case.\<close>

fun lower :: "string \<Rightarrow> string" where
  "lower [] = []"
| "lower (c # s) =
     (if c = CHR 0xC4 \<and> take 1 s = [CHR 0xB0] then CHR ''i'' # lower (drop 1 s)
      else if c = CHR 0xE2 \<and> take 2 s = [CHR 0x84, CHR 0xAA] then CHR ''k'' # lower (drop 2 s)
      else (if CHR ''A'' \<le> c \<and> c \<le> CHR ''Z'' then char_of (of_char c + 32 :: nat) else c) # lower s)"

definition isSourceExt :: "string \<Rightarrow> bool" where
  "isSourceExt ext \<longleftrightarrow> ext \<in> set [''.go'', ''.py'', ''.rs'', ''.ts'', ''.tsx'', ''.js'', ''.jsx'', ''.mjs'', ''.cjs'',
     ''.java'', ''.kt'', ''.scala'', ''.rb'', ''.php'', ''.c'', ''.h'', ''.cc'', ''.cpp'',
     ''.hpp'', ''.hxx'', ''.cs'', ''.swift'', ''.m'', ''.mm'', ''.sh'', ''.bash'', ''.zsh'',
     ''.fish'', ''.lua'', ''.pl'', ''.erl'', ''.ex'', ''.exs'', ''.hs'', ''.ml'', ''.clj'',
     ''.sql'', ''.r'', ''.dart'', ''.nim'', ''.zig'', ''.vue'', ''.svelte'', ''.proto'', ''.md'', ''.rst'', ''.tex'']"

definition isConfigExt :: "string \<Rightarrow> bool" where
  "isConfigExt ext \<longleftrightarrow> ext \<in> set [''.yaml'', ''.yml'', ''.toml'', ''.json'', ''.ini'', ''.conf'', ''.cfg'',
     ''.env'', ''.properties'', ''.hcl'', ''.tf'', ''.tfvars'']"

definition isConfigName :: "string \<Rightarrow> bool" where
  "isConfigName name \<longleftrightarrow> name \<in> set [''.env'', ''config'', ''dockerfile'', ''makefile'', ''.gitignore'',
     ''.dockerignore'', ''.editorconfig'']"

definition isManPageExt :: "string \<Rightarrow> bool" where
  "isManPageExt ext \<longleftrightarrow> length ext = 2 \<and> ext ! 0 = CHR ''.'' \<and> CHR ''1'' \<le> ext ! 1 \<and> ext ! 1 \<le> CHR ''9''"

text \<open>\<open>executable\<close> is \<open>mode & 0o111 != 0\<close>.\<close>

definition executable :: "nat \<Rightarrow> bool" where
  "executable mode \<longleftrightarrow> odd mode \<or> odd (mode div 8) \<or> odd (mode div 64)"

definition ClassifyArtefact :: "string \<Rightarrow> nat \<Rightarrow> artefact_class" where
  "ClassifyArtefact path mode =
     (let name = lower (BasePath path); ext = lower (ExtPath path); dir = lower (DirPath path)
      in if executable mode \<and> \<not> isSourceExt ext then ClassBinary
         else if isSourceExt ext then ClassSource
         else if isConfigExt ext \<or> isConfigName name then ClassConfig
         else if ext = ''.log'' \<or> contains_str dir ''/log/'' \<or> has_suffix dir ''/log'' \<or> contains_str dir ''/logs/'' \<or>
                 has_suffix dir ''/logs'' then ClassLog
         else if ext = ''.man'' \<or> contains_str dir ''/man/'' \<or> has_suffix dir ''/man'' \<or> isManPageExt ext then ClassMan
         else ClassOther)"

section \<open>The ledger\<close>

datatype artefact_state =
  ArtefactPending | ArtefactActive | ArtefactQuarantined | ArtefactPurged | ArtefactRestored

record write_intent =
  wi_ForgeRunID :: string
  wi_SetID :: string
  wi_HostID :: string
  wi_FlowHash :: string
  wi_AuthoringCPNID :: string
  wi_TransitionID :: string
  wi_SessionID :: string
  wi_Classification :: "artefact_class option"
  wi_Actor :: string

record artefact =
  ar_ID :: string
  ar_Path :: string
  ar_Classification :: artefact_class
  ar_SetID :: string
  ar_ForgeRunID :: string
  ar_HostID :: string
  ar_FlowHash :: string
  ar_AuthoringCPNID :: string
  ar_TransitionID :: string
  ar_SessionID :: string
  ar_SHA256 :: string
  ar_Size :: int
  ar_MIME :: string
  ar_Mode :: nat
  ar_State :: artefact_state
  ar_CreatedAt :: int
  ar_QuarantinedAt :: "int option"
  ar_RestoredAt :: "int option"
  ar_PurgedAt :: "int option"
  ar_QuarantinePath :: string

record artefact_event =
  av_EventID :: string
  av_SetID :: string
  av_Kind :: string
  av_Actor :: string
  av_At :: int

record artefact_filter =
  af_ForgeRunID :: string
  af_SetID :: string
  af_ClassificationIn :: "artefact_class list"
  af_State :: "artefact_state option"
  af_Limit :: int
  af_Offset :: int

record ledger =
  lg_artefacts :: "artefact gomap"
  lg_bySet :: "string list gomap"
  lg_byForge :: "string list gomap"
  lg_events :: "artefact_event list gomap"

definition ErrArtefactNotFound :: gerr where "ErrArtefactNotFound = Plain ''persist: artefact not found''"
definition ErrArtefactSetEmpty :: gerr where "ErrArtefactSetEmpty = Plain ''persist: artefact set is empty''"
definition ErrArtefactAlreadyRolledBack :: gerr where
  "ErrArtefactAlreadyRolledBack = Plain ''persist: artefact set already rolled back''"
definition ErrArtefactNotQuarantined :: gerr where
  "ErrArtefactNotQuarantined = Plain ''persist: artefact set not quarantined''"

definition NewMemoryArtefactLedger :: ledger where
  "NewMemoryArtefactLedger = \<lparr>lg_artefacts = [], lg_bySet = [], lg_byForge = [], lg_events = []\<rparr>"

text \<open>\<open>m[k] = append(m[k], x)\<close>, and \<open>m[k]\<close> with the nil slice for a missing key.\<close>

definition list_at :: "string \<Rightarrow> 'a list gomap \<Rightarrow> 'a list" where
  "list_at k m = (case map_of m k of None \<Rightarrow> [] | Some l \<Rightarrow> l)"

definition append_at :: "string \<Rightarrow> 'a \<Rightarrow> 'a list gomap \<Rightarrow> 'a list gomap" where
  "append_at k x m = AList.update k (list_at k m @ [x]) m"

lemma list_at_append [simp]: "list_at k' (append_at k x m) = (if k' = k then list_at k m @ [x] else list_at k' m)"
  by (simp add: list_at_def append_at_def)

definition PreWrite :: "string \<Rightarrow> int \<Rightarrow> write_intent \<Rightarrow> string \<Rightarrow> nat \<Rightarrow> ledger \<Rightarrow> string \<times> ledger" where
  "PreWrite uuid now intent path mode l =
     (let setID = (if wi_SetID intent = [] then ''singleton-'' @ uuid else wi_SetID intent);
          art = \<lparr>ar_ID = uuid, ar_Path = path,
            ar_Classification = (case wi_Classification intent of None \<Rightarrow> ClassOther | Some c \<Rightarrow> c),
            ar_SetID = setID, ar_ForgeRunID = wi_ForgeRunID intent, ar_HostID = wi_HostID intent,
            ar_FlowHash = wi_FlowHash intent, ar_AuthoringCPNID = wi_AuthoringCPNID intent,
            ar_TransitionID = wi_TransitionID intent, ar_SessionID = wi_SessionID intent, ar_SHA256 = [],
            ar_Size = 0, ar_MIME = [], ar_Mode = mode, ar_State = ArtefactPending, ar_CreatedAt = now,
            ar_QuarantinedAt = None, ar_RestoredAt = None, ar_PurgedAt = None, ar_QuarantinePath = []\<rparr>
      in (uuid, l\<lparr>lg_artefacts := AList.update uuid art (lg_artefacts l),
           lg_bySet := append_at setID uuid (lg_bySet l),
           lg_byForge := (if wi_ForgeRunID intent = [] then lg_byForge l
             else append_at (wi_ForgeRunID intent) uuid (lg_byForge l))\<rparr>))"

definition PostWrite :: "string \<Rightarrow> string \<Rightarrow> int \<Rightarrow> string \<Rightarrow> ledger \<Rightarrow> gerr option \<times> ledger" where
  "PostWrite aid sha bytes mime l = (case map_of (lg_artefacts l) aid of
     None \<Rightarrow> (Some ErrArtefactNotFound, l)
   | Some a \<Rightarrow> (None, l\<lparr>lg_artefacts := AList.update aid
       (a\<lparr>ar_SHA256 := sha, ar_Size := bytes, ar_MIME := mime, ar_State := ArtefactActive\<rparr>) (lg_artefacts l)\<rparr>))"

definition GetArtefact :: "string \<Rightarrow> ledger \<Rightarrow> gerr + artefact" where
  "GetArtefact aid l = (case map_of (lg_artefacts l) aid of None \<Rightarrow> Inl ErrArtefactNotFound | Some a \<Rightarrow> Inr a)"

type_synonym artefact_sort = "(artefact \<Rightarrow> artefact \<Rightarrow> bool) \<Rightarrow> artefact list \<Rightarrow> artefact list"

definition older :: "artefact \<Rightarrow> artefact \<Rightarrow> bool" where
  "older a b \<longleftrightarrow> ar_CreatedAt a < ar_CreatedAt b"

definition rows_of :: "string list \<Rightarrow> ledger \<Rightarrow> artefact list" where
  "rows_of ids l = List.map_filter (map_of (lg_artefacts l)) ids"

definition SetForForgeRun :: "artefact_sort \<Rightarrow> string \<Rightarrow> ledger \<Rightarrow> artefact list" where
  "SetForForgeRun srt run l = srt older (rows_of (list_at run (lg_byForge l)) l)"

definition SetForSet :: "artefact_sort \<Rightarrow> string \<Rightarrow> ledger \<Rightarrow> gerr + artefact list" where
  "SetForSet srt setID l = (let ids = list_at setID (lg_bySet l)
     in if ids = [] then Inl ErrArtefactSetEmpty else Inr (srt older (rows_of ids l)))"

text \<open>Writing through the pointers of the listed rows.\<close>

fun update_rows :: "(artefact \<Rightarrow> artefact) \<Rightarrow> string list \<Rightarrow> artefact gomap \<Rightarrow> artefact gomap" where
  "update_rows f [] m = m"
| "update_rows f (i # ids) m = update_rows f ids (case map_of m i of None \<Rightarrow> m | Some a \<Rightarrow> AList.update i (f a) m)"

definition quarantined_row :: "int \<Rightarrow> string \<Rightarrow> artefact \<Rightarrow> artefact" where
  "quarantined_row ts path a = a\<lparr>ar_QuarantinedAt := Some ts, ar_QuarantinePath := path, ar_State := ArtefactQuarantined\<rparr>"

definition restored_row :: "int \<Rightarrow> artefact \<Rightarrow> artefact" where
  "restored_row ts a = (if ar_State a \<noteq> ArtefactQuarantined then a
     else a\<lparr>ar_RestoredAt := Some ts, ar_State := ArtefactRestored\<rparr>)"

definition set_event :: "string \<Rightarrow> string \<Rightarrow> string \<Rightarrow> string \<Rightarrow> int \<Rightarrow> artefact_event" where
  "set_event uuid setID kind actor ts = \<lparr>av_EventID = uuid, av_SetID = setID, av_Kind = kind, av_Actor = actor, av_At = ts\<rparr>"

definition RollbackRows :: "string \<Rightarrow> int \<Rightarrow> string \<Rightarrow> string \<Rightarrow> string \<Rightarrow> ledger \<Rightarrow> gerr option \<times> ledger" where
  "RollbackRows uuid ts setID path actor l =
     (let ids = list_at setID (lg_bySet l)
      in if ids = [] then (Some ErrArtefactSetEmpty, l)
         else if list_all (\<lambda>a. ar_State a = ArtefactQuarantined \<or> ar_State a = ArtefactPurged) (rows_of ids l)
         then (Some ErrArtefactAlreadyRolledBack, l)
         else (None, l\<lparr>lg_artefacts := update_rows (quarantined_row ts path) ids (lg_artefacts l),
                lg_events := append_at setID (set_event uuid setID ''rollback'' actor ts) (lg_events l)\<rparr>))"

definition RestoreRows :: "string \<Rightarrow> int \<Rightarrow> string \<Rightarrow> string \<Rightarrow> ledger \<Rightarrow> gerr option \<times> ledger" where
  "RestoreRows uuid ts setID actor l =
     (let ids = list_at setID (lg_bySet l)
      in if ids = [] then (Some ErrArtefactSetEmpty, l)
         else if \<not> list_ex (\<lambda>a. ar_State a = ArtefactQuarantined) (rows_of ids l)
         then (Some ErrArtefactNotQuarantined, l)
         else (None, l\<lparr>lg_artefacts := update_rows (restored_row ts) ids (lg_artefacts l),
                lg_events := append_at setID (set_event uuid setID ''restore'' actor ts) (lg_events l)\<rparr>))"

definition expired :: "int \<Rightarrow> artefact \<Rightarrow> bool" where
  "expired cutoff a \<longleftrightarrow> ar_State a = ArtefactQuarantined \<and>
     (case ar_QuarantinedAt a of None \<Rightarrow> False | Some t \<Rightarrow> t < cutoff)"

definition purged_row :: "int \<Rightarrow> artefact \<Rightarrow> artefact" where
  "purged_row ts a = a\<lparr>ar_PurgedAt := Some ts, ar_State := ArtefactPurged\<rparr>"

text \<open>The events go to the sets that were touched; rows have distinct IDs, so their order is determined.\<close>

definition PurgeExpired :: "(string \<Rightarrow> string) \<Rightarrow> int \<Rightarrow> int \<Rightarrow> string \<Rightarrow> ledger \<Rightarrow> artefact list \<times> ledger" where
  "PurgeExpired uuid ts cutoff actor l =
     (let out = map (purged_row ts \<circ> snd) (filter (expired cutoff \<circ> snd) (lg_artefacts l))
      in (sort_key ar_ID out,
          l\<lparr>lg_artefacts := map (\<lambda>(k, a). (k, if expired cutoff a then purged_row ts a else a)) (lg_artefacts l),
            lg_events := foldl (\<lambda>evs setID. append_at setID (set_event (uuid setID) setID ''purge'' actor ts) evs)
              (lg_events l) (remdups (map ar_SetID out))\<rparr>))"

definition filter_matches :: "string \<Rightarrow> artefact_filter \<Rightarrow> artefact \<Rightarrow> bool" where
  "filter_matches hostID f a \<longleftrightarrow> (hostID = [] \<or> ar_HostID a = hostID) \<and>
     (af_ForgeRunID f = [] \<or> ar_ForgeRunID a = af_ForgeRunID f) \<and> (af_SetID f = [] \<or> ar_SetID a = af_SetID f) \<and>
     (case af_State f of None \<Rightarrow> True | Some st \<Rightarrow> ar_State a = st) \<and>
     (af_ClassificationIn f = [] \<or> ar_Classification a \<in> set (af_ClassificationIn f))"

definition ListByHost :: "artefact_sort \<Rightarrow> string \<Rightarrow> artefact_filter \<Rightarrow> ledger \<Rightarrow> artefact list" where
  "ListByHost srt hostID f l =
     (let out = srt older (filter (filter_matches hostID f) (map snd (lg_artefacts l)));
          rest = (if 0 < af_Offset f then drop (nat (af_Offset f)) out else out)
      in if 0 < af_Limit f \<and> af_Limit f < int (length rest) then take (nat (af_Limit f)) rest else rest)"

text \<open>\<open>At\<close> is the zero time or not; the zero time is \<open>0\<close>.\<close>

definition RecordEvent :: "string \<Rightarrow> int \<Rightarrow> artefact_event \<Rightarrow> ledger \<Rightarrow> ledger" where
  "RecordEvent uuid now ev l = l\<lparr>lg_events := append_at (av_SetID ev)
     (ev\<lparr>av_EventID := (if av_EventID ev = [] then uuid else av_EventID ev),
         av_At := (if av_At ev = 0 then now else av_At ev)\<rparr>) (lg_events l)\<rparr>"

definition ListEvents ::
  "((artefact_event \<Rightarrow> artefact_event \<Rightarrow> bool) \<Rightarrow> artefact_event list \<Rightarrow> artefact_event list) \<Rightarrow> string \<Rightarrow> ledger \<Rightarrow>
   artefact_event list" where
  "ListEvents srt setID l = srt (\<lambda>a b. av_At a < av_At b) (list_at setID (lg_events l))"

section \<open>Facts of the ledger\<close>

text \<open>The indexes only name rows of the ledger, each once.\<close>

definition ledger_ok :: "ledger \<Rightarrow> bool" where
  "ledger_ok l \<longleftrightarrow> distinct (map fst (lg_artefacts l)) \<and> (\<forall>i a. map_of (lg_artefacts l) i = Some a \<longrightarrow> ar_ID a = i) \<and>
     (\<forall>setID. distinct (list_at setID (lg_bySet l)) \<and>
        (\<forall>i \<in> set (list_at setID (lg_bySet l)). \<exists>a. map_of (lg_artefacts l) i = Some a \<and> ar_SetID a = setID))"

lemma ledger_okI:
  assumes "distinct (map fst (lg_artefacts l))" and "\<And>i a. map_of (lg_artefacts l) i = Some a \<Longrightarrow> ar_ID a = i"
    and "\<And>s. distinct (list_at s (lg_bySet l))"
    and "\<And>s i. i \<in> set (list_at s (lg_bySet l)) \<Longrightarrow> \<exists>a. map_of (lg_artefacts l) i = Some a \<and> ar_SetID a = s"
  shows "ledger_ok l"
  using assms unfolding ledger_ok_def by blast

lemma ledger_okD:
  assumes "ledger_ok l"
  shows "distinct (map fst (lg_artefacts l))" and "map_of (lg_artefacts l) i = Some a \<Longrightarrow> ar_ID a = i"
    and "distinct (list_at s (lg_bySet l))"
    and "i \<in> set (list_at s (lg_bySet l)) \<Longrightarrow> \<exists>a. map_of (lg_artefacts l) i = Some a \<and> ar_SetID a = s"
  using assms unfolding ledger_ok_def by blast+

lemma update_rows_keys [simp]: "map fst (update_rows f ids m) = map fst m"
  by (induction ids arbitrary: m) (auto simp: keys_update_existing split: option.splits)

lemma update_rows_lookup:
  assumes "distinct ids"
  shows "map_of (update_rows f ids m) i = (if i \<in> set ids then map_option f (map_of m i) else map_of m i)"
  using assms
proof (induction ids arbitrary: m)
  case (Cons j ids)
  then have "i \<in> set ids \<Longrightarrow> i \<noteq> j" by auto
  then show ?case using Cons by (cases "i = j") (auto split: option.splits)
qed simp

lemma rows_of_set: "set (rows_of ids l) = {a. \<exists>i \<in> set ids. map_of (lg_artefacts l) i = Some a}"
proof -
  have "rows_of ids l = concat (map (\<lambda>i. case map_of (lg_artefacts l) i of None \<Rightarrow> [] | Some a \<Rightarrow> [a]) ids)"
    unfolding rows_of_def by (induction ids) (auto split: option.splits)
  then show ?thesis by (auto split: option.splits)
qed

lemma ledger_ok_update:
  assumes ok: "ledger_ok l" and f: "\<And>a. ar_ID (f a) = ar_ID a \<and> ar_SetID (f a) = ar_SetID a" and d: "distinct ids"
  shows "ledger_ok (l\<lparr>lg_artefacts := update_rows f ids (lg_artefacts l), lg_events := evs\<rparr>)" (is "ledger_ok ?l")
proof (rule ledger_okI)
  note look = update_rows_lookup[OF d, of f "lg_artefacts l"]
  show "distinct (map fst (lg_artefacts ?l))" using ledger_okD(1)[OF ok] by simp
  show "ar_ID a = i" if "map_of (lg_artefacts ?l) i = Some a" for i a
    using that f ledger_okD(2)[OF ok] by (auto simp: look simp del: map_of_eq_Some_iff split: if_splits)
  show "distinct (list_at s (lg_bySet ?l))" for s using ledger_okD(3)[OF ok] by simp
  show "\<exists>a. map_of (lg_artefacts ?l) i = Some a \<and> ar_SetID a = s" if "i \<in> set (list_at s (lg_bySet ?l))" for s i
    using ledger_okD(4)[OF ok, of i s] that f by (auto simp: look simp del: map_of_eq_Some_iff)
qed

lemma quarantined_row_simps [simp]:
  "ar_ID (quarantined_row ts p a) = ar_ID a" "ar_SetID (quarantined_row ts p a) = ar_SetID a"
  "ar_Path (quarantined_row ts p a) = ar_Path a" "ar_State (quarantined_row ts p a) = ArtefactQuarantined"
  "ar_CreatedAt (quarantined_row ts p a) = ar_CreatedAt a" "ar_QuarantinePath (quarantined_row ts p a) = p"
  by (simp_all add: quarantined_row_def)

lemma restored_row_simps [simp]:
  "ar_ID (restored_row ts a) = ar_ID a" "ar_SetID (restored_row ts a) = ar_SetID a"
  "ar_Path (restored_row ts a) = ar_Path a" "ar_CreatedAt (restored_row ts a) = ar_CreatedAt a"
  by (simp_all add: restored_row_def)

lemma ledger_ok_distinct: "ledger_ok l \<Longrightarrow> distinct (list_at setID (lg_bySet l))"
  by (simp add: ledger_ok_def)

lemma RollbackRows_ok: "ledger_ok l \<Longrightarrow> RollbackRows uuid ts setID path actor l = (err, l') \<Longrightarrow> ledger_ok l'"
  by (auto simp: RollbackRows_def Let_def ledger_ok_distinct intro!: ledger_ok_update split: if_splits)

lemma RestoreRows_ok: "ledger_ok l \<Longrightarrow> RestoreRows uuid ts setID actor l = (err, l') \<Longrightarrow> ledger_ok l'"
  by (auto simp: RestoreRows_def Let_def ledger_ok_distinct intro!: ledger_ok_update split: if_splits)

lemma RollbackRows_fails: "RollbackRows uuid ts setID path actor l = (Some e, l') \<Longrightarrow> l' = l"
  by (auto simp: RollbackRows_def Let_def split: if_splits)

lemma RestoreRows_fails: "RestoreRows uuid ts setID actor l = (Some e, l') \<Longrightarrow> l' = l"
  by (auto simp: RestoreRows_def Let_def split: if_splits)


lemma ledger_ok_New [simp]: "ledger_ok NewMemoryArtefactLedger"
  by (simp add: ledger_ok_def NewMemoryArtefactLedger_def list_at_def)

text \<open>A fresh identifier is in no index.\<close>

lemma PreWrite_ok:
  assumes ok: "ledger_ok l" and fresh: "map_of (lg_artefacts l) uuid = None"
  shows "ledger_ok (snd (PreWrite uuid now intent path mode l))" (is "ledger_ok ?l")
proof -
  obtain art where art: "lg_artefacts ?l = AList.update uuid art (lg_artefacts l)" "ar_ID art = uuid"
    "lg_bySet ?l = append_at (ar_SetID art) uuid (lg_bySet l)" by (simp add: PreWrite_def Let_def)
  have notin: "uuid \<notin> set (list_at s (lg_bySet l))" for s using ok fresh by (fastforce simp: ledger_ok_def)
  show ?thesis
  proof (rule ledger_okI)
    show "distinct (map fst (lg_artefacts ?l))" using ledger_okD(1)[OF ok] by (simp add: art(1) distinct_keys_update)
    show "ar_ID a = i" if "map_of (lg_artefacts ?l) i = Some a" for i a
      using that art(2) ledger_okD(2)[OF ok, of i a] by (cases "i = uuid") (simp_all add: art(1) update_conv')
    show "distinct (list_at s (lg_bySet ?l))" for s using ledger_okD(3)[OF ok] notin by (simp add: art(3))
    show "\<exists>a. map_of (lg_artefacts ?l) i = Some a \<and> ar_SetID a = s" if "i \<in> set (list_at s (lg_bySet ?l))" for s i
      using ledger_okD(4)[OF ok, of i s] notin that
      by (cases "i = uuid") (auto simp: art(1,3) simp del: map_of_eq_Some_iff split: if_splits)
  qed
qed

lemma PostWrite_ok:
  assumes ok: "ledger_ok l"
  shows "ledger_ok (snd (PostWrite aid sha bytes mime l))"
proof (cases "map_of (lg_artefacts l) aid")
  case (Some a)
  let ?f = "\<lambda>a. a\<lparr>ar_SHA256 := sha, ar_Size := bytes, ar_MIME := mime, ar_State := ArtefactActive\<rparr>"
  have "snd (PostWrite aid sha bytes mime l) = l\<lparr>lg_artefacts := update_rows ?f [aid] (lg_artefacts l), lg_events := lg_events l\<rparr>"
    by (simp add: PostWrite_def Some)
  then show ?thesis using ledger_ok_update[OF ok, of ?f "[aid]" "lg_events l"] by simp
qed (simp add: PostWrite_def ok)

lemma map_of_purged:
  "map_of (map (\<lambda>(k, a). (k, f a)) m) i = map_option f (map_of m i)"
  by (induction m) auto

lemma PurgeExpired_ok:
  assumes ok: "ledger_ok l"
  shows "ledger_ok (snd (PurgeExpired uuid ts cutoff actor l))"
proof -
  let ?f = "\<lambda>a. if expired cutoff a then purged_row ts a else a"
  define m where "m = map (\<lambda>(k, a). (k, ?f a)) (lg_artefacts l)"
  have m: "map_of m i = map_option ?f (map_of (lg_artefacts l) i)" for i by (simp add: m_def map_of_purged)
  have keys: "map fst m = map fst (lg_artefacts l)" unfolding m_def by (induction "lg_artefacts l") auto
  have f: "ar_ID (?f a) = ar_ID a" "ar_SetID (?f a) = ar_SetID a" for a by (simp_all add: purged_row_def)
  have "ledger_ok (l\<lparr>lg_artefacts := m, lg_events := evs\<rparr>)" for evs
  proof (rule ledger_okI, simp_all add: m keys ledger_okD(1)[OF ok] ledger_okD(3)[OF ok] del: map_of_eq_Some_iff map_option_eq_Some)
    show "ar_ID a = i" if "map_option ?f (map_of (lg_artefacts l) i) = Some a" for i a
      using that f ledger_okD(2)[OF ok] by (auto simp del: map_of_eq_Some_iff)
    show "\<exists>a. map_option ?f (map_of (lg_artefacts l) i) = Some a \<and> ar_SetID a = s"
      if i: "i \<in> set (list_at s (lg_bySet l))" for s i
    proof -
      obtain a where "map_of (lg_artefacts l) i = Some a" "ar_SetID a = s" using ledger_okD(4)[OF ok i] by blast
      then show ?thesis using f(2)[of a] by (simp del: map_of_eq_Some_iff)
    qed
  qed
  then show ?thesis by (simp add: PurgeExpired_def Let_def m_def)
qed

lemma RecordEvent_artefacts [simp]: "lg_artefacts (RecordEvent uuid now ev l) = lg_artefacts l"
  "lg_bySet (RecordEvent uuid now ev l) = lg_bySet l"
  by (simp_all add: RecordEvent_def)

end
