(* ===== verification/Rollback.thy ===== *)
theory Rollback
  imports Artefacts
begin

text \<open>
  Rolling back and restoring the files of a set (\<open>cpn/persist/rollback.go\<close>) and purging them
  (\<open>purge.go\<close>). The file system port, the ledger port and the tool deprecator are records of operations on
  their states. The locale \<open>fs_mover\<close> is what the services rely on, in terms of the regular files under their
  names; \<open>OSFSMover\<close> over a directory tree whose operations may fail at any time interprets it.
\<close>

section \<open>The ports\<close>

record 'w mover =
  mv_Move :: "string \<Rightarrow> string \<Rightarrow> 'w \<Rightarrow> gerr option \<times> 'w"
  mv_Remove :: "string \<Rightarrow> 'w \<Rightarrow> gerr option \<times> 'w"
  mv_MkdirAll :: "string \<Rightarrow> 'w \<Rightarrow> gerr option \<times> 'w"
  mv_RemoveAll :: "string \<Rightarrow> 'w \<Rightarrow> gerr option \<times> 'w"
  mv_Exists :: "string \<Rightarrow> 'w \<Rightarrow> bool \<times> 'w"

record 'l ledger_port =
  ld_SetForSet :: "string \<Rightarrow> 'l \<Rightarrow> gerr + artefact list"
  ld_Rollback :: "string \<Rightarrow> string \<Rightarrow> string \<Rightarrow> 'l \<Rightarrow> gerr option \<times> 'l"
  ld_Restore :: "string \<Rightarrow> string \<Rightarrow> 'l \<Rightarrow> gerr option \<times> 'l"
  ld_PurgeExpired :: "int \<Rightarrow> string \<Rightarrow> 'l \<Rightarrow> (gerr + artefact list) \<times> 'l"
  ld_RecordEvent :: "artefact_event \<Rightarrow> 'l \<Rightarrow> gerr option \<times> 'l"

record 't deprecator =
  dp_Deprecate :: "string \<Rightarrow> string \<Rightarrow> 't \<Rightarrow> gerr option \<times> 't"
  dp_LookupByBinaryPath :: "string \<Rightarrow> 't \<Rightarrow> (string \<times> bool) \<times> 't"

definition NoopToolDeprecator :: "'t deprecator" where
  "NoopToolDeprecator = \<lparr>dp_Deprecate = (\<lambda>_ _ t. (None, t)), dp_LookupByBinaryPath = (\<lambda>_ t. (([], False), t))\<rparr>"

record ('w, 'l, 't) rollback_service =
  rs_Ledger :: "'l ledger_port"
  rs_FS :: "'w mover"
  rs_AllowedRoot :: string
  rs_Tools :: "'t deprecator option"

definition QuarantineDir :: "string \<Rightarrow> string \<Rightarrow> string" where
  "QuarantineDir base setID = JoinPath [base, ''quarantine'', setID]"

definition stagingDir :: "string \<Rightarrow> string \<Rightarrow> string" where
  "stagingDir base setID = JoinPath [base, ''quarantine'', ''.staging-'' @ setID]"

section \<open>Moves and their reversal\<close>

text \<open>Moves in reverse order of execution; the failed ones are what the service logs.\<close>

fun reverse_moves :: "'w mover \<Rightarrow> (string \<times> string) list \<Rightarrow> 'w \<Rightarrow> (string \<times> string) list \<times> 'w" where
  "reverse_moves fs [] w = ([], w)"
| "reverse_moves fs ((src, dst) # ms) w = (case mv_Move fs dst src w of
     (err, w1) \<Rightarrow> (case reverse_moves fs ms w1 of
        (failed, w2) \<Rightarrow> ((if err = None then failed else (dst, src) # failed), w2)))"

definition outside :: "string \<Rightarrow> string \<Rightarrow> bool" where
  "outside base path \<longleftrightarrow> (case RelPath base path of None \<Rightarrow> True | Some rel \<Rightarrow> has_prefix rel ''..'')"

definition rebased :: "string \<Rightarrow> string \<Rightarrow> string \<Rightarrow> string" where
  "rebased base dir path = JoinPath [dir, the (RelPath base path)]"

fun move_out ::
  "'w mover \<Rightarrow> string \<Rightarrow> string \<Rightarrow> artefact list \<Rightarrow> (string \<times> string) list \<Rightarrow> 'w \<Rightarrow>
   gerr option \<times> (string \<times> string) list \<times> 'w" where
  "move_out fs base staging [] ms w = (None, ms, w)"
| "move_out fs base staging (a # as) ms w =
     (if ar_State a \<noteq> ArtefactActive \<and> ar_State a \<noteq> ArtefactRestored then move_out fs base staging as ms w
      else if outside base (ar_Path a)
      then (Some (Plain (''rollback: path '' @ fmt_q (ar_Path a) @ '' outside allowed root'')), ms, w)
      else (case mv_Move fs (ar_Path a) (rebased base staging (ar_Path a)) w of
        (Some e, w1) \<Rightarrow> (Some (Wrap (''rollback: move '' @ fmt_q (ar_Path a) @ '': '') e []), ms, w1)
      | (None, w1) \<Rightarrow> move_out fs base staging as ((ar_Path a, rebased base staging (ar_Path a)) # ms) w1))"

fun move_back ::
  "'w mover \<Rightarrow> string \<Rightarrow> string \<Rightarrow> artefact list \<Rightarrow> (string \<times> string) list \<Rightarrow> 'w \<Rightarrow>
   gerr option \<times> (string \<times> string) list \<times> 'w" where
  "move_back fs base final [] ms w = (None, ms, w)"
| "move_back fs base final (a # as) ms w =
     (if ar_State a \<noteq> ArtefactQuarantined then move_back fs base final as ms w
      else if outside base (ar_Path a)
      then (Some (Plain (''restore: path '' @ fmt_q (ar_Path a) @ '' outside allowed root'')), ms, w)
      else (case mv_Move fs (rebased base final (ar_Path a)) (ar_Path a) w of
        (Some e, w1) \<Rightarrow> (Some (Wrap (''restore: move '' @ fmt_q (rebased base final (ar_Path a)) @ '': '') e []), ms, w1)
      | (None, w1) \<Rightarrow> move_back fs base final as ((rebased base final (ar_Path a), ar_Path a) # ms) w1))"

fun deprecateTools :: "'t deprecator option \<Rightarrow> artefact list \<Rightarrow> 't \<Rightarrow> 't" where
  "deprecateTools None as t = t"
| "deprecateTools (Some tools) [] t = t"
| "deprecateTools (Some tools) (a # as) t =
     (if ar_Classification a \<noteq> ClassBinary then deprecateTools (Some tools) as t
      else case dp_LookupByBinaryPath tools (ar_Path a) t of
        ((qn, ok), t1) \<Rightarrow> if \<not> ok \<or> qn = [] then deprecateTools (Some tools) as t1
          else deprecateTools (Some tools) as (snd (dp_Deprecate tools qn ''artefact_rolled_back'' t1)))"

section \<open>The service\<close>

text \<open>The result is the error, the failed reversals that were logged, and the states.\<close>

type_synonym ('w, 'l, 't) rollback_result = "gerr option \<times> (string \<times> string) list \<times> 'w \<times> 'l \<times> 't"

definition undo_rollback ::
  "('w, 'l, 't) rollback_service \<Rightarrow> string \<Rightarrow> (string \<times> string) list \<Rightarrow> gerr \<Rightarrow> 'w \<Rightarrow> 'l \<Rightarrow> 't \<Rightarrow>
   ('w, 'l, 't) rollback_result" where
  "undo_rollback svc staging ms e w l t = (case reverse_moves (rs_FS svc) ms w of
     (failed, w1) \<Rightarrow> (Some e, failed, snd (mv_RemoveAll (rs_FS svc) staging w1), l, t))"

definition commit_rollback ::
  "('w, 'l, 't) rollback_service \<Rightarrow> string \<Rightarrow> string \<Rightarrow> artefact list \<Rightarrow> (string \<times> string) list \<Rightarrow> 'w \<Rightarrow> 'l \<Rightarrow> 't \<Rightarrow>
   ('w, 'l, 't) rollback_result" where
  "commit_rollback svc setID actor as ms w l t =
     (let fs = rs_FS svc; staging = stagingDir (rs_AllowedRoot svc) setID; final = QuarantineDir (rs_AllowedRoot svc) setID
      in case mv_Move fs staging final w of
           (Some e, w1) \<Rightarrow> undo_rollback svc staging ms (Wrap ''rollback: commit: '' e []) w1 l t
         | (None, w1) \<Rightarrow> (case ld_Rollback (rs_Ledger svc) setID final actor l of
             (None, l1) \<Rightarrow> (None, [], w1, l1, deprecateTools (rs_Tools svc) as t)
           | (Some e, l1) \<Rightarrow> (case mv_Move fs final staging w1 of
               (Some _, w2) \<Rightarrow> (Some (Wrap ''rollback: ledger: '' e []), [(final, staging)], w2, l1, t)
             | (None, w2) \<Rightarrow> undo_rollback svc staging ms (Wrap ''rollback: ledger: '' e []) w2 l1 t)))"

definition RollbackSet ::
  "('w, 'l, 't) rollback_service \<Rightarrow> string \<Rightarrow> string \<Rightarrow> 'w \<Rightarrow> 'l \<Rightarrow> 't \<Rightarrow> ('w, 'l, 't) rollback_result" where
  "RollbackSet svc setID actor w l t =
     (if setID = [] then (Some (Plain ''rollback: set_id is required''), [], w, l, t)
      else if rs_AllowedRoot svc = [] then (Some (Plain ''rollback: allowed root is empty''), [], w, l, t)
      else case ld_SetForSet (rs_Ledger svc) setID l of
        Inl e \<Rightarrow> (Some (Wrap (''rollback: set '' @ fmt_q setID @ '': '') e []), [], w, l, t)
      | Inr as \<Rightarrow>
          (let fs = rs_FS svc; base = rs_AllowedRoot svc; staging = stagingDir base setID
           in if as = [] then (Some ErrArtefactSetEmpty, [], w, l, t)
              else case mv_Exists fs (QuarantineDir base setID) w of
                (True, w1) \<Rightarrow> (Some ErrArtefactAlreadyRolledBack, [], w1, l, t)
              | (False, w1) \<Rightarrow> (case mv_MkdirAll fs staging w1 of
                  (Some e, w2) \<Rightarrow> (Some (Wrap ''rollback: mkdir staging: '' e []), [], w2, l, t)
                | (None, w2) \<Rightarrow> (case move_out fs base staging as [] w2 of
                    (Some e, ms, w3) \<Rightarrow> undo_rollback svc staging ms e w3 l t
                  | (None, ms, w3) \<Rightarrow> commit_rollback svc setID actor as ms w3 l t))))"

definition RestoreSet ::
  "('w, 'l, 't) rollback_service \<Rightarrow> string \<Rightarrow> string \<Rightarrow> 'w \<Rightarrow> 'l \<Rightarrow> gerr option \<times> (string \<times> string) list \<times> 'w \<times> 'l" where
  "RestoreSet svc setID actor w l =
     (if setID = [] then (Some (Plain ''restore: set_id is required''), [], w, l)
      else case ld_SetForSet (rs_Ledger svc) setID l of
        Inl e \<Rightarrow> (Some (Wrap (''restore: set '' @ fmt_q setID @ '': '') e []), [], w, l)
      | Inr as \<Rightarrow>
          (let fs = rs_FS svc; base = rs_AllowedRoot svc; final = QuarantineDir base setID
           in case mv_Exists fs final w of
                (False, w1) \<Rightarrow> (Some ErrArtefactNotQuarantined, [], w1, l)
              | (True, w1) \<Rightarrow> (case move_back fs base final as [] w1 of
                  (Some e, ms, w2) \<Rightarrow> (case reverse_moves fs ms w2 of (failed, w3) \<Rightarrow> (Some e, failed, w3, l))
                | (None, ms, w2) \<Rightarrow>
                    (let w3 = snd (mv_RemoveAll fs final w2)
                     in case ld_Restore (rs_Ledger svc) setID actor l of
                          (Some e, l1) \<Rightarrow> (Some (Wrap ''restore: ledger: '' e []), [], w3, l1)
                        | (None, l1) \<Rightarrow> (None, [], w3, l1)))))"

section \<open>Purging\<close>

text \<open>The directories of the purged sets, the last row of a set deciding; \<open>missing\<close> is \<open>os.IsNotExist\<close>.\<close>

definition sets_touched :: "artefact list \<Rightarrow> string gomap" where
  "sets_touched rows = foldl (\<lambda>m a. if ar_QuarantinePath a \<noteq> [] then AList.update (ar_SetID a) (ar_QuarantinePath a) m else m) [] rows"

fun purge_dirs ::
  "(gerr \<Rightarrow> bool) \<Rightarrow> 'l ledger_port \<Rightarrow> 'w mover \<Rightarrow> (string \<Rightarrow> int) \<Rightarrow> (string \<times> string) list \<Rightarrow> gerr option \<Rightarrow> 'w \<Rightarrow> 'l \<Rightarrow>
   gerr option \<times> 'w \<times> 'l" where
  "purge_dirs missing ld fs now [] err w l = (err, w, l)"
| "purge_dirs missing ld fs now ((setID, dir) # ds) err w l = (case mv_RemoveAll fs dir w of
     (res, w1) \<Rightarrow> (case res of
        Some e \<Rightarrow> if \<not> missing e then purge_dirs missing ld fs now ds (case err of None \<Rightarrow> Some e | Some f \<Rightarrow> Some f) w1 l
          else purge_dirs missing ld fs now ds err w1
            (snd (ld_RecordEvent ld (set_event [] setID ''purge_fs_complete'' ''purge-service'' (now setID)) l))
      | None \<Rightarrow> purge_dirs missing ld fs now ds err w1
            (snd (ld_RecordEvent ld (set_event [] setID ''purge_fs_complete'' ''purge-service'' (now setID)) l))))"

definition default_grace :: "int \<Rightarrow> int" where
  "default_grace days = (if days \<le> 0 then 7 else days)"

text \<open>Instants are nanoseconds and durations wrap in 64 bits. The zero cutoff stands for the grace window before
  \<open>now\<close>; \<open>at_set\<close> is the clock that dates the event of each set.\<close>

definition day_ns :: int where "day_ns = 24 * 3600 * 10 ^ 9"

definition purge_cutoff :: "int \<Rightarrow> int \<Rightarrow> int \<Rightarrow> int" where
  "purge_cutoff graceDays now cutoff = (if cutoff = 0 then now + wrap64 (- graceDays * day_ns) else cutoff)"

definition PurgeRun ::
  "(gerr \<Rightarrow> bool) \<Rightarrow> 'l ledger_port \<Rightarrow> 'w mover \<Rightarrow> int \<Rightarrow> int \<Rightarrow> (string \<Rightarrow> int) \<Rightarrow> int \<Rightarrow> 'w \<Rightarrow> 'l \<Rightarrow>
   (int \<times> gerr option) \<times> 'w \<times> 'l" where
  "PurgeRun missing ld fs graceDays now at_set cutoff w l =
     (case ld_PurgeExpired ld (purge_cutoff graceDays now cutoff) ''purge-service'' l of
        (Inl e, l1) \<Rightarrow> ((0, Some (Wrap ''purge: ledger: '' e [])), w, l1)
      | (Inr rows, l1) \<Rightarrow> (case purge_dirs missing ld fs at_set (sets_touched rows) None w l1 of
          (err, w1, l2) \<Rightarrow> ((int (length rows), err), w1, l2)))"

end
