(* ===== verification/Relocation.thy ===== *)
theory Relocation
  imports Rollback
begin

text \<open>
  What the artefact services rely on of the file system, in terms of the regular files under their names: the
  locale \<open>fs_mover\<close>. A move takes the place of nothing but a file, so a sequence of moves into empty places is undone
  by the moves back (\<open>undoable\<close>), and moving the entries \<open>r\<close> of one directory into another gives the files
  \<open>relocated\<close>. The outcomes of the loops of rollback and restore follow inside the locale.
\<close>

type_synonym 'c files = "string list \<Rightarrow> 'c option"

section \<open>Moves as maps of files\<close>

text \<open>The subtree \<open>s\<close> has become the subtree \<open>d\<close>.\<close>

definition moved :: "string list \<Rightarrow> string list \<Rightarrow> 'c files \<Rightarrow> 'c files" where
  "moved s d F = (\<lambda>q. if prefix d q then F (s @ drop (length d) q) else if prefix s q then None else F q)"

definition no_files :: "string list \<Rightarrow> 'c files \<Rightarrow> bool" where
  "no_files d F \<longleftrightarrow> (\<forall>q. prefix d q \<longrightarrow> F q = None)"

lemma moved_back:
  assumes "no_files d F" "\<not> prefix s d"
  shows "moved d s (moved s d F) = F"
proof
  fix q
  show "moved d s (moved s d F) q = F q"
  proof (cases "prefix s q")
    case True
    then obtain r where "q = s @ r" by (auto simp: prefix_def)
    then show ?thesis by (simp add: moved_def)
  next
    case False
    then show ?thesis using assms by (auto simp: moved_def no_files_def)
  qed
qed

text \<open>The files \<open>F\<close> have come from \<open>F0\<close> by the moves, the last one first, each into an empty place.\<close>

fun undoable :: "(string \<times> string) list \<Rightarrow> 'c files \<Rightarrow> 'c files \<Rightarrow> bool" where
  "undoable [] F F0 \<longleftrightarrow> F = F0"
| "undoable ((s, d) # ms) F F0 \<longleftrightarrow> (\<exists>G. undoable ms G F0 \<and> F = moved (path_of s) (path_of d) G \<and>
     no_files (path_of d) G \<and> \<not> prefix (path_of s) (path_of d))"

text \<open>The entries \<open>r \<in> R\<close> of the directory \<open>a\<close> have moved to the directory \<open>b\<close>.\<close>

definition relocated :: "string list \<Rightarrow> string list \<Rightarrow> string list set \<Rightarrow> 'c files \<Rightarrow> 'c files" where
  "relocated a b R F = (\<lambda>q. if \<exists>r \<in> R. prefix (b @ r) q then F (a @ drop (length b) q)
     else if \<exists>r \<in> R. prefix (a @ r) q then None else F q)"

lemma relocated_none [simp]: "relocated a b {} F = F"
  by (simp add: relocated_def)

definition disjoint_places :: "string list \<Rightarrow> string list \<Rightarrow> string list set \<Rightarrow> bool" where
  "disjoint_places a b R \<longleftrightarrow> (\<forall>r \<in> R. \<forall>r' \<in> R. \<not> prefix (a @ r) (b @ r') \<and> \<not> prefix (b @ r') (a @ r))"

lemma disjoint_places_no_common:
  "disjoint_places a b R \<Longrightarrow> r \<in> R \<Longrightarrow> r' \<in> R \<Longrightarrow> prefix (a @ r) q \<Longrightarrow> prefix (b @ r') q \<Longrightarrow> False"
  unfolding disjoint_places_def using prefix_same_cases by metis

lemma relocated_room:
  assumes dis: "disjoint_places a b (insert r R)" and free: "no_files (b @ r) F"
    and room: "\<And>q. prefix (b @ r) q \<Longrightarrow> relocated a b R F q \<noteq> None \<Longrightarrow> q = b @ r \<and> relocated a b R F (a @ r) \<noteq> None"
  shows "no_files (b @ r) (relocated a b R F)"
  unfolding no_files_def
proof (intro allI impI, rule ccontr)
  fix q assume q: "prefix (b @ r) q" "relocated a b R F q \<noteq> None"
  then have q2: "q = b @ r" "relocated a b R F (a @ r) \<noteq> None" using room by blast+
  have "\<not> prefix (b @ r') (a @ r)" if "r' \<in> R" for r' using dis that by (auto simp: disjoint_places_def)
  then have "\<not> prefix (a @ r') (a @ r)" if "r' \<in> R" for r' using q2(2) that by (auto simp: relocated_def split: if_splits)
  then have "\<not> prefix (b @ r') q" if "r' \<in> R" for r' using q2(1) that by simp
  moreover have "F q = None" using free q(1) by (simp add: no_files_def)
  ultimately show False using q(2) by (auto simp: relocated_def split: if_splits)
qed

lemma relocated_step:
  assumes dis: "disjoint_places a b (insert r R)" and free: "no_files (b @ r) (relocated a b R F)"
  shows "moved (a @ r) (b @ r) (relocated a b R F) = relocated a b (insert r R) F"
proof
  fix q
  have no: "\<not> prefix (b @ r') (a @ r @ u)" if "r' \<in> insert r R" for r' u
    using disjoint_places_no_common[OF dis insertI1 that, of "a @ r @ u"] by auto
  show "moved (a @ r) (b @ r) (relocated a b R F) q = relocated a b (insert r R) F q"
  proof (cases "prefix (b @ r) q")
    case True
    then obtain u where u: "q = b @ r @ u" by (auto simp: prefix_def)
    have none: "relocated a b R F q = None" using free True by (simp add: no_files_def)
    have nob: "\<not> (\<exists>r' \<in> R. prefix (b @ r') (a @ r @ u))" using no by blast
    have "relocated a b R F (a @ r @ u) = F (a @ r @ u)"
    proof (cases "\<exists>r' \<in> R. prefix r' (r @ u)")
      case ex: True
      then have "\<exists>r' \<in> R. prefix (b @ r') q" by (auto simp: u)
      then have "relocated a b R F q = F (a @ r @ u)" by (simp add: relocated_def u)
      moreover have "relocated a b R F (a @ r @ u) = None" using ex nob by (simp add: relocated_def)
      ultimately show ?thesis using none by simp
    next
      case False
      then show ?thesis using nob by (simp add: relocated_def)
    qed
    moreover have "moved (a @ r) (b @ r) (relocated a b R F) q = relocated a b R F (a @ r @ u)" by (simp add: moved_def u)
    moreover have "relocated a b (insert r R) F q = F (a @ r @ u)" by (simp add: relocated_def u)
    ultimately show ?thesis by simp
  next
    case False
    show ?thesis
    proof (cases "prefix (a @ r) q")
      case True
      then obtain u where "q = a @ r @ u" by (auto simp: prefix_def)
      then show ?thesis using no False by (auto simp: moved_def relocated_def)
    next
      case False2: False
      then show ?thesis using False by (simp add: moved_def relocated_def)
    qed
  qed
qed

text \<open>There and back again.\<close>

lemma relocated_back:
  assumes dis: "disjoint_places a b R" and free: "no_files b F"
  shows "relocated b a R (relocated a b R F) = F"
proof
  fix q
  consider (a) r u where "r \<in> R" "q = a @ r @ u" | (b) r u where "r \<in> R" "q = b @ r @ u"
    | (other) "\<not> (\<exists>r \<in> R. prefix (a @ r) q)" "\<not> (\<exists>r \<in> R. prefix (b @ r) q)" by (auto simp: prefix_def)
  then show "relocated b a R (relocated a b R F) q = F q"
  proof cases
    case a
    then have "\<exists>r' \<in> R. prefix (b @ r') (b @ r @ u)" "\<exists>r' \<in> R. prefix (a @ r') q"
      by (auto intro!: bexI[of _ r])
    then show ?thesis using a(2) by (simp add: relocated_def)
  next
    case b
    have "\<not> prefix (a @ r') q" if "r' \<in> R" for r' using disjoint_places_no_common[OF dis that b(1), of q] b(2) by auto
    moreover have "\<exists>r' \<in> R. prefix (b @ r') q" using b by (auto intro!: bexI[of _ r])
    moreover have "F q = None" using free b(2) by (simp add: no_files_def)
    ultimately show ?thesis by (simp add: relocated_def)
  next
    case other
    then show ?thesis by (simp add: relocated_def)
  qed
qed

section \<open>The contract\<close>

locale fs_mover =
  fixes fs :: "'w mover" and files :: "'w \<Rightarrow> 'c files"
  assumes move_ok: "mv_Move fs s d w = (None, w') \<Longrightarrow> files w' = moved (path_of s) (path_of d) (files w)"
    and move_room: "mv_Move fs s d w = (None, w') \<Longrightarrow> path_of s \<noteq> path_of d \<Longrightarrow> prefix (path_of d) q \<Longrightarrow>
      files w q \<noteq> None \<Longrightarrow> q = path_of d \<and> files w (path_of s) \<noteq> None"
    and move_apart: "mv_Move fs s d w = (None, w') \<Longrightarrow> path_of s = path_of d \<or> \<not> prefix (path_of s) (path_of d)"
    and move_err: "mv_Move fs s d w = (Some e, w') \<Longrightarrow> files w' = files w"
    and mkdir_files: "mv_MkdirAll fs p w = (r, w') \<Longrightarrow> files w' = files w"
    and exists_files: "mv_Exists fs p w = (b, w') \<Longrightarrow> files w' = files w"
    and remove_other: "mv_RemoveAll fs p w = (r, w') \<Longrightarrow> rooted p \<Longrightarrow> \<not> prefix (path_of p) q \<Longrightarrow> files w' q = files w q"
    and remove_less: "mv_RemoveAll fs p w = (r, w') \<Longrightarrow> files w' q = None \<or> files w' q = files w q"
    and remove_all: "mv_RemoveAll fs p w = (None, w') \<Longrightarrow> rooted p \<Longrightarrow> no_files (path_of p) (files w')"
begin

lemma reverse_moves_undo:
  "undoable ms (files w) F0 \<Longrightarrow> reverse_moves fs ms w = ([], w') \<Longrightarrow> files w' = F0"
proof (induction ms arbitrary: w)
  case (Cons m ms)
  obtain s d where m: "m = (s, d)" by force
  obtain G where G: "undoable ms G F0" "files w = moved (path_of s) (path_of d) G"
    "no_files (path_of d) G" "\<not> prefix (path_of s) (path_of d)" using Cons.prems(1) by (auto simp: m)
  obtain w1 where w1: "mv_Move fs d s w = (None, w1)" "reverse_moves fs ms w1 = ([], w')"
    using Cons.prems(2) by (auto simp: m split: prod.splits if_splits)
  have "files w1 = G" using move_ok[OF w1(1)] moved_back[OF G(3,4)] G(2) by simp
  then show ?case using Cons.IH[of w1] G(1) w1(2) by simp
qed simp

lemma remove_nothing:
  assumes "no_files (path_of p) (files w)" "rooted p" "mv_RemoveAll fs p w = (r, w')"
  shows "files w' = files w"
proof
  fix q
  show "files w' q = files w q"
    using assms remove_other[OF assms(3,2), of q] remove_less[OF assms(3), of q] by (cases "prefix (path_of p) q") (auto simp: no_files_def)
qed

lemma move_step:
  assumes mv: "mv_Move fs s d w = (None, w1)" and s: "path_of s = a @ r" and d: "path_of d = c @ r"
    and F: "files w = relocated a c R F" and dis: "disjoint_places a c (insert r R)" and free: "no_files (c @ r) F"
  shows "files w1 = relocated a c (insert r R) F" "no_files (path_of d) (files w)"
proof -
  have "path_of s \<noteq> path_of d" using dis by (auto simp: s d disjoint_places_def)
  then have room: "no_files (c @ r) (relocated a c R F)"
    using move_room[OF mv] relocated_room[OF dis free] by (simp add: s d F)
  then show "files w1 = relocated a c (insert r R) F" "no_files (path_of d) (files w)"
    using move_ok[OF mv] relocated_step[OF dis room] by (simp_all add: s d F)
qed

end

section \<open>The loops\<close>

definition rel_names :: "string \<Rightarrow> artefact \<Rightarrow> string list" where
  "rel_names base a = drop (length (path_of base)) (path_of (ar_Path a))"

definition movable :: "artefact \<Rightarrow> bool" where
  "movable a \<longleftrightarrow> ar_State a = ArtefactActive \<or> ar_State a = ArtefactRestored"

text \<open>An entry of \<open>b\<close> neither inside nor around the directory \<open>dir\<close>.\<close>

definition clear_of :: "string list \<Rightarrow> string list \<Rightarrow> string list \<Rightarrow> bool" where
  "clear_of dir b r \<longleftrightarrow> \<not> prefix dir (b @ r) \<and> \<not> prefix (b @ r) dir"

lemma clear_disjoint:
  assumes "\<forall>r \<in> R. clear_of dir b r" "prefix dir c"
  shows "disjoint_places b c R" "disjoint_places c b R"
proof -
  have "\<not> prefix (b @ r) (c @ r') \<and> \<not> prefix (c @ r') (b @ r)" if "r \<in> R" for r r'
  proof -
    have c: "\<not> prefix dir (b @ r)" "\<not> prefix (b @ r) dir" "prefix dir (c @ r')"
      using assms that by (auto simp: clear_of_def intro: prefix_order.trans[OF assms(2)])
    then show ?thesis using prefix_same_cases prefix_order.trans by blast
  qed
  then show "disjoint_places b c R" "disjoint_places c b R" by (auto simp: disjoint_places_def)
qed

lemma rebased_inside:
  assumes "rooted base" "\<not> outside base p" "rooted dir"
  obtains r where "path_of p = path_of base @ r" "path_of (rebased base dir p) = path_of dir @ r" "rooted (rebased base dir p)" "rooted p"
proof -
  obtain rel where rel: "RelPath base p = Some rel" "\<not> has_prefix rel ''..''"
    using assms(2) by (auto simp: outside_def split: option.splits)
  show thesis
    by (rule RelPath_inside[OF assms(1) rel]) (use that rel assms(3) in \<open>auto simp: rebased_def\<close>)
qed

context fs_mover
begin

text \<open>Some entries have moved, all of them clear of the quarantine, and the moves can be undone.\<close>

definition moved_out :: "string list \<Rightarrow> string list \<Rightarrow> string list \<Rightarrow> string list set \<Rightarrow> (string \<times> string) list \<Rightarrow> 'c files \<Rightarrow> 'w \<Rightarrow> bool" where
  "moved_out quar b staging R ms F w \<longleftrightarrow> (\<forall>r \<in> R. clear_of quar b r) \<and> files w = relocated b staging R F \<and> undoable ms (files w) F"

lemma move_out_step:
  assumes out: "moved_out quar (path_of base) (path_of st) R ms F w" and base: "rooted base" and st: "rooted st"
    and quar: "prefix quar (path_of st)" and free: "no_files (path_of st) F"
    and inside: "\<not> outside base p" and clear: "\<not> prefix quar (path_of p)"
    and mv: "mv_Move fs p (rebased base st p) w = (None, w1)"
  shows "moved_out quar (path_of base) (path_of st) (insert (drop (length (path_of base)) (path_of p)) R)
    ((p, rebased base st p) # ms) F w1"
proof -
  obtain r where r: "path_of p = path_of base @ r" "path_of (rebased base st p) = path_of st @ r"
    using rebased_inside[OF base inside st] by metis
  have ne: "path_of p \<noteq> path_of (rebased base st p)"
    using clear quar by (auto simp: r(2) intro: prefix_order.trans[OF quar])
  then have np: "\<not> prefix (path_of p) (path_of (rebased base st p))" using move_apart[OF mv] by blast
  then have "\<not> prefix (path_of p) quar" using quar by (auto simp: r(2) intro: prefix_order.trans)
  then have cl: "\<forall>r' \<in> insert r R. clear_of quar (path_of base) r'" 
    using out clear by (auto simp: moved_out_def clear_of_def r(1))
  have fr: "no_files (path_of st @ r) F" using free by (auto simp: no_files_def dest: append_prefixD)
  note step = move_step[OF mv r _ clear_disjoint(1)[OF cl quar] fr]
  have F: "files w = relocated (path_of base) (path_of st) R F" using out by (simp add: moved_out_def)
  have "undoable ((p, rebased base st p) # ms) (files w1) F"
    using out move_ok[OF mv] step(2)[OF F] np by (auto simp: moved_out_def)
  then show ?thesis using cl step(1)[OF F] by (simp add: moved_out_def r(1))
qed

lemma move_out_result:
  assumes "move_out fs base st as ms w = (err, ms', w')" "moved_out quar (path_of base) (path_of st) R ms F w"
    and "\<forall>a \<in> set as. movable a \<longrightarrow> \<not> prefix quar (path_of (ar_Path a))"
    and base: "rooted base" and st: "rooted st" and quar: "prefix quar (path_of st)" and free: "no_files (path_of st) F"
  shows "\<exists>R'. moved_out quar (path_of base) (path_of st) R' ms' F w' \<and>
    (err = None \<longrightarrow> R' = R \<union> rel_names base ` {a \<in> set as. movable a})"
  using assms(1-3)
proof (induction as arbitrary: R ms w)
  case (Cons a as)
  show ?case
  proof (cases "movable a")
    case False
    then have "{x \<in> set (a # as). movable x} = {x \<in> set as. movable x}" by auto
    then show ?thesis using Cons False by (auto simp: movable_def)
  next
    case mova: True
    show ?thesis
    proof (cases "outside base (ar_Path a)")
      case True
      then show ?thesis using Cons.prems mova by (auto simp: movable_def)
    next
      case inside: False
      obtain r w1 where mv: "mv_Move fs (ar_Path a) (rebased base st (ar_Path a)) w = (r, w1)" by force
      show ?thesis
      proof (cases r)
        case (Some e)
        then have "files w1 = files w" "err \<noteq> None" "ms' = ms" "w' = w1"
          using move_err mv Cons.prems(1) mova inside by (auto simp: movable_def)
        then show ?thesis using Cons.prems(2) by (auto simp: moved_out_def)
      next
        case None
        have "moved_out quar (path_of base) (path_of st) (insert (rel_names base a) R)
            ((ar_Path a, rebased base st (ar_Path a)) # ms) F w1"
          unfolding rel_names_def
          by (rule move_out_step[OF Cons.prems(2) base st quar free inside _ mv[unfolded None]]) (use Cons.prems(3) mova in auto)
        moreover have "move_out fs base st as ((ar_Path a, rebased base st (ar_Path a)) # ms) w1 = (err, ms', w')"
          using Cons.prems(1) mova inside mv None by (auto simp: movable_def)
        ultimately have "\<exists>R'. moved_out quar (path_of base) (path_of st) R' ms' F w' \<and>
            (err = None \<longrightarrow> R' = insert (rel_names base a) R \<union> rel_names base ` {a \<in> set as. movable a})"
          using Cons.IH[of "(ar_Path a, rebased base st (ar_Path a)) # ms" w1 "insert (rel_names base a) R"] Cons.prems(3) by simp
        moreover have "insert (rel_names base a) R \<union> rel_names base ` {a \<in> set as. movable a}
            = R \<union> rel_names base ` {x \<in> set (a # as). movable x}" using mova by auto
        ultimately show ?thesis by metis
      qed
    qed
  qed
qed auto

text \<open>Files only go, and only below the directories; without an error those are empty. An error that \<open>os.IsNotExist\<close>
  accepts is not one \<open>RemoveAll\<close> makes.\<close>

lemma purge_dirs_files:
  assumes "purge_dirs missing ld fs now ds err w l = (err', w', l')" and "\<forall>(s, d) \<in> set ds. rooted d"
    and "\<And>p w e w'. mv_RemoveAll fs p w = (Some e, w') \<Longrightarrow> \<not> missing e"
  shows "(files w' q = None \<or> files w' q = files w q) \<and>
    ((\<forall>(s, d) \<in> set ds. \<not> prefix (path_of d) q) \<longrightarrow> files w' q = files w q) \<and>
    (err' = None \<longrightarrow> err = None \<and> (\<forall>(s, d) \<in> set ds. prefix (path_of d) q \<longrightarrow> files w' q = None))"
  using assms(1,2)
proof (induction ds arbitrary: err w l)
  case (Cons x ds)
  obtain s d where x: "x = (s, d)" by force
  obtain r w1 where rm: "mv_RemoveAll fs d w = (r, w1)" by force
  obtain err1 l1 where rest: "purge_dirs missing ld fs now ds err1 w1 l1 = (err', w', l')"
    and err1: "err1 = None \<longrightarrow> r = None \<and> err = None"
    using Cons.prems(1) rm assms(3) by (cases r; cases err) (auto simp: x)
  have d: "rooted d" using Cons.prems(2) x by simp
  note IH = Cons.IH[OF rest] Cons.prems(2)[unfolded x]
  have step: "files w1 q = None \<or> files w1 q = files w q" "\<not> prefix (path_of d) q \<Longrightarrow> files w1 q = files w q"
    "r = None \<Longrightarrow> prefix (path_of d) q \<Longrightarrow> files w1 q = None"
    using remove_less[OF rm] remove_other[OF rm d] remove_all[of d w w1] rm d by (auto simp: no_files_def)
  show ?case using IH step err1 by (auto simp: x)
qed simp

end

end
