(* ===== verification/Disk.thy ===== *)
theory Disk
  imports Relocation
begin

text \<open>
  \<open>OSFSMover\<close>: \<open>os.Rename\<close>, \<open>os.MkdirAll\<close>, \<open>os.Remove\<close>, \<open>os.RemoveAll\<close> and \<open>os.Stat\<close> on a tree of directories and
  regular files, given by its entries under their lists of names; relative paths start at the root. Each system
  operation takes the next fault of a script. \<open>None\<close> is no fault; with \<open>Some k\<close> it fails, a creation or a removal
  of several entries after the first \<open>k\<close> of them. A script that has run out is the disk without faults.
\<close>

datatype node = FileNode string | DirNode

record disk =
  dk_tree :: "(string list \<times> node) list"
  dk_faults :: "nat option list"

definition next_fault :: "disk \<Rightarrow> nat option \<times> disk" where
  "next_fault d = (case dk_faults d of [] \<Rightarrow> (None, d) | f # fs \<Rightarrow> (f, d\<lparr>dk_faults := fs\<rparr>))"

definition node_at :: "disk \<Rightarrow> string list \<Rightarrow> node option" where
  "node_at d p = (if p = [] then Some DirNode else map_of (dk_tree d) p)"

definition disk_files :: "disk \<Rightarrow> string list \<Rightarrow> string option" where
  "disk_files d p = (case map_of (dk_tree d) p of Some (FileNode c) \<Rightarrow> Some c | _ \<Rightarrow> None)"

definition EIO :: gerr where "EIO = Plain ''input/output error''"
definition ENOENT :: gerr where "ENOENT = Plain ''no such file or directory''"
definition ENOTDIR :: gerr where "ENOTDIR = Plain ''not a directory''"
definition EEXIST :: gerr where "EEXIST = Plain ''file exists''"
definition EINVAL :: gerr where "EINVAL = Plain ''invalid argument''"
definition ENOTEMPTY :: gerr where "ENOTEMPTY = Plain ''directory not empty''"
definition EBUSY :: gerr where "EBUSY = Plain ''device or resource busy''"

text \<open>The missing directories on the way to a path; \<open>False\<close> when a file is on it.\<close>

fun make_dirs :: "string list \<Rightarrow> string list \<Rightarrow> (string list \<times> node) list \<Rightarrow> bool \<times> (string list \<times> node) list" where
  "make_dirs at_dir [] tr = (True, tr)"
| "make_dirs at_dir (n # ns) tr = (case map_of tr (at_dir @ [n]) of
     Some (FileNode _) \<Rightarrow> (False, tr)
   | Some DirNode \<Rightarrow> make_dirs (at_dir @ [n]) ns tr
   | None \<Rightarrow> make_dirs (at_dir @ [n]) ns ((at_dir @ [n], DirNode) # tr))"

definition os_MkdirAll :: "string \<Rightarrow> disk \<Rightarrow> gerr option \<times> disk" where
  "os_MkdirAll p d0 = (case next_fault d0 of
     (None, d) \<Rightarrow> (case make_dirs [] (path_of p) (dk_tree d) of
        (ok, tr) \<Rightarrow> (if ok then None else Some ENOTDIR, d\<lparr>dk_tree := tr\<rparr>))
   | (Some k, d) \<Rightarrow> (Some EIO, d\<lparr>dk_tree := snd (make_dirs [] (take k (path_of p)) (dk_tree d))\<rparr>))"

definition renamed :: "string list \<Rightarrow> string list \<Rightarrow> (string list \<times> node) list \<Rightarrow> (string list \<times> node) list" where
  "renamed s t tr = map (\<lambda>(q, n). (if prefix s q then t @ drop (length s) q else q, n)) (filter (\<lambda>(q, n). \<not> prefix t q) tr)"

text \<open>A file replaces a file. An existing directory is never replaced, whatever \<open>rename(2)\<close> would do, and
  renaming an entry to itself changes nothing; Go refuses it for a directory under the same spelling.\<close>

definition os_Rename :: "string \<Rightarrow> string \<Rightarrow> disk \<Rightarrow> gerr option \<times> disk" where
  "os_Rename src dst d0 = (case next_fault d0 of
     (Some _, d) \<Rightarrow> (Some EIO, d)
   | (None, d) \<Rightarrow>
       (let s = path_of src; t = path_of dst
        in if node_at d s = None then (Some ENOENT, d)
           else if s = t then (if src = dst \<and> node_at d s = Some DirNode then Some EEXIST else None, d)
           else if node_at d t = Some DirNode then (Some EEXIST, d)
           else if prefix s t then (Some EINVAL, d)
           else if node_at d (butlast t) \<noteq> Some DirNode then (Some ENOENT, d)
           else if node_at d t \<noteq> None \<and> node_at d s = Some DirNode then (Some ENOTDIR, d)
           else if list_ex (\<lambda>(q, n). strict_prefix t q) (dk_tree d) then (Some ENOTEMPTY, d)
           else (None, d\<lparr>dk_tree := renamed s t (dk_tree d)\<rparr>)))"

definition os_Remove :: "string \<Rightarrow> disk \<Rightarrow> gerr option \<times> disk" where
  "os_Remove p d0 = (case next_fault d0 of
     (Some _, d) \<Rightarrow> (Some EIO, d)
   | (None, d) \<Rightarrow>
       (if path_of p = [] then (Some EBUSY, d)
        else if node_at d (path_of p) = None then (Some ENOENT, d)
        else if list_ex (\<lambda>(q, n). strict_prefix (path_of p) q) (dk_tree d) then (Some ENOTEMPTY, d)
        else (None, d\<lparr>dk_tree := filter (\<lambda>(q, n). q \<noteq> path_of p) (dk_tree d)\<rparr>)))"

text \<open>Without the first \<open>k\<close> entries in the subtree of \<open>p\<close>.\<close>

fun remove_some :: "nat \<Rightarrow> string list \<Rightarrow> (string list \<times> node) list \<Rightarrow> (string list \<times> node) list" where
  "remove_some k p [] = []"
| "remove_some k p ((q, n) # tr) =
     (if \<not> prefix p q then (q, n) # remove_some k p tr
      else case k of 0 \<Rightarrow> (q, n) # tr | Suc k' \<Rightarrow> remove_some k' p (filter (\<lambda>(r, _). r \<noteq> q) tr))"

definition os_RemoveAll :: "string \<Rightarrow> disk \<Rightarrow> gerr option \<times> disk" where
  "os_RemoveAll p d0 =
     (if p = [] then (None, d0)
      else if p = ''.'' \<or> has_suffix p ''/.'' then (Some EINVAL, d0)
      else case next_fault d0 of
        (Some k, d) \<Rightarrow> (Some EIO, d\<lparr>dk_tree := remove_some k (path_of p) (dk_tree d)\<rparr>)
      | (None, d) \<Rightarrow> (if path_of p = [] then Some EBUSY else None,
          d\<lparr>dk_tree := filter (\<lambda>(q, n). \<not> prefix (path_of p) q) (dk_tree d)\<rparr>))"

definition os_Exists :: "string \<Rightarrow> disk \<Rightarrow> bool \<times> disk" where
  "os_Exists p d0 = (case next_fault d0 of (f, d) \<Rightarrow> (f = None \<and> node_at d (path_of p) \<noteq> None, d))"

definition os_Move :: "string \<Rightarrow> string \<Rightarrow> disk \<Rightarrow> gerr option \<times> disk" where
  "os_Move src dst d = (case os_MkdirAll (DirPath dst) d of
     (Some e, d1) \<Rightarrow> (Some e, d1) | (None, d1) \<Rightarrow> os_Rename src dst d1)"

definition OSFSMover :: "disk mover" where
  "OSFSMover = \<lparr>mv_Move = os_Move, mv_Remove = os_Remove, mv_MkdirAll = os_MkdirAll, mv_RemoveAll = os_RemoveAll,
     mv_Exists = os_Exists\<rparr>"

text \<open>\<open>os.IsNotExist\<close>; \<open>RemoveAll\<close> does not make the error it looks for.\<close>

definition IsNotExist :: "gerr \<Rightarrow> bool" where
  "IsNotExist e \<longleftrightarrow> e = ENOENT"

lemma RemoveAll_not_missing: "mv_RemoveAll OSFSMover p w = (Some e, w') \<Longrightarrow> \<not> IsNotExist e"
  by (auto simp: OSFSMover_def os_RemoveAll_def IsNotExist_def ENOENT_def EIO_def EBUSY_def EINVAL_def
      split: prod.splits option.splits if_splits)

section \<open>The files under each operation\<close>

lemma next_fault_tree [simp]: "next_fault d = (f, d') \<Longrightarrow> dk_tree d' = dk_tree d"
  by (auto simp: next_fault_def split: list.splits)

lemma disk_files_tree: "dk_tree d' = dk_tree d \<Longrightarrow> disk_files d' = disk_files d"
  by (rule ext) (simp add: disk_files_def)

lemma make_dirs_lookup:
  "make_dirs a ns tr = (ok, tr') \<Longrightarrow> map_of tr' p = map_of tr p \<or> map_of tr p = None \<and> map_of tr' p = Some DirNode"
  by (induction a ns tr arbitrary: ok tr' rule: make_dirs.induct) (fastforce split: option.splits node.splits if_splits)+

lemma os_MkdirAll_files:
  assumes "os_MkdirAll p d = (r, d')"
  shows "disk_files d' = disk_files d"
proof
  fix q
  obtain ns ok tr where t: "make_dirs [] ns (dk_tree d) = (ok, tr)" "dk_tree d' = tr"
    using assms by (auto simp: os_MkdirAll_def split: prod.splits option.splits) (metis eq_snd_iff)+
  show "disk_files d' q = disk_files d q"
    using make_dirs_lookup[OF t(1), of q] by (auto simp: disk_files_def t(2))
qed

lemma map_of_renamed:
  assumes "\<not> prefix s t" "\<not> prefix t s"
  shows "map_of (renamed s t tr) q =
    (if prefix t q then map_of tr (s @ drop (length t) q) else if prefix s q then None else map_of tr q)"
proof (induction tr)
  case (Cons e tr)
  obtain p n where e: "e = (p, n)" by force
  have "\<not> (prefix s p \<and> prefix t p)" using assms prefix_same_cases by blast
  then consider "prefix s p" "\<not> prefix t p" | "\<not> prefix s p" "prefix t p" | "\<not> prefix s p" "\<not> prefix t p" by blast
  then show ?case
  proof cases
    case 1
    then have "(t @ drop (length s) p = q) = (prefix t q \<and> p = s @ drop (length t) q)" by (auto simp: prefix_def)
    then show ?thesis using Cons assms 1 by (auto simp: e renamed_def)
  next
    case 2
    then have "s @ r \<noteq> p" for r by auto
    then show ?thesis using Cons assms 2 by (auto simp: e renamed_def)
  next
    case 3
    then have "s @ r \<noteq> p" for r by auto
    then show ?thesis using Cons assms 3 by (auto simp: e renamed_def)
  qed
qed (simp add: renamed_def)

lemma node_files: "disk_files d p \<noteq> None \<Longrightarrow> node_at d p = Some DirNode \<Longrightarrow> p = []"
  by (auto simp: disk_files_def node_at_def split: if_splits)

lemma os_Rename_cases:
  assumes "os_Rename src dst d = (None, d')"
  obtains "path_of src = path_of dst" "dk_tree d' = dk_tree d"
  | "path_of src \<noteq> path_of dst" "\<not> prefix (path_of src) (path_of dst)" "\<not> prefix (path_of dst) (path_of src)"
    "dk_tree d' = renamed (path_of src) (path_of dst) (dk_tree d)"
    "\<And>q. prefix (path_of dst) q \<Longrightarrow> disk_files d q \<noteq> None \<Longrightarrow> q = path_of dst \<and> disk_files d (path_of src) \<noteq> None"
proof -
  obtain d1 where d1: "next_fault d = (None, d1)" "dk_tree d1 = dk_tree d"
    using assms by (cases "next_fault d") (auto simp: os_Rename_def split: option.splits)
  note r = assms[unfolded os_Rename_def d1(1) Let_def prod.case option.case]
  show thesis
  proof (cases "path_of src = path_of dst")
    case True
    then show ?thesis using r that(1) d1(2) by (auto split: if_splits)
  next
    case False
    note r' = r[unfolded if_not_P[OF False]]
    have no_below: "\<not> strict_prefix (path_of dst) q" if "(q, n) \<in> set (dk_tree d)" for q n
      using r' that d1(2) by (auto simp: list_ex_iff split: if_splits)
    have src: "node_at d1 (path_of src) \<noteq> None" using r' by (auto split: if_splits)
    have np: "\<not> prefix (path_of src) (path_of dst)" using r' by (auto split: if_splits)
    then have ne: "path_of src \<noteq> []" by auto
    then obtain n where n: "map_of (dk_tree d) (path_of src) = Some n" using src by (auto simp: node_at_def d1(2))
    have np2: "\<not> prefix (path_of dst) (path_of src)"
      using no_below[OF map_of_SomeD[OF n]] False by (auto simp: strict_prefix_def)
    have tree: "dk_tree d' = renamed (path_of src) (path_of dst) (dk_tree d)"
      using r' d1(2) by (auto split: if_splits)
    have "q = path_of dst \<and> disk_files d (path_of src) \<noteq> None" if q: "prefix (path_of dst) q" "disk_files d q \<noteq> None" for q
    proof -
      obtain c where c: "map_of (dk_tree d) q = Some (FileNode c)"
        using q(2) by (auto simp: disk_files_def split: option.splits node.splits)
      have qd: "q = path_of dst" using no_below[OF map_of_SomeD[OF c]] q(1) by (auto simp: strict_prefix_def)
      then have "node_at d1 (path_of src) \<noteq> Some DirNode" using r' c by (auto simp: node_at_def d1(2) split: if_splits)
      then show ?thesis using qd n ne by (auto simp: node_at_def d1(2) disk_files_def split: node.splits)
    qed
    then show ?thesis using that(2) False np np2 tree by blast
  qed
qed

lemma os_Rename_err: "os_Rename src dst d = (Some e, d') \<Longrightarrow> disk_files d' = disk_files d"
  by (rule disk_files_tree) (auto simp: os_Rename_def Let_def split: prod.splits option.splits if_splits)

lemma remove_some_lookup:
  "map_of (remove_some k p tr) q = map_of tr q \<or> prefix p q \<and> map_of (remove_some k p tr) q = None"
proof (induction k p tr rule: remove_some.induct)
  case (2 k p r n tr)
  have f: "map_of (filter (\<lambda>(r', _). r' \<noteq> r) tr) q = (if q = r then None else map_of tr q)"
    by (induction tr) auto
  show ?case using 2 by (cases k) (auto simp: f split: if_splits)
qed simp

lemma map_of_kept: "map_of (filter (\<lambda>(q, n). \<not> prefix p q) tr) q = (if prefix p q then None else map_of tr q)"
  by (induction tr) auto

lemma os_Move_None:
  assumes "os_Move src dst d = (None, d')"
  obtains d1 where "os_Rename src dst d1 = (None, d')" "disk_files d1 = disk_files d"
  using assms os_MkdirAll_files by (auto simp: os_Move_def split: prod.splits option.splits)

lemma os_Move_ok:
  assumes "os_Move src dst d = (None, d')"
  shows "disk_files d' = moved (path_of src) (path_of dst) (disk_files d)"
proof -
  obtain d1 where r: "os_Rename src dst d1 = (None, d')" and f: "disk_files d1 = disk_files d"
    by (rule os_Move_None[OF assms])
  show ?thesis
  proof (rule os_Rename_cases[OF r])
    assume "path_of src = path_of dst" "dk_tree d' = dk_tree d1"
    moreover have "moved s s F = F" for s and F :: "string files" by (rule ext) (auto simp: moved_def prefix_def)
    ultimately show ?thesis using disk_files_tree[of d' d1] f by simp
  next
    assume "path_of src \<noteq> path_of dst" and np: "\<not> prefix (path_of src) (path_of dst)" "\<not> prefix (path_of dst) (path_of src)"
      and t: "dk_tree d' = renamed (path_of src) (path_of dst) (dk_tree d1)"
    have "disk_files d' = moved (path_of src) (path_of dst) (disk_files d1)"
      by (rule ext) (simp add: disk_files_def moved_def t map_of_renamed[OF np])
    then show ?thesis by (simp add: f)
  qed
qed

lemma os_RemoveAll_lookup:
  assumes "os_RemoveAll p d = (r, d')"
  shows "disk_files d' q = disk_files d q \<or> disk_files d' q = None \<and> (rooted p \<longrightarrow> prefix (path_of p) q)"
    and "r = None \<Longrightarrow> rooted p \<Longrightarrow> prefix (path_of p) q \<Longrightarrow> disk_files d' q = None"
proof -
  obtain f d1 where f: "next_fault d = (f, d1)" by force
  have t: "dk_tree d1 = dk_tree d" using f by simp
  show "disk_files d' q = disk_files d q \<or> disk_files d' q = None \<and> (rooted p \<longrightarrow> prefix (path_of p) q)"
    using assms remove_some_lookup[of "the f" "path_of p" "dk_tree d" q]
    by (auto simp: os_RemoveAll_def f t disk_files_def map_of_kept split: if_splits option.splits node.splits)
  show "disk_files d' q = None" if "r = None" "rooted p" "prefix (path_of p) q"
    using assms that
    by (auto simp: os_RemoveAll_def f t disk_files_def map_of_kept rooted_def has_prefix_def split: if_splits option.splits)
qed

interpretation os: fs_mover OSFSMover disk_files
proof
  fix s d q :: "_ list" and w w' :: disk and e r b
  show "mv_Move OSFSMover s d w = (None, w') \<Longrightarrow> disk_files w' = moved (path_of s) (path_of d) (disk_files w)"
    by (simp add: OSFSMover_def os_Move_ok)
  show "q = path_of d \<and> disk_files w (path_of s) \<noteq> None"
    if "mv_Move OSFSMover s d w = (None, w')" "path_of s \<noteq> path_of d" "prefix (path_of d) q" "disk_files w q \<noteq> None"
    using that by (auto simp: OSFSMover_def elim!: os_Move_None os_Rename_cases)
  show "path_of s = path_of d \<or> \<not> prefix (path_of s) (path_of d)" if "mv_Move OSFSMover s d w = (None, w')"
    using that by (auto simp: OSFSMover_def elim!: os_Move_None os_Rename_cases)
  show "disk_files w' = disk_files w" if "mv_Move OSFSMover s d w = (Some e, w')"
    using that os_Rename_err os_MkdirAll_files
    by (fastforce simp: OSFSMover_def os_Move_def split: prod.splits option.splits)
  show "disk_files w' = disk_files w" if "mv_MkdirAll OSFSMover s w = (r, w')"
    using that os_MkdirAll_files by (simp add: OSFSMover_def)
  show "disk_files w' = disk_files w" if "mv_Exists OSFSMover s w = (b, w')"
    using that by (intro disk_files_tree) (auto simp: OSFSMover_def os_Exists_def split: prod.splits)
  show "disk_files w' q = disk_files w q" if "mv_RemoveAll OSFSMover s w = (r, w')" "rooted s" "\<not> prefix (path_of s) q"
    using that os_RemoveAll_lookup(1)[of s w r w' q] by (simp add: OSFSMover_def)
  show "disk_files w' q = None \<or> disk_files w' q = disk_files w q" if "mv_RemoveAll OSFSMover s w = (r, w')"
    using that os_RemoveAll_lookup(1)[of s w r w' q] by (auto simp: OSFSMover_def)
  show "no_files (path_of s) (disk_files w')" if "mv_RemoveAll OSFSMover s w = (None, w')" "rooted s"
    using that os_RemoveAll_lookup(2)[of s w None w'] by (simp add: OSFSMover_def no_files_def)
qed

end
