(* ===== verification/Rollback_Facts.thy ===== *)
theory Rollback_Facts
  imports Relocation
begin

text \<open>
  The contract of the ledger (\<open>artefact_ledger\<close>) and, over it and \<open>fs_mover\<close>, the outcomes of rollback and restore:
  an aborted rollback leaves no trace, and a restore after a rollback gives the files back.
\<close>

definition quarantine_names :: "string \<Rightarrow> string list" where
  "quarantine_names base = path_of base @ [''quarantine'']"

lemma dirs_of:
  assumes "rooted base" "plain_name setID"
  shows "path_of (QuarantineDir base setID) = quarantine_names base @ [setID]" "rooted (QuarantineDir base setID)"
    "path_of (stagingDir base setID) = quarantine_names base @ [''.staging-'' @ setID]" "rooted (stagingDir base setID)"
proof -
  have q: "\<forall>n \<in> set [''quarantine'', setID]. plain_name n" "\<forall>n \<in> set [''quarantine'', ''.staging-'' @ setID]. plain_name n"
    using assms(2) by (auto simp: plain_name_def)
  show "path_of (QuarantineDir base setID) = quarantine_names base @ [setID]" "rooted (QuarantineDir base setID)"
    "path_of (stagingDir base setID) = quarantine_names base @ [''.staging-'' @ setID]" "rooted (stagingDir base setID)"
    using path_of_Join[OF assms(1) q(1)] path_of_Join[OF assms(1) q(2)]
    by (simp_all add: QuarantineDir_def stagingDir_def quarantine_names_def)
qed

text \<open>No artefact of the set lies in the quarantine.\<close>

definition outside_quarantine :: "string \<Rightarrow> artefact set \<Rightarrow> bool" where
  "outside_quarantine base as \<longleftrightarrow> (\<forall>a \<in> as. \<not> prefix (quarantine_names base) (path_of (ar_Path a)))"

locale artefact_ledger =
  fixes ld :: "'l ledger_port" and view :: "'l \<Rightarrow> 'v" and rows :: "'v \<Rightarrow> string \<Rightarrow> artefact set" and ok :: "'v \<Rightarrow> bool"
  assumes listed: "ld_SetForSet ld s l = Inr as \<Longrightarrow> ok (view l) \<Longrightarrow> set as = rows (view l) s"
    and rollback_err: "ld_Rollback ld s p who l = (Some e, l') \<Longrightarrow> view l' = view l"
    and rollback_rows: "ld_Rollback ld s p who l = (None, l') \<Longrightarrow> ok (view l) \<Longrightarrow>
      ok (view l') \<and> (\<exists>ts. \<forall>s'. rows (view l') s' = (if s' = s then quarantined_row ts p ` rows (view l) s' else rows (view l) s'))"
    and restore_rows: "ld_Restore ld s who l = (None, l') \<Longrightarrow> ok (view l) \<Longrightarrow>
      ok (view l') \<and> (\<exists>ts. \<forall>s'. rows (view l') s' = (if s' = s then restored_row ts ` rows (view l) s' else rows (view l) s'))"

locale rollback_stack =
  fs_mover fs files + artefact_ledger ld view rows ok
  for fs :: "'w mover" and files :: "'w \<Rightarrow> 'c files" and ld :: "'l ledger_port" and view :: "'l \<Rightarrow> 'v"
    and rows :: "'v \<Rightarrow> string \<Rightarrow> artefact set" and ok :: "'v \<Rightarrow> bool"
begin

lemma undo_files:
  assumes "undo_rollback svc st ms e w l t = (err, [], w', l', t')" "rs_FS svc = fs" "undoable ms (files w) F"
    and "rooted st" "no_files (path_of st) F"
  shows "files w' = F" "l' = l" "t' = t"
proof -
  obtain w1 r where w1: "reverse_moves fs ms w = ([], w1)" "mv_RemoveAll fs st w1 = (r, w')" "l' = l" "t' = t"
    using assms(1,2) by (auto simp: undo_rollback_def split: prod.splits) (metis surjective_pairing)
  have F: "files w1 = F" using reverse_moves_undo[OF assms(3) w1(1)] .
  show "files w' = F" using remove_nothing[OF _ assms(4) w1(2)] assms(5) F by simp
  show "l' = l" "t' = t" using w1 by simp_all
qed

text \<open>The state after the loop of a rollback, and the room the commit finds.\<close>

lemma commit_room:
  assumes base: "rooted base" "plain_name setID" and mv: "mv_Move fs (stagingDir base setID) (QuarantineDir base setID) w = (None, w1)"
    and out: "moved_out (quarantine_names base) (path_of base) (path_of (stagingDir base setID)) R ms F w"
    and free: "no_files (path_of (stagingDir base setID)) F"
  shows "no_files (path_of (QuarantineDir base setID)) (files w)"
    and "files w1 = moved (path_of (stagingDir base setID)) (path_of (QuarantineDir base setID)) (files w)"
    and "\<not> prefix (path_of (stagingDir base setID)) (path_of (QuarantineDir base setID))"
proof -
  note d = dirs_of[OF base]
  have ne: "path_of (stagingDir base setID) \<noteq> path_of (QuarantineDir base setID)" using d by simp
  have "clear_of (quarantine_names base) (path_of base) r \<Longrightarrow> r \<noteq> []" for r by (auto simp: clear_of_def quarantine_names_def)
  then have "files w (path_of (stagingDir base setID)) = None"
    using out free by (auto simp: moved_out_def relocated_def no_files_def)
  then show "no_files (path_of (QuarantineDir base setID)) (files w)"
    using move_room[OF mv ne] by (metis no_files_def)
  show "files w1 = moved (path_of (stagingDir base setID)) (path_of (QuarantineDir base setID)) (files w)" by (rule move_ok[OF mv])
  show "\<not> prefix (path_of (stagingDir base setID)) (path_of (QuarantineDir base setID))" using move_apart[OF mv] ne by simp
qed

lemma commit_abort:
  assumes com: "commit_rollback svc setID actor as ms w l t = (Some e, [], w', l', t')"
    and svc: "rs_FS svc = fs" "rs_Ledger svc = ld" "rs_AllowedRoot svc = base" and base: "rooted base" "plain_name setID"
    and out: "moved_out (quarantine_names base) (path_of base) (path_of (stagingDir base setID)) R ms F w"
    and free: "no_files (path_of (stagingDir base setID)) F"
  shows "files w' = F \<and> view l' = view l \<and> t' = t"
proof -
  note d = dirs_of[OF base]
  have und: "undoable ms (files w) F" using out unfolding moved_out_def by blast
  obtain r w1 where mv: "mv_Move fs (stagingDir base setID) (QuarantineDir base setID) w = (r, w1)" by force
  show ?thesis
  proof (cases r)
    case (Some e1)
    have "undoable ms (files w1) F" using move_err mv Some und by simp
    then show ?thesis using com undo_files[OF _ svc(1) _ d(4) free] mv Some by (fastforce simp: commit_rollback_def svc Let_def)
  next
    case None
    note room = commit_room[OF base mv[unfolded None] out free]
    obtain e2 l1 where l1: "ld_Rollback ld setID (QuarantineDir base setID) actor l = (Some e2, l1)"
      using com mv None by (auto simp: commit_rollback_def svc Let_def split: prod.splits option.splits)
    obtain r2 w2 where mv2: "mv_Move fs (QuarantineDir base setID) (stagingDir base setID) w1 = (r2, w2)" by force
    have r2: "r2 = None" using com mv None l1 mv2 by (cases r2) (auto simp: commit_rollback_def svc Let_def)
    have "files w2 = files w" using move_ok[OF mv2[unfolded r2]] room moved_back by simp
    then have "undoable ms (files w2) F" using und by simp
    moreover have "undo_rollback svc (stagingDir base setID) ms (Wrap ''rollback: ledger: '' e2 []) w2 l1 t = (Some e, [], w', l', t')"
      using com mv None l1 mv2 r2 by (simp add: commit_rollback_def svc Let_def)
    ultimately show ?thesis using undo_files[OF _ svc(1) _ d(4) free] rollback_err[OF l1] by metis
  qed
qed

lemma rollback_abort:
  assumes rb: "RollbackSet svc setID actor w l t = (Some e, [], w', l', t')"
    and svc: "rs_FS svc = fs" "rs_Ledger svc = ld" "rs_AllowedRoot svc = base" and base: "rooted base" "plain_name setID"
    and ok: "ok (view l)" and free: "no_files (path_of (stagingDir base setID)) (files w)"
    and quar: "outside_quarantine base (rows (view l) setID)"
  shows "files w' = files w \<and> view l' = view l \<and> t' = t"
proof -
  note d = dirs_of[OF base]
  have b: "base \<noteq> []" "setID \<noteq> []" using base by (auto simp: rooted_def has_prefix_def plain_name_def)
  note rb = rb[unfolded RollbackSet_def svc Let_def if_not_P[OF b(1)] if_not_P[OF b(2)]]
  show ?thesis
  proof (cases "ld_SetForSet ld setID l")
    case (Inl e1)
    then show ?thesis using rb by simp
  next
    case (Inr as)
    obtain ex w1 where ex: "mv_Exists fs (QuarantineDir base setID) w = (ex, w1)" by force
    obtain r w2 where mk: "mv_MkdirAll fs (stagingDir base setID) w1 = (r, w2)" by force
    have f: "files w1 = files w" "files w2 = files w" using exists_files[OF ex] mkdir_files[OF mk] by simp_all
    show ?thesis
    proof (cases "as = [] \<or> ex \<or> r \<noteq> None")
      case True
      then show ?thesis using rb Inr ex mk f by (cases r) (auto split: if_splits bool.splits)
    next
      case False
      obtain err ms w3 where mo: "move_out fs base (stagingDir base setID) as [] w2 = (err, ms, w3)" by (metis prod_cases3)
      have start: "moved_out (quarantine_names base) (path_of base) (path_of (stagingDir base setID)) {} [] (files w) w2"
        by (simp add: moved_out_def f)
      have clear: "\<forall>a \<in> set as. movable a \<longrightarrow> \<not> prefix (quarantine_names base) (path_of (ar_Path a))"
        using quar listed[OF Inr ok] by (simp add: outside_quarantine_def)
      have pq: "prefix (quarantine_names base) (path_of (stagingDir base setID))" by (simp add: d)
      obtain R where R: "moved_out (quarantine_names base) (path_of base) (path_of (stagingDir base setID)) R ms (files w) w3"
        using move_out_result[OF mo start clear base(1) d(4) pq free] by blast
      show ?thesis
      proof (cases err)
        case (Some e1)
        have "undo_rollback svc (stagingDir base setID) ms e1 w3 l t = (Some e, [], w', l', t')"
          using rb Inr ex mk False mo Some by simp
        then show ?thesis using undo_files[OF _ svc(1) _ d(4) free] R by (metis moved_out_def)
      next
        case None
        have "commit_rollback svc setID actor as ms w3 l t = (Some e, [], w', l', t')"
          using rb Inr ex mk False mo None by simp
        then show ?thesis using commit_abort[OF _ svc base R free] by simp
      qed
    qed
  qed
qed

text \<open>A committed rollback: the entries of the set are in the quarantine directory, everything else where it was.\<close>

lemma committed_files:
  assumes out: "\<forall>r \<in> R. clear_of (quarantine_names base) (path_of base) r" and base: "rooted base" "plain_name setID"
    and free: "no_files (path_of (stagingDir base setID)) F"
    and room: "no_files (path_of (QuarantineDir base setID)) (relocated (path_of base) (path_of (stagingDir base setID)) R F)"
  shows "moved (path_of (stagingDir base setID)) (path_of (QuarantineDir base setID))
      (relocated (path_of base) (path_of (stagingDir base setID)) R F)
    = relocated (path_of base) (path_of (QuarantineDir base setID)) R F" (is "?l = ?r")
    and "no_files (path_of (QuarantineDir base setID)) F"
proof -
  define b st fin where "b = path_of base" and "st = path_of (stagingDir base setID)" and "fin = path_of (QuarantineDir base setID)"
  note fold = b_def[symmetric] st_def[symmetric] fin_def[symmetric]
  have len: "length st = length fin" "st \<noteq> fin" and pq: "prefix (quarantine_names base) st" "prefix (quarantine_names base) fin"
    by (simp_all add: st_def fin_def dirs_of[OF base])
  have apart: "\<not> prefix fin (st @ t)" "\<not> prefix st (fin @ t)" for t using len by (auto simp: prefix_def append_eq_append_conv)
  have bst: "\<not> prefix (b @ r) (st @ t)" "\<not> prefix (b @ r) (fin @ t)" "\<not> prefix st (b @ r)" "\<not> prefix fin (b @ r)" if "r \<in> R" for r t
    using out[rule_format, OF that] pq unfolding clear_of_def b_def[symmetric]
    by (metis append_prefixD prefix_append prefix_def prefix_order.trans prefix_same_cases)+
  show finF: "no_files (path_of (QuarantineDir base setID)) F" unfolding fold no_files_def
  proof (intro allI impI)
    fix q assume "prefix fin q"
    then obtain t where t: "q = fin @ t" by (auto simp: prefix_def)
    then have "relocated b st R F q = None" using room by (simp add: no_files_def fold)
    moreover have "\<not> prefix (st @ r) q" "r \<in> R \<Longrightarrow> \<not> prefix (b @ r) q" for r
      using apart bst by (auto simp: t dest: append_prefixD)
    ultimately show "F q = None" by (auto simp: relocated_def split: if_splits)
  qed
  show "?l = ?r" unfolding fold
  proof
    fix q
    consider (fin) t where "q = fin @ t" | (st) t where "q = st @ t" | (else_) "\<not> prefix fin q" "\<not> prefix st q"
      by (auto simp: prefix_def)
    then show "moved st fin (relocated b st R F) q = relocated b fin R F q"
    proof cases
      case fin
      have "F (st @ t) = None" "F (fin @ t) = None" using free finF by (simp_all add: no_files_def fold)
      then show ?thesis using bst by (auto simp: moved_def relocated_def fin)
    next
      case st
      have "\<not> prefix (fin @ r) q" for r using apart by (auto simp: st dest: append_prefixD)
      moreover have "F q = None" using free by (simp add: no_files_def fold st)
      ultimately show ?thesis using bst apart by (auto simp: moved_def relocated_def st)
    next
      case else_
      then have "\<not> prefix (fin @ r) q" "\<not> prefix (st @ r) q" for r by (auto dest: append_prefixD)
      then show ?thesis using else_ by (simp add: moved_def relocated_def)
    qed
  qed
qed

lemma move_back_result:
  assumes "move_back fs base fin as ms w = (None, ms', w')" and "files w = relocated (path_of fin) (path_of base) R F"
    and "\<forall>r \<in> R \<union> rel_names base ` set as. clear_of quar (path_of base) r \<and> no_files (path_of base @ r) F"
    and base: "rooted base" and fin: "rooted fin" and quar: "prefix quar (path_of fin)"
    and "\<forall>a \<in> set as. ar_State a = ArtefactQuarantined"
  shows "files w' = relocated (path_of fin) (path_of base) (R \<union> rel_names base ` set as) F"
  using assms(1-3,7)
proof (induction as arbitrary: R ms w)
  case (Cons a as)
  let ?r = "rel_names base a"
  have inside: "\<not> outside base (ar_Path a)" using Cons.prems(1,4) by (auto split: if_splits)
  obtain w1 where mv: "mv_Move fs (rebased base fin (ar_Path a)) (ar_Path a) w = (None, w1)"
      "move_back fs base fin as ((rebased base fin (ar_Path a), ar_Path a) # ms) w1 = (None, ms', w')"
    using Cons.prems(1,4) inside by (auto split: prod.splits option.splits)
  obtain r where r: "path_of (ar_Path a) = path_of base @ r" "path_of (rebased base fin (ar_Path a)) = path_of fin @ r"
    using rebased_inside[OF base inside fin] by metis
  have rn: "rel_names base a = r" by (simp add: rel_names_def r)
  have "\<forall>r' \<in> insert r R. clear_of quar (path_of base) r'" using Cons.prems(3) rn by auto
  note dis = clear_disjoint(2)[OF this quar]
  have "no_files (path_of base @ r) F" using Cons.prems(3) rn by auto
  then have "files w1 = relocated (path_of fin) (path_of base) (insert r R) F"
    by (rule move_step(1)[OF mv(1) r(2,1) Cons.prems(2) dis])
  then have "files w' = relocated (path_of fin) (path_of base) (insert r R \<union> rel_names base ` set as) F"
    using Cons.IH[OF mv(2)] Cons.prems(3,4) rn by simp
  then show ?case using rn by simp
qed simp

lemma rollback_done:
  assumes rb: "RollbackSet svc setID actor w l t = (None, fl, w', l', t')"
    and svc: "rs_FS svc = fs" "rs_Ledger svc = ld" "rs_AllowedRoot svc = base" and base: "rooted base" "plain_name setID"
    and ok: "ok (view l)" and free: "no_files (path_of (stagingDir base setID)) (files w)"
    and quar: "outside_quarantine base (rows (view l) setID)"
    and R: "R = rel_names base ` {a \<in> rows (view l) setID. movable a}"
  shows "files w' = relocated (path_of base) (path_of (QuarantineDir base setID)) R (files w)"
    and "no_files (path_of (QuarantineDir base setID)) (files w)"
    and "\<forall>r \<in> R. clear_of (quarantine_names base) (path_of base) r"
    and "ok (view l') \<and> (\<exists>ts. \<forall>s. rows (view l') s =
      (if s = setID then quarantined_row ts (QuarantineDir base setID) ` rows (view l) s else rows (view l) s))"
proof -
  note d = dirs_of[OF base]
  have b: "base \<noteq> []" "setID \<noteq> []" using base by (auto simp: rooted_def has_prefix_def plain_name_def)
  note rb = rb[unfolded RollbackSet_def svc Let_def if_not_P[OF b(1)] if_not_P[OF b(2)]]
  obtain as where as: "ld_SetForSet ld setID l = Inr as" using rb by (cases "ld_SetForSet ld setID l") auto
  obtain ex w1 where ex: "mv_Exists fs (QuarantineDir base setID) w = (ex, w1)" by force
  obtain r w2 where mk: "mv_MkdirAll fs (stagingDir base setID) w1 = (r, w2)" by force
  have f: "files w2 = files w" using exists_files[OF ex] mkdir_files[OF mk] by simp
  obtain err ms w3 where mo: "move_out fs base (stagingDir base setID) as [] w2 = (err, ms, w3)" by (metis prod_cases3)
  have ne: "as \<noteq> []" "ex = False" "r = None" "err = None"
    using rb as ex mk mo by (auto simp: undo_rollback_def split: if_splits bool.splits option.splits prod.splits)
  have com: "commit_rollback svc setID actor as ms w3 l t = (None, fl, w', l', t')" using rb as ex mk mo ne by simp
  have start: "moved_out (quarantine_names base) (path_of base) (path_of (stagingDir base setID)) {} [] (files w) w2"
    by (simp add: moved_out_def f)
  have clear: "\<forall>a \<in> set as. movable a \<longrightarrow> \<not> prefix (quarantine_names base) (path_of (ar_Path a))"
    using quar listed[OF as ok] by (simp add: outside_quarantine_def)
  have pq: "prefix (quarantine_names base) (path_of (stagingDir base setID))" by (simp add: d)
  have out: "moved_out (quarantine_names base) (path_of base) (path_of (stagingDir base setID)) R ms (files w) w3"
    using move_out_result[OF mo start clear base(1) d(4) pq free] ne(4) by (simp add: R listed[OF as ok])
  obtain w4 l1 where w4: "mv_Move fs (stagingDir base setID) (QuarantineDir base setID) w3 = (None, w4)"
    "ld_Rollback ld setID (QuarantineDir base setID) actor l = (None, l1)" "w' = w4" "l' = l1"
    using com by (auto simp: commit_rollback_def svc Let_def undo_rollback_def split: prod.splits option.splits)
  note room = commit_room[OF base w4(1) out free]
  have F: "files w3 = relocated (path_of base) (path_of (stagingDir base setID)) R (files w)"
    and cl: "\<forall>r \<in> R. clear_of (quarantine_names base) (path_of base) r" using out unfolding moved_out_def by blast+
  note post = committed_files[OF cl base free room(1)[unfolded F]]
  show "files w' = relocated (path_of base) (path_of (QuarantineDir base setID)) R (files w)"
    using room(2) post(1) by (simp add: F w4(3))
  show "no_files (path_of (QuarantineDir base setID)) (files w)" by (rule post(2))
  show "\<forall>r \<in> R. clear_of (quarantine_names base) (path_of base) r" by (rule cl)
  show "ok (view l') \<and> (\<exists>ts. \<forall>s. rows (view l') s =
      (if s = setID then quarantined_row ts (QuarantineDir base setID) ` rows (view l) s else rows (view l) s))"
    using rollback_rows[OF w4(2) ok] w4(4) by simp
qed

lemma rollback_restore:
  assumes rb: "RollbackSet svc setID actor w l t = (None, fl, w', l', t')"
    and rs: "RestoreSet svc' setID actor' w' l' = (None, fl', w'', l'')"
    and svc: "rs_FS svc = fs" "rs_Ledger svc = ld" "rs_AllowedRoot svc = base"
    and svc': "rs_FS svc' = fs" "rs_Ledger svc' = ld" "rs_AllowedRoot svc' = base"
    and base: "rooted base" "plain_name setID"
    and ok: "ok (view l)" and free: "no_files (path_of (stagingDir base setID)) (files w)"
    and quar: "outside_quarantine base (rows (view l) setID)" and all: "\<forall>a \<in> rows (view l) setID. movable a"
  shows "files w'' = files w \<and> (\<exists>t1 t2. \<forall>s. rows (view l'') s =
    (if s = setID then (\<lambda>a. restored_row t2 (quarantined_row t1 (QuarantineDir base setID) a)) ` rows (view l) s else rows (view l) s))"
proof -
  note d = dirs_of[OF base]
  define R where "R = rel_names base ` rows (view l) setID"
  have "{a \<in> rows (view l) setID. movable a} = rows (view l) setID" using all by blast
  then have Req: "R = rel_names base ` {a \<in> rows (view l) setID. movable a}" by (simp add: R_def)
  note post = rollback_done[OF rb svc base ok free quar Req]
  obtain t1 where ok': "ok (view l')" and t1: "\<forall>s. rows (view l') s =
      (if s = setID then quarantined_row t1 (QuarantineDir base setID) ` rows (view l) s else rows (view l) s)" using post(4) by blast
  have b: "setID \<noteq> []" using base by (auto simp: plain_name_def)
  note rs = rs[unfolded RestoreSet_def svc' Let_def if_not_P[OF b]]
  obtain as where as: "ld_SetForSet ld setID l' = Inr as" using rs by (cases "ld_SetForSet ld setID l'") auto
  have rows': "set as = quarantined_row t1 (QuarantineDir base setID) ` rows (view l) setID" using listed[OF as ok'] t1 by simp
  then have Rs: "rel_names base ` set as = R" by (auto simp: R_def rel_names_def image_image)
  obtain w1 where ex: "mv_Exists fs (QuarantineDir base setID) w' = (True, w1)"
    using rs as by (cases "mv_Exists fs (QuarantineDir base setID) w'") (auto split: bool.splits)
  obtain err ms w2 where mb: "move_back fs base (QuarantineDir base setID) as [] w1 = (err, ms, w2)" by (metis prod_cases3)
  have err: "err = None" using rs as ex mb by (cases err) (auto split: prod.splits)
  obtain r w3 where rm: "mv_RemoveAll fs (QuarantineDir base setID) w2 = (r, w3)" by force
  have l2: "ld_Restore ld setID actor' l' = (None, l'')" and w3: "w'' = w3"
    using rs as ex mb err rm by (auto split: prod.splits option.splits)
  define F1 where "F1 = relocated (path_of base) (path_of (QuarantineDir base setID)) R (files w)"
  have pq: "prefix (quarantine_names base) (path_of (QuarantineDir base setID))" by (simp add: d)
  note dis = clear_disjoint(1)[OF post(3) pq]
  have gone: "no_files (path_of base @ r) F1" if "r \<in> R" for r unfolding no_files_def
  proof (intro allI impI)
    fix q assume q: "prefix (path_of base @ r) q"
    then have "\<not> (\<exists>r' \<in> R. prefix (path_of (QuarantineDir base setID) @ r') q)"
      using disjoint_places_no_common[OF dis that] by blast
    then show "F1 q = None" using q that by (auto simp: F1_def relocated_def)
  qed
  have start: "files w1 = relocated (path_of (QuarantineDir base setID)) (path_of base) {} F1"
    using exists_files[OF ex] post(1) by (simp add: F1_def)
  have "files w2 = relocated (path_of (QuarantineDir base setID)) (path_of base) ({} \<union> rel_names base ` set as) F1"
    by (rule move_back_result[OF mb[unfolded err] start _ base(1) d(2) pq]) (use Rs rows' post(3) gone in auto)
  then have "files w2 = files w" using relocated_back[OF dis post(2)] by (simp add: Rs F1_def)
  moreover have "files w3 = files w2" using remove_nothing[OF _ d(2) rm] calculation post(2) by simp
  moreover obtain t2 where "\<forall>s. rows (view l'') s = (if s = setID then restored_row t2 ` rows (view l') s else rows (view l') s)"
    using restore_rows[OF l2 ok'] by blast
  then have "\<forall>s. rows (view l'') s =
    (if s = setID then (\<lambda>a. restored_row t2 (quarantined_row t1 (QuarantineDir base setID) a)) ` rows (view l) s else rows (view l) s)"
    using t1 by (simp add: image_image)
  ultimately show ?thesis unfolding w3 by auto
qed

end


section \<open>Purging\<close>

lemma purge_dirs_ledger:
  assumes "purge_dirs missing ld fs now ds err w l = (err', w', l')"
    and "\<And>ev l. P l \<Longrightarrow> P (snd (ld_RecordEvent ld ev l))" and "P l"
  shows "P l'"
  using assms(1,3)
proof (induction ds arbitrary: err w l)
  case (Cons x ds)
  obtain s d where x: "x = (s, d)" by force
  show ?case using Cons assms(2) by (auto simp: x split: prod.splits option.splits if_splits)
qed simp

lemma sets_touched_lookup:
  "map_of (sets_touched rows) s = (case filter (\<lambda>a. ar_SetID a = s \<and> ar_QuarantinePath a \<noteq> []) rows of
     [] \<Rightarrow> None | as \<Rightarrow> Some (ar_QuarantinePath (last as)))"
proof (induction rows rule: rev_induct)
  case (snoc a rows)
  then show ?case by (simp add: sets_touched_def split: list.splits)
qed (simp add: sets_touched_def)

lemma sets_touched_in:
  "(s, d) \<in> set (sets_touched rows) \<Longrightarrow> \<exists>a \<in> set rows. ar_SetID a = s \<and> ar_QuarantinePath a = d \<and> d \<noteq> []"
proof (induction rows rule: rev_induct)
  case (snoc a rows)
  have "sets_touched (rows @ [a]) = (if ar_QuarantinePath a \<noteq> [] then AList.update (ar_SetID a) (ar_QuarantinePath a) (sets_touched rows)
      else sets_touched rows)" by (simp add: sets_touched_def)
  then have "(s, d) = (ar_SetID a, ar_QuarantinePath a) \<and> d \<noteq> [] \<or> (s, d) \<in> set (sets_touched rows)"
    using snoc.prems set_update_subset[of "ar_SetID a" "ar_QuarantinePath a" "sets_touched rows"] by (auto split: if_splits)
  then show ?case using snoc.IH by auto
qed (simp add: sets_touched_def)

lemma sets_touched_all:
  assumes "a \<in> set rows" "ar_QuarantinePath a \<noteq> []"
  shows "\<exists>d. (ar_SetID a, d) \<in> set (sets_touched rows)"
proof -
  have "a \<in> set (filter (\<lambda>b. ar_SetID b = ar_SetID a \<and> ar_QuarantinePath b \<noteq> []) rows)" using assms by simp
  then obtain x xs where "filter (\<lambda>b. ar_SetID b = ar_SetID a \<and> ar_QuarantinePath b \<noteq> []) rows = x # xs"
    by (metis empty_iff list.exhaust list.set(1))
  then obtain d where "map_of (sets_touched rows) (ar_SetID a) = Some d" by (simp add: sets_touched_lookup)
  then show ?thesis using map_of_SomeD by metis
qed

end
