(* ===== verification/Memory_Ledger.thy ===== *)
theory Memory_Ledger
  imports Rollback_Facts
begin

text \<open>
  \<open>MemoryArtefactLedger\<close> (\<open>artefacts_memory.go\<close>) behind the ledger port of the services: the state is the number of
  calls made, which gives the clock and the identifiers, and the ledger. It meets \<open>artefact_ledger\<close>.
\<close>

definition MemoryLedger ::
  "artefact_sort \<Rightarrow> (nat \<Rightarrow> string \<Rightarrow> string) \<Rightarrow> (nat \<Rightarrow> int) \<Rightarrow> (nat \<times> ledger) ledger_port" where
  "MemoryLedger srt uuid now = \<lparr>
     ld_SetForSet = (\<lambda>s (n, l). SetForSet srt s l),
     ld_Rollback = (\<lambda>s path actor (n, l). apsnd (Pair (Suc n)) (RollbackRows (uuid n s) (now n) s path actor l)),
     ld_Restore = (\<lambda>s actor (n, l). apsnd (Pair (Suc n)) (RestoreRows (uuid n s) (now n) s actor l)),
     ld_PurgeExpired = (\<lambda>cutoff actor (n, l). case PurgeExpired (uuid n) (now n) cutoff actor l of
        (rows, l1) \<Rightarrow> (Inr rows, (Suc n, l1))),
     ld_RecordEvent = (\<lambda>ev (n, l). (None, (Suc n, RecordEvent (uuid n (av_SetID ev)) (now n) ev l)))\<rparr>"

definition set_rows :: "ledger \<Rightarrow> string \<Rightarrow> artefact set" where
  "set_rows l setID = set (rows_of (list_at setID (lg_bySet l)) l)"

lemma set_rows_lookup:
  "set_rows l setID = {a. \<exists>i \<in> set (list_at setID (lg_bySet l)). map_of (lg_artefacts l) i = Some a}"
  by (simp add: set_rows_def rows_of_set)

lemma set_rows_update:
  assumes ok: "ledger_ok l"
  shows "set_rows (l\<lparr>lg_artefacts := update_rows f (list_at s (lg_bySet l)) (lg_artefacts l), lg_events := evs\<rparr>) s' =
    (if s' = s then f ` set_rows l s' else set_rows l s')"
proof -
  have d: "distinct (list_at s (lg_bySet l))" using ok by (simp add: ledger_ok_def)
  have other: "i \<notin> set (list_at s (lg_bySet l))" if "i \<in> set (list_at s' (lg_bySet l))" "s' \<noteq> s" for i
    using ok that unfolding ledger_ok_def by (metis option.inject)
  show ?thesis
  proof (cases "s' = s")
    case True
    then show ?thesis by (auto simp: set_rows_lookup update_rows_lookup[OF d])
  next
    case False
    then have "(\<exists>i \<in> set (list_at s' (lg_bySet l)). (if i \<in> set (list_at s (lg_bySet l)) then map_option f (map_of (lg_artefacts l) i)
        else map_of (lg_artefacts l) i) = Some a) = (\<exists>i \<in> set (list_at s' (lg_bySet l)). map_of (lg_artefacts l) i = Some a)" for a
      using other by auto
    then show ?thesis using False by (simp add: set_rows_lookup update_rows_lookup[OF d])
  qed
qed

lemma RollbackRows_effect:
  assumes "RollbackRows uuid ts s path actor l = (None, l')" "ledger_ok l"
  shows "ledger_ok l' \<and> (\<forall>s'. set_rows l' s' = (if s' = s then quarantined_row ts path ` set_rows l s' else set_rows l s'))"
  using RollbackRows_ok[OF assms(2,1)] assms set_rows_update[OF assms(2)]
  by (auto simp: RollbackRows_def Let_def split: if_splits)

lemma RestoreRows_effect:
  assumes "RestoreRows uuid ts s actor l = (None, l')" "ledger_ok l"
  shows "ledger_ok l' \<and> (\<forall>s'. set_rows l' s' = (if s' = s then restored_row ts ` set_rows l s' else set_rows l s'))"
  using RestoreRows_ok[OF assms(2,1)] assms set_rows_update[OF assms(2)]
  by (auto simp: RestoreRows_def Let_def split: if_splits)

interpretation ml: artefact_ledger "MemoryLedger srt uuid now" snd set_rows "\<lambda>l. slice_sort srt \<and> ledger_ok l"
proof
  fix s p who :: string and as e and l l' :: "nat \<times> ledger"
  show "set as = set_rows (snd l) s"
    if "ld_SetForSet (MemoryLedger srt uuid now) s l = Inr as" "slice_sort srt \<and> ledger_ok (snd l)"
    using that by (auto simp: MemoryLedger_def SetForSet_def set_rows_def Let_def split: prod.splits if_splits)
  show "snd l' = snd l" if "ld_Rollback (MemoryLedger srt uuid now) s p who l = (Some e, l')"
    using that by (auto simp: MemoryLedger_def apsnd_def map_prod_def dest: RollbackRows_fails split: prod.splits)
  show "(slice_sort srt \<and> ledger_ok (snd l')) \<and> (\<exists>ts. \<forall>s'. set_rows (snd l') s' =
      (if s' = s then quarantined_row ts p ` set_rows (snd l) s' else set_rows (snd l) s'))"
    if "ld_Rollback (MemoryLedger srt uuid now) s p who l = (None, l')" "slice_sort srt \<and> ledger_ok (snd l)"
  proof -
    obtain n l0 where l: "l = (n, l0)" by force
    then have "RollbackRows (uuid n s) (now n) s p who l0 = (None, snd l')"
      using that(1) by (auto simp: MemoryLedger_def apsnd_def map_prod_def split: prod.splits)
    then show ?thesis using RollbackRows_effect[of "uuid n s" "now n" s p who l0 "snd l'"] that(2) l by auto
  qed
  show "(slice_sort srt \<and> ledger_ok (snd l')) \<and> (\<exists>ts. \<forall>s'. set_rows (snd l') s' =
      (if s' = s then restored_row ts ` set_rows (snd l) s' else set_rows (snd l) s'))"
    if "ld_Restore (MemoryLedger srt uuid now) s who l = (None, l')" "slice_sort srt \<and> ledger_ok (snd l)"
  proof -
    obtain n l0 where l: "l = (n, l0)" by force
    then have "RestoreRows (uuid n s) (now n) s who l0 = (None, snd l')"
      using that(1) by (auto simp: MemoryLedger_def apsnd_def map_prod_def split: prod.splits)
    then show ?thesis using RestoreRows_effect[of "uuid n s" "now n" s who l0 "snd l'"] that(2) l by auto
  qed
qed

end
