(* ===== verification/Tool_Deprecator.thy ===== *)
theory Tool_Deprecator
  imports Rollback Tool_Registry
begin

text \<open>
  The deprecator of the server (\<open>toolRegistryDeprecator\<close> of \<open>cmd/server/main.go\<close>): the tool registry, with its
  repository, behind the port the rollback service calls. The clock of a call is a pair of parameters.
\<close>

definition any_tool :: tool_filter where
  "any_tool = \<lparr>tq_Origin = [], tq_Namespace = [], tq_Deprecated = None\<rparr>"

definition tool_with_binary :: "address_sort \<Rightarrow> string \<Rightarrow> ('x, 'r) tool_registry \<Rightarrow> nat option" where
  "tool_with_binary srt path r = find (\<lambda>a. et_BinaryPath (rg_heap r ! a) = path) (ListFiltered srt any_tool r)"

definition toolRegistryDeprecator ::
  "address_sort \<Rightarrow> int \<Rightarrow> int \<Rightarrow> ('r \<times> ('x, 'r) tool_registry) deprecator" where
  "toolRegistryDeprecator srt now1 now2 = \<lparr>
     dp_Deprecate = (\<lambda>qn reason (s, r). case DeprecateTool now1 now2 qn reason s r of
        (err, s1, r1) \<Rightarrow> (map_option registry_err err, (s1, r1))),
     dp_LookupByBinaryPath = (\<lambda>path (s, r).
        ((if path = [] then ([], False)
          else case tool_with_binary srt path r of None \<Rightarrow> ([], False) | Some a \<Rightarrow> (QualifiedName (rg_heap r ! a), True)),
         (s, r)))\<rparr>"

end
