(* ===== verification/Rollback_Properties.thy ===== *)
theory Rollback_Properties
  imports Disk Memory_Ledger Tool_Deprecator Tool_Properties
begin

text \<open>
  Rollback, restore and purge on the disk and the in-memory ledger: the interpretation of \<open>rollback_stack\<close> on
  \<open>OSFSMover\<close> and \<open>MemoryLedger\<close>, and the properties of the services.
\<close>

interpretation svc: rollback_stack OSFSMover disk_files "MemoryLedger srt uuid now" snd set_rows
    "\<lambda>l. slice_sort srt \<and> ledger_ok l"
  by unfold_locales

text \<open>The service that runs in the server, as \<open>NewRollbackService\<close> builds it.\<close>

definition os_service ::
  "artefact_sort \<Rightarrow> (nat \<Rightarrow> string \<Rightarrow> string) \<Rightarrow> (nat \<Rightarrow> int) \<Rightarrow> string \<Rightarrow> 't deprecator option \<Rightarrow>
   (disk, nat \<times> ledger, 't) rollback_service" where
  "os_service srt uuid now base tools =
     \<lparr>rs_Ledger = MemoryLedger srt uuid now, rs_FS = OSFSMover, rs_AllowedRoot = base,
       rs_Tools = Some (case tools of None \<Rightarrow> NoopToolDeprecator | Some d \<Rightarrow> d)\<rparr>"

lemma os_service_simps [simp]:
  "rs_Ledger (os_service srt uuid now base tools) = MemoryLedger srt uuid now"
  "rs_FS (os_service srt uuid now base tools) = OSFSMover" "rs_AllowedRoot (os_service srt uuid now base tools) = base"
  "rs_Tools (os_service srt uuid now base tools) = Some (case tools of None \<Rightarrow> NoopToolDeprecator | Some d \<Rightarrow> d)"
  by (simp_all add: os_service_def)

text \<open>
  C38: A rollback is all or nothing for every script of disk faults: when it reports an error and no reversing
  move was logged as failed, every regular file is where it was with the content it had, the ledger is unchanged and
  no tool has been deprecated. The set has a plain name, nothing is left in its staging directory from before, and
  none of its artefacts lies in the quarantine.
\<close>
theorem rollback_atomic:
  assumes "RollbackSet (os_service srt uuid now base tools) setID actor w (n, l) t = (Some e, [], w', (n', l'), t')"
    and "rooted base" and "plain_name setID" and "slice_sort srt" and "ledger_ok l"
    and "no_files (path_of (stagingDir base setID)) (disk_files w)"
    and "outside_quarantine base (set_rows l setID)"
  shows "disk_files w' = disk_files w \<and> l' = l \<and> t' = t"
  using svc.rollback_abort[OF assms(1) os_service_simps(2,1,3) assms(2,3)] assms(4-) by simp

lemma restored_again:
  "restored_row t2 (quarantined_row t1 p a) =
     a\<lparr>ar_State := ArtefactRestored, ar_QuarantinedAt := Some t1, ar_RestoredAt := Some t2, ar_QuarantinePath := p\<rparr>"
  by (simp add: restored_row_def quarantined_row_def)

text \<open>
  C39: A restore that succeeds after a rollback that succeeded is its inverse: every regular file is where it was
  with the content it had, every row of the set is the row it was except for its state, now restored, its two time
  stamps and its quarantine path, and the rows of every other set are untouched. Besides what
  the rollback needs, all rows of the set are active or restored.
\<close>
theorem rollback_restore_roundtrip:
  assumes "RollbackSet (os_service srt uuid now base tools) setID actor w (n, l) t = (None, fl, w1, (n1, l1), t1)"
    and "RestoreSet (os_service srt uuid now base tools) setID actor2 w1 (n1, l1) = (None, fl2, w2, (n2, l2))"
    and "rooted base" and "plain_name setID" and "slice_sort srt" and "ledger_ok l"
    and "no_files (path_of (stagingDir base setID)) (disk_files w)"
    and "outside_quarantine base (set_rows l setID)" and "\<forall>a \<in> set_rows l setID. movable a"
  shows "disk_files w2 = disk_files w \<and> (\<exists>t1 t2. \<forall>s. set_rows l2 s =
    (if s = setID
     then (\<lambda>a. a\<lparr>ar_State := ArtefactRestored, ar_QuarantinedAt := Some t1, ar_RestoredAt := Some t2,
            ar_QuarantinePath := QuarantineDir base setID\<rparr>) ` set_rows l s
     else set_rows l s))"
  unfolding restored_again[symmetric] using svc.rollback_restore[OF assms(1,2) os_service_simps(2,1,3) os_service_simps(2,1,3) assms(3,4), unfolded snd_conv]
    assms(5-) by blast


lemma MemoryLedger_purge:
  "ld_PurgeExpired (MemoryLedger srt uuid now) limit actor (n, l) =
    (Inr (fst (PurgeExpired (uuid n) (now n) limit actor l)), (Suc n, snd (PurgeExpired (uuid n) (now n) limit actor l)))"
  by (simp add: MemoryLedger_def split: prod.split)

lemma PurgeExpired_rows: "set (fst (PurgeExpired uuid ts limit actor l)) =
    purged_row ts ` {a \<in> snd ` set (lg_artefacts l). expired limit a}"
  "length (fst (PurgeExpired uuid ts limit actor l)) = length (filter (\<lambda>(k, a). expired limit a) (lg_artefacts l))"
proof -
  have f: "filter (\<lambda>(k, a). expired limit a) m = filter (expired limit \<circ> snd) m" for m :: "artefact gomap"
    by (rule filter_cong) auto
  show "set (fst (PurgeExpired uuid ts limit actor l)) = purged_row ts ` {a \<in> snd ` set (lg_artefacts l). expired limit a}"
    by (force simp: PurgeExpired_def Let_def)
  show "length (fst (PurgeExpired uuid ts limit actor l)) = length (filter (\<lambda>(k, a). expired limit a) (lg_artefacts l))"
    by (simp add: PurgeExpired_def Let_def f)
qed

lemma purge_dirs_rows:
  assumes "purge_dirs missing (MemoryLedger srt uuid now) fs ts ds err w l = (err', w', l')"
  shows "lg_artefacts (snd l') = lg_artefacts (snd l)"
  by (rule purge_dirs_ledger[OF assms, where P = "\<lambda>l'. lg_artefacts (snd l') = lg_artefacts (snd l)"])
    (auto simp: MemoryLedger_def)

text \<open>
  C40: A purge turns exactly the rows that were quarantined before the cutoff into purged rows, and removes a
  regular file only if it is in the quarantine directory of a set with such a row. When it reports no error, those
  directories hold no file. The quarantined rows carry the directory a rollback gives them.
\<close>
theorem purge_effect:
  assumes "PurgeRun IsNotExist (MemoryLedger srt uuid now) OSFSMover grace ts at_set cutoff w (n, l) = ((k, err), w', (n', l'))"
    and "rooted base"
    and "\<forall>a \<in> snd ` set (lg_artefacts l). ar_State a = ArtefactQuarantined \<longrightarrow>
      plain_name (ar_SetID a) \<and> ar_QuarantinePath a = QuarantineDir base (ar_SetID a)"
    and "limit = (if cutoff = 0 then ts + wrap64 (- grace * day_ns) else cutoff)"
    and "due = (\<lambda>a. ar_State a = ArtefactQuarantined \<and> (\<exists>t. ar_QuarantinedAt a = Some t \<and> t < limit))"
    and "gone = {a \<in> snd ` set (lg_artefacts l). due a}"
  shows "lg_artefacts l' = map (\<lambda>(i, a). (i, if due a then a\<lparr>ar_State := ArtefactPurged, ar_PurgedAt := Some (now n)\<rparr> else a))
      (lg_artefacts l) \<and>
    k = int (length (filter (\<lambda>(i, a). due a) (lg_artefacts l))) \<and>
    (\<forall>q. disk_files w' q \<noteq> disk_files w q \<longrightarrow>
      disk_files w' q = None \<and> (\<exists>a \<in> gone. prefix (path_of (QuarantineDir base (ar_SetID a))) q)) \<and>
    (err = None \<longrightarrow> (\<forall>a \<in> gone. no_files (path_of (QuarantineDir base (ar_SetID a))) (disk_files w')))"
proof -
  have due: "due = expired limit" by (rule ext) (auto simp: assms(5) expired_def split: option.split)
  have gone: "gone = {a \<in> snd ` set (lg_artefacts l). expired limit a}" by (simp add: assms(6) due)
  have lim: "purge_cutoff grace ts cutoff = limit" by (simp add: assms(4) purge_cutoff_def)
  let ?p = "PurgeExpired (uuid n) (now n) limit ''purge-service'' l"
  let ?ds = "sets_touched (fst ?p)"
  have run: "purge_dirs IsNotExist (MemoryLedger srt uuid now) OSFSMover at_set ?ds None w (Suc n, snd ?p) = (err, w', (n', l'))"
    and k: "k = int (length (fst ?p))"
    using assms(1) by (auto simp: PurgeRun_def MemoryLedger_purge lim split: prod.splits)
  have q: "ar_QuarantinePath a = QuarantineDir base (ar_SetID a)" "plain_name (ar_SetID a)"
    "rooted (QuarantineDir base (ar_SetID a))" "ar_QuarantinePath a \<noteq> []" if "a \<in> gone" for a
  proof -
    have a: "ar_State a = ArtefactQuarantined" "a \<in> snd ` set (lg_artefacts l)" using that gone by (auto simp: expired_def)
    then show 1: "ar_QuarantinePath a = QuarantineDir base (ar_SetID a)" "plain_name (ar_SetID a)" using assms(3) by blast+
    then show "rooted (QuarantineDir base (ar_SetID a))" using dirs_of[OF assms(2)] by blast
    then show "ar_QuarantinePath a \<noteq> []" unfolding 1 by (auto simp: rooted_def has_prefix_def)
  qed
  have purged: "ar_SetID (purged_row t a) = ar_SetID a" "ar_QuarantinePath (purged_row t a) = ar_QuarantinePath a" for t a
    by (simp_all add: purged_row_def)
  have rows: "set (fst ?p) = purged_row (now n) ` gone" by (simp add: PurgeExpired_rows gone)
  have dirs: "\<exists>a \<in> gone. s = ar_SetID a \<and> d = QuarantineDir base s" if "(s, d) \<in> set ?ds" for s d
    using sets_touched_in[OF that] q(1) by (auto simp: rows purged)
  have covered: "(ar_SetID a, QuarantineDir base (ar_SetID a)) \<in> set ?ds" if a: "a \<in> gone" for a
  proof -
    have "purged_row (now n) a \<in> set (fst ?p)" using a rows by blast
    then obtain d where "(ar_SetID a, d) \<in> set ?ds"
      using sets_touched_all[of "purged_row (now n) a" "fst ?p"] q(4)[OF a] purged by auto
    then show ?thesis using dirs by metis
  qed
  have rooted_ds: "\<forall>(s, d) \<in> set ?ds. rooted d" using dirs q(3) by fastforce
  have files: "(disk_files w' q = None \<or> disk_files w' q = disk_files w q) \<and>
      ((\<forall>(s, d) \<in> set ?ds. \<not> prefix (path_of d) q) \<longrightarrow> disk_files w' q = disk_files w q) \<and>
      (err = None \<longrightarrow> (None :: gerr option) = None \<and> (\<forall>(s, d) \<in> set ?ds. prefix (path_of d) q \<longrightarrow> disk_files w' q = None))" for q
    by (rule os.purge_dirs_files[OF run rooted_ds]) (rule RemoveAll_not_missing)
  have "lg_artefacts l' = lg_artefacts (snd ?p)" using purge_dirs_rows[OF run] by simp
  then have "lg_artefacts l' = map (\<lambda>(i, a). (i, if due a then a\<lparr>ar_State := ArtefactPurged, ar_PurgedAt := Some (now n)\<rparr> else a))
      (lg_artefacts l)"
    by (auto simp: PurgeExpired_def Let_def due purged_row_def)
  moreover have "k = int (length (filter (\<lambda>(i, a). due a) (lg_artefacts l)))" by (simp add: k PurgeExpired_rows due)
  moreover have "disk_files w' q = None \<and> (\<exists>a \<in> gone. prefix (path_of (QuarantineDir base (ar_SetID a))) q)"
    if "disk_files w' q \<noteq> disk_files w q" for q
    using files[of q] that dirs by fastforce
  moreover have "no_files (path_of (QuarantineDir base (ar_SetID a))) (disk_files w')" if "err = None" "a \<in> gone" for a
    using files that covered[OF that(2)] by (fastforce simp: no_files_def)
  ultimately show ?thesis by blast
qed

section \<open>Samples\<close>

lemma no_files_disk: "list_all (\<lambda>(q, n). \<not> prefix p q \<or> n = DirNode) (dk_tree d) \<Longrightarrow> no_files p (disk_files d)"
  by (auto simp: no_files_def disk_files_def list_all_iff dest!: map_of_SomeD split: option.splits node.splits)

lemma set_rows_all: "list_all P (rows_of (list_at s (lg_bySet l)) l) \<Longrightarrow> \<forall>a \<in> set_rows l s. P a"
  by (simp add: set_rows_def list_all_iff)

definition sample_intent :: "artefact_class \<Rightarrow> write_intent" where
  "sample_intent c = \<lparr>wi_ForgeRunID = [], wi_SetID = ''s1'', wi_HostID = ''h'', wi_FlowHash = [], wi_AuthoringCPNID = [],
     wi_TransitionID = [], wi_SessionID = [], wi_Classification = Some c, wi_Actor = ''agent''\<rparr>"

text \<open>Two written files of one set.\<close>

definition sample_ledger :: ledger where
  "sample_ledger =
     (let l1 = snd (PreWrite ''a1'' 1 (sample_intent ClassBinary) ''/b/x'' 493 NewMemoryArtefactLedger);
          l2 = snd (PostWrite ''a1'' [] 1 [] l1);
          l3 = snd (PreWrite ''a2'' 2 (sample_intent ClassSource) ''/b/d/y'' 420 l2)
      in snd (PostWrite ''a2'' [] 1 [] l3))"

definition sample_disk :: "nat option list \<Rightarrow> disk" where
  "sample_disk faults = \<lparr>dk_tree = [([''b''], DirNode), ([''b'', ''x''], FileNode ''1''), ([''b'', ''d''], DirNode),
     ([''b'', ''d'', ''y''], FileNode ''2'')], dk_faults = faults\<rparr>"

definition sample_service :: "'t deprecator option \<Rightarrow> (disk, nat \<times> ledger, 't) rollback_service" where
  "sample_service = os_service insertion_sort (\<lambda>n s. s) int ''/b''"

lemma sample_ok:
  "rooted ''/b''" "plain_name ''s1''" "ledger_ok sample_ledger"
  "no_files (path_of (stagingDir ''/b'' ''s1'')) (disk_files (sample_disk faults))"
  "outside_quarantine ''/b'' (set_rows sample_ledger ''s1'')" "\<forall>a \<in> set_rows sample_ledger ''s1''. movable a"
proof -
  show "rooted ''/b''" "plain_name ''s1''" by (simp_all add: rooted_def has_prefix_def plain_name_def)
  have f: "map_of (lg_artefacts NewMemoryArtefactLedger) ''a1'' = None"
    "map_of (lg_artefacts (snd (PostWrite ''a1'' [] 1 [] (snd (PreWrite ''a1'' 1 (sample_intent ClassBinary) ''/b/x'' 493
      NewMemoryArtefactLedger))))) ''a2'' = None" by code_simp+
  show "ledger_ok sample_ledger"
    unfolding sample_ledger_def Let_def by (intro PostWrite_ok PreWrite_ok ledger_ok_New f)
  have d: "path_of (stagingDir ''/b'' ''s1'') = [''b'', ''quarantine'', ''.staging-s1'']" by code_simp
  show "no_files (path_of (stagingDir ''/b'' ''s1'')) (disk_files (sample_disk faults))"
    by (rule no_files_disk) (simp add: d sample_disk_def)
  have "list_all (\<lambda>a. \<not> prefix (quarantine_names ''/b'') (path_of (ar_Path a)) \<and> movable a)
    (rows_of (list_at ''s1'' (lg_bySet sample_ledger)) sample_ledger)" by code_simp
  from set_rows_all[OF this] show "outside_quarantine ''/b'' (set_rows sample_ledger ''s1'')"
    "\<forall>a \<in> set_rows sample_ledger ''s1''. movable a" by (simp_all add: outside_quarantine_def)
qed

text \<open>The second file cannot be moved.\<close>

definition failed_rollback :: "(disk, nat \<times> ledger, unit) rollback_result" where
  "failed_rollback = RollbackSet (sample_service None) ''s1'' ''op''
     (sample_disk [None, None, None, None, None, Some 0]) (5, sample_ledger) ()"

theorem rollback_atomic_witness:
  "case failed_rollback of (err, fl, w, (n, l), t) \<Rightarrow>
     err \<noteq> None \<and> fl = [] \<and> disk_files w = disk_files (sample_disk []) \<and> l = sample_ledger"
proof -
  obtain err fl w nl t where "failed_rollback = (err, fl, w, nl, t)" by (rule prod_cases5)
  then obtain n l where r: "failed_rollback = (err, fl, w, (n, l), t)" by (cases nl) simp
  have "case failed_rollback of (err, fl, _) \<Rightarrow> err \<noteq> None \<and> fl = []" by code_simp
  then obtain e where e: "err = Some e" "fl = []" by (auto simp: r)
  have "disk_files w = disk_files (sample_disk [None, None, None, None, None, Some 0]) \<and> l = sample_ledger \<and> t = ()"
    by (rule rollback_atomic[OF r[unfolded e failed_rollback_def sample_service_def] sample_ok(1,2) insertion_slice_sort sample_ok(3-5)])
  then show ?thesis by (simp add: r e disk_files_def sample_disk_def fun_eq_iff)
qed

definition done_rollback :: "(disk, nat \<times> ledger, unit) rollback_result" where
  "done_rollback = RollbackSet (sample_service None) ''s1'' ''op'' (sample_disk []) (5, sample_ledger) ()"

definition done_restore :: "gerr option \<times> (string \<times> string) list \<times> disk \<times> nat \<times> ledger" where
  "done_restore = (case done_rollback of (_, _, w, l, _) \<Rightarrow> RestoreSet (sample_service (None :: unit deprecator option)) ''s1'' ''op'' w l)"

theorem rollback_restore_roundtrip_witness:
  "fst done_rollback = None \<and> fst done_restore = None \<and>
   (case done_rollback of (_, _, w, _) \<Rightarrow> disk_files w [''b'', ''x''] = None) \<and>
   (case done_restore of (_, _, w, _) \<Rightarrow> disk_files w = disk_files (sample_disk []))"
proof (intro conjI)
  show ok: "fst done_rollback = None" "fst done_restore = None" by code_simp+
  show "case done_rollback of (_, _, w, _) \<Rightarrow> disk_files w [''b'', ''x''] = None" by code_simp
  obtain err fl w1 nl t1 where r: "done_rollback = (err, fl, w1, nl, t1)" by (rule prod_cases5)
  obtain n1 l1 where "nl = (n1, l1)" by force
  then have r1: "done_rollback = (None, fl, w1, (n1, l1), t1)" using ok(1) by (simp add: r)
  obtain err2 fl2 w2 n2 l2 where q: "done_restore = (err2, fl2, w2, n2, l2)" by (rule prod_cases5)
  then have r2: "done_restore = (None, fl2, w2, (n2, l2))" using ok(2) unfolding q by simp
  have "RestoreSet (sample_service (None :: unit deprecator option)) ''s1'' ''op'' w1 (n1, l1) = (None, fl2, w2, (n2, l2))"
    using r2 by (simp add: done_restore_def r1)
  then show "case done_restore of (_, _, w, _) \<Rightarrow> disk_files w = disk_files (sample_disk [])"
    using rollback_restore_roundtrip[OF r1[unfolded done_rollback_def sample_service_def] _ sample_ok(1,2) insertion_slice_sort sample_ok(3-6)]
    by (simp add: r2 sample_service_def)
qed

text \<open>The rolled-back set after the grace window.\<close>

definition quarantined_state :: "disk \<times> nat \<times> ledger" where
  "quarantined_state = (case done_rollback of (_, _, w, l, _) \<Rightarrow> (w, l))"

definition done_purge :: "(int \<times> gerr option) \<times> disk \<times> nat \<times> ledger" where
  "done_purge = (case quarantined_state of (w, l) \<Rightarrow>
     PurgeRun IsNotExist (MemoryLedger insertion_sort (\<lambda>n s. s) int) OSFSMover 7 (8 * day_ns) (\<lambda>s. 8 * day_ns) 0 w l)"

theorem purge_effect_witness:
  "fst done_purge = (2, None) \<and> map (ar_State \<circ> snd) (lg_artefacts (snd (snd (snd done_purge)))) = [ArtefactPurged, ArtefactPurged] \<and>
   no_files (path_of (QuarantineDir ''/b'' ''s1'')) (disk_files (fst (snd done_purge)))"
proof -
  obtain w n l where st: "quarantined_state = (w, n, l)" by (rule prod_cases3)
  obtain k err w' n' l' where d: "done_purge = ((k, err), w', n', l')" by (metis prod.exhaust)
  have run: "PurgeRun IsNotExist (MemoryLedger insertion_sort (\<lambda>n s. s) int) OSFSMover 7 (8 * day_ns) (\<lambda>s. 8 * day_ns) 0 w (n, l) =
      ((k, err), w', (n', l'))" using d by (simp add: done_purge_def st)
  have ok: "fst done_purge = (2, None)" by code_simp
  have states: "map (ar_State \<circ> snd) (lg_artefacts (snd (snd (snd done_purge)))) = [ArtefactPurged, ArtefactPurged]" by code_simp
  have "list_all (\<lambda>(i, a). plain_name (ar_SetID a) \<and> ar_SetID a = ''s1'' \<and> ar_QuarantinePath a = QuarantineDir ''/b'' (ar_SetID a) \<and>
      expired (purge_cutoff 7 (8 * day_ns) 0) a) (lg_artefacts (snd (snd quarantined_state)))" by code_simp
  then have rows: "\<forall>a \<in> snd ` set (lg_artefacts l). plain_name (ar_SetID a) \<and> ar_SetID a = ''s1'' \<and>
      ar_QuarantinePath a = QuarantineDir ''/b'' (ar_SetID a) \<and> expired (purge_cutoff 7 (8 * day_ns) 0) a"
    by (auto simp: st list_all_iff)
  have "lg_artefacts (snd (snd quarantined_state)) \<noteq> []" by code_simp
  then obtain i a where a: "(i, a) \<in> set (lg_artefacts l)" by (cases "lg_artefacts l") (auto simp: st)
  let ?due = "\<lambda>a. ar_State a = ArtefactQuarantined \<and> (\<exists>t. ar_QuarantinedAt a = Some t \<and>
    t < (if (0 :: int) = 0 then 8 * day_ns + wrap64 (- 7 * day_ns) else 0))"
  have due: "?due a" if "a \<in> snd ` set (lg_artefacts l)" for a
    using rows that by (auto simp: expired_def purge_cutoff_def split: option.splits)
  from purge_effect[OF run sample_ok(1) _ refl refl refl] rows have
    "err = None \<longrightarrow> (\<forall>a \<in> {a \<in> snd ` set (lg_artefacts l). ?due a}.
      no_files (path_of (QuarantineDir ''/b'' (ar_SetID a))) (disk_files w'))" by blast
  note gone = mp[OF this]
  have "err = None" using ok unfolding d by simp
  moreover have m: "a \<in> snd ` set (lg_artefacts l)" using a by force
  ultimately have "no_files (path_of (QuarantineDir ''/b'' (ar_SetID a))) (disk_files w')"
    by (intro bspec[OF gone]) (use m due in blast)+
  moreover have "ar_SetID a = ''s1''" using rows m by blast
  ultimately have "no_files (path_of (QuarantineDir ''/b'' ''s1'')) (disk_files w')" by (simp only:)
  then show ?thesis using ok states unfolding d by simp
qed

end
