(* ===== verification/Spec2Isabelle.thy ===== *)
theory Spec2Isabelle
  imports Engine_Properties Firing_Properties Host_Properties Approval_Properties Llm_Properties Synthesis_Properties Tool_Properties Rollback_Properties
begin

text \<open>
  A model of the core of the assistant's Go back end, \<open>src/back/go-assistant\<close>, and the theorems that
  make it correct.

  \<^bold>\<open>The program.\<close> An agent is a coloured Petri net (\<open>cpn/\<close>). Places hold tokens of one colour in one
  space (surface, observation, computation); transitions are tools, LLM calls, validations, sub-nets,
  human-in-the-loop steps, shell commands, mutations of the net and observers. \<open>CPN.Run\<close> validates the
  net and then iterates: drain the observers, select the enabled transitions in the order of their
  IDs, consume one token per input place, fire the batch concurrently under retry and circuit
  breakers, route the errors, re-evaluate the mode. Shell commands pass the policy gate
  (\<open>infra/host/gate/\<close>): patterns classify the command into a risk band, and the band, the session's
  budget, the sandbox and the ledger of known binaries decide whether it is allowed, denied or put
  to the user. Process events pass a rate limiter (\<open>infra/host/rate_limiter.go\<close>).
  A net can also write nets: a synthesis step asks a model for a topology, lints it against a sealed
  registry of functions and stores its canonical text (\<open>cpn/synthesis/\<close>, \<open>cpn/persist/\<close>); an
  instantiation step asks the user, materialises a stored flow and runs it as a child. The files an agent writes
  are recorded in a ledger, and a set of them can be moved into a quarantine, restored or purged (\<open>cpn/persist/\<close>).

  \<^bold>\<open>Theories.\<close>
  \<^item> \<open>Prelude\<close>: maps as association lists, 64-bit wrap-around, the parts of \<open>strings\<close> and \<open>fmt\<close> used;
    the collections \<open>netsimp\<close>, \<open>frame\<close>, \<open>wt_intros\<close>. \<open>Utf8\<close>: the runes of a byte string.
  \<^item> \<open>Host_Types\<close> (\<open>cpn/host.go\<close>, \<open>gate/types.go\<close>), \<open>Go_Errors\<close> (\<open>cpn/errors.go\<close> and the error values),
    \<open>Tokens\<close> (\<open>colors.go\<close>, \<open>kinds.go\<close>, \<open>token.go\<close>, \<open>session.go\<close>, \<open>display_label.go\<close>): the data.
  \<^item> \<open>Places\<close> (\<open>place.go\<close>): \<open>Deposit\<close>, \<open>Consume\<close>, \<open>Peek\<close>; the locale \<open>guarded_fifo\<close>, a queue with an
    admission test, interpreted on places.
  \<^item> \<open>Retry\<close> (\<open>retry.go\<close>): circuit breaker, backoff, retry loop.
  \<^item> \<open>Nets\<close> (\<open>cpn.go\<close>, \<open>transition.go\<close>, \<open>event.go\<close>): transitions, nets, events, modes, completion.
    \<open>Validation\<close> (\<open>validate.go\<close>) against a declarative well-formedness; \<open>Mutation\<close> (\<open>cpn_mutate.go\<close>).
  \<^item> \<open>Firing\<close>: the environment record, the deposit loop, the contract of a firing (locale
    \<open>sound_firer\<close>: a firing only adds admitted tokens), tool and mutation firings. \<open>Hitl\<close> (\<open>hitl.go\<close>),
    \<open>Fire_Validate\<close> (\<open>fire_validate.go\<close>), \<open>Bash\<close> (\<open>fire_bash.go\<close>): each an interpretation of it.
  \<^item> \<open>Observers\<close> (\<open>observer.go\<close>), \<open>Executor\<close> (\<open>executor.go\<close>): \<open>run_iter\<close> is one iteration of \<open>Run\<close>.
    \<open>Executor_Facts\<close>: typing through a run; \<open>Batch\<close>: the selection of a batch; \<open>Failures\<close>: a failed net
    carries its error (locale \<open>recording_firer\<close>, an extension of \<open>sound_firer\<close>); \<open>Run_Termination\<close>: a
    bound on the iterations.
  \<^item> \<open>Matcher\<close> (\<open>matcher.go\<close>, \<open>cpn/awakens/introspection.go\<close>), \<open>Policy\<close> (\<open>policy.go\<close>),
    \<open>Session_State\<close> (\<open>awakening_mode.go\<close>, \<open>budget.go\<close>; the locales \<open>session_registry\<close> and
    \<open>session_meter\<close>), \<open>Gate\<close> (\<open>policy_gate.go\<close>), \<open>Gate_Hitl\<close> (\<open>hitl.go\<close>, \<open>session_router.go\<close> of the
    gate). \<open>Float64\<close>: the rounding of binary64; \<open>Rate_Limiter\<close> (\<open>rate_limiter.go\<close>) computes with it.
  \<^item> \<open>Memory\<close> (\<open>memory.go\<close>), \<open>Regional\<close> (\<open>prompts/regional.go\<close>), \<open>Shell_Parse\<close> (\<open>shell_parse.go\<close>),
    \<open>Fire_Llm\<close> (\<open>fire_llm.go\<close>): the LLM firing, another interpretation of \<open>sound_firer\<close>. \<open>Llm_Protocol\<close>
    states what a conversation may do to the world as a trace specification (\<open>act_run\<close> with the
    automaton \<open>llm_protocol\<close>) and shows function by function that the firing refines it.
  \<^item> \<open>Synthesis_Types\<close> (\<open>tool_registry_port.go\<close>, \<open>synthesis_config.go\<close>, \<open>synthesis_ports.go\<close>): the data of
    agent-authored tools and flows. \<open>Fire_Registry\<close> (\<open>fire_register_tool.go\<close>, \<open>fire_synthesize.go\<close>),
    \<open>Subnets\<close> (\<open>subnet.go\<close>, \<open>group_agent.go\<close>), \<open>Fire_Instantiate\<close> (\<open>fire_instantiate.go\<close>): the remaining
    firings, each an interpretation of \<open>sound_firer\<close>.
  \<^item> \<open>Topology\<close> (\<open>persist/topology.go\<close>, \<open>persist/registry.go\<close>): the stored form of a net; \<open>stored\<close> says
    what a round trip keeps. \<open>Linter\<close> (\<open>synthesis/linter.go\<close>, \<open>safe_registry.go\<close>, \<open>materialise.go\<close>) against
    the declarative \<open>lint_ok\<close>; \<open>Canonical\<close> (\<open>canonical.go\<close>, \<open>TopologyHash\<close>); \<open>Flow_Store\<close>
    (\<open>authored_flow_memory.go\<close>; locale \<open>flow_store\<close>); \<open>Synthesis\<close> (\<open>bootstrap.go\<close>): the hooks and the
    invariants of the store behind them.
  \<^item> \<open>Versions\<close>, \<open>Tool_Store\<close> (\<open>persist/tool_registry.go\<close>, \<open>tool_registry_memory.go\<close>; locale
    \<open>tool_repository\<close>) and \<open>Tool_Registry\<close> (\<open>tools/registry.go\<close>): the tools an agent has and writes. The
    registry has a heap because its indexes share entries by pointer, and one definition per locked section.
    \<open>Tool_Facts\<close>: its invariant; \<open>Tool_Runs\<close>: the interleavings of its sections and the agreement with the
    repository.
  \<^item> \<open>Paths\<close> (the part of \<open>path/filepath\<close> used), \<open>Artefacts\<close> (\<open>artefacts.go\<close>, \<open>artefacts_classify.go\<close>,
    \<open>artefacts_memory.go\<close>), \<open>Rollback\<close> (\<open>rollback.go\<close>, \<open>purge.go\<close>): the ledger of the files the agent
    writes and the services over it, with their ports as records. \<open>Relocation\<close> and \<open>Rollback_Facts\<close>: what the
    services do under the contracts of the locales \<open>fs_mover\<close> (moves on the regular files) and
    \<open>artefact_ledger\<close>, joined in \<open>rollback_stack\<close>; \<open>Disk\<close> interprets the first on a directory tree whose
    operations follow a script of faults, \<open>Memory_Ledger\<close> the second. \<open>Tool_Deprecator\<close>
    (\<open>toolRegistryDeprecator\<close> of \<open>main.go\<close>): the tool registry behind the port of the services.
  \<^item> \<open>Sample_Nets\<close>, \<open>Engine_Properties\<close> and the other property theories: the properties with their
    witnesses.

  \<^bold>\<open>Conventions.\<close> A Go function that changes the net or the world is a function of both; the world \<open>'w\<close> is
  abstract and every external call (clock, context, channel, LLM client, adapter, gate) is a field
  of the environment or of the configuration that threads it. An error result is \<open>gerr option\<close> or a
  sum. Go maps are association lists with distinct keys, and statements about selection are proved
  for every order of them. The goroutines of a batch are run one after the other in an arbitrary
  order. Time stamps are not part of tokens. Products of configured integers wrap in 64 bits. The limiter
  has exact \<open>float64\<close> arithmetic; the costs of calls and the backoff are reals, whose sums stand for the sums of the
  code in the same order, and no property depends on how those round.

  \<^bold>\<open>Fuel.\<close> \<open>Run\<close> takes fuel because a net may run forever. \<open>Run_mono\<close> makes the result independent of the
  fuel once there is one, and \<open>Run_terminates\<close> computes enough fuel for the nets whose transitions lose
  weight. All other loops are structural or have a measure.

  \<^bold>\<open>Not modelled.\<close> The schedule of background work (\<open>en_background\<close>, \<open>en_join\<close>, with the contract
  \<open>env_sound\<close> as a named hypothesis that \<open>subnet_background_sound\<close> discharges for finished sub-nets),
  the encoding of structs as JSON text and SHA-256 (parameters), the execution metrics \<open>Run\<close> appends on
  return, structured logging, sessions and the model registry, the process adapter, HTTP,
  authentication, SQL, YAML files, the ticker of the purge, file permissions and the LLM providers.
\<close>

end
